(* ===== verification/Prelude.thy ===== *)
theory Prelude
  imports Complex_Main "HOL-Library.Signed_Division" "HOL-Library.Sublist"
begin

text \<open>
  Shared vocabulary of the development: Go's \<open>int64\<close> arithmetic on \<open>int\<close> with the wrap-around
  written out, byte strings, the result type of fallible operations, and the small list and
  map lemmas that several components use.

  Conventions.  A Go \<open>string\<close> and a Go \<open>[]byte\<close> are both a list of bytes, i.e. an HOL
  \<open>string\<close> (a \<open>char\<close> is one byte).  \<open>time.Time\<close> is an absolute number of nanoseconds
  and \<open>time.Duration\<close> is an \<open>int64\<close> number of nanoseconds, both held in an \<open>int\<close>.
  A Go function returning \<open>(T, error)\<close> returns \<open>Inl e\<close> for an error and \<open>Inr v\<close>
  otherwise.
\<close>

named_theorems i64_simps \<open>rules that remove the wrap-around of in-range int64 values\<close>
named_theorems wf_intros \<open>introduction rules for well-formedness invariants\<close>
named_theorems ascii_simps \<open>facts about byte strings below 0x80\<close>

type_synonym bytes = string
type_synonym time = int
type_synonym duration = int

section \<open>Machine integers\<close>

definition i64 :: "int \<Rightarrow> int" where
  "i64 x = (x + 2 ^ 63) mod 2 ^ 64 - 2 ^ 63"

definition in_i64 :: "int \<Rightarrow> bool" where
  "in_i64 x \<longleftrightarrow> - (2 ^ 63) \<le> x \<and> x < 2 ^ 63"

lemma i64_id [i64_simps]: "in_i64 x \<Longrightarrow> i64 x = x"
  by (simp add: i64_def in_i64_def)

lemma in_i64_i64 [simp, wf_intros]: "in_i64 (i64 x)"
proof -
  have "0 \<le> (x + 2 ^ 63) mod 2 ^ 64" and "(x + 2 ^ 63) mod 2 ^ 64 < (2::int) ^ 64"
    by simp_all
  then show ?thesis by (simp add: i64_def in_i64_def)
qed

lemma i64_idem [simp]: "i64 (i64 x) = i64 x"
  by (simp add: i64_id)

lemma in_i64_mono: "in_i64 b \<Longrightarrow> 0 \<le> a \<Longrightarrow> a \<le> b \<Longrightarrow> in_i64 a"
  by (simp add: in_i64_def)

lemma in_i64_diff:
  "0 \<le> a \<Longrightarrow> 0 \<le> b \<Longrightarrow> in_i64 a \<Longrightarrow> in_i64 b \<Longrightarrow> in_i64 (a - b)"
  by (simp add: in_i64_def)

text \<open>Go's integer division truncates towards zero (\<open>sdiv\<close> of the library).\<close>

lemma sdiv_nonneg: "0 \<le> (a::int) \<Longrightarrow> 0 < b \<Longrightarrow> a sdiv b = a div b"
  by (simp add: signed_divide_int_def sgn_if)

lemma sdiv_2_nonneg: "0 \<le> (a::int) \<Longrightarrow> a sdiv 2 = a div 2"
  by (simp add: sdiv_nonneg)

section \<open>Errors and results\<close>

definition result_bind :: "'e + 'a \<Rightarrow> ('a \<Rightarrow> 'e + 'b) \<Rightarrow> 'e + 'b" where
  "result_bind r f = (case r of Inl e \<Rightarrow> Inl e | Inr v \<Rightarrow> f v)"

lemma result_bind_simps [simp]:
  "result_bind (Inl e) f = Inl e"
  "result_bind (Inr v) f = f v"
  by (simp_all add: result_bind_def)

lemma result_bind_Inr_iff:
  "result_bind r f = Inr y \<longleftrightarrow> (\<exists>v. r = Inr v \<and> f v = Inr y)"
  by (cases r) simp_all

lemma result_bind_Inl_iff:
  "result_bind r f = Inl e \<longleftrightarrow> r = Inl e \<or> (\<exists>v. r = Inr v \<and> f v = Inl e)"
  by (cases r) simp_all

end
