(* ===== verification/GoStrings.thy ===== *)
theory GoStrings
  imports Prelude
begin

text \<open>
  The part of Go's \<open>strings\<close>, \<open>unicode\<close>, \<open>unicode/utf8\<close> and \<open>strconv\<close> packages that the
  source calls, on byte strings.  Upper and lower case mapping is exact on ASCII; outside
  ASCII it depends on the Unicode tables of the Go distribution, which are data, so the two
  mappings of non-ASCII strings are fields of a parameter of type \<open>unicode_tables\<close>, and every
  theorem holds for all of its values.
\<close>

section \<open>Bytes and characters\<close>

definition ord :: "char \<Rightarrow> nat" where
  "ord c = of_char c"

definition chr :: "nat \<Rightarrow> char" where
  "chr n = char_of n"

lemma ord_chr: "n < 256 \<Longrightarrow> ord (chr n) = n"
  by (simp add: ord_def chr_def)

lemma chr_ord [simp]: "chr (ord c) = c"
  by (simp add: ord_def chr_def)

lemma ord_eq_iff [simp]: "ord a = ord b \<longleftrightarrow> a = b"
  by (simp add: ord_def)

lemma ord_less_256 [simp]: "ord c < 256"
  by (simp add: ord_def)

definition is_ascii :: "string \<Rightarrow> bool" where
  "is_ascii s \<longleftrightarrow> (\<forall>c \<in> set s. ord c < 128)"

lemma is_ascii_simps [simp, ascii_simps]:
  "is_ascii []"
  "is_ascii (c # s) \<longleftrightarrow> ord c < 128 \<and> is_ascii s"
  "is_ascii (s @ t) \<longleftrightarrow> is_ascii s \<and> is_ascii t"
  by (auto simp: is_ascii_def)

definition is_upper_byte :: "char \<Rightarrow> bool" where
  "is_upper_byte c \<longleftrightarrow> 65 \<le> ord c \<and> ord c \<le> 90"

definition is_lower_byte :: "char \<Rightarrow> bool" where
  "is_lower_byte c \<longleftrightarrow> 97 \<le> ord c \<and> ord c \<le> 122"

definition is_digit_byte :: "char \<Rightarrow> bool" where
  "is_digit_byte c \<longleftrightarrow> 48 \<le> ord c \<and> ord c \<le> 57"

definition upper_byte :: "char \<Rightarrow> char" where
  "upper_byte c = (if is_lower_byte c then chr (ord c - 32) else c)"

definition lower_byte :: "char \<Rightarrow> char" where
  "lower_byte c = (if is_upper_byte c then chr (ord c + 32) else c)"

record unicode_tables =
  upper_tbl :: "string \<Rightarrow> string"
  lower_tbl :: "string \<Rightarrow> string"
  fold_tbl :: "string \<Rightarrow> string \<Rightarrow> bool"

definition ToUpper :: "unicode_tables \<Rightarrow> string \<Rightarrow> string" where
  "ToUpper U s = (if is_ascii s then map upper_byte s else upper_tbl U s)"

definition ToLower :: "unicode_tables \<Rightarrow> string \<Rightarrow> string" where
  "ToLower U s = (if is_ascii s then map lower_byte s else lower_tbl U s)"

definition EqualFold :: "unicode_tables \<Rightarrow> string \<Rightarrow> string \<Rightarrow> bool" where
  "EqualFold U s t =
     (if is_ascii s \<and> is_ascii t then map lower_byte s = map lower_byte t else fold_tbl U s t)"

text \<open>Tables with no case pairs outside ASCII, for concrete evaluations.\<close>

definition ascii_tables :: unicode_tables where
  "ascii_tables = \<lparr>upper_tbl = id, lower_tbl = id, fold_tbl = (=)\<rparr>"

lemma lower_byte_idem [simp]: "lower_byte (lower_byte c) = lower_byte c"
  by (auto simp: lower_byte_def is_upper_byte_def ord_chr)

lemma lower_byte_ascii [simp]: "ord (lower_byte c) < 128 \<longleftrightarrow> ord c < 128"
  by (auto simp: lower_byte_def is_upper_byte_def ord_chr)

lemma upper_byte_ascii [simp]: "ord (upper_byte c) < 128 \<longleftrightarrow> ord c < 128"
  by (auto simp: upper_byte_def is_lower_byte_def ord_chr)

lemma is_ascii_map_lower [simp, ascii_simps]: "is_ascii (map lower_byte s) \<longleftrightarrow> is_ascii s"
  by (simp add: is_ascii_def)

lemma ToLower_idem_ascii: "is_ascii s \<Longrightarrow> ToLower U (ToLower U s) = ToLower U s"
  by (simp add: ToLower_def)

lemma EqualFold_refl_ascii: "is_ascii s \<Longrightarrow> EqualFold U s s"
  by (simp add: EqualFold_def)

section \<open>Prefixes, suffixes, substrings\<close>

definition HasPrefix :: "string \<Rightarrow> string \<Rightarrow> bool" where
  "HasPrefix s p \<longleftrightarrow> take (length p) s = p"

definition HasSuffix :: "string \<Rightarrow> string \<Rightarrow> bool" where
  "HasSuffix s p \<longleftrightarrow> HasPrefix (rev s) (rev p)"

definition TrimPrefix :: "string \<Rightarrow> string \<Rightarrow> string" where
  "TrimPrefix s p = (if HasPrefix s p then drop (length p) s else s)"

definition TrimSuffix :: "string \<Rightarrow> string \<Rightarrow> string" where
  "TrimSuffix s p = (if HasSuffix s p then take (length s - length p) s else s)"

fun Contains :: "string \<Rightarrow> string \<Rightarrow> bool" where
  "Contains [] p \<longleftrightarrow> p = []"
| "Contains (c # s) p \<longleftrightarrow> HasPrefix (c # s) p \<or> Contains s p"

lemma HasPrefix_iff: "HasPrefix s p \<longleftrightarrow> (\<exists>r. s = p @ r)"
  by (metis HasPrefix_def append_eq_conv_conj append_take_drop_id)

lemma HasPrefix_append [simp]: "HasPrefix (p @ r) p"
  by (simp add: HasPrefix_iff)

lemma TrimPrefix_append [simp]: "TrimPrefix (p @ r) p = r"
  by (simp add: TrimPrefix_def)

lemma Contains_prefix: "HasPrefix s p \<Longrightarrow> Contains s p"
  by (cases s) (auto simp: HasPrefix_def)

lemma Contains_iff: "Contains s p \<longleftrightarrow> (\<exists>l r. s = l @ p @ r)"
proof (induction s)
  case Nil
  then show ?case by auto
next
  case (Cons c s)
  show ?case
  proof
    assume "Contains (c # s) p"
    then consider "HasPrefix (c # s) p" | "Contains s p" by auto
    then show "\<exists>l r. c # s = l @ p @ r"
    proof cases
      case 1
      then obtain r where "c # s = [] @ p @ r" by (auto simp: HasPrefix_iff)
      then show ?thesis by blast
    next
      case 2
      with Cons.IH obtain l r where "s = l @ p @ r" by blast
      then have "c # s = (c # l) @ p @ r" by simp
      then show ?thesis by blast
    qed
  next
    assume "\<exists>l r. c # s = l @ p @ r"
    then obtain l r where lr: "c # s = l @ p @ r" by blast
    show "Contains (c # s) p"
    proof (cases l)
      case Nil
      with lr show ?thesis by (simp add: Contains_prefix)
    next
      case (Cons a l')
      with lr have "s = l' @ p @ r" by simp
      with Cons.IH show ?thesis by auto
    qed
  qed
qed

fun Join :: "string list \<Rightarrow> string \<Rightarrow> string" where
  "Join [] sep = []"
| "Join [x] sep = x"
| "Join (x # y # ys) sep = x @ sep @ Join (y # ys) sep"

text \<open>\<open>strings.Split(s, "\n")\<close> and the like, for a one-byte separator.\<close>

fun Split1 :: "char \<Rightarrow> string \<Rightarrow> string list" where
  "Split1 c [] = [[]]"
| "Split1 c (x # xs) =
     (if x = c then [] # Split1 c xs
      else case Split1 c xs of [] \<Rightarrow> [[x]] | w # ws \<Rightarrow> (x # w) # ws)"

lemma Split1_nonempty [simp]: "Split1 c s \<noteq> []"
  by (induction s) (auto split: list.splits)

lemma Join_Split1: "Join (Split1 c s) [c] = s"
proof (induction s)
  case Nil
  then show ?case by simp
next
  case (Cons x s)
  show ?case
  proof (cases "Split1 c s")
    case Nil
    then show ?thesis by (metis Split1_nonempty)
  next
    case (Cons w ws)
    with Cons.IH show ?thesis by (cases ws) auto
  qed
qed

lemma Split1_Join:
  assumes "ws \<noteq> []" "\<forall>w \<in> set ws. c \<notin> set w"
  shows "Split1 c (Join ws [c]) = ws"
proof -
  have plain: "Split1 c w = [w]" if "c \<notin> set w" for w using that by (induction w) auto
  have front: "Split1 c (w @ c # v) = w # Split1 c v" if "c \<notin> set w" for w v using that by (induction w) auto
  show ?thesis using assms by (induction ws rule: induct_list012) (simp_all add: plain front)
qed

lemma Split1_no_sep: "w \<in> set (Split1 c s) \<Longrightarrow> c \<notin> set w"
proof (induction s arbitrary: w)
  case Nil
  then show ?case by simp
next
  case (Cons x s)
  then show ?case by (auto split: if_splits list.splits)
qed

section \<open>White space\<close>

text \<open>
  The UTF-8 encodings of the code points of Unicode's \<open>White_Space\<close> property, which is what
  \<open>unicode.IsSpace\<close> tests: U+0009 to U+000D, U+0020, U+0085, U+00A0, U+1680, U+2000 to
  U+200A, U+2028, U+2029, U+202F, U+205F and U+3000.
\<close>

definition space_seqs :: "string list" where
  "space_seqs =
     map (\<lambda>b. [chr b]) [9, 10, 11, 12, 13, 32] @
     [[chr 0xC2, chr 0x85], [chr 0xC2, chr 0xA0], [chr 0xE1, chr 0x9A, chr 0x80]] @
     map (\<lambda>b. [chr 0xE2, chr 0x80, chr b])
       [0x80, 0x81, 0x82, 0x83, 0x84, 0x85, 0x86, 0x87, 0x88, 0x89, 0x8A, 0xA8, 0xA9, 0xAF] @
     [[chr 0xE2, chr 0x81, chr 0x9F], [chr 0xE3, chr 0x80, chr 0x80]]"

function trim_front :: "string list \<Rightarrow> string \<Rightarrow> string" where
  "trim_front ws s =
     (case find (\<lambda>w. w \<noteq> [] \<and> HasPrefix s w) ws of
        None \<Rightarrow> s
      | Some w \<Rightarrow> trim_front ws (drop (length w) s))"
  by pat_completeness auto
termination
proof (relation "measure (\<lambda>(ws, s). length s)", simp)
  fix ws :: "string list" and s w :: string
  assume "find (\<lambda>w. w \<noteq> [] \<and> HasPrefix s w) ws = Some w"
  then have "w \<noteq> []" and "HasPrefix s w" by (auto simp: find_Some_iff)
  then show "((ws, drop (length w) s), (ws, s)) \<in> measure (\<lambda>(ws, s). length s)"
    by (auto simp: HasPrefix_iff)
qed

declare trim_front.simps [simp del]

definition TrimSpace :: "string \<Rightarrow> string" where
  "TrimSpace s = rev (trim_front (map rev space_seqs) (rev (trim_front space_seqs s)))"

lemma trim_front_suffix: "\<exists>p. s = p @ trim_front ws s"
proof (induction ws s rule: trim_front.induct)
  case (1 ws s)
  show ?case
  proof (cases "find (\<lambda>w. w \<noteq> [] \<and> HasPrefix s w) ws")
    case None
    then show ?thesis by (simp add: trim_front.simps [of ws s])
  next
    case (Some w)
    with "1.IH" obtain p where "drop (length w) s = p @ trim_front ws (drop (length w) s)"
      by blast
    moreover have "s = w @ drop (length w) s"
      using Some by (auto simp: find_Some_iff HasPrefix_iff)
    ultimately have "s = (w @ p) @ trim_front ws s"
      using Some by (simp add: trim_front.simps [of ws s])
    then show ?thesis by blast
  qed
qed

lemma trim_front_Nil [simp]: "trim_front ws [] = []"
  using trim_front_suffix [of "[]" ws] by simp

lemma TrimSpace_infix: "\<exists>l r. s = l @ TrimSpace s @ r"
proof -
  obtain l where l: "s = l @ trim_front space_seqs s"
    using trim_front_suffix by blast
  obtain r where r: "rev (trim_front space_seqs s) = r @ trim_front (map rev space_seqs) (rev (trim_front space_seqs s))"
    using trim_front_suffix by blast
  then have "trim_front space_seqs s = TrimSpace s @ rev r"
    by (metis TrimSpace_def rev_append rev_rev_ident)
  with l show ?thesis by metis
qed

lemma TrimSpace_subset: "set (TrimSpace s) \<subseteq> set s"
proof -
  obtain l r where "s = l @ TrimSpace s @ r" using TrimSpace_infix by blast
  then show ?thesis by (metis set_append sup_ge1 sup_ge2 order_trans)
qed

lemma TrimSpace_length: "length (TrimSpace s) \<le> length s"
proof -
  obtain l r where "s = l @ TrimSpace s @ r" using TrimSpace_infix by blast
  then have "length s = length (l @ TrimSpace s @ r)" by simp
  then show ?thesis by simp
qed

section \<open>UTF-8\<close>

definition is_cont :: "char \<Rightarrow> bool" where
  "is_cont c \<longleftrightarrow> 0x80 \<le> ord c \<and> ord c \<le> 0xBF"

definition rune_error :: nat where
  "rune_error = 0xFFFD"

text \<open>
  \<open>utf8.DecodeRune\<close>: the first code point of a non-empty string and the number of bytes it
  takes; an invalid or truncated encoding is U+FFFD of width 1.
\<close>

fun decode_rune :: "string \<Rightarrow> nat \<times> nat" where
  "decode_rune [] = (rune_error, 0)"
| "decode_rune (a # s) =
     (let x = ord a in
      if x < 0x80 then (x, 1)
      else if 0xC2 \<le> x \<and> x \<le> 0xDF then
        (case s of
           b # _ \<Rightarrow> if is_cont b then ((x - 0xC0) * 64 + (ord b - 0x80), 2) else (rune_error, 1)
         | _ \<Rightarrow> (rune_error, 1))
      else if 0xE0 \<le> x \<and> x \<le> 0xEF then
        (case s of
           b # c # _ \<Rightarrow>
             if is_cont b \<and> is_cont c \<and> (x = 0xE0 \<longrightarrow> 0xA0 \<le> ord b) \<and> (x = 0xED \<longrightarrow> ord b \<le> 0x9F)
             then ((x - 0xE0) * 4096 + (ord b - 0x80) * 64 + (ord c - 0x80), 3)
             else (rune_error, 1)
         | _ \<Rightarrow> (rune_error, 1))
      else if 0xF0 \<le> x \<and> x \<le> 0xF4 then
        (case s of
           b # c # d # _ \<Rightarrow>
             if is_cont b \<and> is_cont c \<and> is_cont d \<and> (x = 0xF0 \<longrightarrow> 0x90 \<le> ord b) \<and>
                (x = 0xF4 \<longrightarrow> ord b \<le> 0x8F)
             then ((x - 0xF0) * 262144 + (ord b - 0x80) * 4096 + (ord c - 0x80) * 64
                   + (ord d - 0x80), 4)
             else (rune_error, 1)
         | _ \<Rightarrow> (rune_error, 1))
      else (rune_error, 1))"

lemma decode_rune_width:
  "1 \<le> snd (decode_rune (a # s)) \<and> snd (decode_rune (a # s)) \<le> length (a # s)"
  by (auto simp: Let_def split: list.splits if_splits)

lemma decode_rune_ascii [simp]: "ord a < 128 \<Longrightarrow> decode_rune (a # s) = (ord a, 1)"
  by simp

declare decode_rune.simps(2) [simp del]

text \<open>\<open>[]rune(s)\<close> and \<open>utf8.AppendRune\<close>.\<close>

function runes :: "string \<Rightarrow> nat list" where
  "runes [] = []"
| "runes (a # s) = fst (decode_rune (a # s)) # runes (drop (snd (decode_rune (a # s))) (a # s))"
  by pat_completeness auto
termination
proof (relation "measure length", simp)
  fix a :: char and s
  show "(drop (snd (decode_rune (a # s))) (a # s), a # s) \<in> measure length"
    using decode_rune_width [of a s] by simp
qed

definition encode_rune :: "nat \<Rightarrow> string" where
  "encode_rune r =
     (if r < 0x80 then [chr r]
      else if r < 0x800 then [chr (0xC0 + r div 64), chr (0x80 + r mod 64)]
      else if 0x10FFFF < r \<or> (0xD800 \<le> r \<and> r \<le> 0xDFFF) then [chr 0xEF, chr 0xBF, chr 0xBD]
      else if r < 0x10000 then
        [chr (0xE0 + r div 4096), chr (0x80 + r div 64 mod 64), chr (0x80 + r mod 64)]
      else
        [chr (0xF0 + r div 262144), chr (0x80 + r div 4096 mod 64), chr (0x80 + r div 64 mod 64),
         chr (0x80 + r mod 64)])"

definition runes_to_string :: "nat list \<Rightarrow> string" where
  "runes_to_string rs = concat (map encode_rune rs)"

lemma runes_ascii: "is_ascii s \<Longrightarrow> runes s = map ord s"
  by (induction s) auto

section \<open>Decimal numerals\<close>

fun nat_dec :: "nat \<Rightarrow> string" where
  "nat_dec n = (if n < 10 then [chr (48 + n)] else nat_dec (n div 10) @ [chr (48 + n mod 10)])"

declare nat_dec.simps [simp del]

definition int_dec :: "int \<Rightarrow> string" where
  "int_dec i = (if i < 0 then CHR ''-'' # nat_dec (nat (- i)) else nat_dec (nat i))"

text \<open>Reading a numeral back: the value of a digit string.\<close>

definition digits_val :: "string \<Rightarrow> nat" where
  "digits_val s = foldl (\<lambda>n c. n * 10 + (ord c - 48)) 0 s"

lemma digits_val_snoc: "digits_val (s @ [c]) = digits_val s * 10 + (ord c - 48)"
  by (simp add: digits_val_def)

lemma digits_val_nat_dec: "digits_val (nat_dec n) = n"
proof (induction n rule: nat_dec.induct)
  case (1 n)
  show ?case
  proof (cases "n < 10")
    case True
    then show ?thesis
      by (subst nat_dec.simps) (simp add: digits_val_def ord_chr)
  next
    case False
    with "1.IH" have "digits_val (nat_dec (n div 10)) = n div 10" by simp
    with False show ?thesis
      by (subst nat_dec.simps) (simp add: digits_val_snoc ord_chr)
  qed
qed

lemma nat_dec_inj [simp]: "nat_dec m = nat_dec n \<longleftrightarrow> m = n"
  by (metis digits_val_nat_dec)

lemma nat_dec_digits: "c \<in> set (nat_dec n) \<Longrightarrow> is_digit_byte c"
proof (induction n rule: nat_dec.induct)
  case (1 n)
  then show ?case
    by (subst (asm) (2) nat_dec.simps)
       (auto simp: is_digit_byte_def ord_chr split: if_splits)
qed

lemma nat_dec_nonempty [simp]: "nat_dec n \<noteq> []"
  by (subst nat_dec.simps) simp

lemma int_dec_inj [simp]: "int_dec i = int_dec j \<longleftrightarrow> i = j"
proof
  have dash: "\<not> is_digit_byte CHR ''-''"
    by (simp add: is_digit_byte_def ord_def)
  assume eq: "int_dec i = int_dec j"
  show "i = j"
  proof (cases "i < 0 \<longleftrightarrow> j < 0")
    case True
    with eq show ?thesis by (auto simp: int_dec_def split: if_splits)
  next
    case False
    with eq have "\<exists>n. CHR ''-'' \<in> set (nat_dec n)"
      by (auto simp: int_dec_def split: if_splits) (metis list.set_intros(1))+
    with dash nat_dec_digits show ?thesis by blast
  qed
qed simp

lemma int_dec_bytes: "c \<in> set (int_dec i) \<Longrightarrow> c = CHR ''-'' \<or> is_digit_byte c"
  by (auto simp: int_dec_def split: if_splits dest: nat_dec_digits)

text \<open>Zero-padded decimals of \<open>n\<close> digits.\<close>

fun padded :: "nat \<Rightarrow> nat \<Rightarrow> string" where
  "padded 0 k = []"
| "padded (Suc n) k = padded n (k div 10) @ [chr (48 + k mod 10)]"

lemma padded_length [simp]: "length (padded n k) = n"
  by (induction n arbitrary: k) auto

lemma padded_digits: "c \<in> set (padded n k) \<Longrightarrow> is_digit_byte c"
  by (induction n arbitrary: k) (auto simp: is_digit_byte_def ord_chr)

lemma padded_val: "k < 10 ^ n \<Longrightarrow> digits_val (padded n k) = k"
proof (induction n arbitrary: k)
  case (Suc n)
  then have "digits_val (padded n (k div 10)) = k div 10"
    by (intro Suc.IH) (auto simp: less_mult_imp_div_less)
  then show ?case by (simp add: digits_val_snoc ord_chr)
qed (simp add: digits_val_def)

lemma padded_inj: "j < 10 ^ n \<Longrightarrow> k < 10 ^ n \<Longrightarrow> padded n j = padded n k \<longleftrightarrow> j = k"
  by (metis padded_val)

end
