(* ===== verification/GoJson.thy ===== *)
theory GoJson
  imports GoStrings
begin

text \<open>
  The part of Go's \<open>encoding/json\<close> that the source relies on: the decoder's grammar (one value
  read from the front of the input, the rest left for the next call), the unquoting of strings,
  the decoding of an object into a struct with \<open>DisallowUnknownFields\<close>, and the escaping that
  \<open>json.Marshal\<close> applies to strings.
\<close>

datatype json =
    JNull
  | JBool bool
  | JNum string
  | JStr string
  | JArr "json list"
  | JObj "(string \<times> json) list"

section \<open>Strings\<close>

definition is_json_ws :: "char \<Rightarrow> bool" where
  "is_json_ws c \<longleftrightarrow> ord c = 32 \<or> ord c = 9 \<or> ord c = 13 \<or> ord c = 10"

definition skip_ws :: "string \<Rightarrow> string" where
  "skip_ws s = dropWhile is_json_ws s"

definition quote :: char where
  "quote = chr 34"

definition backslash :: char where
  "backslash = chr 92"

definition hex_val :: "char \<Rightarrow> nat option" where
  "hex_val c =
     (if is_digit_byte c then Some (ord c - 48)
      else if 97 \<le> ord c \<and> ord c \<le> 102 then Some (ord c - 87)
      else if 65 \<le> ord c \<and> ord c \<le> 70 then Some (ord c - 55)
      else None)"

fun hex4 :: "string \<Rightarrow> (nat \<times> string) option" where
  "hex4 (a # b # c # d # s) =
     (case (hex_val a, hex_val b, hex_val c, hex_val d) of
        (Some w, Some x, Some y, Some z) \<Rightarrow> Some (w * 4096 + x * 256 + y * 16 + z, s)
      | _ \<Rightarrow> None)"
| "hex4 s = None"

definition is_surrogate :: "nat \<Rightarrow> bool" where
  "is_surrogate r \<longleftrightarrow> 0xD800 \<le> r \<and> r \<le> 0xDFFF"

text \<open>A second \<open>\uXXXX\<close> that completes a surrogate pair.\<close>

definition low_half :: "nat \<Rightarrow> string \<Rightarrow> (nat \<times> string) option" where
  "low_half r s =
     (case s of
        b # u # t \<Rightarrow>
          (if b = backslash \<and> u = CHR ''u'' then
             (case hex4 t of
                Some (r2, t') \<Rightarrow>
                  (if 0xD800 \<le> r \<and> r < 0xDC00 \<and> 0xDC00 \<le> r2 \<and> r2 < 0xE000
                   then Some ((r - 0xD800) * 1024 + (r2 - 0xDC00) + 0x10000, t') else None)
              | None \<Rightarrow> None)
           else None)
      | _ \<Rightarrow> None)"

definition simple_escape :: "char \<Rightarrow> char option" where
  "simple_escape e =
     (if e = quote \<or> e = backslash \<or> e = CHR ''/'' then Some e
      else if e = CHR ''b'' then Some (chr 8)
      else if e = CHR ''f'' then Some (chr 12)
      else if e = CHR ''n'' then Some (chr 10)
      else if e = CHR ''r'' then Some (chr 13)
      else if e = CHR ''t'' then Some (chr 9)
      else None)"

text \<open>One character or escape of a string literal: its decoded bytes and the rest.\<close>

definition str_item :: "string \<Rightarrow> (string \<times> string) option" where
  "str_item s =
     (case s of
        [] \<Rightarrow> None
      | c # t \<Rightarrow>
          if c = backslash then
            (case t of
               [] \<Rightarrow> None
             | e # t' \<Rightarrow>
                 if e = CHR ''u'' then
                   (case hex4 t' of
                      None \<Rightarrow> None
                    | Some (r, t'') \<Rightarrow>
                        if is_surrogate r then
                          (case low_half r t'' of
                             Some (r', t3) \<Rightarrow> Some (encode_rune r', t3)
                           | None \<Rightarrow> Some (encode_rune rune_error, t''))
                        else Some (encode_rune r, t''))
                 else map_option (\<lambda>x. ([x], t')) (simple_escape e))
          else if ord c < 32 then None
          else if ord c < 128 then Some ([c], t)
          else Some (encode_rune (fst (decode_rune s)), drop (snd (decode_rune s)) s))"

lemma hex4_shorter: "hex4 s = Some (r, t) \<Longrightarrow> length t < length s"
  by (induction s rule: hex4.induct) (auto split: option.splits)

lemma low_half_shorter: "low_half r s = Some (r', t) \<Longrightarrow> length t < length s"
  by (fastforce simp: low_half_def dest: hex4_shorter split: list.splits if_splits option.splits)

lemma str_item_shorter:
  assumes "str_item s = Some (b, t)"
  shows "length t < length s"
proof (cases s)
  case Nil
  with assms show ?thesis by (simp add: str_item_def)
next
  case (Cons c u)
  have "1 \<le> snd (decode_rune (c # u))" using decode_rune_width by blast
  with assms Cons show ?thesis
    by (auto simp: str_item_def split: if_splits list.splits option.splits
        dest!: hex4_shorter low_half_shorter)
qed

text \<open>The rest of a string literal after its opening quote.\<close>

function scan_str :: "string \<Rightarrow> (string \<times> string) option" where
  "scan_str s =
     (case s of
        [] \<Rightarrow> None
      | c # t \<Rightarrow>
          if c = quote then Some ([], t)
          else case str_item s of
                 None \<Rightarrow> None
               | Some (b, r) \<Rightarrow>
                   (case scan_str r of
                      None \<Rightarrow> None
                    | Some (x, r') \<Rightarrow> Some (b @ x, r')))"
  by pat_completeness auto
termination
  by (relation "measure length") (auto dest: str_item_shorter)

declare scan_str.simps [simp del]

lemma scan_str_shorter: "scan_str s = Some (x, r) \<Longrightarrow> length r < length s"
proof (induction s arbitrary: x r rule: scan_str.induct)
  case (1 s)
  show ?case
  proof (cases s)
    case Nil
    with "1.prems" show ?thesis by (simp add: scan_str.simps)
  next
    case (Cons c t)
    with "1.prems" consider "c = quote" "r = t"
      | b u y where "c \<noteq> quote" "str_item s = Some (b, u)" "scan_str u = Some (y, r)"
      by (subst (asm) scan_str.simps) (auto split: if_splits option.splits)
    then show ?thesis
    proof cases
      case 1
      with Cons show ?thesis by simp
    next
      case 2
      with Cons "1.IH" have "length r < length u" by blast
      with 2 show ?thesis using str_item_shorter by fastforce
    qed
  qed
qed

section \<open>Numbers\<close>

definition take_digits :: "string \<Rightarrow> string \<times> string" where
  "take_digits s = (takeWhile is_digit_byte s, dropWhile is_digit_byte s)"

definition num_int_part :: "string \<Rightarrow> (string \<times> string) option" where
  "num_int_part s =
     (case s of
        [] \<Rightarrow> None
      | c # t \<Rightarrow>
          if c = CHR ''0'' then Some ([c], t)
          else if is_digit_byte c then Some (take_digits s)
          else None)"

definition num_frac_part :: "string \<Rightarrow> (string \<times> string) option" where
  "num_frac_part s =
     (case s of
        c # t \<Rightarrow>
          if c = CHR ''.'' then
            (if fst (take_digits t) = [] then None
             else Some (c # fst (take_digits t), snd (take_digits t)))
          else Some ([], s)
      | [] \<Rightarrow> Some ([], s))"

definition num_exp_part :: "string \<Rightarrow> (string \<times> string) option" where
  "num_exp_part s =
     (case s of
        c # t \<Rightarrow>
          if c = CHR ''e'' \<or> c = CHR ''E'' then
            (let sg = (case t of d # _ \<Rightarrow> if d = CHR ''+'' \<or> d = CHR ''-'' then [d] else [] | [] \<Rightarrow> []);
                 u = drop (length sg) t
             in if fst (take_digits u) = [] then None
                else Some (c # sg @ fst (take_digits u), snd (take_digits u)))
          else Some ([], s)
      | [] \<Rightarrow> Some ([], s))"

definition scan_num :: "string \<Rightarrow> (string \<times> string) option" where
  "scan_num s =
     (let sg = (case s of c # _ \<Rightarrow> if c = CHR ''-'' then [c] else [] | [] \<Rightarrow> [])
      in case num_int_part (drop (length sg) s) of
           None \<Rightarrow> None
         | Some (i, s1) \<Rightarrow>
             (case num_frac_part s1 of
                None \<Rightarrow> None
              | Some (f, s2) \<Rightarrow>
                  (case num_exp_part s2 of
                     None \<Rightarrow> None
                   | Some (e, s3) \<Rightarrow> Some (sg @ i @ f @ e, s3))))"

lemma take_digits_length: "length (snd (take_digits s)) \<le> length s"
  by (simp add: take_digits_def length_dropWhile_le)

lemma num_int_part_shorter: "num_int_part s = Some (i, t) \<Longrightarrow> length t < length s"
  by (auto simp: num_int_part_def take_digits_def split: list.splits if_splits)
     (metis length_dropWhile_le le_imp_less_Suc)

lemma num_frac_part_le: "num_frac_part s = Some (i, t) \<Longrightarrow> length t \<le> length s"
  by (auto simp: num_frac_part_def split: list.splits if_splits)
     (meson take_digits_length le_SucI)

lemma num_exp_part_le:
  assumes "num_exp_part s = Some (i, t)"
  shows "length t \<le> length s"
proof (cases s)
  case Nil
  with assms show ?thesis by (simp add: num_exp_part_def)
next
  case (Cons c u)
  have "length (snd (take_digits (drop k u))) \<le> length u" for k
    using take_digits_length [of "drop k u"] by simp
  with assms Cons show ?thesis
    by (auto simp: num_exp_part_def Let_def simp del: length_drop split: if_splits intro: le_SucI)
qed

lemma scan_num_shorter:
  assumes "scan_num s = Some (n, t)"
  shows "length t < length s"
proof -
  define u where
    "u = drop (length (case s of c # _ \<Rightarrow> if c = CHR ''-'' then [c] else [] | [] \<Rightarrow> [])) s"
  from assms obtain i s1 f s2 e where
    "num_int_part u = Some (i, s1)" "num_frac_part s1 = Some (f, s2)"
    "num_exp_part s2 = Some (e, t)"
    by (auto simp: scan_num_def Let_def u_def split: option.splits)
  then have "length t < length u"
    using num_int_part_shorter num_frac_part_le num_exp_part_le by fastforce
  then show ?thesis by (simp add: u_def)
qed

section \<open>Values\<close>

text \<open>
  The decoder's recursion.  The first argument is fuel, which \<open>json_decode\<close> sets from the length
  of the input and which is always enough (\<open>p_fuel\<close> below); the second is the number of open
  objects and arrays, which the Go scanner limits to 10000.
\<close>

definition max_nesting_depth :: nat where
  "max_nesting_depth = 10000"

definition p_literal :: "string \<Rightarrow> (json \<times> string) option" where
  "p_literal s =
     (if HasPrefix s ''null'' then Some (JNull, drop 4 s)
      else if HasPrefix s ''true'' then Some (JBool True, drop 4 s)
      else if HasPrefix s ''false'' then Some (JBool False, drop 5 s)
      else map_option (\<lambda>(n, r). (JNum n, r)) (scan_num s))"

fun p_value :: "nat \<Rightarrow> nat \<Rightarrow> string \<Rightarrow> (json \<times> string) option"
  and p_members :: "nat \<Rightarrow> nat \<Rightarrow> string \<Rightarrow> ((string \<times> json) list \<times> string) option"
  and p_elems :: "nat \<Rightarrow> nat \<Rightarrow> string \<Rightarrow> (json list \<times> string) option"
where
  "p_value 0 d s = None"
| "p_value (Suc f) d s =
     (case skip_ws s of
        [] \<Rightarrow> None
      | c # t \<Rightarrow>
          if c = CHR ''{'' then
            (if max_nesting_depth \<le> d then None
             else case skip_ws t of
                    [] \<Rightarrow> None
                  | e # r \<Rightarrow>
                      if e = CHR ''}'' then Some (JObj [], r)
                      else map_option (\<lambda>(m, r). (JObj m, r)) (p_members f (Suc d) t))
          else if c = CHR ''['' then
            (if max_nesting_depth \<le> d then None
             else case skip_ws t of
                    [] \<Rightarrow> None
                  | e # r \<Rightarrow>
                      if e = CHR '']'' then Some (JArr [], r)
                      else map_option (\<lambda>(m, r). (JArr m, r)) (p_elems f (Suc d) t))
          else if c = quote then map_option (\<lambda>(x, r). (JStr x, r)) (scan_str t)
          else p_literal (c # t))"
| "p_members 0 d s = None"
| "p_members (Suc f) d s =
     (case skip_ws s of
        [] \<Rightarrow> None
      | c # t \<Rightarrow>
          if c \<noteq> quote then None
          else case scan_str t of
                 None \<Rightarrow> None
               | Some (k, r) \<Rightarrow>
                   (case skip_ws r of
                      [] \<Rightarrow> None
                    | e # r2 \<Rightarrow>
                        if e \<noteq> CHR '':'' then None
                        else case p_value f d r2 of
                               None \<Rightarrow> None
                             | Some (v, r3) \<Rightarrow>
                                 (case skip_ws r3 of
                                    [] \<Rightarrow> None
                                  | g # r4 \<Rightarrow>
                                      if g = CHR ''}'' then Some ([(k, v)], r4)
                                      else if g = CHR '','' then
                                        map_option (\<lambda>(m, r). ((k, v) # m, r)) (p_members f d r4)
                                      else None)))"
| "p_elems 0 d s = None"
| "p_elems (Suc f) d s =
     (case p_value f d s of
        None \<Rightarrow> None
      | Some (v, r) \<Rightarrow>
          (case skip_ws r of
             [] \<Rightarrow> None
           | g # r4 \<Rightarrow>
               if g = CHR '']'' then Some ([v], r4)
               else if g = CHR '','' then map_option (\<lambda>(m, r). (v # m, r)) (p_elems f d r4)
               else None))"

text \<open>\<open>Decoder.Decode\<close>: the next value and the unread input; \<open>None\<close> is an error or \<open>io.EOF\<close>.\<close>

definition json_decode :: "string \<Rightarrow> (json \<times> string) option" where
  "json_decode s = p_value (2 * length s + 1) 0 s"

text \<open>A further \<open>Decode\<close> reports \<open>io.EOF\<close> exactly when only white space is left.\<close>

definition json_at_eof :: "string \<Rightarrow> bool" where
  "json_at_eof s \<longleftrightarrow> skip_ws s = []"

subsection \<open>The fuel is enough\<close>

lemma skip_ws_Cons_length: "skip_ws s = c # t \<Longrightarrow> length t < length s"
  using length_dropWhile_le [of is_json_ws s] by (simp add: skip_ws_def)

lemma p_literal_shorter:
  assumes "p_literal s = Some (v, r)"
  shows "length r < length s"
proof -
  have "s \<noteq> []" if "HasPrefix s (c # p)" for c p
    using that by (auto simp: HasPrefix_def)
  with assms show ?thesis
    by (auto simp: p_literal_def split: if_splits dest: scan_num_shorter)
qed

lemma p_shorter:
  "p_value f d s = Some (v, r) \<Longrightarrow> length r < length s"
  "p_members f d s = Some (m, r) \<Longrightarrow> length r < length s"
  "p_elems f d s = Some (l, r) \<Longrightarrow> length r < length s"
proof (induction f d s and f d s and f d s arbitrary: v r and m r and l r
    rule: p_value_p_members_p_elems.induct)
  case (2 f d s)
  then show ?case
    by (fastforce split: list.splits if_splits option.splits
        dest: skip_ws_Cons_length scan_str_shorter p_literal_shorter)
next
  case (4 f d s)
  from "4.prems" obtain c t k u e r2 w r3 g r4 where
    w: "skip_ws s = c # t" "scan_str t = Some (k, u)" "skip_ws u = e # r2"
      "p_value f d r2 = Some (w, r3)" "skip_ws r3 = g # r4" and c: "c = quote" "e = CHR '':''"
    and alt: "r = r4 \<or> (\<exists>m'. p_members f d r4 = Some (m', r))"
    by (auto split: list.splits if_splits option.splits)
  have "length r3 < length r2"
    using "4.IH"(1) w c by simp
  moreover have "length r \<le> length r4"
    using alt "4.IH"(2) w c "4.prems" by (auto split: if_splits) (fastforce intro: less_imp_le)
  ultimately show ?case
    using w skip_ws_Cons_length scan_str_shorter by (smt (verit, best) less_trans less_le_trans not_less)
next
  case (6 f d s)
  from "6.prems" obtain w r3 g r4 where
    w: "p_value f d s = Some (w, r3)" "skip_ws r3 = g # r4"
    and alt: "r = r4 \<or> (\<exists>m'. p_elems f d r4 = Some (m', r))"
    by (auto split: list.splits if_splits option.splits)
  have "length r3 < length s" using "6.IH"(1) w by simp
  moreover have "length r \<le> length r4"
    using alt "6.IH"(2) w "6.prems" by (auto split: if_splits) (fastforce intro: less_imp_le)
  ultimately show ?case
    using w skip_ws_Cons_length by fastforce
qed auto

declare p_value.simps(2) [simp del] p_members.simps(2) [simp del] p_elems.simps(2) [simp del]

lemma p_fuel_Suc:
  "(2 * length s < f \<longrightarrow> p_value (Suc f) d s = p_value f d s) \<and>
   (2 * length s < f \<longrightarrow> p_members (Suc f) d s = p_members f d s) \<and>
   (2 * length s + 1 < f \<longrightarrow> p_elems (Suc f) d s = p_elems f d s)"
proof (induction f arbitrary: d s)
  case 0
  then show ?case by simp
next
  case (Suc f)
  have v: "p_value (Suc f) d s = p_value f d s" if "2 * length s < f" for d s
    using Suc.IH that by blast
  have m: "p_members (Suc f) d s = p_members f d s" if "2 * length s < f" for d s
    using Suc.IH that by blast
  have e: "p_elems (Suc f) d s = p_elems f d s" if "2 * length s + 1 < f" for d s
    using Suc.IH that by blast
  have "p_value (Suc (Suc f)) d s = p_value (Suc f) d s" if lt: "2 * length s < Suc f"
  proof (cases "skip_ws s")
    case (Cons c t)
    then have "2 * length t + 1 < f" using lt skip_ws_Cons_length by fastforce
    then have "p_members (Suc f) (Suc d) t = p_members f (Suc d) t"
      and "p_elems (Suc f) (Suc d) t = p_elems f (Suc d) t"
      by (simp_all only: m e)
    with Cons show ?thesis
      by (simp only: p_value.simps list.case)
  qed (simp add: p_value.simps)
  moreover have "p_members (Suc (Suc f)) d s = p_members (Suc f) d s" if lt: "2 * length s < Suc f"
  proof -
    have *: "p_value (Suc f) d r2 = p_value f d r2"
      if "skip_ws s = c # t" "scan_str t = Some (k, r)" "skip_ws r = e # r2" for c t k r e r2
      using that lt skip_ws_Cons_length [of s c t] skip_ws_Cons_length [of r e r2]
        scan_str_shorter [of t k r] by (simp add: v)
    have **: "p_members (Suc f) d r4 = p_members f d r4"
      if "skip_ws s = c # t" "scan_str t = Some (k, r)" "skip_ws r = e # r2"
        "p_value f d r2 = Some (w, r3)" "skip_ws r3 = g # r4" for c t k r e r2 w r3 g r4
      using that lt skip_ws_Cons_length [of s c t] skip_ws_Cons_length [of r e r2]
        skip_ws_Cons_length [of r3 g r4] scan_str_shorter [of t k r] p_shorter(1) [of f d r2 w r3]
      by (simp add: m)
    show ?thesis
      by (subst p_members.simps(2), subst (2) p_members.simps(2))
         (auto simp: * ** split: list.splits option.splits)
  qed
  moreover have "p_elems (Suc (Suc f)) d s = p_elems (Suc f) d s"
    if lt: "2 * length s + 1 < Suc f"
  proof -
    have *: "p_value (Suc f) d s = p_value f d s" using lt by (simp add: v)
    have **: "p_elems (Suc f) d r4 = p_elems f d r4"
      if "p_value f d s = Some (w, r3)" "skip_ws r3 = g # r4" for w r3 g r4
      using that lt skip_ws_Cons_length [of r3 g r4] p_shorter(1) [of f d s w r3]
      by (simp add: e)
    show ?thesis
      by (subst p_elems.simps(2), subst (2) p_elems.simps(2))
         (auto simp: * ** split: list.splits option.splits)
  qed
  ultimately show ?case by blast
qed

lemma p_fuel:
  assumes "2 * length s < f"
  shows "p_value f d s = p_value (2 * length s + 1) d s"
proof -
  have "p_value (2 * length s + 1 + k) d s = p_value (2 * length s + 1) d s" for k
  proof (induction k)
    case (Suc k)
    with p_fuel_Suc [of s "2 * length s + 1 + k" d] show ?case by simp
  qed simp
  from this [of "f - (2 * length s + 1)"] assms show ?thesis by simp
qed

lemma json_decode_shorter: "json_decode s = Some (v, r) \<Longrightarrow> length r < length s"
  unfolding json_decode_def by (rule p_shorter(1))

section \<open>Decoding objects into structs\<close>

text \<open>
  Keys are matched exactly first and by \<open>foldName\<close> otherwise.  Folding a key maps an ASCII letter
  to upper case and the two non-ASCII code points that fold to an ASCII letter, U+212A (Kelvin
  sign) and U+017F (long s), to \<open>K\<close> and \<open>S\<close>; no other code point folds to ASCII, so the rest of
  the key cannot match an ASCII field name and is kept.
\<close>

fun fold_name :: "string \<Rightarrow> string" where
  "fold_name [] = []"
| "fold_name (a # s) =
     (if HasPrefix (a # s) [chr 0xE2, chr 0x84, chr 0xAA] then CHR ''K'' # fold_name (drop 2 s)
      else if HasPrefix (a # s) [chr 0xC5, chr 0xBF] then CHR ''S'' # fold_name (drop 1 s)
      else upper_byte a # fold_name s)"

definition find_field :: "(string \<times> 'f) list \<Rightarrow> string \<Rightarrow> 'f option" where
  "find_field fs k =
     (case map_of fs k of
        Some f \<Rightarrow> Some f
      | None \<Rightarrow> map_option snd (find (\<lambda>(n, _). fold_name n = fold_name k) fs))"

type_synonym 'r field_setter = "json \<Rightarrow> 'r \<Rightarrow> 'r option"

text \<open>
  Setters for the field types in use.  \<open>null\<close> leaves the field as it is; a value of the wrong
  kind is the \<open>UnmarshalTypeError\<close> that the decoder returns at the end.
\<close>

definition set_string :: "(string \<Rightarrow> 'r \<Rightarrow> 'r) \<Rightarrow> 'r field_setter" where
  "set_string upd v r =
     (case v of JStr x \<Rightarrow> Some (upd x r) | JNull \<Rightarrow> Some r | _ \<Rightarrow> None)"

definition set_bool :: "(bool \<Rightarrow> 'r \<Rightarrow> 'r) \<Rightarrow> 'r field_setter" where
  "set_bool upd v r =
     (case v of JBool x \<Rightarrow> Some (upd x r) | JNull \<Rightarrow> Some r | _ \<Rightarrow> None)"

text \<open>\<open>strconv.ParseInt(lit, 10, 64)\<close> on a JSON number literal.\<close>

definition parse_int :: "string \<Rightarrow> int option" where
  "parse_int lit =
     (let neg = HasPrefix lit ''-'';
          ds = (if neg then drop 1 lit else lit);
          i = (if neg then - int (digits_val ds) else int (digits_val ds))
      in if ds \<noteq> [] \<and> list_all is_digit_byte ds \<and> in_i64 i then Some i else None)"

definition set_int :: "(int \<Rightarrow> 'r \<Rightarrow> 'r) \<Rightarrow> 'r field_setter" where
  "set_int upd v r =
     (case v of
        JNum n \<Rightarrow> map_option (\<lambda>i. upd i r) (parse_int n)
      | JNull \<Rightarrow> Some r
      | _ \<Rightarrow> None)"

text \<open>
  An object decoded into a struct, members in order, so that a repeated key overwrites the earlier
  value; an unknown key is an error (\<open>DisallowUnknownFields\<close>).
\<close>

fun decode_members :: "(string \<times> 'r field_setter) list \<Rightarrow> (string \<times> json) list \<Rightarrow> 'r \<Rightarrow> 'r option" where
  "decode_members fs [] r = Some r"
| "decode_members fs ((k, v) # m) r =
     (case find_field fs k of
        None \<Rightarrow> None
      | Some setter \<Rightarrow> (case setter v r of None \<Rightarrow> None | Some r' \<Rightarrow> decode_members fs m r'))"

definition decode_struct :: "(string \<times> 'r field_setter) list \<Rightarrow> 'r field_setter" where
  "decode_struct fs v r =
     (case v of JObj m \<Rightarrow> decode_members fs m r | JNull \<Rightarrow> Some r | _ \<Rightarrow> None)"

text \<open>
  The \<open>decodeStrict\<close> idiom of the source: one value, no unknown field, nothing but white space
  after it.
\<close>

definition decode_strict :: "(string \<times> 'r field_setter) list \<Rightarrow> 'r \<Rightarrow> string \<Rightarrow> 'r option" where
  "decode_strict fs zero raw =
     (case json_decode raw of
        None \<Rightarrow> None
      | Some (v, rest) \<Rightarrow>
          (case decode_struct fs v zero of
             None \<Rightarrow> None
           | Some r \<Rightarrow> if json_at_eof rest then Some r else None))"

section \<open>Encoding\<close>

definition hex_digit :: "nat \<Rightarrow> char" where
  "hex_digit n = (if n < 10 then chr (48 + n) else chr (87 + n))"

text \<open>\<open>appendString\<close> with HTML escaping, on one ASCII byte.\<close>

definition esc_byte :: "char \<Rightarrow> string" where
  "esc_byte c =
     (if c = quote \<or> c = backslash then [backslash, c]
      else if ord c = 8 then [backslash, CHR ''b'']
      else if ord c = 12 then [backslash, CHR ''f'']
      else if ord c = 10 then [backslash, CHR ''n'']
      else if ord c = 13 then [backslash, CHR ''r'']
      else if ord c = 9 then [backslash, CHR ''t'']
      else if ord c < 32 \<or> c = CHR ''<'' \<or> c = CHR ''>'' \<or> c = CHR ''&'' then
        [backslash, CHR ''u'', CHR ''0'', CHR ''0'', hex_digit (ord c div 16), hex_digit (ord c mod 16)]
      else [c])"

function esc_string :: "string \<Rightarrow> string" where
  "esc_string [] = []"
| "esc_string (c # s) =
     (if ord c < 128 then esc_byte c @ esc_string s
      else let (r, n) = decode_rune (c # s) in
           (if r = rune_error \<and> n = 1 then backslash # ''ufffd''
            else if r = 0x2028 then backslash # ''u2028''
            else if r = 0x2029 then backslash # ''u2029''
            else take n (c # s))
           @ esc_string (drop (snd (decode_rune (c # s))) (c # s)))"
  by pat_completeness auto
termination
proof (relation "measure length", simp, simp)
  fix c :: char and s
  show "(drop (snd (decode_rune (c # s))) (c # s), c # s) \<in> measure length"
    using decode_rune_width [of c s] by simp
qed

definition enc_string :: "string \<Rightarrow> string" where
  "enc_string s = quote # esc_string s @ [quote]"

lemma esc_string_ascii: "is_ascii s \<Longrightarrow> esc_string s = concat (map esc_byte s)"
  by (induction s) auto

lemma hex_val_hex_digit: "n < 16 \<Longrightarrow> hex_val (hex_digit n) = Some n"
  by (auto simp: hex_val_def hex_digit_def is_digit_byte_def ord_chr)

lemma char_consts:
  "quote = CHR 34" "backslash = CHR 92" "chr 8 = CHR 8" "chr 9 = CHR 9" "chr 10 = CHR 10"
  "chr 12 = CHR 12" "chr 13 = CHR 13"
  by (simp_all add: quote_def backslash_def chr_def char_of_def bit_0)

lemma ord_eq_chrD: "ord c = n \<Longrightarrow> c = chr n"
  using chr_ord by metis

lemma simple_escape_str_item:
  "simple_escape e = Some c \<Longrightarrow> e \<noteq> CHR ''u'' \<Longrightarrow> str_item (backslash # e # r) = Some ([c], r)"
  by (simp add: str_item_def)

lemma simple_escapes:
  "simple_escape CHR ''b'' = Some (chr 8)" "simple_escape CHR ''t'' = Some (chr 9)"
  "simple_escape CHR ''n'' = Some (chr 10)" "simple_escape CHR ''f'' = Some (chr 12)"
  "simple_escape CHR ''r'' = Some (chr 13)"
  by (simp_all add: simple_escape_def char_consts)

lemma esc_simple:
  "esc_byte (chr 8) = [backslash, CHR ''b'']" "esc_byte (chr 9) = [backslash, CHR ''t'']"
  "esc_byte (chr 10) = [backslash, CHR ''n'']" "esc_byte (chr 12) = [backslash, CHR ''f'']"
  "esc_byte (chr 13) = [backslash, CHR ''r'']"
  by (simp_all add: esc_byte_def ord_def char_consts)

lemma u_escape_str_item:
  assumes "ord c < 128"
  shows "str_item (backslash # CHR ''u'' # CHR ''0'' # CHR ''0''
      # hex_digit (ord c div 16) # hex_digit (ord c mod 16) # r) = Some ([c], r)"
proof -
  have lt: "ord c div 16 < 16" "ord c mod 16 < 16" using assms by linarith+
  have "hex_val CHR ''0'' = Some 0" by (simp add: hex_val_def is_digit_byte_def ord_def)
  with lt have "hex4 (CHR ''0'' # CHR ''0'' # hex_digit (ord c div 16) # hex_digit (ord c mod 16) # r)
      = Some (ord c, r)"
    by (simp add: hex_val_hex_digit)
  moreover have "encode_rune (ord c) = [c]" "\<not> is_surrogate (ord c)"
    using assms by (simp_all add: encode_rune_def is_surrogate_def)
  ultimately show ?thesis by (simp add: str_item_def)
qed

lemma str_item_esc:
  assumes "ord c < 128"
  shows "str_item (esc_byte c @ r) = Some ([c], r)"
proof -
  consider "c = quote \<or> c = backslash" | "ord c \<in> {8, 9, 10, 12, 13}"
    | "c \<noteq> quote" "c \<noteq> backslash" "ord c \<notin> {8, 9, 10, 12, 13}"
      "ord c < 32 \<or> c = CHR ''<'' \<or> c = CHR ''>'' \<or> c = CHR ''&''"
    | "c \<noteq> quote" "c \<noteq> backslash" "\<not> ord c < 32"
      "\<not> (c = CHR ''<'' \<or> c = CHR ''>'' \<or> c = CHR ''&'')"
    by blast
  then show ?thesis
  proof cases
    case 1
    have "simple_escape c = Some c" "c \<noteq> CHR ''u''"
      using 1 by (auto simp: simple_escape_def char_consts)
    with 1 show ?thesis by (simp add: esc_byte_def simple_escape_str_item)
  next
    case 2
    have two: "str_item (esc_byte c @ r) = Some ([c], r)"
      if "esc_byte c = [backslash, e]" "simple_escape e = Some c" "e \<noteq> CHR ''u''" for e
      using simple_escape_str_item [OF that(2,3)] that(1) by simp
    from 2 consider "ord c = 8" | "ord c = 9" | "ord c = 10" | "ord c = 12" | "ord c = 13" by blast
    then show ?thesis
    proof cases
      case 1
      then have c: "c = chr 8" by (rule ord_eq_chrD)
      show ?thesis by (rule two [of "CHR ''b''"]) (simp_all add: c esc_simple simple_escapes)
    next
      case 2
      then have c: "c = chr 9" by (rule ord_eq_chrD)
      show ?thesis by (rule two [of "CHR ''t''"]) (simp_all add: c esc_simple simple_escapes)
    next
      case 3
      then have c: "c = chr 10" by (rule ord_eq_chrD)
      show ?thesis by (rule two [of "CHR ''n''"]) (simp_all add: c esc_simple simple_escapes)
    next
      case 4
      then have c: "c = chr 12" by (rule ord_eq_chrD)
      show ?thesis by (rule two [of "CHR ''f''"]) (simp_all add: c esc_simple simple_escapes)
    next
      case 5
      then have c: "c = chr 13" by (rule ord_eq_chrD)
      show ?thesis by (rule two [of "CHR ''r''"]) (simp_all add: c esc_simple simple_escapes)
    qed
  next
    case 3
    then show ?thesis using u_escape_str_item [OF assms] by (auto simp: esc_byte_def)
  next
    case 4
    then show ?thesis using assms by (simp add: esc_byte_def str_item_def)
  qed
qed

lemma esc_byte_start: "\<exists>b bs. esc_byte c = b # bs \<and> b \<noteq> quote"
  by (auto simp: esc_byte_def char_consts)

lemma scan_str_esc: "is_ascii s \<Longrightarrow> scan_str (concat (map esc_byte s) @ quote # r) = Some (s, r)"
proof (induction s)
  case Nil
  then show ?case by (simp add: scan_str.simps)
next
  case (Cons c s)
  then have c: "ord c < 128" and IH: "scan_str (concat (map esc_byte s) @ quote # r) = Some (s, r)"
    by simp_all
  obtain b bs where e: "esc_byte c = b # bs" "b \<noteq> quote"
    using esc_byte_start by blast
  have "str_item (b # bs @ concat (map esc_byte s) @ quote # r) =
      Some ([c], concat (map esc_byte s) @ quote # r)"
    using str_item_esc [OF c] e by (metis append_Cons)
  with e IH show ?case by (subst scan_str.simps) simp
qed

theorem scan_enc_string:
  "is_ascii s \<Longrightarrow> scan_str (tl (enc_string s) @ r) = Some (s, r)"
  using scan_str_esc [of s r] by (simp add: enc_string_def esc_string_ascii)

section \<open>Objects of strings and integers\<close>

text \<open>\<open>json.Marshal\<close> of a struct: its members, already encoded, in field order.\<close>

definition enc_member :: "string \<times> string \<Rightarrow> string" where
  "enc_member kv = enc_string (fst kv) @ '':'' @ snd kv"

definition enc_object :: "(string \<times> string) list \<Rightarrow> string" where
  "enc_object kvs = ''{'' @ Join (map enc_member kvs) '','' @ ''}''"

definition value_end :: "string \<Rightarrow> bool" where
  "value_end r \<longleftrightarrow> (\<exists>c t. r = c # t \<and> (c = CHR '','' \<or> c = CHR ''}''))"

text \<open>\<open>v\<close> is an encoding of \<open>j\<close>: it is read as \<open>j\<close> wherever it stands before \<open>,\<close> or \<open>}\<close>.\<close>

definition encodes :: "string \<Rightarrow> json \<Rightarrow> bool" where
  "encodes v j \<longleftrightarrow> (\<forall>f d r. value_end r \<longrightarrow> p_value (Suc f) d (v @ r) = Some (j, r))"

lemma skip_ws_not_ws [simp]: "\<not> is_json_ws c \<Longrightarrow> skip_ws (c # s) = c # s"
  by (simp add: skip_ws_def)

lemma not_ws_consts [simp]:
  "\<not> is_json_ws quote" "\<not> is_json_ws CHR '':''" "\<not> is_json_ws CHR '',''" "\<not> is_json_ws CHR ''{''"
  "\<not> is_json_ws CHR ''}''" "\<not> is_json_ws CHR ''-''"
  by (simp_all add: is_json_ws_def quote_def ord_def chr_def)

lemma quote_neq [simp]:
  "quote \<noteq> CHR ''{''" "quote \<noteq> CHR ''[''" "quote \<noteq> CHR '',''" "quote \<noteq> CHR ''}''"
  by (simp_all add: char_consts)

lemma chr_48: "chr 48 = CHR ''0''"
  by (simp add: chr_def char_of_def bit_0)

lemma enc_string_eq: "enc_string s = quote # tl (enc_string s)"
  by (simp add: enc_string_def)

lemma encodes_string: "is_ascii s \<Longrightarrow> encodes (enc_string s) (JStr s)"
  unfolding encodes_def
proof (intro allI impI)
  fix f d r
  assume "is_ascii s"
  then have "scan_str (tl (enc_string s) @ r) = Some (s, r)" by (rule scan_enc_string)
  then show "p_value (Suc f) d (enc_string s @ r) = Some (JStr s, r)"
    by (subst enc_string_eq) (simp add: p_value.simps)
qed

lemma nat_dec_hd: "0 < n \<Longrightarrow> hd (nat_dec n) \<noteq> CHR ''0''"
proof (induction n rule: nat_dec.induct)
  case (1 n)
  show ?case
  proof (cases "n < 10")
    case True
    with "1.prems" have "ord (chr (48 + n)) \<noteq> ord CHR ''0''"
      by (simp add: ord_chr) (simp add: ord_def)
    with True show ?thesis by (subst nat_dec.simps) auto
  next
    case False
    with "1.IH" show ?thesis by (subst nat_dec.simps) (simp add: hd_append)
  qed
qed

lemma takeWhile_digits:
  "list_all is_digit_byte ds \<Longrightarrow> \<not> is_digit_byte c \<Longrightarrow>
     take_digits (ds @ c # t) = (ds, c # t)"
  by (simp add: take_digits_def list_all_iff)

lemma nat_dec_all_digits: "list_all is_digit_byte (nat_dec n)"
  by (simp add: list_all_iff nat_dec_digits)

lemma value_end_cases:
  assumes "value_end r"
  obtains c t where "r = c # t" "\<not> is_digit_byte c" "c \<notin> {CHR ''.'', CHR ''e'', CHR ''E''}"
proof -
  from assms obtain c t where r: "r = c # t" and c: "c = CHR '','' \<or> c = CHR ''}''"
    unfolding value_end_def by blast
  from c have "\<not> is_digit_byte c" "c \<notin> {CHR ''.'', CHR ''e'', CHR ''E''}"
    by (auto simp: is_digit_byte_def ord_def)
  with r show ?thesis by (rule that)
qed

lemma num_int_part_nat_dec:
  assumes "value_end r"
  shows "num_int_part (nat_dec n @ r) = Some (nat_dec n, r)"
proof -
  obtain c t where r: "r = c # t" "\<not> is_digit_byte c" using value_end_cases [OF assms] by blast
  show ?thesis
  proof (cases "n = 0")
    case True
    then show ?thesis by (simp add: nat_dec.simps [of 0] num_int_part_def chr_48)
  next
    case False
    then obtain x xs where x: "nat_dec n = x # xs" "x \<noteq> CHR ''0''" "is_digit_byte x"
      using nat_dec_hd [of n] nat_dec_digits [of _ n] nat_dec_nonempty [of n]
      by (cases "nat_dec n") auto
    have "take_digits (nat_dec n @ r) = (nat_dec n, r)"
      using takeWhile_digits nat_dec_all_digits r by blast
    with x show ?thesis by (simp add: num_int_part_def)
  qed
qed

lemma scan_num_int_dec:
  assumes "value_end r"
  shows "scan_num (int_dec i @ r) = Some (int_dec i, r)"
proof -
  obtain c t where r: "r = c # t" "c \<notin> {CHR ''.'', CHR ''e'', CHR ''E''}"
    using value_end_cases [OF assms] by blast
  then have fe: "num_frac_part r = Some ([], r)" "num_exp_part r = Some ([], r)"
    by (simp_all add: num_frac_part_def num_exp_part_def)
  have dash: "x \<noteq> CHR ''-''" if "is_digit_byte x" for x
    using that by (auto simp: is_digit_byte_def ord_def)
  obtain x xs where x: "nat_dec (nat i) = x # xs" "is_digit_byte x"
    using nat_dec_digits [of _ "nat i"] nat_dec_nonempty [of "nat i"]
    by (cases "nat_dec (nat i)") auto
  show ?thesis
    using num_int_part_nat_dec [OF assms, of "nat i"] num_int_part_nat_dec [OF assms, of "nat (- i)"]
      fe x dash [OF x(2)]
    by (auto simp: scan_num_def int_dec_def)
qed

lemma int_dec_hd:
  obtains x xs where "int_dec i = x # xs" "x = CHR ''-'' \<or> is_digit_byte x"
proof (cases "int_dec i")
  case Nil
  then show ?thesis by (simp add: int_dec_def split: if_splits)
next
  case (Cons x xs)
  then show ?thesis using int_dec_bytes [of x i] that by simp
qed

lemma encodes_int: "encodes (int_dec i) (JNum (int_dec i))"
  unfolding encodes_def
proof (intro allI impI)
  fix f d r
  assume r: "value_end r"
  obtain x xs where x: "int_dec i = x # xs" "x = CHR ''-'' \<or> is_digit_byte x" by (rule int_dec_hd)
  then have nx: "\<not> is_json_ws x" "x \<noteq> CHR ''{''" "x \<noteq> CHR ''[''" "x \<noteq> quote"
    "x \<noteq> CHR ''n''" "x \<noteq> CHR ''t''" "x \<noteq> CHR ''f''"
    by (auto simp: is_digit_byte_def ord_def is_json_ws_def char_consts)
  have "p_literal (int_dec i @ r) = Some (JNum (int_dec i), r)"
    using nx x scan_num_int_dec [OF r, of i] by (simp add: p_literal_def HasPrefix_def)
  with x nx show "p_value (Suc f) d (int_dec i @ r) = Some (JNum (int_dec i), r)"
    by (simp add: p_value.simps)
qed

lemma parse_int_int_dec: "in_i64 i \<Longrightarrow> parse_int (int_dec i) = Some i"
proof -
  assume i: "in_i64 i"
  have dash: "\<not> HasPrefix (nat_dec n) ''-''" for n
    using nat_dec_digits [of "CHR ''-''" n]
    by (cases "nat_dec n") (auto simp: HasPrefix_def is_digit_byte_def ord_def)
  have "HasPrefix (CHR ''-'' # s) ''-''" for s by (simp add: HasPrefix_def)
  with i dash show ?thesis
    by (simp add: parse_int_def int_dec_def digits_val_nat_dec nat_dec_all_digits Let_def)
qed

text \<open>Reading back the members of an encoded object.\<close>

lemma p_members_enc:
  assumes "list_all2 (\<lambda>(k, v) (k', j). k = k' \<and> is_ascii k \<and> encodes v j) kvs kjs"
    and "kvs \<noteq> []" and "2 * length (Join (map enc_member kvs) '','' @ ''}'' @ r) < f"
  shows "p_members f d (Join (map enc_member kvs) '','' @ ''}'' @ r) = Some (kjs, r)"
  using assms
proof (induction kvs arbitrary: kjs f)
  case Nil
  then show ?case by simp
next
  case (Cons kv kvs)
  obtain k v where kv: "kv = (k, v)" by (cases kv)
  with Cons.prems(1) obtain j kjs' where kjs: "kjs = (k, j) # kjs'" and k: "is_ascii k"
    and v: "encodes v j" and rest: "list_all2 (\<lambda>(k, v) (k', j). k = k' \<and> is_ascii k \<and> encodes v j) kvs kjs'"
    by (auto simp: list_all2_Cons1)
  define tail where
    "tail = (if kvs = [] then ''}'' @ r else '','' @ Join (map enc_member kvs) '','' @ ''}'' @ r)"
  have S: "Join (map enc_member (kv # kvs)) '','' @ ''}'' @ r = enc_string k @ '':'' @ v @ tail"
    by (cases kvs) (simp_all add: kv enc_member_def tail_def)
  have "2 + 1 \<le> f" using Cons.prems(3) unfolding S by (simp add: enc_string_def)
  then obtain g where f: "f = Suc (Suc g)"
    by (metis Suc_1 Suc_eq_plus1 add_Suc le_Suc_ex plus_1_eq_Suc)
  have "value_end tail" by (simp add: tail_def value_end_def)
  with v have val: "p_value (Suc g) d (v @ tail) = Some (j, tail)" by (simp add: encodes_def)
  have str: "scan_str (tl (enc_string k) @ CHR '':'' # v @ tail) = Some (k, CHR '':'' # v @ tail)"
    using k by (rule scan_enc_string)
  have step: "p_members f d (enc_string k @ '':'' @ v @ tail) =
      (if kvs = [] then Some ([(k, j)], r)
       else map_option (\<lambda>(m, r). ((k, j) # m, r))
         (p_members (Suc g) d (Join (map enc_member kvs) '','' @ ''}'' @ r)))"
    by (subst enc_string_eq)
       (simp add: f p_members.simps(2) [of "Suc g" d "quote # tl (enc_string k) @ CHR '':'' # v @ tail"]
          str val, simp add: tail_def)
  show ?case
  proof (cases "kvs = []")
    case True
    with rest step kjs show ?thesis unfolding S by simp
  next
    case False
    have "2 * length (Join (map enc_member kvs) '','' @ ''}'' @ r) < Suc g"
      using Cons.prems(3) False unfolding S f by (simp add: tail_def enc_string_def)
    with Cons.IH [OF rest False] step kjs False show ?thesis unfolding S by simp
  qed
qed

text \<open>
  Decoding an encoded object yields its members: the round trip behind every event payload.
\<close>

theorem json_decode_enc_object:
  assumes "list_all2 (\<lambda>(k, v) (k', j). k = k' \<and> is_ascii k \<and> encodes v j) kvs kjs" and "kvs \<noteq> []"
  shows "json_decode (enc_object kvs @ r) = Some (JObj kjs, r)"
proof -
  let ?t = "Join (map enc_member kvs) '','' @ ''}'' @ r"
  have m: "p_members (2 * length (enc_object kvs @ r)) 1 ?t = Some (kjs, r)"
    using p_members_enc [OF assms, of r "2 * length (enc_object kvs @ r)" 1]
    by (simp add: enc_object_def)
  obtain t where t: "?t = quote # t"
    using assms(2) by (cases kvs; cases "tl kvs") (auto simp: enc_member_def enc_string_def)
  have "json_decode (enc_object kvs @ r) = p_value (Suc (2 * length (enc_object kvs @ r))) 0 (CHR ''{'' # ?t)"
    by (simp add: json_decode_def enc_object_def)
  also have "\<dots> = map_option (\<lambda>(m, r). (JObj m, r)) (p_members (2 * length (enc_object kvs @ r)) 1 ?t)"
    unfolding t by (simp add: p_value.simps max_nesting_depth_def)
  finally show ?thesis by (simp only: m option.map prod.case)
qed

end
