(* ===== verification/Kafka_Model.thy ===== *)
theory Kafka_Model
  imports GoJson
begin

text \<open>
  \<open>internal/kafka/model.go\<close>: job states, jobs, events and their wire format, configuration
  defaults and the retry back-off.  SHA-256 is the parameter \<open>H\<close>, the function from bytes to the
  lower-case hex digest; no property of it is assumed here.
\<close>

datatype JobStatus = Received | Queued | Running | Completed | Rejected | Retrying | DeadLetter

datatype workflow_error =
    ErrNotFound | ErrLeaseLost | ErrLeaseBusy | ErrRejected | ErrDeliveryConflict | ErrBacklogFull
  | InvalidReceiveInput | InvalidEvent | UndecodableEvent | InvalidOutboxLimit
  | PublishFailed string | RunnerFailed | StoreFailed | NotConfigured

type_synonym hash = "bytes \<Rightarrow> string"

record JobOptions =
  o_TraceParent :: string
  o_TraceState :: string
  o_TenantID :: string
  o_ProjectID :: string
  o_Actor :: string
  o_Benchmark :: bool
  o_ApprovedJobID :: string
  o_ApprovalReportSHA :: string

definition normalized :: "JobOptions \<Rightarrow> JobOptions" where
  "normalized o1 =
     (let o2 = (if o_TenantID o1 = [] then o1\<lparr>o_TenantID := ''operator''\<rparr> else o1);
          o3 = (if o_ProjectID o2 = [] then o2\<lparr>o_ProjectID := ''default''\<rparr> else o2)
      in if o_Actor o3 = [] then o3\<lparr>o_Actor := ''operator''\<rparr> else o3)"

record Job =
  j_Options :: JobOptions
  j_ID :: string
  j_DeliveryID :: string
  j_PRNumber :: int
  j_SQL :: bytes
  j_CandidateSpec :: bytes
  j_SQLSHA256 :: string
  j_CandidateSpecSHA256 :: string
  j_Status :: JobStatus
  j_Attempts :: int
  j_NextAttemptAt :: time
  j_LeaseOwner :: string
  j_LeaseUntil :: time
  j_LastError :: string
  j_CreatedAt :: time
  j_UpdatedAt :: time
  j_CompletedAt :: "time option"

record ReceiveInput =
  in_Options :: JobOptions
  in_DeliveryID :: string
  in_PRNumber :: int
  in_SQL :: bytes
  in_CandidateSpec :: bytes
  in_SourceJSON :: bytes

record ReceiveResult =
  res_Job :: Job
  res_Duplicate :: bool

record Event =
  e_SchemaVersion :: int
  e_EventID :: string
  e_JobID :: string
  e_DeliveryID :: string
  e_Attempt :: int

record OutboxRecord =
  ob_EventID :: string
  ob_JobID :: string
  ob_Topic :: string
  ob_Payload :: "bytes option"
  ob_Attempts :: int
  ob_AvailableAt :: time

record Message =
  m_Topic :: string
  m_Key :: string
  m_Value :: bytes
  m_Partition :: int
  m_Offset :: int

text \<open>The zero \<open>time.Time\<close> (January 1 of year 1), in nanoseconds from the Unix epoch.\<close>

definition zero_time :: time where
  "zero_time = - 62135596800000000000"

definition digest :: "hash \<Rightarrow> bytes \<Rightarrow> string" where
  "digest H raw = H raw"

text \<open>
  \<open>newID\<close>: the first 32 hex digits of the digest of prefix, clock, counter argument and the
  process-wide sequence number, which the caller passes after its increment.
\<close>

definition newID :: "hash \<Rightarrow> string \<Rightarrow> time \<Rightarrow> int \<Rightarrow> nat \<Rightarrow> string" where
  "newID H pfx now n seq =
     take 32 (H (pfx @ '':'' @ int_dec now @ '':'' @ int_dec n @ '':'' @ nat_dec seq))"

definition sameDelivery :: "hash \<Rightarrow> Job \<Rightarrow> ReceiveInput \<Rightarrow> bool" where
  "sameDelivery H job inp \<longleftrightarrow>
     j_PRNumber job = in_PRNumber inp
     \<and> j_SQLSHA256 job = digest H (in_SQL inp)
     \<and> j_CandidateSpecSHA256 job = digest H (in_CandidateSpec inp)
     \<and> (j_Options job)\<lparr>o_TraceParent := [], o_TraceState := []\<rparr>
       = (normalized (in_Options inp))\<lparr>o_TraceParent := [], o_TraceState := []\<rparr>"

section \<open>Events\<close>

definition Validate :: "Event \<Rightarrow> bool" where
  "Validate e \<longleftrightarrow>
     \<not> (e_SchemaVersion e \<noteq> 1 \<or> e_EventID e = [] \<or> e_JobID e = [] \<or> e_DeliveryID e = []
        \<or> e_Attempt e < 1)"

definition event_members :: "Event \<Rightarrow> (string \<times> string) list" where
  "event_members e =
     [(''schema_version'', int_dec (e_SchemaVersion e)),
      (''event_id'', enc_string (e_EventID e)),
      (''job_id'', enc_string (e_JobID e)),
      (''delivery_id'', enc_string (e_DeliveryID e)),
      (''attempt'', int_dec (e_Attempt e))]"

definition MarshalSafe :: "Event \<Rightarrow> bytes option" where
  "MarshalSafe e = (if Validate e then Some (enc_object (event_members e)) else None)"

definition zero_event :: Event where
  "zero_event = \<lparr>e_SchemaVersion = 0, e_EventID = [], e_JobID = [], e_DeliveryID = [], e_Attempt = 0\<rparr>"

definition event_fields :: "(string \<times> Event field_setter) list" where
  "event_fields =
     [(''schema_version'', set_int (\<lambda>i e. e\<lparr>e_SchemaVersion := i\<rparr>)),
      (''event_id'', set_string (\<lambda>s e. e\<lparr>e_EventID := s\<rparr>)),
      (''job_id'', set_string (\<lambda>s e. e\<lparr>e_JobID := s\<rparr>)),
      (''delivery_id'', set_string (\<lambda>s e. e\<lparr>e_DeliveryID := s\<rparr>)),
      (''attempt'', set_int (\<lambda>i e. e\<lparr>e_Attempt := i\<rparr>))]"

definition DecodeEvent :: "bytes \<Rightarrow> workflow_error + Event" where
  "DecodeEvent data =
     (case decode_strict event_fields zero_event data of
        None \<Rightarrow> Inl UndecodableEvent
      | Some e \<Rightarrow> if Validate e then Inr e else Inl InvalidEvent)"

lemma decode_event_members:
  assumes "in_i64 a" "in_i64 n"
  shows "decode_members event_fields
      [(''schema_version'', JNum (int_dec a)), (''event_id'', JStr x), (''job_id'', JStr y),
       (''delivery_id'', JStr z), (''attempt'', JNum (int_dec n))] zero_event
    = Some \<lparr>e_SchemaVersion = a, e_EventID = x, e_JobID = y, e_DeliveryID = z, e_Attempt = n\<rparr>"
  using assms
  by (simp add: event_fields_def find_field_def set_int_def set_string_def parse_int_int_dec zero_event_def)

lemma DecodeEvent_enc:
  assumes "is_ascii (e_EventID e)" "is_ascii (e_JobID e)" "is_ascii (e_DeliveryID e)"
    and "in_i64 (e_SchemaVersion e)" "in_i64 (e_Attempt e)"
  shows "DecodeEvent (enc_object (event_members e)) = (if Validate e then Inr e else Inl InvalidEvent)"
proof -
  have "json_decode (enc_object (event_members e) @ []) =
      Some (JObj [(''schema_version'', JNum (int_dec (e_SchemaVersion e))), (''event_id'', JStr (e_EventID e)),
        (''job_id'', JStr (e_JobID e)), (''delivery_id'', JStr (e_DeliveryID e)),
        (''attempt'', JNum (int_dec (e_Attempt e)))], [])"
    by (rule json_decode_enc_object)
       (simp_all add: event_members_def encodes_int encodes_string assms(1-3) ord_def)
  then show ?thesis
    by (simp add: Validate_def DecodeEvent_def decode_strict_def decode_struct_def decode_event_members assms(4,5)
        json_at_eof_def skip_ws_def del: decode_members.simps)
qed

section \<open>Configuration\<close>

record Config =
  c_Topic :: string
  c_MaxAttempts :: int
  c_Lease :: duration
  c_RetryBase :: duration
  c_RetryMax :: duration
  c_Owner :: string

definition second :: duration where
  "second = 1000000000"

definition minute :: duration where
  "minute = 60000000000"

definition withDefaults :: "Config \<Rightarrow> Config" where
  "withDefaults c =
     \<lparr>c_Topic = (if c_Topic c = [] then ''sql-sentinel.jobs'' else c_Topic c),
      c_MaxAttempts = (if c_MaxAttempts c < 1 then 3 else c_MaxAttempts c),
      c_Lease = (if c_Lease c \<le> 0 then 5 * minute else c_Lease c),
      c_RetryBase = (if c_RetryBase c \<le> 0 then second else c_RetryBase c),
      c_RetryMax = (if c_RetryMax c \<le> 0 then minute else c_RetryMax c),
      c_Owner = (if c_Owner c = [] then ''worker'' else c_Owner c)\<rparr>"

section \<open>Retry back-off\<close>

text \<open>
  The loop of \<open>RetryDelay\<close> from iteration \<open>i\<close> with the current delay \<open>d\<close>; the early
  \<open>return max\<close> inside it and the clamp after it both end the recursion.
\<close>

function retry_loop :: "duration \<Rightarrow> int \<Rightarrow> int \<Rightarrow> duration \<Rightarrow> duration" where
  "retry_loop mx attempt i d =
     (if i < attempt \<and> d < mx then
        (if mx sdiv 2 < d then mx else retry_loop mx attempt (i + 1) (i64 (d * 2)))
      else if mx < d then mx else d)"
  by pat_completeness auto
termination
  by (relation "measure (\<lambda>(mx, attempt, i, d). nat (attempt - i))") auto

declare retry_loop.simps [simp del]

definition RetryDelay :: "duration \<Rightarrow> duration \<Rightarrow> int \<Rightarrow> duration" where
  "RetryDelay base mx attempt =
     retry_loop mx (if attempt < 1 then 1 else attempt) 1 base"

text \<open>With a positive base the loop computes \<open>min (base * 2^(attempt-1)) max\<close> without overflow.\<close>

lemma retry_loop_eq:
  assumes "0 < d" "0 \<le> mx" "in_i64 mx" "i \<le> attempt"
  shows "retry_loop mx attempt i d = min (d * 2 ^ nat (attempt - i)) mx"
  using assms
proof (induction mx attempt i d rule: retry_loop.induct)
  case (1 mx attempt i d)
  show ?case
  proof (cases "i < attempt \<and> d < mx")
    case True
    then have k: "nat (attempt - i) = Suc (nat (attempt - (i + 1)))" by (simp add: Suc_nat_eq_nat_zadd1)
    have big: "d * 2 \<le> d * 2 ^ nat (attempt - i)"
      using "1.prems"(1) unfolding k by (simp add: mult_le_cancel_left)
    show ?thesis
    proof (cases "mx sdiv 2 < d")
      case True2: True
      have "mx < d * 2" using True2 "1.prems"(2) by (simp add: sdiv_2_nonneg)
      with big have "mx \<le> d * 2 ^ nat (attempt - i)" by linarith
      with True True2 show ?thesis by (simp add: retry_loop.simps [of mx attempt i d])
    next
      case False
      then have "d \<le> mx div 2" using "1.prems"(2) by (simp add: sdiv_2_nonneg)
      moreover have "mx div 2 * 2 \<le> mx" by presburger
      ultimately have le: "d * 2 \<le> mx" by linarith
      have pos: "0 < d * 2" using "1.prems"(1) by linarith
      have w: "i64 (d * 2) = d * 2"
        by (rule i64_id, rule in_i64_mono [OF "1.prems"(3)]) (use le pos in linarith)+
      have "retry_loop mx attempt (i + 1) (i64 (d * 2)) =
          min (i64 (d * 2) * 2 ^ nat (attempt - (i + 1))) mx"
        using True False pos w "1.prems"(2-4) by (intro "1.IH") simp_all
      with True False w show ?thesis
        by (simp add: retry_loop.simps [of mx attempt i d] k mult.assoc)
    qed
  next
    case False
    show ?thesis
    proof (cases "i < attempt")
      case True
      with False have "mx \<le> d" by simp
      moreover have "d \<le> d * 2 ^ nat (attempt - i)" using "1.prems"(1) by simp
      ultimately show ?thesis using False by (simp add: retry_loop.simps [of mx attempt i d])
    next
      case no: False
      with "1.prems" have "i = attempt" by simp
      then show ?thesis by (simp add: retry_loop.simps [of mx attempt attempt d] min_def)
    qed
  qed
qed

section \<open>Properties\<close>

text \<open>The retry delay is the base doubled once per earlier attempt and capped at the maximum; the
  doubling never overflows the 64-bit duration, for any attempt number.\<close>

theorem retry_delay_is_capped_doubling:
  assumes "0 < base" "0 \<le> mx" "in_i64 mx"
  shows "RetryDelay base mx attempt = min (base * 2 ^ nat (max 1 attempt - 1)) mx"
proof -
  have "(if attempt < 1 then 1 else attempt) = max 1 attempt" by simp
  then show ?thesis
    using retry_loop_eq [OF assms, of 1 "max 1 attempt"] by (simp add: RetryDelay_def)
qed

theorem retry_delay_is_capped_doubling_witness:
  "RetryDelay second minute 4 = 8000000000 \<and> RetryDelay second minute 1000 = minute"
proof -
  have "nat 999 = Suc 998" by simp
  then have "minute \<le> second * 2 ^ nat 999" by (simp add: second_def minute_def)
  moreover have "nat 3 = 3" by simp
  ultimately show ?thesis
    using retry_delay_is_capped_doubling [of second minute 4] retry_delay_is_capped_doubling [of second minute 1000]
    by (simp add: second_def minute_def in_i64_def)
qed



end
