(* ===== verification/Kafka_Store.thy ===== *)
theory Kafka_Store
  imports Kafka_Model
begin

text \<open>
  The \<open>Store\<close> interface of \<open>internal/kafka/model.go\<close> as a record of operations (Go calls the
  interface through a method table), the life cycle of a job that every store promises, and the
  contracts as locales.  \<open>Kafka_Memory\<close> and \<open>Kafka_MySQL\<close> interpret the locales on the two
  stores of the source; \<open>Kafka_Worker\<close> is written against the record only.

  An operation takes the store state last and returns its result with the new state.  The
  leading \<open>time\<close> argument of \<open>st_Receive\<close>, \<open>st_Claim\<close> etc., named \<open>wall\<close>, is what
  \<open>time.Now()\<close> returns where the implementation reads the clock itself.
\<close>

record 's store_ops =
  st_Receive :: "time \<Rightarrow> ReceiveInput \<Rightarrow> 's \<Rightarrow> (workflow_error + ReceiveResult) \<times> 's"
  st_Claim :: "time \<Rightarrow> string \<Rightarrow> string \<Rightarrow> time \<Rightarrow> duration \<Rightarrow> 's \<Rightarrow> (workflow_error + Job \<times> bool) \<times> 's"
  st_Complete :: "time \<Rightarrow> string \<Rightarrow> string \<Rightarrow> time \<Rightarrow> 's \<Rightarrow> (workflow_error + bool) \<times> 's"
  st_Reject :: "time \<Rightarrow> string \<Rightarrow> string \<Rightarrow> time \<Rightarrow> string \<Rightarrow> 's \<Rightarrow> (workflow_error + bool) \<times> 's"
  st_Retry :: "time \<Rightarrow> string \<Rightarrow> string \<Rightarrow> time \<Rightarrow> time \<Rightarrow> string \<Rightarrow> 's \<Rightarrow> (workflow_error + bool) \<times> 's"
  st_DeadLetter :: "time \<Rightarrow> string \<Rightarrow> string \<Rightarrow> time \<Rightarrow> string \<Rightarrow> 's \<Rightarrow> (workflow_error + bool) \<times> 's"
  st_Get :: "string \<Rightarrow> 's \<Rightarrow> (workflow_error + Job) \<times> 's"
  st_PendingOutbox :: "int \<Rightarrow> time \<Rightarrow> 's \<Rightarrow> (workflow_error + OutboxRecord list) \<times> 's"
  st_MarkPublished :: "time \<Rightarrow> string \<Rightarrow> time \<Rightarrow> workflow_error option \<Rightarrow> 's \<Rightarrow> workflow_error option \<times> 's"
  st_Renew :: "string \<Rightarrow> string \<Rightarrow> time \<Rightarrow> duration \<Rightarrow> 's \<Rightarrow> (workflow_error + bool) \<times> 's"

section \<open>The life cycle of a job\<close>

definition terminal :: "JobStatus \<Rightarrow> bool" where
  "terminal st \<longleftrightarrow> st = Completed \<or> st = Rejected \<or> st = DeadLetter"

lemma terminal_simps [simp]:
  "terminal Completed" "terminal Rejected" "terminal DeadLetter"
  "\<not> terminal Received" "\<not> terminal Queued" "\<not> terminal Running" "\<not> terminal Retrying"
  by (simp_all add: terminal_def)

definition same_identity :: "Job \<Rightarrow> Job \<Rightarrow> bool" where
  "same_identity j j' \<longleftrightarrow>
     j_Options j' = j_Options j \<and> j_ID j' = j_ID j \<and> j_DeliveryID j' = j_DeliveryID j
     \<and> j_PRNumber j' = j_PRNumber j \<and> j_SQL j' = j_SQL j \<and> j_CandidateSpec j' = j_CandidateSpec j
     \<and> j_SQLSHA256 j' = j_SQLSHA256 j \<and> j_CandidateSpecSHA256 j' = j_CandidateSpecSHA256 j
     \<and> j_CreatedAt j' = j_CreatedAt j"

lemma same_identity_refl [simp]: "same_identity j j"
  by (simp add: same_identity_def)

lemma same_identity_trans: "same_identity a b \<Longrightarrow> same_identity b c \<Longrightarrow> same_identity a c"
  by (simp add: same_identity_def)

definition running_by :: "string \<Rightarrow> time \<Rightarrow> Job \<Rightarrow> bool" where
  "running_by owner now j \<longleftrightarrow> j_Status j = Running \<and> j_LeaseOwner j = owner \<and> now < j_LeaseUntil j"

definition claimable_at :: "time \<Rightarrow> Job \<Rightarrow> bool" where
  "claimable_at now j \<longleftrightarrow>
     (j_Status j = Queued \<or> j_Status j = Retrying) \<and> j_NextAttemptAt j \<le> now
     \<or> j_Status j = Running \<and> j_LeaseUntil j \<le> now"

text \<open>The state machine of one job: the transitions any store operation may make.\<close>

inductive job_trans :: "Job \<Rightarrow> Job \<Rightarrow> bool" where
  jt_claim: "claimable_at now j \<Longrightarrow> same_identity j j' \<Longrightarrow> j_Status j' = Running \<Longrightarrow>
    j_Attempts j' = i64 (j_Attempts j + 1) \<Longrightarrow> job_trans j j'"
| jt_finish: "running_by owner now j \<Longrightarrow> same_identity j j' \<Longrightarrow> terminal (j_Status j') \<Longrightarrow>
    j_LeaseOwner j' = [] \<Longrightarrow> j_Attempts j' = j_Attempts j \<Longrightarrow> job_trans j j'"
| jt_retry: "running_by owner now j \<Longrightarrow> same_identity j j' \<Longrightarrow> j_Status j' = Retrying \<Longrightarrow>
    j_LeaseOwner j' = [] \<Longrightarrow> j_Attempts j' = j_Attempts j \<Longrightarrow> job_trans j j'"
| jt_renew: "running_by owner now j \<Longrightarrow> same_identity j j' \<Longrightarrow> j_Status j' = Running \<Longrightarrow>
    j_LeaseOwner j' = owner \<Longrightarrow> j_Attempts j' = j_Attempts j \<Longrightarrow> job_trans j j'"
| jt_recover: "j_Status j = Running \<and> j_LeaseUntil j \<le> now \<or> j_Status j = Queued \<or> j_Status j = Retrying \<Longrightarrow>
    same_identity j j' \<Longrightarrow> j_Status j' = Retrying \<Longrightarrow> j_LeaseOwner j' = [] \<Longrightarrow>
    j_Attempts j' = j_Attempts j \<Longrightarrow> job_trans j j'"

lemma job_trans_not_terminal: "job_trans j j' \<Longrightarrow> \<not> terminal (j_Status j)"
  by (auto elim!: job_trans.cases simp: claimable_at_def running_by_def)

lemma job_trans_identity: "job_trans j j' \<Longrightarrow> same_identity j j'"
  by (auto elim!: job_trans.cases)

lemma job_trans_attempts:
  "job_trans j j' \<Longrightarrow> j_Attempts j' = j_Attempts j
     \<or> j_Attempts j' = i64 (j_Attempts j + 1) \<and> j_Status j' = Running"
  by (auto elim!: job_trans.cases)

text \<open>What a store may do to its table of jobs: create queued jobs, and move existing ones.\<close>

definition new_job :: "Job \<Rightarrow> bool" where
  "new_job j \<longleftrightarrow> j_Status j = Queued \<and> j_Attempts j = 0 \<and> j_LeaseOwner j = []"

definition job_evolves :: "Job option \<Rightarrow> Job option \<Rightarrow> bool" where
  "job_evolves a b \<longleftrightarrow>
     (case a of
        None \<Rightarrow> (case b of None \<Rightarrow> True | Some j \<Rightarrow> new_job j)
      | Some j \<Rightarrow> (case b of None \<Rightarrow> False | Some j' \<Rightarrow> j' = j \<or> job_trans j j'))"

lemma job_evolves_refl [simp, wf_intros]: "job_evolves a a"
  by (simp add: job_evolves_def split: option.splits)

lemma job_evolvesI [wf_intros]: "job_trans j j' \<Longrightarrow> job_evolves (Some j) (Some j')"
  by (simp add: job_evolves_def)

lemma job_evolves_terminal:
  "job_evolves (Some j) b \<Longrightarrow> terminal (j_Status j) \<Longrightarrow> b = Some j"
  by (auto simp: job_evolves_def dest: job_trans_not_terminal split: option.splits)

section \<open>The contracts\<close>

text \<open>The fields an operation sets, as the laws state them; \<open>rnd\<close> is the precision of the store.\<close>

definition claimed_job :: "(time \<Rightarrow> time) \<Rightarrow> string \<Rightarrow> time \<Rightarrow> duration \<Rightarrow> Job \<Rightarrow> Job" where
  "claimed_job rnd owner now lease j =
     j\<lparr>j_Status := Running, j_LeaseOwner := owner, j_LeaseUntil := rnd (now + lease),
       j_Attempts := i64 (j_Attempts j + 1), j_UpdatedAt := rnd now\<rparr>"

lemma job_trans_claimed: "claimable_at t j \<Longrightarrow> job_trans j (claimed_job rnd owner now lease j)"
  by (rule jt_claim) (simp_all add: claimed_job_def same_identity_def)

lemma job_evolves_claimed [wf_intros]:
  "claimable_at t j \<Longrightarrow> job_evolves (Some j) (Some (claimed_job rnd owner now lease j))"
  by (rule job_evolvesI, rule job_trans_claimed)

definition ended_job :: "JobStatus \<Rightarrow> string \<Rightarrow> Job \<Rightarrow> Job \<Rightarrow> bool" where
  "ended_job st reason j j' \<longleftrightarrow>
     same_identity j j' \<and> j_Status j' = st \<and> j_LastError j' = reason \<and> j_LeaseOwner j' = []
     \<and> j_LeaseUntil j' = zero_time \<and> j_Attempts j' = j_Attempts j"

definition finish_contract ::
  "('s \<Rightarrow> string \<Rightarrow> Job option) \<Rightarrow> (time \<Rightarrow> time) \<Rightarrow> string \<Rightarrow> string \<Rightarrow> time \<Rightarrow> JobStatus \<Rightarrow> string
     \<Rightarrow> 's \<Rightarrow> (workflow_error + bool) \<times> 's \<Rightarrow> bool" where
  "finish_contract job_of rnd jid owner now st reason s out \<longleftrightarrow>
     (case out of (r, s') \<Rightarrow>
        (\<forall>k. k \<noteq> jid \<longrightarrow> job_of s' k = job_of s k)
        \<and> ((\<exists>j j'. job_of s jid = Some j \<and> running_by owner (rnd now) j \<and> job_of s' jid = Some j'
                   \<and> ended_job st reason j j' \<and> r \<noteq> Inr False)
           \<or> job_of s' jid = job_of s jid \<and> r \<noteq> Inr True))"

text \<open>
  \<open>lease_store\<close>: claiming, renewing and ending a lease.  A claim that succeeds found the job
  claimable and returns exactly what it stored; an ending operation acts only for the owner of a
  live lease, and otherwise changes no job.
\<close>

locale lease_store =
  fixes S :: "'s store_ops"
    and job_of :: "'s \<Rightarrow> string \<Rightarrow> Job option"
    and sound :: "'s \<Rightarrow> bool"
    and rnd :: "time \<Rightarrow> time"
  assumes sound_id: "sound s \<Longrightarrow> job_of s jid = Some j \<Longrightarrow> j_ID j = jid"
    and sound_status: "sound s \<Longrightarrow> job_of s jid = Some j \<Longrightarrow> j_Status j \<noteq> Received"
    and claim_sound: "sound s \<Longrightarrow> st_Claim S wall jid owner now lease s = (r, s') \<Longrightarrow> sound s'"
    and claim_frame: "sound s \<Longrightarrow> st_Claim S wall jid owner now lease s = (r, s') \<Longrightarrow> k \<noteq> jid \<Longrightarrow>
      job_of s' k = job_of s k"
    and claim_won: "sound s \<Longrightarrow> st_Claim S wall jid owner now lease s = (Inr (j, True), s') \<Longrightarrow>
      (\<exists>j0. job_of s jid = Some j0 \<and> claimable_at (rnd now) j0
        \<and> j = claimed_job rnd owner now lease j0) \<and> job_of s' jid = Some j"
    and claim_lost: "sound s \<Longrightarrow> st_Claim S wall jid owner now lease s = (Inr (j, False), s') \<Longrightarrow>
      job_of s jid = Some j \<and> job_of s' jid = Some j"
    and claim_error: "sound s \<Longrightarrow> st_Claim S wall jid owner now lease s = (Inl e, s') \<Longrightarrow>
      job_of s' jid = job_of s jid \<or> (\<exists>j0. job_of s jid = Some j0 \<and> claimable_at (rnd now) j0
        \<and> job_of s' jid = Some (claimed_job rnd owner now lease j0))"
    and complete_sound: "sound s \<Longrightarrow> sound (snd (st_Complete S wall jid owner now s))"
    and complete_law: "sound s \<Longrightarrow> finish_contract job_of rnd jid owner now Completed [] s
      (st_Complete S wall jid owner now s)"
    and reject_sound: "sound s \<Longrightarrow> sound (snd (st_Reject S wall jid owner now reason s))"
    and reject_law: "sound s \<Longrightarrow> finish_contract job_of rnd jid owner now Rejected reason s
      (st_Reject S wall jid owner now reason s)"
    and dead_sound: "sound s \<Longrightarrow> sound (snd (st_DeadLetter S wall jid owner now reason s))"
    and dead_law: "sound s \<Longrightarrow> finish_contract job_of rnd jid owner now DeadLetter reason s
      (st_DeadLetter S wall jid owner now reason s)"
    and retry_sound: "sound s \<Longrightarrow> sound (snd (st_Retry S wall jid owner now nxt reason s))"
    and retry_law: "sound s \<Longrightarrow> finish_contract job_of rnd jid owner now Retrying reason s
      (st_Retry S wall jid owner now nxt reason s)"
    and renew_sound: "sound s \<Longrightarrow> sound (snd (st_Renew S jid owner now lease s))"
    and renew_law: "sound s \<Longrightarrow> st_Renew S jid owner now lease s = (rb, s') \<Longrightarrow>
      (\<forall>k. k \<noteq> jid \<longrightarrow> job_of s' k = job_of s k)
      \<and> (job_of s' jid = job_of s jid
         \<or> (\<exists>j n. job_of s jid = Some j \<and> running_by owner (rnd now) j
              \<and> job_of s' jid = Some (j\<lparr>j_LeaseUntil := rnd (now + lease), j_UpdatedAt := n\<rparr>)))"

lemma finish_contract_evolves:
  assumes "finish_contract job_of rnd jid owner now st reason s (r, s')"
    and "terminal st \<or> st = Retrying"
  shows "job_evolves (job_of s k) (job_of s' k)"
proof (cases "k = jid \<and> job_of s' jid \<noteq> job_of s jid")
  case True
  then obtain j j' where j: "job_of s jid = Some j" "running_by owner (rnd now) j"
    "job_of s' jid = Some j'" "ended_job st reason j j'"
    using assms(1) by (auto simp: finish_contract_def)
  have "job_trans j j'"
    using assms(2) j(2,4) by (auto simp: ended_job_def intro: jt_finish jt_retry)
  with j True show ?thesis by (simp add: job_evolvesI)
next
  case False
  with assms(1) have "job_of s' k = job_of s k"
    by (cases "k = jid") (auto simp: finish_contract_def)
  then show ?thesis by simp
qed

lemma finish_contract_evolves':
  assumes "finish_contract job_of rnd jid owner now st reason s out" and "terminal st \<or> st = Retrying"
  shows "job_evolves (job_of s k) (job_of (snd out) k)"
  using finish_contract_evolves [of job_of rnd jid owner now st reason s "fst out" "snd out" k] assms
  by simp

context lease_store
begin

lemma claim_evolves:
  assumes "sound s" "st_Claim S wall jid owner now lease s = (r, s')"
  shows "job_evolves (job_of s k) (job_of s' k)"
proof (cases "k = jid")
  case False
  with claim_frame [OF assms] show ?thesis by simp
next
  case True
  show ?thesis
  proof (cases r)
    case (Inl e)
    with claim_error [of s wall jid owner now lease e s'] assms True show ?thesis
      by (auto intro: job_evolves_claimed)
  next
    case (Inr p)
    obtain j b where p: "p = (j, b)" by force
    show ?thesis
    proof (cases b)
      case True
      with claim_won [of s wall jid owner now lease j s'] assms Inr p \<open>k = jid\<close> show ?thesis
        by (auto intro: job_evolves_claimed)
    next
      case False
      with claim_lost [of s wall jid owner now lease j s'] assms Inr p \<open>k = jid\<close> show ?thesis
        by auto
    qed
  qed
qed

lemma renew_evolves:
  assumes "sound s" "st_Renew S jid owner now lease s = (r, s')"
  shows "job_evolves (job_of s k) (job_of s' k)"
proof (cases "k = jid \<and> job_of s' jid \<noteq> job_of s jid")
  case True
  with renew_law [OF assms] obtain j n where j: "job_of s jid = Some j" "running_by owner (rnd now) j"
    "job_of s' jid = Some (j\<lparr>j_LeaseUntil := rnd (now + lease), j_UpdatedAt := n\<rparr>)" by auto
  have "job_trans j (j\<lparr>j_LeaseUntil := rnd (now + lease), j_UpdatedAt := n\<rparr>)"
    by (rule jt_renew [OF j(2)]) (use j(2) in \<open>simp_all add: same_identity_def running_by_def\<close>)
  with True j show ?thesis by (auto intro: job_evolvesI)
next
  case False
  with renew_law [OF assms] have "job_of s' k = job_of s k" by (cases "k = jid") auto
  then show ?thesis by simp
qed

lemma ending_evolves:
  assumes "sound s"
  shows "job_evolves (job_of s k) (job_of (snd (st_Complete S wall jid owner now s)) k)"
    and "job_evolves (job_of s k) (job_of (snd (st_Reject S wall jid owner now reason s)) k)"
    and "job_evolves (job_of s k) (job_of (snd (st_DeadLetter S wall jid owner now reason s)) k)"
    and "job_evolves (job_of s k) (job_of (snd (st_Retry S wall jid owner now nxt reason s)) k)"
  using finish_contract_evolves' [OF complete_law [OF assms]] finish_contract_evolves' [OF reject_law [OF assms]]
    finish_contract_evolves' [OF dead_law [OF assms]] finish_contract_evolves' [OF retry_law [OF assms]]
  by simp_all

text \<open>Fencing: an operation for another owner than the one that holds the lease changes nothing.\<close>

lemma stale_owner_finish:
  assumes "finish_contract job_of rnd jid owner now st reason s (r, s')"
    and "job_of s jid = Some j" "j_LeaseOwner j \<noteq> owner"
  shows "job_of s' = job_of s \<and> r \<noteq> Inr True"
proof -
  from assms have "job_of s' jid = job_of s jid \<and> r \<noteq> Inr True" "\<forall>k. k \<noteq> jid \<longrightarrow> job_of s' k = job_of s k"
    by (auto simp: finish_contract_def running_by_def)
  then have "job_of s' k = job_of s k" for k by (cases "k = jid") auto
  with \<open>job_of s' jid = job_of s jid \<and> r \<noteq> Inr True\<close> show ?thesis by auto
qed

end

text \<open>
  \<open>intake_store\<close> adds delivery: \<open>Receive\<close> creates a queued job for a new delivery identifier
  and answers a repeated one without creating anything.  \<open>ok\<close> is the store's own condition on
  the identifiers it is about to draw.
\<close>

locale intake_store = lease_store S job_of sound rnd
  for S :: "'s store_ops" and job_of :: "'s \<Rightarrow> string \<Rightarrow> Job option" and sound :: "'s \<Rightarrow> bool"
    and rnd :: "time \<Rightarrow> time" +
  fixes ok :: "time \<Rightarrow> 's \<Rightarrow> bool"
  assumes receive_sound: "sound s \<Longrightarrow> ok wall s \<Longrightarrow> st_Receive S wall inp s = (rr, s') \<Longrightarrow> sound s'"
    and receive_evolves: "sound s \<Longrightarrow> ok wall s \<Longrightarrow> st_Receive S wall inp s = (rr, s') \<Longrightarrow>
      job_evolves (job_of s k) (job_of s' k)"
    and receive_duplicate: "sound s \<Longrightarrow> ok wall s \<Longrightarrow> st_Receive S wall inp s = (Inr v, s') \<Longrightarrow>
      res_Duplicate v \<Longrightarrow> job_of s' = job_of s \<and> job_of s (j_ID (res_Job v)) = Some (res_Job v)"
    and receive_new: "sound s \<Longrightarrow> ok wall s \<Longrightarrow> st_Receive S wall inp s = (Inr v, s') \<Longrightarrow>
      \<not> res_Duplicate v \<Longrightarrow> job_of s (j_ID (res_Job v)) = None
        \<and> job_of s' (j_ID (res_Job v)) = Some (res_Job v) \<and> new_job (res_Job v)"
    and receive_error: "sound s \<Longrightarrow> ok wall s \<Longrightarrow> st_Receive S wall inp s = (Inl InvalidReceiveInput, s') \<Longrightarrow>
      job_of s' = job_of s"
begin

lemma receive_job_present:
  assumes "sound s" "ok wall s" "st_Receive S wall inp s = (Inr v, s')"
  shows "job_of s' (j_ID (res_Job v)) = Some (res_Job v)"
  using receive_duplicate [OF assms] receive_new [OF assms] by (cases "res_Duplicate v") auto

end

end
