(* ===== verification/Kafka_Worker.thy ===== *)
theory Kafka_Worker
  imports Kafka_Store
begin

text \<open>
  \<open>internal/kafka/runtime.go\<close> and \<open>poller.go\<close>: the relay, the worker, the status handler, the
  in-memory broker and the polling loop, written against the \<open>Store\<close> interface
  (\<open>store_ops\<close>).

  Concurrency.  While the runner works, the renewal goroutine and other processes touch the store.
  What happens in that window is the list \<open>run_events\<close>: a \<open>Tick\<close> of the renewal ticker at a
  given time, or a step \<open>Other\<close> of somebody else.  Every theorem quantifies over it.  The clock
  readings of one call are the record \<open>HandleClock\<close>.  An error value of the source is its
  class under \<open>errors.Is\<close>.
\<close>

datatype 's run_event = Tick time | Other "'s \<Rightarrow> 's"

record 's run_script =
  run_events :: "'s run_event list"
  run_err :: "workflow_error option"
  run_ctx_done :: bool

record 's Worker =
  w_Store :: "'s store_ops option"
  w_Runner :: "(Job \<Rightarrow> 's run_script) option"
  w_Config :: Config

record HandleClock =
  k_wall :: time
  k_seq :: nat
  k_claim :: time
  k_dead :: time
  k_finish :: time

section \<open>The worker\<close>

text \<open>The renewal goroutine: it stops at the first renewal that fails, and cancels the run.\<close>

fun renew_loop ::
  "'s store_ops \<Rightarrow> string \<Rightarrow> string \<Rightarrow> duration \<Rightarrow> 's run_event list \<Rightarrow> bool \<Rightarrow> 's \<Rightarrow> bool \<times> 's" where
  "renew_loop S jid owner lease [] cancelled s = (cancelled, s)"
| "renew_loop S jid owner lease (Other f # es) cancelled s = renew_loop S jid owner lease es cancelled (f s)"
| "renew_loop S jid owner lease (Tick t # es) cancelled s =
     (if cancelled then renew_loop S jid owner lease es cancelled s
      else case st_Renew S jid owner t lease s of
        (Inl e, s') \<Rightarrow> renew_loop S jid owner lease es True s'
      | (Inr updated, s') \<Rightarrow> renew_loop S jid owner lease es (\<not> updated) s')"

definition truncateError :: "workflow_error \<Rightarrow> string" where
  "truncateError e =
     (if e = ErrRejected then ''input_rejected''
      else if e = ErrLeaseLost then ''lease_lost''
      else ''runner_failed'')"

text \<open>The three-way answer of an ending operation: its error, \<open>ErrLeaseLost\<close>, or nil.\<close>

definition settle :: "(workflow_error + bool) \<times> 's \<Rightarrow> workflow_error option \<times> 's" where
  "settle out =
     (case out of
        (Inl e, s) \<Rightarrow> (Some e, s)
      | (Inr updated, s) \<Rightarrow> if \<not> updated then (Some ErrLeaseLost, s) else (None, s))"

definition input_mismatch :: "hash \<Rightarrow> Event \<Rightarrow> Job \<Rightarrow> bool" where
  "input_mismatch H event job \<longleftrightarrow>
     j_DeliveryID job \<noteq> e_DeliveryID event \<or> digest H (j_SQL job) \<noteq> j_SQLSHA256 job
     \<or> digest H (j_CandidateSpec job) \<noteq> j_CandidateSpecSHA256 job"

text \<open>Running the job (or rejecting its input): the error of the run, and the store after it.\<close>

definition run_job ::
  "hash \<Rightarrow> 's store_ops \<Rightarrow> (Job \<Rightarrow> 's run_script) \<Rightarrow> Config \<Rightarrow> Event \<Rightarrow> Job \<Rightarrow> 's
     \<Rightarrow> workflow_error option \<times> 's" where
  "run_job H S runner cfg event job s =
     (if input_mismatch H event job then (Some ErrRejected, s)
      else case renew_loop S (j_ID job) (c_Owner cfg) (c_Lease cfg) (run_events (runner job)) False s of
        (cancelled, s') \<Rightarrow>
          (if cancelled \<or> run_ctx_done (runner job) then Some ErrLeaseLost else run_err (runner job), s'))"

definition finish_job ::
  "'s store_ops \<Rightarrow> Config \<Rightarrow> HandleClock \<Rightarrow> Job \<Rightarrow> workflow_error option \<Rightarrow> 's
     \<Rightarrow> workflow_error option \<times> 's" where
  "finish_job S cfg k job err s =
     (let now = k_finish k; owner = c_Owner cfg; wall = k_wall k
      in case err of
           None \<Rightarrow> settle (st_Complete S wall (j_ID job) owner now s)
         | Some e \<Rightarrow>
             if e = ErrRejected then settle (st_Reject S wall (j_ID job) owner now (truncateError e) s)
             else if j_Attempts job \<ge> c_MaxAttempts cfg
             then settle (st_DeadLetter S wall (j_ID job) owner now (truncateError e) s)
             else
               let nxt = now + RetryDelay (c_RetryBase cfg) (c_RetryMax cfg) (j_Attempts job)
               in settle (st_Retry S wall (j_ID job) owner now nxt (truncateError e) s))"

definition claim_config :: "hash \<Rightarrow> Config \<Rightarrow> HandleClock \<Rightarrow> Config" where
  "claim_config H c k = (withDefaults c)\<lparr>c_Owner := newID H ''claim'' (k_wall k) 0 (k_seq k)\<rparr>"

definition handle_event ::
  "hash \<Rightarrow> 's store_ops \<Rightarrow> (Job \<Rightarrow> 's run_script) \<Rightarrow> Config \<Rightarrow> HandleClock \<Rightarrow> Event \<Rightarrow> 's
     \<Rightarrow> workflow_error option \<times> 's" where
  "handle_event H S runner cfg k event s =
     (case st_Claim S (k_wall k) (e_JobID event) (c_Owner cfg) (k_claim k) (c_Lease cfg) s of
        (Inl e, s1) \<Rightarrow> (Some e, s1)
      | (Inr (job, claimed), s1) \<Rightarrow>
          if \<not> claimed then
            (if j_Status job = Completed \<or> j_Status job = Rejected \<or> j_Status job = DeadLetter
             then (None, s1) else (Some ErrLeaseBusy, s1))
          else if j_Attempts job > c_MaxAttempts cfg
          then settle (st_DeadLetter S (k_wall k) (j_ID job) (c_Owner cfg) (k_dead k) ''attempts_exhausted'' s1)
          else case run_job H S runner cfg event job s1 of
                 (err, s2) \<Rightarrow> finish_job S cfg k job err s2)"

definition Handle ::
  "hash \<Rightarrow> 's Worker \<Rightarrow> HandleClock \<Rightarrow> Message \<Rightarrow> 's \<Rightarrow> workflow_error option \<times> 's" where
  "Handle H w k message s =
     (case w_Store w of
        None \<Rightarrow> (Some NotConfigured, s)
      | Some S \<Rightarrow>
          (case w_Runner w of
             None \<Rightarrow> (Some NotConfigured, s)
           | Some runner \<Rightarrow>
               (case DecodeEvent (m_Value message) of
                  Inl e \<Rightarrow> (Some e, s)
                | Inr event \<Rightarrow> handle_event H S runner (claim_config H (w_Config w) k) k event s)))"

section \<open>The consuming loop\<close>

text \<open>
  One message in \<open>Run\<close>: \<open>Handle\<close> is retried, one element of the list per attempt, until it
  answers nil or the message is quarantined; the list ends when the context is done.  The Boolean
  says whether the loop was left by \<open>break\<close>, after which the message is committed.
\<close>

fun handle_until ::
  "hash \<Rightarrow> 's Worker \<Rightarrow> (Message \<Rightarrow> 's \<Rightarrow> (workflow_error + unit) \<times> 's) option \<Rightarrow> HandleClock list
     \<Rightarrow> Message \<Rightarrow> 's \<Rightarrow> bool \<times> 's" where
  "handle_until H w poison [] m s = (False, s)"
| "handle_until H w poison (k # ks) m s =
     (case Handle H w k m s of
        (None, s') \<Rightarrow> (True, s')
      | (Some e, s') \<Rightarrow>
          if (\<exists>e'. DecodeEvent (m_Value m) = Inl e') \<or> e = ErrNotFound then
            (case poison of
               None \<Rightarrow> handle_until H w poison ks m s'
             | Some quarantine \<Rightarrow>
                 (case quarantine m s' of
                    (Inr _, s'') \<Rightarrow> (True, s'')
                  | (Inl _, s'') \<Rightarrow> handle_until H w poison ks m s''))
          else handle_until H w poison ks m s')"

record 'b consumer_ops =
  co_Receive :: "'b \<Rightarrow> (workflow_error + Message) \<times> 'b"
  co_Commit :: "Message \<Rightarrow> 'b \<Rightarrow> workflow_error option \<times> 'b"

fun Run ::
  "hash \<Rightarrow> 's Worker \<Rightarrow> (Message \<Rightarrow> 's \<Rightarrow> (workflow_error + unit) \<times> 's) option \<Rightarrow> 'b consumer_ops
     \<Rightarrow> HandleClock list list \<Rightarrow> 'b \<Rightarrow> 's \<Rightarrow> workflow_error option \<times> 'b \<times> 's" where
  "Run H w poison C [] b s = (None, b, s)"
| "Run H w poison C (ks # kss) b s =
     (case co_Receive C b of
        (Inl e, b') \<Rightarrow> (Some e, b', s)
      | (Inr m, b') \<Rightarrow>
          (case handle_until H w poison ks m s of
             (False, s') \<Rightarrow> (None, b', s')
           | (True, s') \<Rightarrow>
               (case co_Commit C m b' of
                  (Some e, b'') \<Rightarrow> (Some e, b'', s')
                | (None, b'') \<Rightarrow> Run H w poison C kss b'' s')))"

section \<open>The in-memory broker\<close>

record MemoryBroker =
  br_messages :: "Message list"
  br_next :: nat

definition NewMemoryBroker :: MemoryBroker where
  "NewMemoryBroker = \<lparr>br_messages = [], br_next = 0\<rparr>"

definition broker_Publish :: "string \<Rightarrow> string \<Rightarrow> bytes \<Rightarrow> MemoryBroker \<Rightarrow> workflow_error option \<times> MemoryBroker" where
  "broker_Publish topic key val b =
     (None, b\<lparr>br_messages := br_messages b @
        [\<lparr>m_Topic = topic, m_Key = key, m_Value = val, m_Partition = 0, m_Offset = 0\<rparr>]\<rparr>)"

text \<open>\<open>None\<close>: no message yet, the call keeps polling.\<close>

definition broker_Receive :: "MemoryBroker \<Rightarrow> Message option" where
  "broker_Receive b =
     (if br_next b < length (br_messages b) then Some (br_messages b ! br_next b) else None)"

definition broker_Commit :: "Message \<Rightarrow> MemoryBroker \<Rightarrow> workflow_error option \<times> MemoryBroker" where
  "broker_Commit m b =
     (None, if br_next b < length (br_messages b) then b\<lparr>br_next := br_next b + 1\<rparr> else b)"

section \<open>The relay\<close>

type_synonym 'p publish = "string \<Rightarrow> string \<Rightarrow> bytes \<Rightarrow> 'p \<Rightarrow> workflow_error option \<times> 'p"

record ('s, 'p) Relay =
  rl_Store :: "'s store_ops option"
  rl_Publisher :: "'p publish option"
  rl_BatchSize :: int

text \<open>\<open>payload_bytes\<close>: a nil payload is the empty byte string to the publisher.\<close>

definition payload_bytes :: "bytes option \<Rightarrow> bytes" where
  "payload_bytes p = (case p of None \<Rightarrow> [] | Some b \<Rightarrow> b)"

fun relay_rows ::
  "'s store_ops \<Rightarrow> 'p publish \<Rightarrow> time \<Rightarrow> time \<Rightarrow> OutboxRecord list \<Rightarrow> int \<Rightarrow> 's \<Rightarrow> 'p
     \<Rightarrow> (int \<times> workflow_error option) \<times> 's \<times> 'p" where
  "relay_rows S pub wall now [] count s p = ((count, None), s, p)"
| "relay_rows S pub wall now (row # rows) count s p =
     (case pub (ob_Topic row) (ob_EventID row) (payload_bytes (ob_Payload row)) p of
        (publishErr, p') \<Rightarrow>
          (case st_MarkPublished S wall (ob_EventID row) now publishErr s of
             (Some markErr, s') \<Rightarrow> ((count, Some markErr), s', p')
           | (None, s') \<Rightarrow>
               (case publishErr of
                  Some e \<Rightarrow> ((count, Some (PublishFailed (ob_EventID row))), s', p')
                | None \<Rightarrow> relay_rows S pub wall now rows (count + 1) s' p')))"

definition RunOnce ::
  "('s, 'p) Relay \<Rightarrow> time \<Rightarrow> time \<Rightarrow> 's \<Rightarrow> 'p \<Rightarrow> (int \<times> workflow_error option) \<times> 's \<times> 'p" where
  "RunOnce r wall now s p =
     (case (rl_Store r, rl_Publisher r) of
        (Some S, Some pub) \<Rightarrow>
          (let batch = (if rl_BatchSize r < 1 then 16 else rl_BatchSize r)
           in case st_PendingOutbox S batch now s of
                (Inl e, s') \<Rightarrow> ((0, Some e), s', p)
              | (Inr rows, s') \<Rightarrow> relay_rows S pub wall now rows 0 s' p)
      | _ \<Rightarrow> ((0, Some NotConfigured), s, p))"

section \<open>The polling loop\<close>

datatype polling_error = NilContext | BadInterval | NilRunOnce

text \<open>
  \<open>RunPolling\<close>: each element of the list is one turn, with whether the context is done after
  the scan and before the next tick.  The observations are collected in order.
\<close>

fun polling_turns ::
  "('s \<Rightarrow> (int \<times> workflow_error option) \<times> 's) \<Rightarrow> bool list \<Rightarrow> 's
     \<Rightarrow> (int \<times> workflow_error option) list \<times> 's" where
  "polling_turns runOnce [] s = ([], s)"
| "polling_turns runOnce (done # rest) s =
     (case runOnce s of
        (r, s') \<Rightarrow>
          if done then ([r], s')
          else case polling_turns runOnce rest s' of (rs, s'') \<Rightarrow> (r # rs, s''))"

definition RunPolling ::
  "bool \<Rightarrow> duration \<Rightarrow> ('s \<Rightarrow> (int \<times> workflow_error option) \<times> 's) option \<Rightarrow> bool list \<Rightarrow> 's
     \<Rightarrow> polling_error + (int \<times> workflow_error option) list \<times> 's" where
  "RunPolling hasCtx interval runOnce turns s =
     (if \<not> hasCtx then Inl NilContext
      else if interval \<le> 0 then Inl BadInterval
      else case runOnce of
        None \<Rightarrow> Inl NilRunOnce
      | Some f \<Rightarrow> Inr (polling_turns f turns s))"

section \<open>The status handler\<close>

datatype status_reply =
    MethodNotAllowed | InvalidDeliveryID | NotFoundReply | StoreUnavailable | StatusOf safe_job
and safe_job = SafeJob string string int string string JobStatus int time time time

text \<open>\<open>safeJob\<close>: the fields of a job that leave the service.\<close>

definition safeJob :: "Job \<Rightarrow> safe_job" where
  "safeJob j =
     SafeJob (j_ID j) (j_DeliveryID j) (j_PRNumber j) (j_SQLSHA256 j) (j_CandidateSpecSHA256 j)
       (j_Status j) (j_Attempts j) (j_NextAttemptAt j) (j_CreatedAt j) (j_UpdatedAt j)"

definition StatusHandler :: "'s store_ops \<Rightarrow> string \<Rightarrow> string \<Rightarrow> 's \<Rightarrow> status_reply \<times> 's" where
  "StatusHandler S method path s =
     (if method \<noteq> ''GET'' then (MethodNotAllowed, s)
      else
        let did = TrimPrefix path ''/jobs/''
        in if did = [] \<or> Contains did ''/'' then (InvalidDeliveryID, s)
           else case st_Get S did s of
                  (Inl ErrNotFound, s') \<Rightarrow> (NotFoundReply, s')
                | (Inl e, s') \<Rightarrow> (StoreUnavailable, s')
                | (Inr job, s') \<Rightarrow> (StatusOf (safeJob job), s'))"

section \<open>What the worker guarantees on any store\<close>

lemma finish_contract_True:
  "finish_contract job_of rnd jid owner now st reason s (Inr True, s') \<Longrightarrow>
    \<exists>j j'. job_of s jid = Some j \<and> running_by owner (rnd now) j \<and> job_of s' jid = Some j' \<and> ended_job st reason j j'"
  by (auto simp: finish_contract_def)

lemma settle_None: "settle out = (None, s') \<longleftrightarrow> out = (Inr True, s')"
  by (auto simp: settle_def split: prod.splits sum.splits if_splits)

lemma settle_snd [simp]: "snd (settle out) = snd out"
  by (simp add: settle_def split: prod.splits sum.splits)

text \<open>A sequence of allowed changes to every job of the store.\<close>

definition jobs_path :: "('s \<Rightarrow> string \<Rightarrow> Job option) \<Rightarrow> 's \<Rightarrow> 's \<Rightarrow> bool" where
  "jobs_path job_of s s' \<longleftrightarrow> (\<forall>k. job_evolves\<^sup>*\<^sup>* (job_of s k) (job_of s' k))"

lemma jobs_path_refl [simp]: "jobs_path job_of s s"
  by (simp add: jobs_path_def)

lemma jobs_path_trans: "jobs_path job_of a b \<Longrightarrow> jobs_path job_of b c \<Longrightarrow> jobs_path job_of a c"
  by (auto simp: jobs_path_def intro: rtranclp_trans)

lemma jobs_path_step: "(\<And>k. job_evolves (job_of s k) (job_of s' k)) \<Longrightarrow> jobs_path job_of s s'"
  by (simp add: jobs_path_def r_into_rtranclp)

lemma job_path_terminal:
  "job_evolves\<^sup>*\<^sup>* (Some j) b \<Longrightarrow> terminal (j_Status j) \<Longrightarrow> b = Some j"
  by (induction rule: rtranclp_induct) (auto dest: job_evolves_terminal)

lemma job_path_identity:
  "job_evolves\<^sup>*\<^sup>* (Some j) b \<Longrightarrow> \<exists>j'. b = Some j' \<and> same_identity j j'"
  by (induction rule: rtranclp_induct)
     (auto simp: job_evolves_def dest: job_trans_identity intro: same_identity_trans split: option.splits)

definition friendly :: "('s \<Rightarrow> string \<Rightarrow> Job option) \<Rightarrow> ('s \<Rightarrow> bool) \<Rightarrow> 's run_event list \<Rightarrow> bool" where
  "friendly job_of sound es \<longleftrightarrow>
     (\<forall>f. Other f \<in> set es \<longrightarrow> (\<forall>s. sound s \<longrightarrow> sound (f s) \<and> jobs_path job_of s (f s)))"

lemma friendly_simps [simp]:
  "friendly job_of sound []"
  "friendly job_of sound (Tick t # es) = friendly job_of sound es"
  "friendly job_of sound (Other f # es) \<longleftrightarrow>
    (\<forall>s. sound s \<longrightarrow> sound (f s) \<and> jobs_path job_of s (f s)) \<and> friendly job_of sound es"
  by (auto simp: friendly_def)

context lease_store
begin

lemma renew_step_path:
  assumes "sound s" shows "sound (snd (st_Renew S jid owner now lease s))
    \<and> jobs_path job_of s (snd (st_Renew S jid owner now lease s))"
  using renew_sound [OF assms] renew_evolves [OF assms]
  by (metis jobs_path_step prod.collapse)

lemma renew_loop_path:
  assumes "sound s" "friendly job_of sound es" "renew_loop S jid owner lease es c s = (c', s')"
  shows "sound s' \<and> jobs_path job_of s s'"
  using assms
proof (induction es arbitrary: c s)
  case (Cons e es)
  show ?case
  proof (cases e)
    case (Other f)
    with Cons.prems Cons.IH [of "f s" c] show ?thesis by (auto intro: jobs_path_trans)
  next
    case (Tick t)
    obtain r s1 where r: "st_Renew S jid owner t lease s = (r, s1)" by force
    have s1: "sound s1" "jobs_path job_of s s1"
      using renew_step_path [OF Cons.prems(1), of jid owner t lease] r by auto
    show ?thesis
    proof (cases c)
      case True
      with Tick Cons.prems Cons.IH [of s True] show ?thesis by simp
    next
      case False
      have "\<exists>c1. renew_loop S jid owner lease es c1 s1 = (c', s')"
        using Cons.prems(3) Tick False r by (auto split: sum.splits)
      with Cons.IH [of s1] s1 Cons.prems(2) Tick show ?thesis by (auto intro: jobs_path_trans)
    qed
  qed
qed simp

lemma ending_paths:
  assumes "sound s"
  shows "sound (snd (st_Complete S wall jid owner now s)) \<and> jobs_path job_of s (snd (st_Complete S wall jid owner now s))"
    and "sound (snd (st_Reject S wall jid owner now reason s)) \<and> jobs_path job_of s (snd (st_Reject S wall jid owner now reason s))"
    and "sound (snd (st_DeadLetter S wall jid owner now reason s)) \<and> jobs_path job_of s (snd (st_DeadLetter S wall jid owner now reason s))"
    and "sound (snd (st_Retry S wall jid owner now nxt reason s)) \<and> jobs_path job_of s (snd (st_Retry S wall jid owner now nxt reason s))"
  using assms
  by (simp_all add: complete_sound reject_sound dead_sound retry_sound ending_evolves jobs_path_step)

lemma finish_job_path:
  assumes "sound s"
  shows "sound (snd (finish_job S cfg k job err s)) \<and> jobs_path job_of s (snd (finish_job S cfg k job err s))"
  by (simp add: finish_job_def Let_def ending_paths [OF assms] split: option.split)

lemma run_job_path:
  assumes "sound s" "friendly job_of sound (run_events (runner job))"
  shows "sound (snd (run_job H S runner cfg event job s)) \<and> jobs_path job_of s (snd (run_job H S runner cfg event job s))"
proof -
  obtain c s1 where r: "renew_loop S (j_ID job) (c_Owner cfg) (c_Lease cfg) (run_events (runner job)) False s = (c, s1)"
    by force
  from renew_loop_path [OF assms r] show ?thesis using assms(1) r by (simp add: run_job_def)
qed

text \<open>One event: every job of the store moves along the life cycle, whatever fails on the way.\<close>

lemma handle_event_path:
  assumes "sound s" "\<And>job. friendly job_of sound (run_events (runner job))"
    and "handle_event H S runner cfg k event s = (e, s')"
  shows "sound s' \<and> jobs_path job_of s s'"
proof -
  obtain r s1 where c: "st_Claim S (k_wall k) (e_JobID event) (c_Owner cfg) (k_claim k) (c_Lease cfg) s = (r, s1)"
    by force
  have s1: "sound s1" "jobs_path job_of s s1"
    using claim_sound [OF assms(1) c] claim_evolves [OF assms(1) c] by (auto intro: jobs_path_step)
  show ?thesis
  proof (cases r)
    case (Inl x)
    with assms(3) c s1 show ?thesis by (simp add: handle_event_def)
  next
    case (Inr p)
    obtain job claimed where p: "p = (job, claimed)" by force
    consider "\<not> claimed" | "claimed" "j_Attempts job > c_MaxAttempts cfg"
      | "claimed" "\<not> j_Attempts job > c_MaxAttempts cfg" by blast
    then show ?thesis
    proof cases
      case 1
      with assms(3) c s1 Inr p show ?thesis by (auto simp: handle_event_def split: if_splits)
    next
      case 2
      with assms(3) c Inr p have "s' = snd (settle (st_DeadLetter S (k_wall k) (j_ID job) (c_Owner cfg) (k_dead k) ''attempts_exhausted'' s1))"
        by (simp add: handle_event_def)
      with ending_paths(3) [OF s1(1)] s1(2) show ?thesis by (auto intro: jobs_path_trans)
    next
      case 3
      obtain err s2 where run: "run_job H S runner cfg event job s1 = (err, s2)" by force
      with 3 assms(3) c Inr p have s': "s' = snd (finish_job S cfg k job err s2)"
        by (simp add: handle_event_def)
      have "sound s2" "jobs_path job_of s1 s2"
        using run_job_path [where runner = runner and job = job and H = H and cfg = cfg and event = event, OF s1(1) assms(2)] run by auto
      with finish_job_path [of s2 cfg k job err] s' s1(2) show ?thesis by (auto intro: jobs_path_trans)
    qed
  qed
qed

text \<open>Whatever the run answered, the job is settled by exactly one ending operation.\<close>

lemma finish_job_settles:
  assumes "sound s"
  obtains out now st reason where "finish_job S cfg k job err s = settle out" "terminal st \<or> st = Retrying"
    "finish_contract job_of rnd (j_ID job) (c_Owner cfg) now st reason s out"
proof (cases err)
  case None
  show ?thesis by (rule that [OF _ _ complete_law [OF assms]]) (simp_all add: None finish_job_def)
next
  case (Some e)
  consider "e = ErrRejected" | "e \<noteq> ErrRejected" "j_Attempts job \<ge> c_MaxAttempts cfg"
    | "e \<noteq> ErrRejected" "\<not> j_Attempts job \<ge> c_MaxAttempts cfg" by blast
  then show ?thesis
  proof cases
    case 1
    show ?thesis by (rule that [OF _ _ reject_law [OF assms]]) (simp_all add: Some 1 finish_job_def Let_def)
  next
    case 2
    show ?thesis by (rule that [OF _ _ dead_law [OF assms]]) (simp_all add: Some 2 finish_job_def Let_def)
  next
    case 3
    show ?thesis by (rule that [OF _ _ retry_law [OF assms]]) (use 3 in \<open>simp_all add: Some finish_job_def Let_def\<close>)
  qed
qed

text \<open>
  Acknowledgement: \<open>Handle\<close> answers nil only for a job that has ended or waits for its retry.
\<close>

lemma finish_job_ack:
  assumes "sound s" "finish_job S cfg k job err s = (None, s')"
  shows "\<exists>j. job_of s' (j_ID job) = Some j \<and> (terminal (j_Status j) \<or> j_Status j = Retrying)"
proof -
  obtain out now st reason where o: "finish_job S cfg k job err s = settle out" "terminal st \<or> st = Retrying"
    "finish_contract job_of rnd (j_ID job) (c_Owner cfg) now st reason s out"
    by (rule finish_job_settles [OF assms(1)])
  with assms(2) have "out = (Inr True, s')" by (simp add: settle_None)
  with o show ?thesis by (auto dest!: finish_contract_True simp: ended_job_def)
qed

lemma handle_event_ack:
  assumes "sound s" "\<And>job. friendly job_of sound (run_events (runner job))"
    and "handle_event H S runner cfg k event s = (None, s')"
  shows "\<exists>j. job_of s' (e_JobID event) = Some j \<and> (terminal (j_Status j) \<or> j_Status j = Retrying)"
proof -
  obtain r s1 where c: "st_Claim S (k_wall k) (e_JobID event) (c_Owner cfg) (k_claim k) (c_Lease cfg) s = (r, s1)"
    by force
  have s1: "sound s1" using claim_sound [OF assms(1) c] .
  obtain job claimed where r: "r = Inr (job, claimed)"
    using assms(3) c by (cases r) (auto simp: handle_event_def)
  show ?thesis
  proof (cases claimed)
    case False
    with claim_lost [OF assms(1), of "k_wall k" "e_JobID event"] c r have "job_of s1 (e_JobID event) = Some job" by auto
    with assms(3) c r False show ?thesis by (auto simp: handle_event_def terminal_def split: if_splits)
  next
    case True
    with c r have c': "st_Claim S (k_wall k) (e_JobID event) (c_Owner cfg) (k_claim k) (c_Lease cfg) s = (Inr (job, True), s1)"
      by simp
    from claim_won [OF assms(1) c'] have id: "j_ID job = e_JobID event" using sound_id [OF s1] by simp
    show ?thesis
    proof (cases "j_Attempts job > c_MaxAttempts cfg")
      case True
      with assms(3) c' have "st_DeadLetter S (k_wall k) (e_JobID event) (c_Owner cfg) (k_dead k) ''attempts_exhausted'' s1
          = (Inr True, s')" by (simp add: handle_event_def settle_None id)
      with dead_law [OF s1] have "finish_contract job_of rnd (e_JobID event) (c_Owner cfg) (k_dead k) DeadLetter
          ''attempts_exhausted'' s1 (Inr True, s')" by metis
      then show ?thesis by (auto dest!: finish_contract_True simp: ended_job_def)
    next
      case False
      obtain err s2 where run: "run_job H S runner cfg event job s1 = (err, s2)" by force
      have "sound s2" using run_job_path [where runner = runner and job = job and H = H and cfg = cfg and event = event, OF s1 assms(2)] run by simp
      moreover have "finish_job S cfg k job err s2 = (None, s')"
        using assms(3) c' False run by (simp add: handle_event_def)
      ultimately show ?thesis using finish_job_ack id by fastforce
    qed
  qed
qed

text \<open>Fencing: after somebody else took the lease, ending the job reports an error and changes nothing.\<close>

lemma finish_job_fenced:
  assumes "sound s" "job_of s (j_ID job) = Some j" "j_LeaseOwner j \<noteq> c_Owner cfg"
    and "finish_job S cfg k job err s = (e, s')"
  shows "e \<noteq> None \<and> job_of s' = job_of s"
proof -
  obtain out now st reason where o: "finish_job S cfg k job err s = settle out"
    "finish_contract job_of rnd (j_ID job) (c_Owner cfg) now st reason s out"
    by (rule finish_job_settles [OF assms(1)])
  then have "job_of (snd out) = job_of s \<and> fst out \<noteq> Inr True"
    using stale_owner_finish [of "j_ID job" "c_Owner cfg" now st reason s "fst out" "snd out" j] assms(2,3)
    by simp
  with assms(4) o(1) settle_None [of out s'] settle_snd [of out] show ?thesis
    by (cases out) (auto simp: settle_def split: sum.splits if_splits)
qed

end

end
