(* ===== verification/Kafka_Memory.thy ===== *)
theory Kafka_Memory
  imports Kafka_Worker
begin

text \<open>
  \<open>MemoryStore\<close> of \<open>internal/kafka/memory.go\<close> (and its \<open>Renew\<close> in \<open>recovery.go\<close>).  The
  three Go maps are partial functions; \<open>ms_ids\<close> is the process-wide counter \<open>idSequence\<close>.
  HOL values are immutable, so \<open>cloneJob\<close> and the slice copies are identities here.  The mutex
  makes each method one atomic step.  \<open>now\<close> of \<open>mem_Receive\<close> and \<open>wall\<close> of
  \<open>mem_MarkPublished\<close> are the values of \<open>time.Now()\<close> read inside; the unspecified iteration
  order of the outbox map is the argument \<open>order\<close> of \<open>mem_PendingOutbox\<close>.
\<close>

record MemoryStore =
  ms_jobs :: "string \<Rightarrow> Job option"
  ms_byDeliv :: "string \<Rightarrow> string option"
  ms_outbox :: "string \<Rightarrow> OutboxRecord option"
  ms_seq :: int
  ms_ids :: nat

definition NewMemoryStore :: MemoryStore where
  "NewMemoryStore = \<lparr>ms_jobs = Map.empty, ms_byDeliv = Map.empty, ms_outbox = Map.empty,
                     ms_seq = 0, ms_ids = 0\<rparr>"

definition zero_options :: JobOptions where
  "zero_options = \<lparr>o_TraceParent = [], o_TraceState = [], o_TenantID = [], o_ProjectID = [],
     o_Actor = [], o_Benchmark = False, o_ApprovedJobID = [], o_ApprovalReportSHA = []\<rparr>"

text \<open>The zero \<open>Job\<close>, which indexing a map at a missing key yields.\<close>

definition zero_job :: Job where
  "zero_job = \<lparr>j_Options = zero_options, j_ID = [], j_DeliveryID = [], j_PRNumber = 0, j_SQL = [],
     j_CandidateSpec = [], j_SQLSHA256 = [], j_CandidateSpecSHA256 = [], j_Status = Received,
     j_Attempts = 0, j_NextAttemptAt = zero_time, j_LeaseOwner = [], j_LeaseUntil = zero_time,
     j_LastError = [], j_CreatedAt = zero_time, j_UpdatedAt = zero_time, j_CompletedAt = None\<rparr>"

definition job_at :: "(string \<Rightarrow> Job option) \<Rightarrow> string \<Rightarrow> Job" where
  "job_at m k = (case m k of None \<Rightarrow> zero_job | Some j \<Rightarrow> j)"

definition invalid_input :: "ReceiveInput \<Rightarrow> bool" where
  "invalid_input inp \<longleftrightarrow>
     in_DeliveryID inp = [] \<or> in_PRNumber inp < 1 \<or> length (in_SQL inp) = 0
     \<or> length (in_CandidateSpec inp) = 0"

definition received_job :: "hash \<Rightarrow> string \<Rightarrow> time \<Rightarrow> ReceiveInput \<Rightarrow> Job" where
  "received_job H jobID now inp =
     \<lparr>j_Options = normalized (in_Options inp), j_ID = jobID, j_DeliveryID = in_DeliveryID inp,
      j_PRNumber = in_PRNumber inp, j_SQL = in_SQL inp, j_CandidateSpec = in_CandidateSpec inp,
      j_SQLSHA256 = digest H (in_SQL inp), j_CandidateSpecSHA256 = digest H (in_CandidateSpec inp),
      j_Status = Received, j_Attempts = 0, j_NextAttemptAt = now, j_LeaseOwner = [],
      j_LeaseUntil = zero_time, j_LastError = [], j_CreatedAt = now, j_UpdatedAt = now,
      j_CompletedAt = None\<rparr>"

definition job_event :: "string \<Rightarrow> string \<Rightarrow> string \<Rightarrow> int \<Rightarrow> Event" where
  "job_event eventID jobID delivery attempt =
     \<lparr>e_SchemaVersion = 1, e_EventID = eventID, e_JobID = jobID, e_DeliveryID = delivery,
      e_Attempt = attempt\<rparr>"

definition mem_Receive ::
  "hash \<Rightarrow> time \<Rightarrow> ReceiveInput \<Rightarrow> MemoryStore \<Rightarrow> (workflow_error + ReceiveResult) \<times> MemoryStore" where
  "mem_Receive H now inp s =
     (if invalid_input inp then (Inl InvalidReceiveInput, s)
      else case ms_byDeliv s (in_DeliveryID inp) of
        Some jid \<Rightarrow>
          if \<not> sameDelivery H (job_at (ms_jobs s) jid) inp then (Inl ErrDeliveryConflict, s)
          else (Inr \<lparr>res_Job = job_at (ms_jobs s) jid, res_Duplicate = True\<rparr>, s)
      | None \<Rightarrow>
          let seq = i64 (ms_seq s + 1);
              jobID = newID H ''job'' now seq (ms_ids s + 1);
              eventID = newID H ''event'' now seq (ms_ids s + 2);
              job = received_job H jobID now inp;
              s1 = s\<lparr>ms_seq := seq, ms_ids := ms_ids s + 2,
                     ms_jobs := (ms_jobs s)(jobID \<mapsto> job),
                     ms_byDeliv := (ms_byDeliv s)(in_DeliveryID inp \<mapsto> jobID)\<rparr>;
              payload = MarshalSafe (job_event eventID jobID (in_DeliveryID inp) 1);
              s2 = s1\<lparr>ms_outbox := (ms_outbox s1)(eventID \<mapsto>
                       \<lparr>ob_EventID = eventID, ob_JobID = jobID, ob_Topic = ''sql-sentinel.jobs'',
                        ob_Payload = payload, ob_Attempts = 0, ob_AvailableAt = now\<rparr>)\<rparr>;
              job' = job\<lparr>j_Status := Queued, j_UpdatedAt := now\<rparr>;
              s3 = s2\<lparr>ms_jobs := (ms_jobs s2)(jobID \<mapsto> job')\<rparr>
          in (Inr \<lparr>res_Job = job', res_Duplicate = False\<rparr>, s3))"

definition mem_Claim ::
  "string \<Rightarrow> string \<Rightarrow> time \<Rightarrow> duration \<Rightarrow> MemoryStore
     \<Rightarrow> (workflow_error + Job \<times> bool) \<times> MemoryStore" where
  "mem_Claim jobID owner now lease s =
     (case ms_jobs s jobID of
        None \<Rightarrow> (Inl ErrNotFound, s)
      | Some job \<Rightarrow>
          if j_Status job = Completed \<or> j_Status job = Rejected \<or> j_Status job = DeadLetter
          then (Inr (job, False), s)
          else if j_Status job = Running \<and> j_LeaseUntil job > now then (Inr (job, False), s)
          else if (j_Status job = Queued \<or> j_Status job = Retrying) \<and> j_NextAttemptAt job > now
          then (Inr (job, False), s)
          else
            let job1 = job\<lparr>j_Status := Running, j_LeaseOwner := owner, j_LeaseUntil := now + lease\<rparr>;
                job2 = job1\<lparr>j_Attempts := i64 (j_Attempts job1 + 1)\<rparr>;
                job3 = job2\<lparr>j_UpdatedAt := now\<rparr>
            in (Inr (job3, True), s\<lparr>ms_jobs := (ms_jobs s)(jobID \<mapsto> job3)\<rparr>))"

definition not_holding :: "string \<Rightarrow> time \<Rightarrow> Job \<Rightarrow> bool" where
  "not_holding owner now job \<longleftrightarrow>
     j_Status job \<noteq> Running \<or> j_LeaseOwner job \<noteq> owner \<or> \<not> (j_LeaseUntil job > now)"

definition mem_finish ::
  "string \<Rightarrow> string \<Rightarrow> time \<Rightarrow> JobStatus \<Rightarrow> string \<Rightarrow> MemoryStore
     \<Rightarrow> (workflow_error + bool) \<times> MemoryStore" where
  "mem_finish jobID owner now status reason s =
     (case ms_jobs s jobID of
        None \<Rightarrow> (Inl ErrNotFound, s)
      | Some job \<Rightarrow>
          if not_holding owner now job then (Inr False, s)
          else
            let job1 = job\<lparr>j_Status := status, j_LastError := reason, j_LeaseOwner := [],
                           j_LeaseUntil := zero_time, j_UpdatedAt := now\<rparr>;
                job2 = (if status = Completed \<or> status = Rejected
                        then job1\<lparr>j_CompletedAt := Some now\<rparr> else job1)
            in (Inr True, s\<lparr>ms_jobs := (ms_jobs s)(jobID \<mapsto> job2)\<rparr>))"

definition mem_Complete ::
  "string \<Rightarrow> string \<Rightarrow> time \<Rightarrow> MemoryStore \<Rightarrow> (workflow_error + bool) \<times> MemoryStore" where
  "mem_Complete jobID owner now s = mem_finish jobID owner now Completed [] s"

definition mem_Reject ::
  "string \<Rightarrow> string \<Rightarrow> time \<Rightarrow> string \<Rightarrow> MemoryStore \<Rightarrow> (workflow_error + bool) \<times> MemoryStore" where
  "mem_Reject jobID owner now reason s = mem_finish jobID owner now Rejected reason s"

definition mem_DeadLetter ::
  "string \<Rightarrow> string \<Rightarrow> time \<Rightarrow> string \<Rightarrow> MemoryStore \<Rightarrow> (workflow_error + bool) \<times> MemoryStore" where
  "mem_DeadLetter jobID owner now reason s = mem_finish jobID owner now DeadLetter reason s"

definition mem_Retry ::
  "hash \<Rightarrow> string \<Rightarrow> string \<Rightarrow> time \<Rightarrow> time \<Rightarrow> string \<Rightarrow> MemoryStore
     \<Rightarrow> (workflow_error + bool) \<times> MemoryStore" where
  "mem_Retry H jobID owner now nxt reason s =
     (case ms_jobs s jobID of
        None \<Rightarrow> (Inl ErrNotFound, s)
      | Some job \<Rightarrow>
          if not_holding owner now job then (Inr False, s)
          else
            let job1 = job\<lparr>j_Status := Retrying, j_LastError := reason, j_NextAttemptAt := nxt,
                           j_LeaseOwner := [], j_LeaseUntil := zero_time, j_UpdatedAt := now\<rparr>;
                s1 = s\<lparr>ms_jobs := (ms_jobs s)(jobID \<mapsto> job1)\<rparr>;
                eventID = newID H ''retry'' now (j_Attempts job1) (ms_ids s1 + 1);
                payload = MarshalSafe (job_event eventID (j_ID job1) (j_DeliveryID job1)
                            (i64 (j_Attempts job1 + 1)))
            in (Inr True,
                s1\<lparr>ms_ids := ms_ids s1 + 1,
                   ms_outbox := (ms_outbox s1)(eventID \<mapsto>
                     \<lparr>ob_EventID = eventID, ob_JobID = j_ID job1, ob_Topic = ''sql-sentinel.jobs'',
                      ob_Payload = payload, ob_Attempts = 0, ob_AvailableAt = nxt\<rparr>)\<rparr>))"

definition mem_Renew ::
  "string \<Rightarrow> string \<Rightarrow> time \<Rightarrow> duration \<Rightarrow> MemoryStore \<Rightarrow> (workflow_error + bool) \<times> MemoryStore" where
  "mem_Renew jobID owner now lease s =
     (case ms_jobs s jobID of
        None \<Rightarrow> (Inl ErrNotFound, s)
      | Some job \<Rightarrow>
          if not_holding owner now job then (Inr False, s)
          else (Inr True, s\<lparr>ms_jobs := (ms_jobs s)(jobID \<mapsto> job\<lparr>j_LeaseUntil := now + lease\<rparr>)\<rparr>))"

definition mem_Get :: "string \<Rightarrow> MemoryStore \<Rightarrow> (workflow_error + Job) \<times> MemoryStore" where
  "mem_Get deliveryID s =
     (case ms_byDeliv s deliveryID of
        None \<Rightarrow> (Inl ErrNotFound, s)
      | Some jid \<Rightarrow> (Inr (job_at (ms_jobs s) jid), s))"

text \<open>The loop of \<open>PendingOutbox\<close>: records so far in \<open>acc\<close>, keys still to visit in the list.\<close>

fun mem_pending_loop ::
  "(string \<Rightarrow> OutboxRecord option) \<Rightarrow> int \<Rightarrow> time \<Rightarrow> string list \<Rightarrow> OutboxRecord list \<Rightarrow> OutboxRecord list" where
  "mem_pending_loop m limit now [] acc = acc"
| "mem_pending_loop m limit now (k # ks) acc =
     (case m k of
        None \<Rightarrow> mem_pending_loop m limit now ks acc
      | Some rec \<Rightarrow>
          if ob_Payload rec \<noteq> None \<and> \<not> (ob_AvailableAt rec > now) then
            let acc' = acc @ [rec]
            in if int (length acc') = limit then acc' else mem_pending_loop m limit now ks acc'
          else mem_pending_loop m limit now ks acc)"

definition mem_PendingOutbox ::
  "string list \<Rightarrow> int \<Rightarrow> time \<Rightarrow> MemoryStore \<Rightarrow> (workflow_error + OutboxRecord list) \<times> MemoryStore" where
  "mem_PendingOutbox order limit now s =
     (if limit < 1 then (Inl InvalidOutboxLimit, s)
      else (Inr (mem_pending_loop (ms_outbox s) limit now order []), s))"

definition mem_MarkPublished ::
  "time \<Rightarrow> string \<Rightarrow> time \<Rightarrow> workflow_error option \<Rightarrow> MemoryStore \<Rightarrow> workflow_error option \<times> MemoryStore" where
  "mem_MarkPublished wall eventID now publishErr s =
     (case ms_outbox s eventID of
        None \<Rightarrow> (Some ErrNotFound, s)
      | Some rec \<Rightarrow>
          let rec' = (case publishErr of
                        None \<Rightarrow> rec\<lparr>ob_Payload := None\<rparr>
                      | Some _ \<Rightarrow>
                          let a = i64 (ob_Attempts rec + 1)
                          in rec\<lparr>ob_Attempts := a, ob_AvailableAt := wall + RetryDelay second minute a\<rparr>)
          in (None, s\<lparr>ms_outbox := (ms_outbox s)(eventID \<mapsto> rec')\<rparr>))"

definition memory_store :: "hash \<Rightarrow> (MemoryStore \<Rightarrow> string list) \<Rightarrow> MemoryStore store_ops" where
  "memory_store H order =
     \<lparr>st_Receive = mem_Receive H,
      st_Claim = (\<lambda>wall. mem_Claim),
      st_Complete = (\<lambda>wall. mem_Complete),
      st_Reject = (\<lambda>wall. mem_Reject),
      st_Retry = (\<lambda>wall. mem_Retry H),
      st_DeadLetter = (\<lambda>wall. mem_DeadLetter),
      st_Get = mem_Get,
      st_PendingOutbox = (\<lambda>limit now s. mem_PendingOutbox (order s) limit now s),
      st_MarkPublished = mem_MarkPublished,
      st_Renew = mem_Renew\<rparr>"

lemma memory_store_simps [simp]:
  "st_Receive (memory_store H order) = mem_Receive H"
  "st_Claim (memory_store H order) wall = mem_Claim"
  "st_Complete (memory_store H order) wall = mem_Complete"
  "st_Reject (memory_store H order) wall = mem_Reject"
  "st_Retry (memory_store H order) wall = mem_Retry H"
  "st_DeadLetter (memory_store H order) wall = mem_DeadLetter"
  "st_Get (memory_store H order) = mem_Get"
  "st_PendingOutbox (memory_store H order) limit now s = mem_PendingOutbox (order s) limit now s"
  "st_MarkPublished (memory_store H order) = mem_MarkPublished"
  "st_Renew (memory_store H order) = mem_Renew"
  by (simp_all add: memory_store_def)

section \<open>The invariant\<close>

text \<open>
  Both indexes agree, no stored job is still \<open>Received\<close>, a lease owner is recorded only on a
  running job, and the stored digests are those of the stored inputs.
\<close>

definition sound_job :: "hash \<Rightarrow> string \<Rightarrow> Job \<Rightarrow> bool" where
  "sound_job H k j \<longleftrightarrow>
     j_ID j = k \<and> j_Status j \<noteq> Received \<and> (j_Status j = Running \<or> j_LeaseOwner j = [])
     \<and> j_DeliveryID j \<noteq> [] \<and> in_i64 (j_Attempts j)
     \<and> j_SQLSHA256 j = digest H (j_SQL j) \<and> j_CandidateSpecSHA256 j = digest H (j_CandidateSpec j)"

definition mem_sound :: "hash \<Rightarrow> MemoryStore \<Rightarrow> bool" where
  "mem_sound H s \<longleftrightarrow>
     (\<forall>k j. ms_jobs s k = Some j \<longrightarrow> sound_job H k j \<and> ms_byDeliv s (j_DeliveryID j) = Some k)
     \<and> (\<forall>d k. ms_byDeliv s d = Some k \<longrightarrow> (\<exists>j. ms_jobs s k = Some j \<and> j_DeliveryID j = d))"

definition mem_ok :: "hash \<Rightarrow> time \<Rightarrow> MemoryStore \<Rightarrow> bool" where
  "mem_ok H wall s \<longleftrightarrow>
     ms_jobs s (newID H ''job'' wall (i64 (ms_seq s + 1)) (ms_ids s + 1)) = None"

lemma mem_sound_new [simp]: "mem_sound H NewMemoryStore"
  by (simp add: mem_sound_def NewMemoryStore_def)

lemma mem_sound_job: "mem_sound H s \<Longrightarrow> ms_jobs s k = Some j \<Longrightarrow> sound_job H k j"
  by (simp add: mem_sound_def)

text \<open>Replacing a job by one with the same identity keeps the invariant.\<close>

lemma mem_sound_upd [wf_intros]:
  assumes "mem_sound H s" "ms_jobs s k = Some j" "sound_job H k j'"
    and "j_DeliveryID j' = j_DeliveryID j"
    and "ms_jobs s' = (ms_jobs s)(k \<mapsto> j')" "ms_byDeliv s' = ms_byDeliv s"
  shows "mem_sound H s'"
  using assms by (fastforce simp: mem_sound_def split: if_splits)

lemma sound_job_update:
  "sound_job H k j \<Longrightarrow> same_identity j j' \<Longrightarrow> j_Status j' \<noteq> Received \<Longrightarrow>
    j_Status j' = Running \<or> j_LeaseOwner j' = [] \<Longrightarrow> in_i64 (j_Attempts j') \<Longrightarrow> sound_job H k j'"
  by (simp add: sound_job_def same_identity_def)

section \<open>The operations satisfy the store contract\<close>

lemma mem_Claim_won_eq:
  assumes "ms_jobs s jid = Some j" "claimable_at now j"
  shows "mem_Claim jid owner now lease s =
    (Inr (claimed_job (\<lambda>t. t) owner now lease j, True),
     s\<lparr>ms_jobs := (ms_jobs s)(jid \<mapsto> claimed_job (\<lambda>t. t) owner now lease j)\<rparr>)"
  using assms by (auto simp: mem_Claim_def claimable_at_def claimed_job_def Let_def)

lemma mem_Claim_lost_eq:
  assumes "ms_jobs s jid = Some j" "\<not> claimable_at now j" "j_Status j \<noteq> Received"
  shows "mem_Claim jid owner now lease s = (Inr (j, False), s)"
  using assms by (cases "j_Status j") (simp_all add: mem_Claim_def claimable_at_def)

lemma mem_Claim_missing: "ms_jobs s jid = None \<Longrightarrow> mem_Claim jid owner now lease s = (Inl ErrNotFound, s)"
  by (simp add: mem_Claim_def)

lemma mem_Claim_cases:
  assumes "mem_sound H s"
  obtains (missing) "ms_jobs s jid = None" "mem_Claim jid owner now lease s = (Inl ErrNotFound, s)"
  | (lost) j where "ms_jobs s jid = Some j" "\<not> claimable_at now j"
      "mem_Claim jid owner now lease s = (Inr (j, False), s)"
  | (won) j where "ms_jobs s jid = Some j" "claimable_at now j"
      "mem_Claim jid owner now lease s =
        (Inr (claimed_job (\<lambda>t. t) owner now lease j, True),
         s\<lparr>ms_jobs := (ms_jobs s)(jid \<mapsto> claimed_job (\<lambda>t. t) owner now lease j)\<rparr>)"
proof (cases "ms_jobs s jid")
  case None
  then show ?thesis by (rule missing) (simp add: mem_Claim_missing None)
next
  case (Some j)
  then have "j_Status j \<noteq> Received" using mem_sound_job [OF assms] by (simp add: sound_job_def)
  then show ?thesis
    using Some lost won mem_Claim_won_eq mem_Claim_lost_eq by blast
qed

lemma mem_Claim_sound:
  assumes "mem_sound H s" "mem_Claim jid owner now lease s = (r, s')"
  shows "mem_sound H s'"
  using assms(1)
proof (cases rule: mem_Claim_cases [where s = s and jid = jid and owner = owner and now = now and lease = lease])
  case (won j)
  have "sound_job H jid (claimed_job (\<lambda>t. t) owner now lease j)"
    by (rule sound_job_update [OF mem_sound_job [OF assms(1) won(1)]])
       (simp_all add: claimed_job_def same_identity_def)
  then show ?thesis
    using won assms by (intro mem_sound_upd [OF assms(1) won(1)]) (auto simp: claimed_job_def)
qed (use assms in auto)

text \<open>Every ending operation either finds no live lease of this owner, or sets the job it names.\<close>

lemma mem_finish_cases:
  obtains (missing) "ms_jobs s jid = None" "mem_finish jid owner now st reason s = (Inl ErrNotFound, s)"
  | (stale) j where "ms_jobs s jid = Some j" "\<not> running_by owner now j"
      "mem_finish jid owner now st reason s = (Inr False, s)"
  | (ended) j j' where "ms_jobs s jid = Some j" "running_by owner now j" "ended_job st reason j j'"
      "mem_finish jid owner now st reason s = (Inr True, s\<lparr>ms_jobs := (ms_jobs s)(jid \<mapsto> j')\<rparr>)"
proof (cases "ms_jobs s jid")
  case None
  then show ?thesis by (intro missing) (simp_all add: mem_finish_def)
next
  case (Some j)
  show ?thesis
  proof (cases "running_by owner now j")
    case True
    then show ?thesis
      using Some by (intro ended) (auto simp: mem_finish_def not_holding_def running_by_def Let_def
          ended_job_def same_identity_def)
  next
    case False
    then show ?thesis
      using Some by (intro stale) (auto simp: mem_finish_def not_holding_def running_by_def)
  qed
qed

lemma mem_Retry_cases:
  obtains (missing) "ms_jobs s jid = None" "mem_Retry H jid owner now nxt reason s = (Inl ErrNotFound, s)"
  | (stale) j where "ms_jobs s jid = Some j" "\<not> running_by owner now j"
      "mem_Retry H jid owner now nxt reason s = (Inr False, s)"
  | (ended) j j' s' where "ms_jobs s jid = Some j" "running_by owner now j"
      "ended_job Retrying reason j j'" "j_NextAttemptAt j' = nxt"
      "mem_Retry H jid owner now nxt reason s = (Inr True, s')"
      "ms_jobs s' = (ms_jobs s)(jid \<mapsto> j')" "ms_byDeliv s' = ms_byDeliv s"
proof (cases "ms_jobs s jid")
  case None
  then show ?thesis by (intro missing) (simp_all add: mem_Retry_def)
next
  case (Some j)
  show ?thesis
  proof (cases "running_by owner now j")
    case True
    then show ?thesis
      using Some
      by (intro ended [of j "j\<lparr>j_Status := Retrying, j_LastError := reason, j_NextAttemptAt := nxt,
            j_LeaseOwner := [], j_LeaseUntil := zero_time, j_UpdatedAt := now\<rparr>"
            "snd (mem_Retry H jid owner now nxt reason s)"])
         (auto simp: mem_Retry_def not_holding_def running_by_def Let_def ended_job_def same_identity_def)
  next
    case False
    then show ?thesis
      using Some by (intro stale) (auto simp: mem_Retry_def not_holding_def running_by_def)
  qed
qed


lemma sound_job_ended:
  "sound_job H k j \<Longrightarrow> ended_job st reason j j' \<Longrightarrow> st \<noteq> Received \<Longrightarrow> sound_job H k j'"
  by (rule sound_job_update) (auto simp: ended_job_def sound_job_def)

lemma ended_job_DeliveryID: "ended_job st reason j j' \<Longrightarrow> j_DeliveryID j' = j_DeliveryID j"
  by (simp add: ended_job_def same_identity_def)

lemma mem_finish_sound:
  assumes "mem_sound H s" "st \<noteq> Received"
  shows "mem_sound H (snd (mem_finish jid owner now st reason s))"
proof (cases rule: mem_finish_cases [where s = s and jid = jid and owner = owner and now = now
      and st = st and reason = reason])
  case (ended j j')
  with assms show ?thesis
    by (auto intro!: mem_sound_upd [OF assms(1) ended(1), of j'] simp: ended_job_DeliveryID
        intro: sound_job_ended mem_sound_job)
qed (use assms in auto)

lemma mem_finish_law:
  "finish_contract ms_jobs (\<lambda>t. t) jid owner now st reason s (mem_finish jid owner now st reason s)"
  by (rule mem_finish_cases [where s = s and jid = jid and owner = owner and now = now
      and st = st and reason = reason]) (auto simp: finish_contract_def)

lemma mem_Retry_sound:
  assumes "mem_sound H s"
  shows "mem_sound H (snd (mem_Retry H jid owner now nxt reason s))"
proof (cases rule: mem_Retry_cases [where s = s and jid = jid and owner = owner and now = now
      and H = H and reason = reason and nxt = nxt])
  case (ended j j' s')
  with assms show ?thesis
    by (auto intro!: mem_sound_upd [OF assms(1) ended(1), of j'] simp: ended_job_DeliveryID
        intro: sound_job_ended mem_sound_job)
qed (use assms in auto)

lemma mem_Retry_law:
  "finish_contract ms_jobs (\<lambda>t. t) jid owner now Retrying reason s (mem_Retry H jid owner now nxt reason s)"
  by (rule mem_Retry_cases [where s = s and jid = jid and owner = owner and now = now
      and H = H and reason = reason and nxt = nxt]) (auto simp: finish_contract_def)

lemma mem_Renew_cases:
  obtains (missing) "ms_jobs s jid = None" "mem_Renew jid owner now lease s = (Inl ErrNotFound, s)"
  | (stale) j where "ms_jobs s jid = Some j" "\<not> running_by owner now j"
      "mem_Renew jid owner now lease s = (Inr False, s)"
  | (renewed) j where "ms_jobs s jid = Some j" "running_by owner now j"
      "mem_Renew jid owner now lease s =
        (Inr True, s\<lparr>ms_jobs := (ms_jobs s)(jid \<mapsto> j\<lparr>j_LeaseUntil := now + lease\<rparr>)\<rparr>)"
proof (cases "ms_jobs s jid")
  case None
  then show ?thesis by (intro missing) (simp_all add: mem_Renew_def)
next
  case (Some j)
  show ?thesis
  proof (cases "running_by owner now j")
    case True
    then show ?thesis
      using Some by (intro renewed) (auto simp: mem_Renew_def not_holding_def running_by_def)
  next
    case False
    then show ?thesis
      using Some by (intro stale) (auto simp: mem_Renew_def not_holding_def running_by_def)
  qed
qed

lemma mem_Renew_sound:
  assumes "mem_sound H s"
  shows "mem_sound H (snd (mem_Renew jid owner now lease s))"
proof (cases rule: mem_Renew_cases [where s = s and jid = jid and owner = owner and now = now and lease = lease])
  case (renewed j)
  have "sound_job H jid (j\<lparr>j_LeaseUntil := now + lease\<rparr>)"
    using mem_sound_job [OF assms renewed(1)] by (simp add: sound_job_def)
  with assms renewed show ?thesis
    by (auto intro!: mem_sound_upd [OF assms renewed(1)])
qed (use assms in auto)

lemma mem_Renew_law:
  assumes "mem_Renew jid owner now lease s = (r, s')"
  shows "(\<forall>k. k \<noteq> jid \<longrightarrow> ms_jobs s' k = ms_jobs s k)
      \<and> (ms_jobs s' jid = ms_jobs s jid
         \<or> (\<exists>j n. ms_jobs s jid = Some j \<and> running_by owner now j
              \<and> ms_jobs s' jid = Some (j\<lparr>j_LeaseUntil := now + lease, j_UpdatedAt := n\<rparr>)))"
proof (cases rule: mem_Renew_cases [where s = s and jid = jid and owner = owner and now = now and lease = lease])
  case (renewed j)
  then have s': "s' = s\<lparr>ms_jobs := (ms_jobs s)(jid \<mapsto> j\<lparr>j_LeaseUntil := now + lease\<rparr>)\<rparr>"
    using assms by simp
  have "\<exists>n. j\<lparr>j_LeaseUntil := now + lease\<rparr> = j\<lparr>j_LeaseUntil := now + lease, j_UpdatedAt := n\<rparr>"
    by (rule exI [of _ "j_UpdatedAt j"]) simp
  with renewed(1,2) show ?thesis by (simp add: s')
qed (use assms in auto)


subsection \<open>Receive\<close>

definition mem_new_id :: "hash \<Rightarrow> time \<Rightarrow> MemoryStore \<Rightarrow> string" where
  "mem_new_id H now s = newID H ''job'' now (i64 (ms_seq s + 1)) (ms_ids s + 1)"

definition queued_job :: "hash \<Rightarrow> string \<Rightarrow> time \<Rightarrow> ReceiveInput \<Rightarrow> Job" where
  "queued_job H jobID now inp = (received_job H jobID now inp)\<lparr>j_Status := Queued\<rparr>"

lemma mem_Receive_cases:
  obtains (invalid) "invalid_input inp" "mem_Receive H now inp s = (Inl InvalidReceiveInput, s)"
  | (conflict) jid where "\<not> invalid_input inp" "ms_byDeliv s (in_DeliveryID inp) = Some jid"
      "\<not> sameDelivery H (job_at (ms_jobs s) jid) inp"
      "mem_Receive H now inp s = (Inl ErrDeliveryConflict, s)"
  | (duplicate) jid where "\<not> invalid_input inp" "ms_byDeliv s (in_DeliveryID inp) = Some jid"
      "sameDelivery H (job_at (ms_jobs s) jid) inp"
      "mem_Receive H now inp s = (Inr \<lparr>res_Job = job_at (ms_jobs s) jid, res_Duplicate = True\<rparr>, s)"
  | (created) s' where "\<not> invalid_input inp" "ms_byDeliv s (in_DeliveryID inp) = None"
      "mem_Receive H now inp s =
        (Inr \<lparr>res_Job = queued_job H (mem_new_id H now s) now inp, res_Duplicate = False\<rparr>, s')"
      "ms_jobs s' = (ms_jobs s)(mem_new_id H now s \<mapsto> queued_job H (mem_new_id H now s) now inp)"
      "ms_byDeliv s' = (ms_byDeliv s)(in_DeliveryID inp \<mapsto> mem_new_id H now s)"
proof (cases "invalid_input inp")
  case True
  then show ?thesis by (intro invalid) (simp_all add: mem_Receive_def)
next
  case valid: False
  show ?thesis
  proof (cases "ms_byDeliv s (in_DeliveryID inp)")
    case None
    show ?thesis
      by (rule created [of "snd (mem_Receive H now inp s)"])
         (simp_all add: valid None mem_Receive_def Let_def mem_new_id_def queued_job_def received_job_def)
  next
    case (Some jid)
    with valid show ?thesis
      by (cases "sameDelivery H (job_at (ms_jobs s) jid) inp")
         (rule duplicate conflict, assumption+, simp add: mem_Receive_def)+
  qed
qed

lemma queued_job_simps [simp]:
  "j_ID (queued_job H k now inp) = k" "j_DeliveryID (queued_job H k now inp) = in_DeliveryID inp"
  "j_Status (queued_job H k now inp) = Queued" "new_job (queued_job H k now inp)"
  by (simp_all add: queued_job_def received_job_def new_job_def)

lemma sound_queued_job: "\<not> invalid_input inp \<Longrightarrow> sound_job H k (queued_job H k now inp)"
  by (simp add: sound_job_def queued_job_def received_job_def invalid_input_def in_i64_def)

lemma mem_sound_byDeliv:
  assumes "mem_sound H s" "ms_byDeliv s d = Some k"
  shows "ms_jobs s k = Some (job_at (ms_jobs s) k)" "j_DeliveryID (job_at (ms_jobs s) k) = d"
    "j_ID (job_at (ms_jobs s) k) = k"
proof -
  from assms have "\<exists>j. ms_jobs s k = Some j \<and> j_DeliveryID j = d"
    by (simp add: mem_sound_def)
  then obtain j where j: "ms_jobs s k = Some j" "j_DeliveryID j = d" by blast
  moreover from mem_sound_job [OF assms(1) j(1)] have "j_ID j = k" by (simp add: sound_job_def)
  ultimately show "ms_jobs s k = Some (job_at (ms_jobs s) k)" "j_DeliveryID (job_at (ms_jobs s) k) = d"
    "j_ID (job_at (ms_jobs s) k) = k" by (simp_all add: job_at_def)
qed

lemma mem_Receive_sound:
  assumes "mem_sound H s" "mem_ok H now s"
  shows "mem_sound H (snd (mem_Receive H now inp s))"
proof (cases rule: mem_Receive_cases [where s = s and inp = inp and H = H and now = now])
  case (created s')
  have none: "ms_jobs s (mem_new_id H now s) = None"
    using assms(2) by (simp add: mem_ok_def mem_new_id_def)
  have "mem_sound H s'"
    using assms(1) created none
    by (fastforce simp: mem_sound_def sound_queued_job)
  with created show ?thesis by simp
qed (use assms in auto)

lemma mem_Receive_evolves:
  assumes "mem_sound H s" "mem_ok H now s"
  shows "job_evolves (ms_jobs s k) (ms_jobs (snd (mem_Receive H now inp s)) k)"
proof (cases rule: mem_Receive_cases [where s = s and inp = inp and H = H and now = now])
  case (created s')
  with assms(2) show ?thesis by (auto simp: job_evolves_def mem_ok_def mem_new_id_def split: option.splits)
qed (use assms in auto)

interpretation mem_store: intake_store "memory_store H order" ms_jobs "mem_sound H" "\<lambda>t. t" "mem_ok H"
  for H order
proof (unfold_locales, goal_cases)
  case (1 s jid j)
  then show ?case using mem_sound_job by (auto simp: sound_job_def)
next
  case (2 s jid j)
  then show ?case using mem_sound_job by (auto simp: sound_job_def)
next
  case (3 s wall jid owner now lease r s')
  then show ?case by (simp add: mem_Claim_sound)
next
  case (4 s wall jid owner now lease r s' k)
  from 4(1) show ?case
    by (rule mem_Claim_cases [where jid = jid and owner = owner and now = now and lease = lease])
       (use 4 in auto)
next
  case (5 s wall jid owner now lease j s')
  from 5(1) show ?case
    by (rule mem_Claim_cases [where jid = jid and owner = owner and now = now and lease = lease])
       (use 5 in auto)
next
  case (6 s wall jid owner now lease j s')
  from 6(1) show ?case
    by (rule mem_Claim_cases [where jid = jid and owner = owner and now = now and lease = lease])
       (use 6 in auto)
next
  case (7 s wall jid owner now lease e s')
  from 7(1) show ?case
    by (rule mem_Claim_cases [where jid = jid and owner = owner and now = now and lease = lease])
       (use 7 in auto)
next
  case (17 s jid owner now lease rb s')
  from 17(2) show ?case unfolding memory_store_simps by (rule mem_Renew_law)
next
  case (18 s wall inp rr s')
  then show ?case using mem_Receive_sound [of H s wall inp] by simp
next
  case (19 s wall inp rr s' k)
  then show ?case using mem_Receive_evolves [of H s wall k inp] by simp
next
  case (20 s wall inp v s')
  show ?case
    by (rule mem_Receive_cases [where s = s and inp = inp and H = H and now = wall])
       (use 20 mem_sound_byDeliv [of H s] in auto)
next
  case (21 s wall inp v s')
  show ?case
    by (rule mem_Receive_cases [where s = s and inp = inp and H = H and now = wall])
       (use 21 in \<open>auto simp: mem_ok_def mem_new_id_def\<close>)
next
  case (22 s wall inp s')
  show ?case
    by (rule mem_Receive_cases [where s = s and inp = inp and H = H and now = wall])
       (use 22 in auto)
qed (simp_all add: mem_Complete_def mem_Reject_def mem_DeadLetter_def mem_finish_sound mem_finish_law
    mem_Retry_sound mem_Retry_law mem_Renew_sound mem_Renew_law)

end
