(* ===== verification/Kafka_MySQL.thy ===== *)
theory Kafka_MySQL
  imports Kafka_Memory
begin

text \<open>
  \<open>MySQLStore\<close> of \<open>internal/kafka/mysql.go\<close> and \<open>recovery.go\<close>: the tables of the constant
  \<open>Schema\<close> that the workflow reads or writes, each SQL statement as a function on them, and each
  method as the sequence of its statements.

  The database is not source code.  What the model takes from its documentation: a transaction
  that is not committed leaves the tables as they were; a unique key rejects a second row; a
  comparison with \<open>NULL\<close> selects nothing; the driver reports the number of rows an update
  \<^emph>\<open>changed\<close>.  Everything else is a parameter: \<open>db_time\<close> is the precision of a
  \<open>DATETIME(6)\<close> column, \<open>db_json\<close> the text a \<open>JSON\<close> column reads back as, and the oracle
  \<open>my_fail\<close> says which statement, counted over the whole run, fails (a lost connection, a
  deadlock, a value too long for its column).  Strings are compared byte by byte.  A method is one
  atomic step on the tables, except that the statements before a failing one outside a
  transaction stay done.
\<close>

record Database =
  db_time :: "time \<Rightarrow> time"
  db_json :: "bytes \<Rightarrow> bytes"

record JobRow =
  r_job_id :: string
  r_delivery_id :: string
  r_pr_number :: int
  r_sql_text :: bytes
  r_candidate_spec :: bytes
  r_sql_sha256 :: string
  r_candidate_spec_sha256 :: string
  r_status :: JobStatus
  r_attempts :: int
  r_next_attempt_at :: time
  r_lease_owner :: string
  r_lease_until :: "time option"
  r_last_error :: string
  r_created_at :: time
  r_updated_at :: time
  r_completed_at :: "time option"

record OutboxRow =
  x_event_id :: string
  x_job_id :: string
  x_topic :: string
  x_payload :: bytes
  x_attempts :: int
  x_available_at :: time
  x_published_at :: "time option"
  x_last_error :: string
  x_created_at :: time

record HistoryRow =
  h_job_id :: string
  h_status :: JobStatus
  h_reason :: string
  h_created_at :: time

record AuditRow =
  au_tenant_id :: string
  au_project_id :: string
  au_actor :: string
  au_action :: string
  au_resource_id :: string
  au_metadata :: JobOptions

record PoisonRow =
  po_topic :: string
  po_partition_id :: int
  po_offset_id :: int
  po_payload_sha256 :: string

record Tables =
  t_guard :: bool
  t_jobs :: "JobRow list"
  t_options :: "(string \<times> JobOptions) list"
  t_outbox :: "OutboxRow list"
  t_history :: "HistoryRow list"
  t_audit :: "AuditRow list"
  t_sources :: "(string \<times> bytes) list"
  t_poison :: "PoisonRow list"

record MySQL =
  my_tables :: Tables
  my_ids :: nat
  my_fail :: "nat \<Rightarrow> bool"
  my_stmt :: nat

type_synonym 'a db = "MySQL \<Rightarrow> (workflow_error + 'a) \<times> MySQL"

section \<open>Statements and transactions\<close>

definition db_bind :: "'a db \<Rightarrow> ('a \<Rightarrow> 'b db) \<Rightarrow> 'b db" where
  "db_bind m f s = (case m s of (Inl e, s') \<Rightarrow> (Inl e, s') | (Inr v, s') \<Rightarrow> f v s')"

definition db_return :: "'a \<Rightarrow> 'a db" where
  "db_return v s = (Inr v, s)"

definition db_raise :: "workflow_error \<Rightarrow> 'a db" where
  "db_raise e s = (Inl e, s)"

text \<open>
  One statement: it fails when the oracle says so; otherwise \<open>f\<close> gives its answer and the new
  tables, or \<open>None\<close> when the database rejects it.
\<close>

definition db_stmt :: "(Tables \<Rightarrow> ('a \<times> Tables) option) \<Rightarrow> 'a db" where
  "db_stmt f s =
     (let s1 = s\<lparr>my_stmt := my_stmt s + 1\<rparr>
      in if my_fail s (my_stmt s) then (Inl StoreFailed, s1)
         else case f (my_tables s) of
                None \<Rightarrow> (Inl StoreFailed, s1)
              | Some (v, t) \<Rightarrow> (Inr v, s1\<lparr>my_tables := t\<rparr>))"

definition db_new_id :: "hash \<Rightarrow> string \<Rightarrow> time \<Rightarrow> int \<Rightarrow> string db" where
  "db_new_id H pfx now n s =
     (Inr (newID H pfx now n (my_ids s + 1)), s\<lparr>my_ids := my_ids s + 1\<rparr>)"

text \<open>\<open>BeginTx\<close>, the body, \<open>Commit\<close>; every error on the way rolls the tables back.\<close>

definition db_query :: "(Tables \<Rightarrow> 'a) \<Rightarrow> 'a db" where
  "db_query f = db_stmt (\<lambda>t. Some (f t, t))"

definition db_transact :: "'a db \<Rightarrow> 'a db" where
  "db_transact m s =
     (case db_bind (db_query (\<lambda>t. ())) (\<lambda>_. db_bind m (\<lambda>v. db_bind (db_query (\<lambda>t. ())) (\<lambda>_. db_return v))) s of
        (Inl e, s') \<Rightarrow> (Inl e, s'\<lparr>my_tables := my_tables s\<rparr>)
      | (Inr v, s') \<Rightarrow> (Inr v, s'))"

lemma db_bind_Inr [simp]: "m s = (Inr v, s') \<Longrightarrow> db_bind m f s = f v s'"
  by (simp add: db_bind_def)

lemma db_bind_Inl [simp]: "m s = (Inl e, s') \<Longrightarrow> db_bind m f s = (Inl e, s')"
  by (simp add: db_bind_def)

definition find_job :: "string \<Rightarrow> Tables \<Rightarrow> JobRow option" where
  "find_job jid t = find (\<lambda>r. r_job_id r = jid) (t_jobs t)"

definition find_delivery :: "string \<Rightarrow> Tables \<Rightarrow> JobRow option" where
  "find_delivery d t = find (\<lambda>r. r_delivery_id r = d) (t_jobs t)"

text \<open>\<open>UPDATE sql_sentinel_jobs SET f WHERE job_id = jid AND P\<close>, with the number of changed rows.\<close>

definition upd_job :: "string \<Rightarrow> (JobRow \<Rightarrow> bool) \<Rightarrow> (JobRow \<Rightarrow> JobRow) \<Rightarrow> Tables \<Rightarrow> (nat \<times> Tables) option" where
  "upd_job jid P f t =
     Some (length (filter (\<lambda>r. r_job_id r = jid \<and> P r \<and> f r \<noteq> r) (t_jobs t)),
           t\<lparr>t_jobs := map (\<lambda>r. if r_job_id r = jid \<and> P r then f r else r) (t_jobs t)\<rparr>)"

definition ins_history :: "string \<Rightarrow> JobStatus \<Rightarrow> string \<Rightarrow> time \<Rightarrow> Tables \<Rightarrow> (unit \<times> Tables) option" where
  "ins_history jid st reason tm t =
     Some ((), t\<lparr>t_history := t_history t @
       [\<lparr>h_job_id = jid, h_status = st, h_reason = reason, h_created_at = tm\<rparr>]\<rparr>)"

definition ins_outbox ::
  "Database \<Rightarrow> string \<Rightarrow> string \<Rightarrow> bytes option \<Rightarrow> time \<Rightarrow> time \<Rightarrow> Tables \<Rightarrow> (unit \<times> Tables) option" where
  "ins_outbox q eventID jid payload available created t =
     (if eventID \<in> x_event_id ` set (t_outbox t) then None
      else case payload of
        None \<Rightarrow> None
      | Some p \<Rightarrow> Some ((), t\<lparr>t_outbox := t_outbox t @
          [\<lparr>x_event_id = eventID, x_job_id = jid, x_topic = ''sql-sentinel.jobs'',
            x_payload = db_json q p, x_attempts = 0, x_available_at = db_time q available,
            x_published_at = None, x_last_error = [], x_created_at = db_time q created\<rparr>]\<rparr>))"

section \<open>Reading a job\<close>

definition default_options :: JobOptions where
  "default_options = zero_options\<lparr>o_TenantID := ''operator'', o_ProjectID := ''default'',
     o_Actor := ''operator'', o_Benchmark := False\<rparr>"

text \<open>
  The row \<open>jobSelect\<close> returns, scanned into a \<open>Job\<close>.  The options column is the JSON of the
  options as they were stored; its text is read back to the same record.
\<close>

definition scan_job :: "Tables \<Rightarrow> JobRow \<Rightarrow> Job" where
  "scan_job t r =
     \<lparr>j_Options = (case map_of (t_options t) (r_job_id r) of None \<Rightarrow> default_options | Some opt \<Rightarrow> opt),
      j_ID = r_job_id r, j_DeliveryID = r_delivery_id r, j_PRNumber = r_pr_number r,
      j_SQL = r_sql_text r, j_CandidateSpec = r_candidate_spec r,
      j_SQLSHA256 = r_sql_sha256 r, j_CandidateSpecSHA256 = r_candidate_spec_sha256 r,
      j_Status = r_status r, j_Attempts = r_attempts r, j_NextAttemptAt = r_next_attempt_at r,
      j_LeaseOwner = r_lease_owner r,
      j_LeaseUntil = (case r_lease_until r of None \<Rightarrow> zero_time | Some u \<Rightarrow> u),
      j_LastError = r_last_error r, j_CreatedAt = r_created_at r, j_UpdatedAt = r_updated_at r,
      j_CompletedAt = r_completed_at r\<rparr>"

definition my_get :: "(Tables \<Rightarrow> JobRow option) \<Rightarrow> Job db" where
  "my_get sel =
     db_bind (db_query (\<lambda>t. map_option (scan_job t) (sel t)))
       (\<lambda>x. case x of None \<Rightarrow> db_raise ErrNotFound | Some j \<Rightarrow> db_return j)"

definition my_Get :: "string \<Rightarrow> Job db" where
  "my_Get deliveryID = my_get (find_delivery deliveryID)"

definition my_getByID :: "string \<Rightarrow> Job db" where
  "my_getByID jobID = my_get (find_job jobID)"

section \<open>Receive\<close>

datatype receive_outcome = Existing Job | DuplicateKey | Inserted

definition nanosecond_of :: "time \<Rightarrow> int" where
  "nanosecond_of t = t mod 1000000000"

definition new_row :: "hash \<Rightarrow> Database \<Rightarrow> string \<Rightarrow> time \<Rightarrow> ReceiveInput \<Rightarrow> JobRow" where
  "new_row H q jobID now inp =
     \<lparr>r_job_id = jobID, r_delivery_id = in_DeliveryID inp, r_pr_number = in_PRNumber inp,
      r_sql_text = in_SQL inp, r_candidate_spec = in_CandidateSpec inp,
      r_sql_sha256 = digest H (in_SQL inp), r_candidate_spec_sha256 = digest H (in_CandidateSpec inp),
      r_status = Received, r_attempts = 0, r_next_attempt_at = db_time q now, r_lease_owner = [],
      r_lease_until = None, r_last_error = [], r_created_at = db_time q now,
      r_updated_at = db_time q now, r_completed_at = None\<rparr>"

text \<open>\<open>INSERT INTO sql_sentinel_jobs\<close>: \<open>False\<close> for the duplicate-key error.\<close>

definition ins_job :: "JobRow \<Rightarrow> Tables \<Rightarrow> (bool \<times> Tables) option" where
  "ins_job r t =
     (if r_job_id r \<in> r_job_id ` set (t_jobs t) \<or> r_delivery_id r \<in> r_delivery_id ` set (t_jobs t)
      then Some (False, t)
      else Some (True, t\<lparr>t_jobs := t_jobs t @ [r]\<rparr>))"

definition ins_keyed :: "string \<Rightarrow> 'a \<Rightarrow> (string \<times> 'a) list \<Rightarrow> (string \<times> 'a) list option" where
  "ins_keyed k v m = (if k \<in> fst ` set m then None else Some (m @ [(k, v)]))"

definition pending_count :: "Tables \<Rightarrow> nat" where
  "pending_count t =
     length (take 1000 (filter (\<lambda>r. r_status r \<in> {Received, Queued, Running, Retrying}) (t_jobs t)))"

definition receive_inserts ::
  "hash \<Rightarrow> Database \<Rightarrow> time \<Rightarrow> ReceiveInput \<Rightarrow> string \<Rightarrow> string \<Rightarrow> receive_outcome db" where
  "receive_inserts H q now inp jobID eventID =
     (let opt = normalized (in_Options inp);
          action = (if o_Benchmark opt then ''benchmark.created'' else ''job.created'');
          payload = MarshalSafe (job_event eventID jobID (in_DeliveryID inp) 1)
      in db_bind (db_stmt (ins_job (new_row H q jobID now inp))) (\<lambda>fresh.
         if \<not> fresh then db_return DuplicateKey else
         db_bind (db_stmt (ins_history jobID Received [] (db_time q now))) (\<lambda>_.
         db_bind (db_stmt (\<lambda>t. map_option (\<lambda>m. ((), t\<lparr>t_options := m\<rparr>)) (ins_keyed jobID opt (t_options t)))) (\<lambda>_.
         db_bind (db_stmt (\<lambda>t. Some ((), t\<lparr>t_audit := t_audit t @
           [\<lparr>au_tenant_id = o_TenantID opt, au_project_id = o_ProjectID opt, au_actor = o_Actor opt,
             au_action = action, au_resource_id = jobID, au_metadata = opt\<rparr>]\<rparr>))) (\<lambda>_.
         db_bind (if length (in_SourceJSON inp) > 0
                  then db_stmt (\<lambda>t. map_option (\<lambda>m. ((), t\<lparr>t_sources := m\<rparr>))
                                      (ins_keyed jobID (in_SourceJSON inp) (t_sources t)))
                  else db_return ()) (\<lambda>_.
         db_bind (db_stmt (ins_outbox q eventID jobID payload now now)) (\<lambda>_.
         db_bind (db_stmt (upd_job jobID (\<lambda>r. True)
                    (\<lambda>r. r\<lparr>r_status := Queued, r_updated_at := db_time q now\<rparr>))) (\<lambda>_.
         db_bind (db_stmt (ins_history jobID Queued [] (db_time q now))) (\<lambda>_.
         db_return Inserted)))))))))"

definition receive_body :: "hash \<Rightarrow> Database \<Rightarrow> time \<Rightarrow> ReceiveInput \<Rightarrow> receive_outcome db" where
  "receive_body H q now inp =
     db_bind (db_stmt (\<lambda>t. if t_guard t then Some ((), t) else None)) (\<lambda>_.
     db_bind (db_query (\<lambda>t. map_option (scan_job t) (find_delivery (in_DeliveryID inp) t))) (\<lambda>prior.
     case prior of
       Some job \<Rightarrow> if \<not> sameDelivery H job inp then db_raise ErrDeliveryConflict else db_return (Existing job)
     | None \<Rightarrow>
         db_bind (db_query pending_count) (\<lambda>pending.
         if pending \<ge> 1000 then db_raise ErrBacklogFull else
         db_bind (db_new_id H ''job'' now (nanosecond_of now)) (\<lambda>jobID.
         db_bind (db_new_id H ''event'' now (nanosecond_of now + 1)) (\<lambda>eventID.
         receive_inserts H q now inp jobID eventID)))))"

definition rollback :: "MySQL \<Rightarrow> MySQL \<Rightarrow> MySQL" where
  "rollback s0 s = s\<lparr>my_tables := my_tables s0\<rparr>"

definition my_Receive ::
  "hash \<Rightarrow> Database \<Rightarrow> string \<times> string \<Rightarrow> time \<Rightarrow> ReceiveInput \<Rightarrow> ReceiveResult db" where
  "my_Receive H q carrier now inp0 s0 =
     (if invalid_input inp0 then (Inl InvalidReceiveInput, s0)
      else
        let inp = inp0\<lparr>in_Options := (in_Options inp0)\<lparr>o_TraceParent := fst carrier, o_TraceState := snd carrier\<rparr>\<rparr>
        in case db_query (\<lambda>t. ()) s0 of
          (Inl e, s1) \<Rightarrow> (Inl e, s1)
        | (Inr _, s1) \<Rightarrow>
            (case receive_body H q now inp s1 of
               (Inl e, s2) \<Rightarrow> (Inl e, rollback s1 s2)
             | (Inr (Existing job), s2) \<Rightarrow> (Inr \<lparr>res_Job = job, res_Duplicate = True\<rparr>, rollback s1 s2)
             | (Inr DuplicateKey, s2) \<Rightarrow>
                 db_bind (my_Get (in_DeliveryID inp)) (\<lambda>job.
                   if \<not> sameDelivery H job inp then db_raise ErrDeliveryConflict
                   else db_return \<lparr>res_Job = job, res_Duplicate = True\<rparr>) (rollback s1 s2)
             | (Inr Inserted, s2) \<Rightarrow>
                 (case db_query (\<lambda>t. ()) s2 of
                    (Inl e, s3) \<Rightarrow> (Inl e, rollback s1 s3)
                  | (Inr _, s3) \<Rightarrow>
                      db_bind (my_Get (in_DeliveryID inp))
                        (\<lambda>job. db_return \<lparr>res_Job = job, res_Duplicate = False\<rparr>) s3)))"

section \<open>Claim, finish, retry, renew\<close>

definition until_le :: "time \<Rightarrow> time option \<Rightarrow> bool" where
  "until_le t u = (case u of None \<Rightarrow> False | Some x \<Rightarrow> x \<le> t)"

definition until_gt :: "time \<Rightarrow> time option \<Rightarrow> bool" where
  "until_gt t u = (case u of None \<Rightarrow> False | Some x \<Rightarrow> x > t)"

definition row_claimable :: "time \<Rightarrow> JobRow \<Rightarrow> bool" where
  "row_claimable t r \<longleftrightarrow>
     (r_status r \<in> {Queued, Retrying} \<and> r_next_attempt_at r \<le> t)
     \<or> (r_status r = Running \<and> until_le t (r_lease_until r))"

definition row_held :: "string \<Rightarrow> time \<Rightarrow> JobRow \<Rightarrow> bool" where
  "row_held owner t r \<longleftrightarrow>
     r_status r = Running \<and> r_lease_owner r = owner \<and> until_gt t (r_lease_until r)"

text \<open>\<open>attempts\<close> is a 32-bit \<open>INT\<close>: the database rejects an update past its maximum.\<close>

definition int_max :: int where
  "int_max = 2147483647"

definition my_recordHistory :: "time \<Rightarrow> string \<Rightarrow> JobStatus \<Rightarrow> string \<Rightarrow> unit db" where
  "my_recordHistory wall jobID st reason = db_stmt (ins_history jobID st reason wall)"

definition claim_row :: "Database \<Rightarrow> string \<Rightarrow> time \<Rightarrow> duration \<Rightarrow> JobRow \<Rightarrow> JobRow" where
  "claim_row q owner now lease r =
     r\<lparr>r_status := Running, r_attempts := r_attempts r + 1, r_lease_owner := owner,
       r_lease_until := Some (db_time q (now + lease)), r_updated_at := db_time q now\<rparr>"

definition my_Claim ::
  "Database \<Rightarrow> time \<Rightarrow> string \<Rightarrow> string \<Rightarrow> time \<Rightarrow> duration \<Rightarrow> (Job \<times> bool) db" where
  "my_Claim q wall jobID owner now lease =
     db_bind (db_stmt (\<lambda>t.
        if \<exists>r \<in> set (t_jobs t). r_job_id r = jobID \<and> row_claimable (db_time q now) r \<and> r_attempts r \<ge> int_max
        then None
        else upd_job jobID (row_claimable (db_time q now)) (claim_row q owner now lease) t)) (\<lambda>n.
     db_bind (if n = 1 then my_recordHistory (db_time q wall) jobID Running [] else db_return ()) (\<lambda>_.
     db_bind (my_getByID jobID) (\<lambda>job. db_return (job, n = 1))))"

definition my_finish ::
  "Database \<Rightarrow> time \<Rightarrow> string \<Rightarrow> string \<Rightarrow> time \<Rightarrow> JobStatus \<Rightarrow> string \<Rightarrow> bool db" where
  "my_finish q wall jobID owner now st reason =
     db_bind (db_stmt (upd_job jobID (row_held owner (db_time q now))
        (\<lambda>r. r\<lparr>r_status := st, r_last_error := reason, r_lease_owner := [], r_lease_until := None,
               r_completed_at := Some (db_time q now), r_updated_at := db_time q now\<rparr>))) (\<lambda>n.
     db_bind (if n = 1 then my_recordHistory (db_time q wall) jobID st reason else db_return ()) (\<lambda>_.
     db_return (n = 1)))"

definition my_Complete :: "Database \<Rightarrow> time \<Rightarrow> string \<Rightarrow> string \<Rightarrow> time \<Rightarrow> bool db" where
  "my_Complete q wall jobID owner now = my_finish q wall jobID owner now Completed []"

definition my_Reject :: "Database \<Rightarrow> time \<Rightarrow> string \<Rightarrow> string \<Rightarrow> time \<Rightarrow> string \<Rightarrow> bool db" where
  "my_Reject q wall jobID owner now reason = my_finish q wall jobID owner now Rejected reason"

definition my_DeadLetter :: "Database \<Rightarrow> time \<Rightarrow> string \<Rightarrow> string \<Rightarrow> time \<Rightarrow> string \<Rightarrow> bool db" where
  "my_DeadLetter q wall jobID owner now reason = my_finish q wall jobID owner now DeadLetter reason"

definition my_Retry ::
  "hash \<Rightarrow> Database \<Rightarrow> time \<Rightarrow> string \<Rightarrow> string \<Rightarrow> time \<Rightarrow> time \<Rightarrow> string \<Rightarrow> bool db" where
  "my_Retry H q wall jobID owner now nxt reason =
     db_transact (
       db_bind (db_stmt (upd_job jobID (row_held owner (db_time q now))
          (\<lambda>r. r\<lparr>r_status := Retrying, r_last_error := reason, r_next_attempt_at := db_time q nxt,
                 r_lease_owner := [], r_lease_until := None, r_updated_at := db_time q now\<rparr>))) (\<lambda>n.
       if n = 1 then
         db_bind (my_getByID jobID) (\<lambda>job.
         db_bind (db_new_id H ''retry'' now (j_Attempts job)) (\<lambda>eventID.
         db_bind (db_stmt (ins_outbox q eventID (j_ID job)
                    (MarshalSafe (job_event eventID (j_ID job) (j_DeliveryID job) (i64 (j_Attempts job + 1))))
                    nxt now)) (\<lambda>_.
         db_bind (db_stmt (ins_history jobID Retrying reason (db_time q now))) (\<lambda>_.
         db_return True))))
       else db_return False))"

definition my_Renew ::
  "Database \<Rightarrow> string \<Rightarrow> string \<Rightarrow> time \<Rightarrow> duration \<Rightarrow> bool db" where
  "my_Renew q jobID owner now lease =
     db_bind (db_stmt (upd_job jobID (row_held owner (db_time q now))
        (\<lambda>r. r\<lparr>r_lease_until := Some (db_time q (now + lease)), r_updated_at := db_time q now\<rparr>))) (\<lambda>n.
     db_return (n = 1))"

section \<open>Recovery, quarantine and the outbox\<close>

text \<open>
  The rows \<open>RecoverExpired\<close> selects; \<open>locked\<close> are the jobs another transaction holds
  (\<open>SKIP LOCKED\<close>).  Rows with equal \<open>updated_at\<close> come in table order.
\<close>

definition five_minutes :: duration where
  "five_minutes = 5 * minute"

definition recoverable :: "Database \<Rightarrow> Tables \<Rightarrow> time \<Rightarrow> JobRow \<Rightarrow> bool" where
  "recoverable q t now r \<longleftrightarrow>
     (r_status r = Running \<and> until_le (db_time q now) (r_lease_until r))
     \<or> (r_status r \<in> {Queued, Retrying} \<and> r_next_attempt_at r \<le> db_time q now
        \<and> r_updated_at r \<le> db_time q (now + - five_minutes)
        \<and> \<not> (\<exists>x \<in> set (t_outbox t). x_job_id x = r_job_id r \<and> x_published_at x = None))"

definition select_recoverable ::
  "Database \<Rightarrow> (string \<Rightarrow> bool) \<Rightarrow> time \<Rightarrow> int \<Rightarrow> Tables \<Rightarrow> (JobRow list \<times> Tables) option" where
  "select_recoverable q locked now limit t =
     (if limit < 0 then None
      else Some (take (nat limit) (sort_key r_updated_at
                   (filter (\<lambda>r. recoverable q t now r \<and> \<not> locked (r_job_id r)) (t_jobs t))), t))"

fun recovery_events :: "hash \<Rightarrow> time \<Rightarrow> JobRow list \<Rightarrow> Event list db" where
  "recovery_events H now [] = db_return []"
| "recovery_events H now (r # rs) =
     db_bind (db_new_id H ''recovery'' now (r_attempts r)) (\<lambda>eventID.
     db_bind (recovery_events H now rs) (\<lambda>es.
     db_return (job_event eventID (r_job_id r) (r_delivery_id r) (i64 (r_attempts r + 1)) # es)))"

fun recover_each :: "Database \<Rightarrow> time \<Rightarrow> Event list \<Rightarrow> unit db" where
  "recover_each q now [] = db_return ()"
| "recover_each q now (e # es) =
     db_bind (db_stmt (upd_job (e_JobID e) (\<lambda>r. True)
        (\<lambda>r. r\<lparr>r_status := Retrying, r_lease_owner := [], r_lease_until := None,
               r_next_attempt_at := db_time q now, r_updated_at := db_time q now,
               r_last_error := ''delivery_recovered''\<rparr>))) (\<lambda>_.
     db_bind (db_stmt (ins_outbox q (e_EventID e) (e_JobID e) (MarshalSafe e) now now)) (\<lambda>_.
     db_bind (db_stmt (ins_history (e_JobID e) Retrying ''delivery_recovered'' (db_time q now))) (\<lambda>_.
     recover_each q now es)))"

definition my_RecoverExpired ::
  "hash \<Rightarrow> Database \<Rightarrow> (string \<Rightarrow> bool) \<Rightarrow> time \<Rightarrow> int \<Rightarrow> int db" where
  "my_RecoverExpired H q locked now limit =
     db_transact (
       db_bind (db_stmt (select_recoverable q locked now limit)) (\<lambda>rows.
       db_bind (recovery_events H now rows) (\<lambda>events.
       db_bind (recover_each q now events) (\<lambda>_.
       db_return (int (length events))))))"

definition my_Quarantine :: "hash \<Rightarrow> Message \<Rightarrow> unit db" where
  "my_Quarantine H m =
     db_stmt (\<lambda>t. Some ((),
       if \<exists>x \<in> set (t_poison t). po_topic x = m_Topic m \<and> po_partition_id x = m_Partition m
             \<and> po_offset_id x = m_Offset m
       then t
       else t\<lparr>t_poison := t_poison t @
              [\<lparr>po_topic = m_Topic m, po_partition_id = m_Partition m, po_offset_id = m_Offset m,
                po_payload_sha256 = digest H (m_Value m)\<rparr>]\<rparr>))"

definition scan_outbox :: "OutboxRow \<Rightarrow> OutboxRecord" where
  "scan_outbox x =
     \<lparr>ob_EventID = x_event_id x, ob_JobID = x_job_id x, ob_Topic = x_topic x,
      ob_Payload = Some (x_payload x), ob_Attempts = x_attempts x, ob_AvailableAt = x_available_at x\<rparr>"

definition my_PendingOutbox :: "Database \<Rightarrow> int \<Rightarrow> time \<Rightarrow> OutboxRecord list db" where
  "my_PendingOutbox q limit now =
     (if limit < 1 then db_raise InvalidOutboxLimit
      else db_query (\<lambda>t. map scan_outbox (take (nat limit) (sort_key x_created_at
             (filter (\<lambda>x. x_published_at x = None \<and> x_available_at x \<le> db_time q now) (t_outbox t))))))"

definition upd_outbox ::
  "string \<Rightarrow> (OutboxRow \<Rightarrow> OutboxRow) \<Rightarrow> Tables \<Rightarrow> (unit \<times> Tables) option" where
  "upd_outbox eventID f t =
     Some ((), t\<lparr>t_outbox := map (\<lambda>x. if x_event_id x = eventID \<and> x_published_at x = None then f x else x)
                 (t_outbox t)\<rparr>)"

text \<open>\<open>err_text\<close> is the text of the publisher's error.\<close>

definition my_MarkPublished ::
  "Database \<Rightarrow> (workflow_error \<Rightarrow> string) \<Rightarrow> string \<Rightarrow> time \<Rightarrow> workflow_error option
     \<Rightarrow> MySQL \<Rightarrow> workflow_error option \<times> MySQL" where
  "my_MarkPublished q err_text eventID now publishErr s =
     (case
       (case publishErr of
          None \<Rightarrow> db_stmt (upd_outbox eventID
                    (\<lambda>x. x\<lparr>x_published_at := Some (db_time q now), x_last_error := []\<rparr>))
        | Some e \<Rightarrow>
            db_bind (db_query (\<lambda>t. map_option x_attempts
               (find (\<lambda>x. x_event_id x = eventID \<and> x_published_at x = None) (t_outbox t)))) (\<lambda>a.
            case a of
              None \<Rightarrow> db_return ()
            | Some attempts \<Rightarrow>
                db_stmt (upd_outbox eventID (\<lambda>x. x\<lparr>x_attempts := x_attempts x + 1, x_last_error := err_text e,
                  x_available_at := db_time q (now + RetryDelay second minute (i64 (attempts + 1)))\<rparr>)))) s of
        (Inl e, s') \<Rightarrow> (Some e, s')
      | (Inr _, s') \<Rightarrow> (None, s'))"

definition mysql_store ::
  "hash \<Rightarrow> Database \<Rightarrow> (workflow_error \<Rightarrow> string) \<Rightarrow> string \<times> string \<Rightarrow> MySQL store_ops" where
  "mysql_store H q err_text carrier =
     \<lparr>st_Receive = my_Receive H q carrier,
      st_Claim = my_Claim q,
      st_Complete = my_Complete q,
      st_Reject = my_Reject q,
      st_Retry = my_Retry H q,
      st_DeadLetter = my_DeadLetter q,
      st_Get = my_Get,
      st_PendingOutbox = my_PendingOutbox q,
      st_MarkPublished = (\<lambda>wall. my_MarkPublished q err_text),
      st_Renew = my_Renew q\<rparr>"

lemma mysql_store_simps [simp]:
  "st_Receive (mysql_store H q err_text carrier) = my_Receive H q carrier"
  "st_Claim (mysql_store H q err_text carrier) = my_Claim q"
  "st_Complete (mysql_store H q err_text carrier) = my_Complete q"
  "st_Reject (mysql_store H q err_text carrier) = my_Reject q"
  "st_Retry (mysql_store H q err_text carrier) = my_Retry H q"
  "st_DeadLetter (mysql_store H q err_text carrier) = my_DeadLetter q"
  "st_Get (mysql_store H q err_text carrier) = my_Get"
  "st_PendingOutbox (mysql_store H q err_text carrier) = my_PendingOutbox q"
  "st_MarkPublished (mysql_store H q err_text carrier) wall = my_MarkPublished q err_text"
  "st_Renew (mysql_store H q err_text carrier) = my_Renew q"
  by (simp_all add: mysql_store_def)

section \<open>Weakest preconditions\<close>

text \<open>
  \<open>wpt m Q t\<close>: run on tables \<open>t\<close>, whatever statements the oracle lets fail, \<open>m\<close> ends with a
  result and tables that satisfy \<open>Q\<close>.
\<close>

named_theorems db_wp \<open>introduction rules for \<open>wpt\<close>\<close>

definition wpt :: "'a db \<Rightarrow> (workflow_error + 'a \<Rightarrow> Tables \<Rightarrow> bool) \<Rightarrow> Tables \<Rightarrow> bool" where
  "wpt m Q t \<longleftrightarrow> (\<forall>s. my_tables s = t \<longrightarrow> Q (fst (m s)) (my_tables (snd (m s))))"

lemma wptD: "wpt m Q (my_tables s) \<Longrightarrow> m s = (r, s') \<Longrightarrow> Q r (my_tables s')"
  by (auto simp: wpt_def)

lemma wptD': "wpt m Q (my_tables s) \<Longrightarrow> Q (fst (m s)) (my_tables (snd (m s)))"
  by (simp add: wpt_def)

lemma wpt_mono: "wpt m P t \<Longrightarrow> (\<And>r u. P r u \<Longrightarrow> Q r u) \<Longrightarrow> wpt m Q t"
  by (simp add: wpt_def)

lemma wpt_return [db_wp]: "Q (Inr v) t \<Longrightarrow> wpt (db_return v) Q t"
  by (simp add: wpt_def db_return_def)

lemma wpt_raise [db_wp]: "Q (Inl e) t \<Longrightarrow> wpt (db_raise e) Q t"
  by (simp add: wpt_def db_raise_def)

lemma wpt_new_id [db_wp]: "(\<And>i. Q (Inr i) t) \<Longrightarrow> wpt (db_new_id H pfx now n) Q t"
  by (simp add: wpt_def db_new_id_def)

lemma wpt_stmt [db_wp]:
  "Q (Inl StoreFailed) t \<Longrightarrow> (\<And>v u. f t = Some (v, u) \<Longrightarrow> Q (Inr v) u) \<Longrightarrow> wpt (db_stmt f) Q t"
  by (auto simp: wpt_def db_stmt_def Let_def split: option.splits)

lemma wpt_query [db_wp]: "Q (Inl StoreFailed) t \<Longrightarrow> Q (Inr (f t)) t \<Longrightarrow> wpt (db_query f) Q t"
  unfolding db_query_def by (rule wpt_stmt) auto

lemma wpt_bind [db_wp]:
  assumes "wpt m (\<lambda>r u. case r of Inl e \<Rightarrow> Q (Inl e) u | Inr v \<Rightarrow> wpt (f v) Q u) t"
  shows "wpt (db_bind m f) Q t"
  unfolding wpt_def
proof (intro allI impI)
  fix s :: MySQL assume "my_tables s = t"
  then show "Q (fst (db_bind m f s)) (my_tables (snd (db_bind m f s)))"
    using assms by (auto simp: wpt_def db_bind_def split: sum.splits prod.splits)
qed

lemma wpt_if [db_wp]: "(b \<Longrightarrow> wpt m Q t) \<Longrightarrow> (\<not> b \<Longrightarrow> wpt m' Q t) \<Longrightarrow> wpt (if b then m else m') Q t"
  by simp

lemma wpt_case_option [db_wp]:
  "(x = None \<Longrightarrow> wpt m Q t) \<Longrightarrow> (\<And>y. x = Some y \<Longrightarrow> wpt (f y) Q t) \<Longrightarrow>
    wpt (case x of None \<Rightarrow> m | Some y \<Rightarrow> f y) Q t"
  by (cases x) simp_all

lemma wpt_stmt_bind:
  "Q (Inl StoreFailed) t \<Longrightarrow> (\<And>v u. f t = Some (v, u) \<Longrightarrow> wpt (g v) Q u) \<Longrightarrow> wpt (db_bind (db_stmt f) g) Q t"
  by (intro wpt_bind wpt_stmt) simp_all

lemma wpt_query_bind:
  "Q (Inl StoreFailed) t \<Longrightarrow> wpt (g (f t)) Q t \<Longrightarrow> wpt (db_bind (db_query f) g) Q t"
  by (intro wpt_bind wpt_query) simp_all

lemma wpt_new_id_bind: "(\<And>i. wpt (g i) Q t) \<Longrightarrow> wpt (db_bind (db_new_id H pfx now n) g) Q t"
  by (intro wpt_bind wpt_new_id) simp

lemma wpt_return_bind: "wpt (g v) Q t \<Longrightarrow> wpt (db_bind (db_return v) g) Q t"
  by (intro wpt_bind wpt_return) simp

lemma wpt_if_bind:
  "(b \<Longrightarrow> wpt (db_bind m g) Q t) \<Longrightarrow> (\<not> b \<Longrightarrow> wpt (db_bind m' g) Q t) \<Longrightarrow>
    wpt (db_bind (if b then m else m') g) Q t"
  by simp

lemma wpt_transact [db_wp]:
  assumes "Q (Inl StoreFailed) t"
    and "wpt m (\<lambda>r u. case r of Inl e \<Rightarrow> Q (Inl e) t | Inr v \<Rightarrow> Q (Inr v) u) t"
  shows "wpt (db_transact m) Q t"
proof -
  have "wpt (db_bind (db_query (\<lambda>t. ())) (\<lambda>_. db_bind m (\<lambda>v. db_bind (db_query (\<lambda>t. ())) (\<lambda>_. db_return v))))
      (\<lambda>r u. case r of Inl e \<Rightarrow> Q (Inl e) t | Inr v \<Rightarrow> Q (Inr v) u) t"
    by (intro db_wp)
       (auto simp: assms(1) intro!: db_wp wpt_mono [OF assms(2)] split: sum.splits)
  then show ?thesis
    by (auto simp: wpt_def db_transact_def split: sum.splits prod.splits)
qed

section \<open>The invariant of the tables\<close>

definition row_sound :: "hash \<Rightarrow> JobRow \<Rightarrow> bool" where
  "row_sound H r \<longleftrightarrow>
     r_status r \<noteq> Received \<and> r_delivery_id r \<noteq> []
     \<and> (r_status r = Running \<or> r_lease_owner r = []) \<and> (r_status r = Running \<longleftrightarrow> r_lease_until r \<noteq> None)
     \<and> 0 \<le> r_attempts r \<and> r_attempts r \<le> int_max
     \<and> r_sql_sha256 r = digest H (r_sql_text r)
     \<and> r_candidate_spec_sha256 r = digest H (r_candidate_spec r)"

definition tables_sound :: "hash \<Rightarrow> Tables \<Rightarrow> bool" where
  "tables_sound H t \<longleftrightarrow>
     distinct (map r_job_id (t_jobs t)) \<and> distinct (map r_delivery_id (t_jobs t))
     \<and> (\<forall>r \<in> set (t_jobs t). row_sound H r) \<and> distinct (map x_event_id (t_outbox t))"

definition my_sound :: "hash \<Rightarrow> MySQL \<Rightarrow> bool" where
  "my_sound H s \<longleftrightarrow> tables_sound H (my_tables s)"

definition tables_job :: "Tables \<Rightarrow> string \<Rightarrow> Job option" where
  "tables_job t k = map_option (scan_job t) (find_job k t)"

definition my_job :: "MySQL \<Rightarrow> string \<Rightarrow> Job option" where
  "my_job s = tables_job (my_tables s)"

lemma find_jobD: "find_job k t = Some r \<Longrightarrow> r \<in> set (t_jobs t) \<and> r_job_id r = k"
  by (auto simp: find_job_def find_Some_iff)

lemma find_deliveryD: "find_delivery d t = Some r \<Longrightarrow> r \<in> set (t_jobs t) \<and> r_delivery_id r = d"
  by (auto simp: find_delivery_def find_Some_iff)

lemma find_unique:
  assumes "distinct (map g xs)" "x \<in> set xs"
  shows "find (\<lambda>y. g y = g x) xs = Some x"
  using assms by (induction xs) (auto simp: rev_image_eqI)

lemma find_job_unique:
  "tables_sound H t \<Longrightarrow> r \<in> set (t_jobs t) \<Longrightarrow> find_job (r_job_id r) t = Some r"
  unfolding find_job_def tables_sound_def by (intro find_unique) simp_all

lemma find_map:
  "(\<And>x. g (h x) = g x) \<Longrightarrow> find (\<lambda>y. g y = k) (map h xs) = map_option h (find (\<lambda>y. g y = k) xs)"
  by (induction xs) auto

lemma count_unique:
  assumes "distinct (map g xs)"
  shows "length (filter (\<lambda>x. g x = k \<and> P x) xs) =
    (case find (\<lambda>x. g x = k) xs of None \<Rightarrow> 0 | Some x \<Rightarrow> if P x then 1 else 0)"
  using assms
proof (induction xs)
  case (Cons a xs)
  have "filter (\<lambda>x. g x = k \<and> P x) xs = []" if "g a = k"
    using Cons.prems that by (auto simp: filter_empty_conv rev_image_eqI)
  with Cons show ?case by auto
qed simp

text \<open>One keyed update: which job it changes, how many rows it reports, what it preserves.\<close>

lemma upd_job_effect:
  assumes "upd_job jid P f t = Some (n, u)" "tables_sound H t"
    and "\<And>r. r_job_id (f r) = r_job_id r" "\<And>r. r_delivery_id (f r) = r_delivery_id r"
  shows "find_job k u = (if k = jid then map_option (\<lambda>r. if P r then f r else r) (find_job k t) else find_job k t)"
    and "n = (case find_job jid t of None \<Rightarrow> 0 | Some r \<Rightarrow> if P r \<and> f r \<noteq> r then 1 else 0)"
    and "t_options u = t_options t"
    and "(\<And>r. find_job jid t = Some r \<Longrightarrow> P r \<Longrightarrow> row_sound H r \<Longrightarrow> row_sound H (f r)) \<Longrightarrow> tables_sound H u"
proof -
  let ?g = "\<lambda>r. if r_job_id r = jid \<and> P r then f r else r"
  have u: "u = t\<lparr>t_jobs := map ?g (t_jobs t)\<rparr>"
    and n: "n = length (filter (\<lambda>r. r_job_id r = jid \<and> P r \<and> f r \<noteq> r) (t_jobs t))"
    using assms(1) by (simp_all add: upd_job_def)
  have "find (\<lambda>r. r_job_id r = k) (map ?g (t_jobs t)) = map_option ?g (find (\<lambda>r. r_job_id r = k) (t_jobs t))"
    by (rule find_map) (simp add: assms(3))
  then show "find_job k u = (if k = jid then map_option (\<lambda>r. if P r then f r else r) (find_job k t) else find_job k t)"
    by (auto simp: u find_job_def find_Some_iff option.map_comp
        intro!: option.map_cong option.map_ident_strong)
  show "n = (case find_job jid t of None \<Rightarrow> 0 | Some r \<Rightarrow> if P r \<and> f r \<noteq> r then 1 else 0)"
    unfolding n find_job_def
    by (rule count_unique) (use assms(2) in \<open>simp add: tables_sound_def\<close>)
  show "t_options u = t_options t" by (simp add: u)
  assume keep: "\<And>r. find_job jid t = Some r \<Longrightarrow> P r \<Longrightarrow> row_sound H r \<Longrightarrow> row_sound H (f r)"
  have ids: "map r_job_id (map ?g (t_jobs t)) = map r_job_id (t_jobs t)"
    "map r_delivery_id (map ?g (t_jobs t)) = map r_delivery_id (t_jobs t)"
    by (simp_all add: assms(3,4))
  have rows: "row_sound H (?g r)" if "r \<in> set (t_jobs t)" for r
    using that keep find_job_unique [OF assms(2) that] assms(2) by (auto simp: tables_sound_def)
  have uj: "t_jobs u = map ?g (t_jobs t)" "t_outbox u = t_outbox t" by (simp_all add: u)
  have "Ball (set (map ?g (t_jobs t))) (row_sound H)" unfolding set_map using rows by blast
  then show "tables_sound H u"
    using assms(2) unfolding tables_sound_def uj ids by blast
qed

lemma scan_job_cong: "t_options u = t_options t \<Longrightarrow> scan_job u r = scan_job t r"
  by (simp add: scan_job_def)


section \<open>The operations satisfy the store contract\<close>

lemma tables_job_Some:
  "tables_job t k = Some j \<longleftrightarrow> (\<exists>r. find_job k t = Some r \<and> j = scan_job t r)"
  by (auto simp: tables_job_def)

lemma scan_job_simps [simp]:
  "j_ID (scan_job t r) = r_job_id r" "j_DeliveryID (scan_job t r) = r_delivery_id r"
  "j_Status (scan_job t r) = r_status r" "j_Attempts (scan_job t r) = r_attempts r"
  "j_NextAttemptAt (scan_job t r) = r_next_attempt_at r" "j_LeaseOwner (scan_job t r) = r_lease_owner r"
  "j_UpdatedAt (scan_job t r) = r_updated_at r" "j_SQL (scan_job t r) = r_sql_text r"
  "j_CandidateSpec (scan_job t r) = r_candidate_spec r" "j_SQLSHA256 (scan_job t r) = r_sql_sha256 r"
  "j_CandidateSpecSHA256 (scan_job t r) = r_candidate_spec_sha256 r"
  "j_LeaseUntil (scan_job t r) = (case r_lease_until r of None \<Rightarrow> zero_time | Some u \<Rightarrow> u)"
  by (simp_all add: scan_job_def)

lemma row_claimable_scan: "row_claimable w r \<Longrightarrow> claimable_at w (scan_job t r)"
  by (auto simp: row_claimable_def claimable_at_def until_le_def split: option.splits)

lemma row_held_scan: "row_held owner w r \<Longrightarrow> running_by owner w (scan_job t r)"
  by (auto simp: row_held_def running_by_def until_gt_def split: option.splits)

lemma tables_job_upd_job:
  assumes "upd_job jid P f t = Some (n, u)" "tables_sound H t"
    and "\<And>r. r_job_id (f r) = r_job_id r" "\<And>r. r_delivery_id (f r) = r_delivery_id r"
    and "\<And>r. find_job jid t = Some r \<Longrightarrow> P r \<Longrightarrow> row_sound H r \<Longrightarrow> row_sound H (f r) \<and> f r \<noteq> r"
  shows "tables_sound H u \<and>
    (n = 0 \<and> tables_job u = tables_job t \<and> (\<forall>r. find_job jid t = Some r \<longrightarrow> \<not> P r)
     \<or> n = 1 \<and> (\<exists>r. find_job jid t = Some r \<and> P r
              \<and> tables_job u = (tables_job t)(jid \<mapsto> scan_job t (f r))))"
proof -
  note eff = upd_job_effect [OF assms(1-4)]
  have sound: "tables_sound H u" by (rule eff(4)) (use assms(5) in blast)+
  have scan: "scan_job u = scan_job t" using eff(3) scan_job_cong by blast
  show ?thesis
  proof (cases "\<exists>r. find_job jid t = Some r \<and> P r")
    case True
    then obtain r where r: "find_job jid t = Some r" "P r" by blast
    with find_jobD assms(2) have "row_sound H r" by (auto simp: tables_sound_def)
    with r assms(5) have "n = 1" using eff(2) by simp
    moreover have "tables_job u = (tables_job t)(jid \<mapsto> scan_job t (f r))"
      using r by (auto simp: tables_job_def eff(1) scan)
    ultimately show ?thesis using r sound by blast
  next
    case False
    then have "n = 0" using eff(2) by (auto split: option.splits)
    moreover have "tables_job u = tables_job t"
    proof
      fix i
      have "find_job i u = find_job i t"
        using False by (cases "find_job jid t") (auto simp: eff(1))
      then show "tables_job u i = tables_job t i" by (simp add: tables_job_def scan)
    qed
    ultimately show ?thesis using False sound by blast
  qed
qed

lemma tables_job_cong:
  "t_jobs u = t_jobs t \<Longrightarrow> t_options u = t_options t \<Longrightarrow> tables_job u = tables_job t"
  by (rule ext) (simp add: tables_job_def find_job_def scan_job_def cong: option.map_cong)

lemma tables_job_history [simp]:
  "ins_history i st reason w t = Some (v, u) \<Longrightarrow> tables_job u = tables_job t"
  "ins_history i st reason w t = Some (v, u) \<Longrightarrow> tables_sound H u = tables_sound H t"
  by (auto simp: ins_history_def tables_sound_def intro!: tables_job_cong)

lemma tables_job_outbox:
  "ins_outbox q e i p a c t = Some (v, u) \<Longrightarrow> tables_job u = tables_job t"
  "ins_outbox q e i p a c t = Some (v, u) \<Longrightarrow> tables_sound H t \<Longrightarrow> tables_sound H u"
  by (auto simp: ins_outbox_def tables_sound_def intro!: tables_job_cong split: if_splits option.splits)

lemma wpt_getByID [db_wp]:
  "Q (Inl StoreFailed) t \<Longrightarrow> (tables_job t k = None \<Longrightarrow> Q (Inl ErrNotFound) t) \<Longrightarrow>
    (\<And>j. tables_job t k = Some j \<Longrightarrow> Q (Inr j) t) \<Longrightarrow> wpt (my_getByID k) Q t"
  unfolding my_getByID_def my_get_def tables_job_def
  by (intro db_wp) (auto intro!: db_wp split: option.splits)

lemma wpt_recordHistory [db_wp]:
  "Q (Inl StoreFailed) t \<Longrightarrow> (\<And>u. ins_history i st reason w t = Some ((), u) \<Longrightarrow> Q (Inr ()) u) \<Longrightarrow>
    wpt (my_recordHistory w i st reason) Q t"
  unfolding my_recordHistory_def by (intro db_wp) auto

text \<open>What \<open>Claim\<close> leaves behind, on every path.\<close>

definition claim_post ::
  "hash \<Rightarrow> Database \<Rightarrow> string \<Rightarrow> string \<Rightarrow> time \<Rightarrow> duration \<Rightarrow> Tables \<Rightarrow> workflow_error + Job \<times> bool \<Rightarrow> Tables \<Rightarrow> bool" where
  "claim_post H q jid owner now lease t r u \<longleftrightarrow> tables_sound H u \<and>
     (let won = (\<lambda>j0. tables_job t jid = Some j0 \<and> claimable_at (db_time q now) j0
                    \<and> tables_job u = (tables_job t)(jid \<mapsto> claimed_job (db_time q) owner now lease j0))
      in case r of
           Inr (j, True) \<Rightarrow> (\<exists>j0. won j0 \<and> j = claimed_job (db_time q) owner now lease j0)
         | Inr (j, False) \<Rightarrow> tables_job u = tables_job t \<and> tables_job t jid = Some j
         | Inl e \<Rightarrow> tables_job u = tables_job t \<or> (\<exists>j0. won j0))"

lemma scan_claim_row:
  "0 \<le> r_attempts r \<Longrightarrow> r_attempts r \<le> int_max \<Longrightarrow>
    scan_job t (claim_row q owner now lease r) = claimed_job (db_time q) owner now lease (scan_job t r)"
  by (simp add: claim_row_def claimed_job_def scan_job_def i64_id in_i64_def int_max_def)

lemma row_sound_claim:
  "row_sound H r \<Longrightarrow> r_attempts r < int_max \<Longrightarrow> row_sound H (claim_row q owner now lease r)"
  by (simp add: row_sound_def claim_row_def)

lemma my_Claim_wp:
  assumes "tables_sound H t"
  shows "wpt (my_Claim q wall jid owner now lease) (claim_post H q jid owner now lease t) t"
proof -
  have upd: "tables_sound H u \<and>
      (n = 0 \<and> tables_job u = tables_job t
       \<or> n = 1 \<and> (\<exists>j0. tables_job t jid = Some j0 \<and> claimable_at (db_time q now) j0
              \<and> tables_job u = (tables_job t)(jid \<mapsto> claimed_job (db_time q) owner now lease j0)))"
    if full: "\<not> (\<exists>r \<in> set (t_jobs t). r_job_id r = jid \<and> row_claimable (db_time q now) r \<and> r_attempts r \<ge> int_max)"
      and up: "upd_job jid (row_claimable (db_time q now)) (claim_row q owner now lease) t = Some (n, u)" for n u
  proof -
    have "row_sound H (claim_row q owner now lease r) \<and> claim_row q owner now lease r \<noteq> r"
      if "find_job jid t = Some r" "row_claimable (db_time q now) r" "row_sound H r" for r
    proof
      have "r_attempts r < int_max" using that full find_jobD by fastforce
      then show "row_sound H (claim_row q owner now lease r)" using that by (intro row_sound_claim)
      have "r_attempts (claim_row q owner now lease r) = r_attempts r + 1" by (simp add: claim_row_def)
      then show "claim_row q owner now lease r \<noteq> r" by auto
    qed
    from tables_job_upd_job [OF up assms _ _ this] show ?thesis
      using assms find_jobD row_claimable_scan scan_claim_row
      by (auto simp: claim_row_def tables_sound_def row_sound_def tables_job_Some)
  qed
  show ?thesis
    unfolding my_Claim_def
    apply (intro db_wp)
    subgoal using assms by (simp add: claim_post_def)
    subgoal for n u
      using upd [of n u]
      by (auto split: if_splits intro!: db_wp simp: claim_post_def Let_def)
    done
qed


text \<open>The endings: the update either finds the lease held and sets the job, or changes nothing.\<close>

lemma finish_contract_same: "r \<noteq> Inr True \<Longrightarrow> job_of u = job_of t \<Longrightarrow>
    finish_contract job_of rnd jid owner now st reason t (r, u)"
  by (simp add: finish_contract_def)

lemma finish_contract_ended:
  "r \<noteq> Inr False \<Longrightarrow> job_of t jid = Some j \<Longrightarrow> running_by owner (rnd now) j \<Longrightarrow> ended_job st reason j j' \<Longrightarrow>
    job_of u = (job_of t)(jid \<mapsto> j') \<Longrightarrow> finish_contract job_of rnd jid owner now st reason t (r, u)"
  by (auto simp: finish_contract_def)

lemma upd_job_ending:
  assumes "upd_job jid (row_held owner w) f t = Some (n, u)" "tables_sound H t"
    and "\<And>r. r_job_id (f r) = r_job_id r" "\<And>r. r_delivery_id (f r) = r_delivery_id r"
    and "\<And>r. row_sound H r \<Longrightarrow> row_sound H (f r)" "\<And>r. r_status r = Running \<Longrightarrow> f r \<noteq> r"
    and "\<And>r. ended_job st reason (scan_job t r) (scan_job t (f r))"
  shows "tables_sound H u \<and>
    (n = 0 \<and> tables_job u = tables_job t
     \<or> n = 1 \<and> (\<exists>j j'. tables_job t jid = Some j \<and> running_by owner w j
              \<and> ended_job st reason j j' \<and> tables_job u = (tables_job t)(jid \<mapsto> j')))"
proof -
  have "row_sound H (f r) \<and> f r \<noteq> r" if "row_held owner w r" "row_sound H r" for r
    using that assms(5,6) by (simp add: row_held_def)
  then have "tables_sound H u \<and>
    (n = 0 \<and> tables_job u = tables_job t \<and> (\<forall>r. find_job jid t = Some r \<longrightarrow> \<not> row_held owner w r)
     \<or> n = 1 \<and> (\<exists>r. find_job jid t = Some r \<and> row_held owner w r
              \<and> tables_job u = (tables_job t)(jid \<mapsto> scan_job t (f r))))"
    by (intro tables_job_upd_job [OF assms(1-4)])
  then show ?thesis
  proof (elim conjE disjE exE, goal_cases)
    case 1
    then show ?case by blast
  next
    case (2 r)
    then have "tables_job t jid = Some (scan_job t r)" by (simp add: tables_job_def)
    with 2 row_held_scan [of owner w r t] assms(7) [of r] show ?case by blast
  qed
qed

lemma my_finish_wp:
  assumes "tables_sound H t" "terminal st"
  shows "wpt (my_finish q wall jid owner now st reason)
    (\<lambda>r u. tables_sound H u \<and> finish_contract tables_job (db_time q) jid owner now st reason t (r, u)) t"
proof -
  let ?f = "\<lambda>r. r\<lparr>r_status := st, r_last_error := reason, r_lease_owner := [], r_lease_until := None,
               r_completed_at := Some (db_time q now), r_updated_at := db_time q now\<rparr>"
  have upd: "tables_sound H u \<and>
    (n = 0 \<and> tables_job u = tables_job t
     \<or> n = 1 \<and> (\<exists>j j'. tables_job t jid = Some j \<and> running_by owner (db_time q now) j
              \<and> ended_job st reason j j' \<and> tables_job u = (tables_job t)(jid \<mapsto> j')))"
    if "upd_job jid (row_held owner (db_time q now)) ?f t = Some (n, u)" for n u
    by (rule upd_job_ending [OF that assms(1)])
       (use assms(2) in \<open>auto simp: row_sound_def ended_job_def same_identity_def scan_job_def terminal_def
          dest: arg_cong [where f = r_status]\<close>)
  show ?thesis
    unfolding my_finish_def
    apply (intro db_wp)
    subgoal using assms by (simp add: finish_contract_same)
    subgoal premises up for n u
      using upd [OF up]
      apply (elim conjE disjE exE)
      subgoal by (auto intro!: db_wp finish_contract_same)
      subgoal for j j' by (auto intro!: db_wp finish_contract_ended [where j = j and j' = j'])
      done
    done
qed

lemma my_Retry_wp:
  assumes "tables_sound H t"
  shows "wpt (my_Retry H q wall jid owner now nxt reason)
    (\<lambda>r u. tables_sound H u \<and> finish_contract tables_job (db_time q) jid owner now Retrying reason t (r, u)) t"
proof -
  let ?f = "\<lambda>r. r\<lparr>r_status := Retrying, r_last_error := reason, r_next_attempt_at := db_time q nxt,
                 r_lease_owner := [], r_lease_until := None, r_updated_at := db_time q now\<rparr>"
  have upd: "tables_sound H u \<and>
    (n = 0 \<and> tables_job u = tables_job t
     \<or> n = 1 \<and> (\<exists>j j'. tables_job t jid = Some j \<and> running_by owner (db_time q now) j
              \<and> ended_job Retrying reason j j' \<and> tables_job u = (tables_job t)(jid \<mapsto> j')))"
    if "upd_job jid (row_held owner (db_time q now)) ?f t = Some (n, u)" for n u
    by (rule upd_job_ending [OF that assms(1)])
       (auto simp: row_sound_def ended_job_def same_identity_def scan_job_def
          dest: arg_cong [where f = r_status])
  have bad: "tables_sound H t \<and> finish_contract tables_job (db_time q) jid owner now Retrying reason t (Inl e, t)" for e
    using assms by (simp add: finish_contract_same)
  show ?thesis
    unfolding my_Retry_def
    apply (intro db_wp)
    subgoal by (rule bad)
    subgoal by (simp add: bad)
    subgoal premises up for n u
      using upd [OF up]
      apply (elim conjE disjE exE)
      subgoal using bad by (auto intro!: db_wp finish_contract_same)
      subgoal for j j'
        using bad tables_job_outbox(2)
        by (auto intro!: db_wp finish_contract_ended [where j = j and j' = j'] simp: tables_job_outbox(1))
      done
    done
qed

lemma my_Renew_wp:
  assumes "tables_sound H t"
  shows "wpt (my_Renew q jid owner now lease)
    (\<lambda>r u. tables_sound H u \<and> (\<forall>k. k \<noteq> jid \<longrightarrow> tables_job u k = tables_job t k)
      \<and> (tables_job u jid = tables_job t jid
         \<or> (\<exists>j n. tables_job t jid = Some j \<and> running_by owner (db_time q now) j
              \<and> tables_job u jid = Some (j\<lparr>j_LeaseUntil := db_time q (now + lease), j_UpdatedAt := n\<rparr>)))) t"
proof -
  let ?f = "\<lambda>r. r\<lparr>r_lease_until := Some (db_time q (now + lease)), r_updated_at := db_time q now\<rparr>"
  have upd: "tables_sound H u \<and> (\<forall>k. k \<noteq> jid \<longrightarrow> tables_job u k = tables_job t k)
      \<and> (tables_job u jid = tables_job t jid
         \<or> (\<exists>j n. tables_job t jid = Some j \<and> running_by owner (db_time q now) j
              \<and> tables_job u jid = Some (j\<lparr>j_LeaseUntil := db_time q (now + lease), j_UpdatedAt := n\<rparr>)))"
    if up: "upd_job jid (row_held owner (db_time q now)) ?f t = Some (n, u)" for n u
  proof -
    have eff: "find_job k u = (if k = jid then map_option (\<lambda>r. if row_held owner (db_time q now) r then ?f r else r)
        (find_job k t) else find_job k t)" for k
      by (rule upd_job_effect(1) [OF up assms]) simp_all
    have "t_options u = t_options t" by (rule upd_job_effect(3) [OF up assms]) simp_all
    then have scan: "scan_job u = scan_job t" using scan_job_cong by blast
    have "tables_sound H u"
      by (rule upd_job_effect(4) [OF up assms]) (auto simp: row_sound_def row_held_def)
    moreover have "scan_job t (?f r) = (scan_job t r)\<lparr>j_LeaseUntil := db_time q (now + lease), j_UpdatedAt := db_time q now\<rparr>" for r
      by (simp add: scan_job_def)
    ultimately show ?thesis
      using row_held_scan by (cases "find_job jid t") (auto simp: tables_job_def eff scan)
  qed
  show ?thesis
    unfolding my_Renew_def
    apply (intro db_wp)
    subgoal using assms by simp
    subgoal for n u using upd [of n u] by (auto intro!: db_wp)
    done
qed


subsection \<open>Receive\<close>

definition queued_row :: "hash \<Rightarrow> Database \<Rightarrow> string \<Rightarrow> time \<Rightarrow> ReceiveInput \<Rightarrow> JobRow" where
  "queued_row H q jobID now inp = (new_row H q jobID now inp)\<lparr>r_status := Queued\<rparr>"

text \<open>The transactional outbox: the job, its options and its first event appear together.\<close>

definition inserted_post ::
  "hash \<Rightarrow> Database \<Rightarrow> time \<Rightarrow> ReceiveInput \<Rightarrow> string \<Rightarrow> Tables \<Rightarrow> Tables \<Rightarrow> bool" where
  "inserted_post H q now inp jobID t u \<longleftrightarrow>
     t_jobs u = t_jobs t @ [queued_row H q jobID now inp]
     \<and> t_options u = t_options t @ [(jobID, normalized (in_Options inp))]
     \<and> jobID \<notin> r_job_id ` set (t_jobs t) \<and> in_DeliveryID inp \<notin> r_delivery_id ` set (t_jobs t)
     \<and> jobID \<notin> fst ` set (t_options t)
     \<and> (\<exists>x p. t_outbox u = t_outbox t @ [x] \<and> x_event_id x \<notin> x_event_id ` set (t_outbox t)
          \<and> x_job_id x = jobID \<and> x_published_at x = None
          \<and> MarshalSafe (job_event (x_event_id x) jobID (in_DeliveryID inp) 1) = Some p
          \<and> x_payload x = db_json q p)"

lemma upd_fresh_row:
  assumes "jobID \<notin> r_job_id ` set rows" "t_jobs t = rows @ [new_row H q jobID now inp]"
  shows "upd_job jobID (\<lambda>r. True) (\<lambda>r. r\<lparr>r_status := Queued, r_updated_at := db_time q now\<rparr>) t = Some (n, u)
    \<Longrightarrow> u = t\<lparr>t_jobs := rows @ [queued_row H q jobID now inp]\<rparr>"
proof -
  have "map (\<lambda>r. if r_job_id r = jobID then r\<lparr>r_status := Queued, r_updated_at := db_time q now\<rparr> else r) rows = rows"
    using assms(1) by (intro map_idI) auto
  then show "upd_job jobID (\<lambda>r. True) (\<lambda>r. r\<lparr>r_status := Queued, r_updated_at := db_time q now\<rparr>) t = Some (n, u)
    \<Longrightarrow> u = t\<lparr>t_jobs := rows @ [queued_row H q jobID now inp]\<rparr>"
    by (auto simp: upd_job_def assms(2) new_row_def queued_row_def)
qed

lemma ins_outbox_Some:
  "ins_outbox q e i p a c t = Some (v, u) \<longleftrightarrow> e \<notin> x_event_id ` set (t_outbox t) \<and>
    (\<exists>b. p = Some b \<and> u = t\<lparr>t_outbox := t_outbox t @
          [\<lparr>x_event_id = e, x_job_id = i, x_topic = ''sql-sentinel.jobs'',
            x_payload = db_json q b, x_attempts = 0, x_available_at = db_time q a,
            x_published_at = None, x_last_error = [], x_created_at = db_time q c\<rparr>]\<rparr>)"
  by (auto simp: ins_outbox_def split: option.splits)

lemma receive_inserts_wp:
  "wpt (receive_inserts H q now inp jobID eventID)
     (\<lambda>r u. case r of Inl e \<Rightarrow> e = StoreFailed | Inr (Existing _) \<Rightarrow> False | Inr DuplicateKey \<Rightarrow> True
       | Inr Inserted \<Rightarrow> inserted_post H q now inp jobID t u) t"
  unfolding receive_inserts_def Let_def
  apply (rule wpt_stmt_bind, simp, rule wpt_if, rule wpt_return, simp)
  apply (rule wpt_stmt_bind, simp)+
  apply (rule wpt_if_bind)
   apply ((rule wpt_stmt_bind, simp)+, rule wpt_return)
   apply (auto simp: ins_job_def ins_history_def ins_keyed_def ins_outbox_Some inserted_post_def new_row_def
      queued_row_def upd_job_def split: if_splits intro!: map_idI)[1]
  apply (rule wpt_return_bind, (rule wpt_stmt_bind, simp)+, rule wpt_return)
  by (auto simp: ins_job_def ins_history_def ins_keyed_def ins_outbox_Some inserted_post_def new_row_def
      queued_row_def upd_job_def split: if_splits intro!: map_idI)


definition db_receive_post ::
  "hash \<Rightarrow> Database \<Rightarrow> time \<Rightarrow> ReceiveInput \<Rightarrow> Tables \<Rightarrow> workflow_error + receive_outcome \<Rightarrow> Tables \<Rightarrow> bool" where
  "db_receive_post H q now inp t r u \<longleftrightarrow>
     (case r of
        Inl e \<Rightarrow> e \<noteq> InvalidReceiveInput
      | Inr (Existing job) \<Rightarrow> u = t \<and> sameDelivery H job inp
          \<and> (\<exists>row. find_delivery (in_DeliveryID inp) t = Some row \<and> job = scan_job t row)
      | Inr DuplicateKey \<Rightarrow> find_delivery (in_DeliveryID inp) t = None
      | Inr Inserted \<Rightarrow> pending_count t < 1000 \<and> (\<exists>jobID. inserted_post H q now inp jobID t u))"

lemma receive_body_wp: "wpt (receive_body H q now inp) (db_receive_post H q now inp t) t"
  unfolding receive_body_def
  apply (rule wpt_stmt_bind, simp add: db_receive_post_def)
  apply (rule wpt_query_bind, simp add: db_receive_post_def)
  apply (rule wpt_case_option)
   apply (rule wpt_query_bind, simp add: db_receive_post_def)
   apply (rule wpt_if, rule wpt_raise, simp add: db_receive_post_def)
   apply (rule wpt_new_id_bind, rule wpt_new_id_bind)
  subgoal premises p for v u jobID eventID
  proof -
    from p(1) have u: "u = t" by (simp split: if_splits)
    from p(2) u have none: "find_delivery (in_DeliveryID inp) t = None" by simp
    show ?thesis
      unfolding u
    proof (rule wpt_mono [OF receive_inserts_wp])
      fix r :: "workflow_error + receive_outcome" and w
      assume "case r of Inl e \<Rightarrow> e = StoreFailed | Inr (Existing _) \<Rightarrow> False | Inr DuplicateKey \<Rightarrow> True
       | Inr Inserted \<Rightarrow> inserted_post H q now inp jobID t w"
      then show "db_receive_post H q now inp t r w"
        using none p(3) u
        by (auto simp: db_receive_post_def split: sum.splits receive_outcome.splits)
    qed
  qed
  by (rule wpt_if; rule wpt_raise wpt_return; auto simp: db_receive_post_def split: if_splits)

text \<open>The receive input as \<open>Receive\<close> stores it, with the trace context of the caller.\<close>

definition traced :: "string \<times> string \<Rightarrow> ReceiveInput \<Rightarrow> ReceiveInput" where
  "traced carrier inp = inp\<lparr>in_Options := (in_Options inp)\<lparr>o_TraceParent := fst carrier, o_TraceState := snd carrier\<rparr>\<rparr>"

lemma traced_simps [simp]:
  "in_DeliveryID (traced carrier inp) = in_DeliveryID inp" "in_SQL (traced carrier inp) = in_SQL inp"
  "in_CandidateSpec (traced carrier inp) = in_CandidateSpec inp"
  "in_PRNumber (traced carrier inp) = in_PRNumber inp"
  "invalid_input (traced carrier inp) = invalid_input inp"
  by (simp_all add: traced_def invalid_input_def)

definition my_receive_post ::
  "hash \<Rightarrow> Database \<Rightarrow> time \<Rightarrow> ReceiveInput \<Rightarrow> Tables \<Rightarrow> workflow_error + ReceiveResult \<Rightarrow> Tables \<Rightarrow> bool" where
  "my_receive_post H q now inp t r u \<longleftrightarrow>
     (case r of
        Inl e \<Rightarrow> u = t \<or> e \<noteq> InvalidReceiveInput \<and> \<not> invalid_input inp \<and> pending_count t < 1000
          \<and> (\<exists>jobID. inserted_post H q now inp jobID t u)
      | Inr v \<Rightarrow> \<not> invalid_input inp \<and> sameDelivery H (res_Job v) inp \<and> res_Duplicate v \<and> u = t
            \<and> (\<exists>row. find_delivery (in_DeliveryID inp) t = Some row \<and> res_Job v = scan_job t row)
          \<or> \<not> invalid_input inp \<and> \<not> res_Duplicate v \<and> pending_count t < 1000
            \<and> (\<exists>jobID row. inserted_post H q now inp jobID t u
                 \<and> find_delivery (in_DeliveryID inp) u = Some row \<and> res_Job v = scan_job u row))"

lemma db_query_cases:
  obtains (fail) s1 where "db_query f s = (Inl StoreFailed, s1)" "my_tables s1 = my_tables s"
  | (ok) s1 where "db_query f s = (Inr (f (my_tables s)), s1)" "my_tables s1 = my_tables s"
  by (cases "my_fail s (my_stmt s)") (auto simp: db_query_def db_stmt_def Let_def)

lemma my_Get_cases:
  obtains (fail) e s1 where "my_Get d s = (Inl e, s1)" "my_tables s1 = my_tables s"
      "e = StoreFailed \<or> e = ErrNotFound"
  | (ok) row s1 where "my_Get d s = (Inr (scan_job (my_tables s) row), s1)" "my_tables s1 = my_tables s"
      "find_delivery d (my_tables s) = Some row"
proof (cases rule: db_query_cases [where s = s and f = "\<lambda>t. map_option (scan_job t) (find_delivery d t)"])
  case (fail s1)
  then show ?thesis by (intro that(1) [of StoreFailed s1]) (simp_all add: my_Get_def my_get_def)
next
  case (ok s1)
  then show ?thesis
    by (cases "find_delivery d (my_tables s)")
       (auto simp: my_Get_def my_get_def db_raise_def db_return_def intro: that)
qed

lemma rollback_tables [simp]: "my_tables (rollback s0 s) = my_tables s0"
  by (simp add: rollback_def)

lemma my_Receive_post:
  assumes "my_Receive H q carrier now inp s = (r, s')"
  shows "my_receive_post H q now (traced carrier inp) (my_tables s) r (my_tables s')"
proof (cases "invalid_input inp")
  case True
  with assms show ?thesis by (auto simp: my_Receive_def my_receive_post_def)
next
  case valid: False
  let ?i = "traced carrier inp"
  show ?thesis
  proof (cases rule: db_query_cases [where s = s and f = "\<lambda>t. ()"])
    case (fail s1)
    with assms valid show ?thesis
      by (auto simp: my_Receive_def my_receive_post_def Let_def)
  next
    case (ok s1)
    obtain o2 s2 where body: "receive_body H q now ?i s1 = (o2, s2)" by force
    have post: "db_receive_post H q now ?i (my_tables s) o2 (my_tables s2)"
      using wptD [OF receive_body_wp body] ok(2) by simp
    note run = assms [unfolded my_Receive_def traced_def [symmetric] Let_def, simplified valid if_False ok(1) prod.case sum.case body]
    show ?thesis
    proof (cases o2)
      case (Inl e)
      with run ok(2) valid show ?thesis by (auto simp: my_receive_post_def)
    next
      case (Inr oc)
      show ?thesis
      proof (cases oc)
        case (Existing job)
        with run Inr ok(2) valid post show ?thesis by (auto simp: my_receive_post_def db_receive_post_def)
      next
        case DuplicateKey
        show ?thesis
          by (rule my_Get_cases [where d = "in_DeliveryID ?i" and s = "rollback s1 s2"])
             (use run Inr DuplicateKey ok(2) valid post in
               \<open>auto simp: my_receive_post_def db_receive_post_def db_bind_def\<close>)
      next
        case Inserted
        have ins: "pending_count (my_tables s) < 1000" "\<exists>jobID. inserted_post H q now ?i jobID (my_tables s) (my_tables s2)"
          using post Inr Inserted by (auto simp: db_receive_post_def)
        show ?thesis
        proof (cases rule: db_query_cases [where s = s2 and f = "\<lambda>t. ()"])
          case (fail s3)
          with run Inr Inserted ok(2) show ?thesis by (auto simp: my_receive_post_def)
        next
          case ok3: (ok s3)
          show ?thesis
            by (rule my_Get_cases [where d = "in_DeliveryID ?i" and s = s3])
               (use run Inr Inserted ok(2) ok3 valid ins in
                 \<open>auto simp: my_receive_post_def db_bind_def db_return_def\<close>)
        qed
      qed
    qed
  qed
qed

lemma find_append: "find P (xs @ ys) = (case find P xs of None \<Rightarrow> find P ys | Some x \<Rightarrow> Some x)"
  by (induction xs) auto

lemma find_key_None: "k \<notin> g ` set xs \<Longrightarrow> find (\<lambda>x. g x = k) xs = None"
  by (auto simp: find_None_iff)

lemma row_sound_queued: "\<not> invalid_input inp \<Longrightarrow> row_sound H (queued_row H q jobID now inp)"
  by (simp add: row_sound_def queued_row_def new_row_def invalid_input_def int_max_def)

lemma inserted_job:
  assumes "inserted_post H q now inp jobID t u" "tables_sound H t" "\<not> invalid_input inp"
  defines "row \<equiv> queued_row H q jobID now inp"
  shows "tables_sound H u" "tables_job t jobID = None"
    "tables_job u = (tables_job t)(jobID \<mapsto> scan_job u row)"
    "find_delivery (in_DeliveryID inp) u = Some row" "new_job (scan_job u row)" "r_job_id row = jobID"
proof -
  note post = assms(1) [unfolded inserted_post_def]
  show id: "r_job_id row = jobID" by (simp add: row_def queued_row_def new_row_def)
  have none: "find (\<lambda>r. r_job_id r = jobID) (t_jobs t) = None"
    "find (\<lambda>r. r_delivery_id r = in_DeliveryID inp) (t_jobs t) = None"
    by (intro find_key_None; use post in blast)+
  have ids: "r_delivery_id row = in_DeliveryID inp" by (simp add: row_def queued_row_def new_row_def)
  show "tables_sound H u"
    using post assms(2) row_sound_queued [OF assms(3)]
    by (auto simp: tables_sound_def queued_row_def new_row_def)
  show "tables_job t jobID = None" using none by (simp add: tables_job_def find_job_def)
  show "find_delivery (in_DeliveryID inp) u = Some row"
    using post none ids by (simp add: find_delivery_def find_append row_def)
  show "new_job (scan_job u row)"
    by (simp add: new_job_def row_def queued_row_def new_row_def)
  show "tables_job u = (tables_job t)(jobID \<mapsto> scan_job u row)"
  proof
    fix k
    have opts: "map_of (t_options u) i = map_of (t_options t) i" if "i \<noteq> jobID" for i
      using that post by (auto simp: map_add_def split: option.splits)
    have "scan_job u r = scan_job t r" if "r_job_id r \<noteq> jobID" for r
      using opts [OF that] by (simp add: scan_job_def)
    moreover have "find_job k u = (case find_job k t of None \<Rightarrow> if k = jobID then Some row else None | Some r \<Rightarrow> Some r)"
      using post id by (cases "find_job k t") (simp_all add: find_job_def find_append row_def)
    moreover have "r_job_id r = k" if "find_job k t = Some r" for r using find_jobD [OF that] by simp
    moreover have "find_job jobID t = None" using none by (simp add: find_job_def)
    ultimately show "tables_job u k = ((tables_job t)(jobID \<mapsto> scan_job u row)) k"
      by (cases "find_job k t"; cases "k = jobID") (simp_all add: tables_job_def)
  qed
qed

lemma find_delivery_job:
  assumes "tables_sound H t" "find_delivery d t = Some row"
  shows "tables_job t (r_job_id row) = Some (scan_job t row)"
  using find_job_unique [OF assms(1)] find_deliveryD [OF assms(2)] by (simp add: tables_job_def)

lemma row_sound_tables: "tables_sound H t \<Longrightarrow> find_job k t = Some r \<Longrightarrow> row_sound H r \<and> r_job_id r = k"
  using find_jobD by (auto simp: tables_sound_def)

lemma finish_contract_lift:
  "finish_contract tables_job rnd jid owner now st reason (my_tables s) (fst out, my_tables (snd out)) \<Longrightarrow>
    finish_contract my_job rnd jid owner now st reason s out"
  by (cases out) (simp add: finish_contract_def my_job_def)

lemma my_finish_contract:
  assumes "my_sound H s" "terminal st"
  shows "my_sound H (snd (my_finish q wall jid owner now st reason s))"
    and "finish_contract my_job (db_time q) jid owner now st reason s (my_finish q wall jid owner now st reason s)"
  using wptD' [OF my_finish_wp [OF assms(1) [unfolded my_sound_def] assms(2)]]
  by (auto simp: my_sound_def intro: finish_contract_lift)

lemma my_Retry_contract:
  assumes "my_sound H s"
  shows "my_sound H (snd (my_Retry H q wall jid owner now nxt reason s))"
    and "finish_contract my_job (db_time q) jid owner now Retrying reason s (my_Retry H q wall jid owner now nxt reason s)"
  using wptD' [OF my_Retry_wp [OF assms [unfolded my_sound_def]]]
  by (auto simp: my_sound_def intro: finish_contract_lift)

lemma my_Renew_sound:
  assumes "my_sound H s" shows "my_sound H (snd (my_Renew q jid owner now lease s))"
  using wptD' [OF my_Renew_wp [OF assms [unfolded my_sound_def]]] by (simp add: my_sound_def)

text \<open>What \<open>Receive\<close> does to the jobs, read off its postcondition.\<close>

lemma my_Receive_jobs:
  assumes "my_sound H s" "my_Receive H q carrier now inp s = (r, s')"
  shows "my_sound H s' \<and>
    ((my_tables s' = my_tables s \<and> (\<forall>v. r = Inr v \<longrightarrow> res_Duplicate v \<and> my_job s (j_ID (res_Job v)) = Some (res_Job v)))
     \<or> (r \<noteq> Inl InvalidReceiveInput \<and> (\<exists>k j. my_job s k = None \<and> new_job j \<and> j_ID j = k
          \<and> my_job s' = (my_job s)(k \<mapsto> j) \<and> (\<forall>v. r = Inr v \<longrightarrow> \<not> res_Duplicate v \<and> res_Job v = j))))"
proof -
  let ?t = "my_tables s" and ?u = "my_tables s'" and ?i = "traced carrier inp"
  have t: "tables_sound H ?t" using assms(1) by (simp add: my_sound_def)
  have new: "my_sound H s' \<and> my_job s jobID = None \<and> new_job j \<and> j_ID j = jobID
      \<and> my_job s' = (my_job s)(jobID \<mapsto> j) \<and> find_delivery (in_DeliveryID ?i) ?u = Some row"
    if "inserted_post H q now ?i jobID ?t ?u" "\<not> invalid_input ?i" "row = queued_row H q jobID now ?i"
      "j = scan_job ?u row" for jobID j row
    using inserted_job [OF that(1) t that(2)] that(3,4) by (simp add: my_sound_def my_job_def)
  show ?thesis
  proof (cases r)
    case (Inl e)
    with my_Receive_post [OF assms(2)] consider "?u = ?t"
      | jobID where "e \<noteq> InvalidReceiveInput" "\<not> invalid_input ?i" "inserted_post H q now ?i jobID ?t ?u"
      by (auto simp: my_receive_post_def)
    then show ?thesis
    proof cases
      case 1
      with assms(1) Inl show ?thesis by (simp add: my_sound_def)
    next
      case (2 jobID)
      from new [OF 2(3,2) refl refl] Inl 2(1) show ?thesis by blast
    qed
  next
    case (Inr v)
    with my_Receive_post [OF assms(2)] consider
        row where "res_Duplicate v" "?u = ?t" "find_delivery (in_DeliveryID ?i) ?t = Some row"
          "res_Job v = scan_job ?t row"
      | jobID row where "\<not> invalid_input ?i" "\<not> res_Duplicate v" "inserted_post H q now ?i jobID ?t ?u"
          "find_delivery (in_DeliveryID ?i) ?u = Some row" "res_Job v = scan_job ?u row"
      by (fastforce simp: my_receive_post_def)
    then show ?thesis
    proof cases
      case (1 row)
      with find_delivery_job [OF t 1(3)] assms(1) Inr show ?thesis
        by (auto simp: my_sound_def my_job_def)
    next
      case (2 jobID row)
      from new [OF 2(3,1) refl refl] 2 Inr show ?thesis by auto
    qed
  qed
qed

interpretation sql_store: intake_store "mysql_store H q err_text carrier" my_job "my_sound H" "db_time q"
    "\<lambda>wall s. True"
  for H q err_text carrier
proof (unfold_locales, goal_cases)
  case (1 s jid j)
  then obtain r where "tables_sound H (my_tables s)" "find_job jid (my_tables s) = Some r"
    "j = scan_job (my_tables s) r" by (auto simp: my_sound_def my_job_def tables_job_Some)
  with row_sound_tables [of H "my_tables s" jid r] show ?case by simp
next
  case (2 s jid j)
  then obtain r where "tables_sound H (my_tables s)" "find_job jid (my_tables s) = Some r"
    "j = scan_job (my_tables s) r" by (auto simp: my_sound_def my_job_def tables_job_Some)
  with row_sound_tables [of H "my_tables s" jid r] show ?case by (simp add: row_sound_def)
next
  case (3 s wall jid owner now lease r s')
  then have "claim_post H q jid owner now lease (my_tables s) r (my_tables s')"
    using wptD [OF my_Claim_wp] by (simp add: my_sound_def)
  then show ?case by (simp add: claim_post_def my_sound_def)
next
  case (4 s wall jid owner now lease r s' k)
  then have "claim_post H q jid owner now lease (my_tables s) r (my_tables s')"
    using wptD [OF my_Claim_wp] by (simp add: my_sound_def)
  with 4 show ?case by (auto simp: claim_post_def my_job_def Let_def split: sum.splits prod.splits bool.splits)
next
  case (5 s wall jid owner now lease j s')
  then have "claim_post H q jid owner now lease (my_tables s) (Inr (j, True)) (my_tables s')"
    using wptD [OF my_Claim_wp] by (simp add: my_sound_def)
  then show ?case by (auto simp: claim_post_def my_job_def)
next
  case (6 s wall jid owner now lease j s')
  then have "claim_post H q jid owner now lease (my_tables s) (Inr (j, False)) (my_tables s')"
    using wptD [OF my_Claim_wp] by (simp add: my_sound_def)
  then show ?case by (auto simp: claim_post_def my_job_def)
next
  case (7 s wall jid owner now lease e s')
  then have "claim_post H q jid owner now lease (my_tables s) (Inl e) (my_tables s')"
    using wptD [OF my_Claim_wp] by (simp add: my_sound_def)
  then show ?case by (auto simp: claim_post_def my_job_def)
next
  case (17 s jid owner now lease rb s')
  then have "tables_sound H (my_tables s)" by (simp add: my_sound_def)
  from wptD [OF my_Renew_wp [OF this]] 17(2) show ?case by (simp add: my_job_def)
next
  case (18 s wall inp rr s')
  then show ?case using my_Receive_jobs by simp
next
  case (19 s wall inp rr s' k)
  then show ?case using my_Receive_jobs [of H s q carrier wall inp rr s']
    by (auto simp: my_job_def job_evolves_def split: option.splits if_splits)
next
  case (20 s wall inp v s')
  then show ?case using my_Receive_jobs [of H s q carrier wall inp "Inr v" s'] by (auto simp: my_job_def)
next
  case (21 s wall inp v s')
  then show ?case using my_Receive_jobs [of H s q carrier wall inp "Inr v" s'] by auto
next
  case (22 s wall inp s')
  then show ?case using my_Receive_jobs [of H s q carrier wall inp "Inl InvalidReceiveInput" s']
    by (auto simp: my_job_def)
qed (simp_all add: my_Complete_def my_Reject_def my_DeadLetter_def my_finish_contract my_Retry_contract my_Renew_sound)

end
