(* ===== verification/Kafka_System.thy ===== *)
theory Kafka_System
  imports Kafka_MySQL
begin

text \<open>
  The components of \<open>internal/kafka\<close> together.  First the single-process pipeline (memory store,
  relay, broker, worker) as a transition system with the invariant that no accepted job is lost;
  then the properties of the worker and of the durable store.
\<close>

section \<open>The in-memory pipeline\<close>

text \<open>SHA-256 in lower-case hex, as far as identifiers drawn from it need: ASCII and not empty.\<close>

definition hex_hash :: "hash \<Rightarrow> bool" where
  "hex_hash H \<longleftrightarrow> (\<forall>x. length (H x) = 64 \<and> is_ascii (H x))"

lemma newID_ok: "hex_hash H \<Longrightarrow> newID H p t n q \<noteq> [] \<and> is_ascii (newID H p t n q)"
proof -
  assume H: "hex_hash H"
  have "take 32 (H x) \<noteq> [] \<and> is_ascii (take 32 (H x))" for x
  proof -
    have "length (H x) = 64" "is_ascii (H x)" using H by (simp_all add: hex_hash_def)
    then show ?thesis by (auto simp: is_ascii_def dest: in_set_takeD)
  qed
  then show ?thesis by (simp add: newID_def)
qed

definition pending :: "MemoryStore \<Rightarrow> string \<Rightarrow> bool" where
  "pending s k \<longleftrightarrow> (\<exists>e r. ms_outbox s e = Some r \<and> ob_JobID r = k \<and> ob_Payload r \<noteq> None)"

definition outbox_sound :: "MemoryStore \<Rightarrow> bool" where
  "outbox_sound s \<longleftrightarrow>
     (\<forall>e r. ms_outbox s e = Some r \<longrightarrow> ob_EventID r = e
        \<and> (\<forall>p. ob_Payload r = Some p \<longrightarrow> (\<exists>ev. DecodeEvent p = Inr ev \<and> e_JobID ev = ob_JobID r)))"

definition plain_job :: "string \<Rightarrow> Job \<Rightarrow> bool" where
  "plain_job k j \<longleftrightarrow> k \<noteq> [] \<and> is_ascii k \<and> is_ascii (j_DeliveryID j) \<and> 0 \<le> j_Attempts j"

text \<open>
  Every job that has not ended is announced: by an unpublished outbox record, or by a message in
  flight (the set \<open>K\<close>).
\<close>

definition announced :: "hash \<Rightarrow> string set \<Rightarrow> MemoryStore \<Rightarrow> bool" where
  "announced H K s \<longleftrightarrow>
     mem_sound H s \<and> outbox_sound s \<and> (\<forall>k j. ms_jobs s k = Some j \<longrightarrow> plain_job k j)
     \<and> (\<forall>k j. ms_jobs s k = Some j \<and> \<not> terminal (j_Status j) \<and> k \<notin> K \<longrightarrow> pending s k)"

lemma announced_mono: "announced H K s \<Longrightarrow> K \<subseteq> L \<Longrightarrow> announced H L s"
  unfolding announced_def by blast

text \<open>A change of one job that leaves the outbox alone.\<close>

lemma announced_job_change:
  assumes "announced H K s" "mem_sound H s'" "ms_outbox s' = ms_outbox s"
    and "ms_jobs s k = Some j" "ms_jobs s' = (ms_jobs s)(k \<mapsto> j')"
    and "j_DeliveryID j' = j_DeliveryID j" "0 \<le> j_Attempts j'" "\<not> terminal (j_Status j)"
  shows "announced H K s'" and "terminal (j_Status j') \<Longrightarrow> announced H (K - {k}) s'"
  using assms by (auto simp: announced_def outbox_sound_def pending_def plain_job_def)

text \<open>Attempt counters stay below the largest \<open>int\<close>: a job is not claimed that often.\<close>

definition claims_left :: "MemoryStore \<Rightarrow> bool" where
  "claims_left s \<longleftrightarrow> (\<forall>k j. ms_jobs s k = Some j \<longrightarrow> j_Attempts j < 2 ^ 63 - 2)"

lemma mem_Claim_announced:
  assumes "announced H K s" "claims_left s" "mem_Claim jid owner now lease s = (r, s')"
  shows "announced H K s'"
proof -
  have sound: "mem_sound H s" using assms(1) by (simp add: announced_def)
  from sound show ?thesis
  proof (cases rule: mem_Claim_cases [where jid = jid and owner = owner and now = now and lease = lease])
    case (won j)
    have "0 \<le> j_Attempts j" using assms(1) won(1) by (auto simp: announced_def plain_job_def)
    moreover have "j_Attempts j < 2 ^ 63 - 2" using assms(2) won(1) by (auto simp: claims_left_def)
    ultimately have "0 \<le> i64 (j_Attempts j + 1)" by (subst i64_id) (auto simp: in_i64_def)
    moreover have "\<not> terminal (j_Status j)" using won(2) by (auto simp: claimable_at_def)
    moreover have "mem_sound H s'" using mem_Claim_sound [OF sound assms(3)] .
    moreover have "ms_outbox s' = ms_outbox s" "ms_jobs s' = (ms_jobs s)(jid \<mapsto> claimed_job (\<lambda>t. t) owner now lease j)"
      using won(3) assms(3) by auto
    ultimately show ?thesis
      using announced_job_change(1) [OF assms(1) _ _ won(1)] by (simp add: claimed_job_def)
  qed (use assms in auto)
qed

lemma mem_finish_announced:
  assumes "announced H K s" "terminal st" "mem_finish jid owner now st reason s = (r, s')"
  shows "announced H K s'" and "r = Inr True \<Longrightarrow> announced H (K - {jid}) s'"
proof -
  have sound: "mem_sound H s" using assms(1) by (simp add: announced_def)
  have "st \<noteq> Received" using assms(2) by auto
  then have sound': "mem_sound H s'" using mem_finish_sound [OF sound, of st jid owner now reason] assms(3) by simp
  have "announced H K s' \<and> (r = Inr True \<longrightarrow> announced H (K - {jid}) s')"
  proof (cases rule: mem_finish_cases [where s = s and jid = jid and owner = owner and now = now
      and st = st and reason = reason])
    case (ended j j')
    have "0 \<le> j_Attempts j" using assms(1) ended(1) by (auto simp: announced_def plain_job_def)
    moreover have "\<not> terminal (j_Status j)" using ended(2) by (auto simp: running_by_def)
    moreover have "ms_outbox s' = ms_outbox s" "ms_jobs s' = (ms_jobs s)(jid \<mapsto> j')"
      using ended(4) assms(3) by auto
    ultimately show ?thesis
      using announced_job_change [OF assms(1) sound' _ ended(1), of j'] ended(3) assms(2)
      by (simp add: ended_job_def same_identity_def)
  qed (use assms in auto)
  then show "announced H K s'" and "r = Inr True \<Longrightarrow> announced H (K - {jid}) s'" by blast+
qed

lemma mem_Renew_announced:
  assumes "announced H K s" "mem_Renew jid owner now lease s = (r, s')"
  shows "announced H K s'"
proof (cases rule: mem_Renew_cases [where s = s and jid = jid and owner = owner and now = now and lease = lease])
  case (renewed j)
  have sound: "mem_sound H s'" using assms mem_Renew_sound [of H s jid owner now lease] by (auto simp: announced_def)
  have "0 \<le> j_Attempts j" using assms(1) renewed(1) by (auto simp: announced_def plain_job_def)
  moreover have "\<not> terminal (j_Status j)" using renewed(2) by (auto simp: running_by_def)
  ultimately show ?thesis
    using announced_job_change(1) [OF assms(1) sound _ renewed(1)] renewed(3) assms(2) by simp
qed (use assms in auto)

text \<open>Decoding the payload of a job's event gives that event back.\<close>

lemma job_event_payload:
  assumes "is_ascii e" "e \<noteq> []" "is_ascii k" "k \<noteq> []" "is_ascii d" "d \<noteq> []" "1 \<le> a" "in_i64 a"
  shows "\<exists>p. MarshalSafe (job_event e k d a) = Some p \<and> DecodeEvent p = Inr (job_event e k d a)"
proof -
  have v: "Validate (job_event e k d a)" using assms by (simp add: Validate_def job_event_def)
  moreover have "in_i64 1" by (simp add: in_i64_def)
  ultimately show ?thesis
    using DecodeEvent_enc [of "job_event e k d a"] assms by (simp add: MarshalSafe_def) (simp add: job_event_def)
qed

definition retry_event_id :: "hash \<Rightarrow> time \<Rightarrow> Job \<Rightarrow> MemoryStore \<Rightarrow> string" where
  "retry_event_id H now j s = newID H ''retry'' now (j_Attempts j) (ms_ids s + 1)"

lemma mem_Retry_announced:
  assumes "hex_hash H" "announced H K s" "mem_Retry H jid owner now nxt reason s = (r, s')"
    and "\<And>j. ms_jobs s jid = Some j \<Longrightarrow> ms_outbox s (retry_event_id H now j s) = None \<and> j_Attempts j < 2 ^ 63 - 1"
  shows "announced H K s'" and "r = Inr True \<Longrightarrow> announced H (K - {jid}) s'"
proof -
  have sound: "mem_sound H s" using assms(2) by (simp add: announced_def)
  have sound': "mem_sound H s'"
    using mem_Retry_sound [OF sound, of jid owner now nxt reason] assms(3) by auto
  have "announced H K s' \<and> (r = Inr True \<longrightarrow> announced H (K - {jid}) s')"
  proof (cases rule: mem_Retry_cases [where s = s and jid = jid and owner = owner and now = now
      and H = H and reason = reason and nxt = nxt])
    case (ended j j' s'')
    let ?e = "retry_event_id H now j s"
    note j = ended(1)
    have plain: "plain_job jid j" and id: "j_ID j = jid" and d: "j_DeliveryID j \<noteq> []"
      using assms(2) mem_sound_job [OF sound j] j by (auto simp: announced_def sound_job_def)
    have fresh: "ms_outbox s ?e = None" and top: "j_Attempts j < 2 ^ 63 - 1" using assms(4) [OF j] by auto
    have a: "i64 (j_Attempts j + 1) = j_Attempts j + 1" "in_i64 (j_Attempts j + 1)"
      using plain top by (auto simp: plain_job_def in_i64_def intro!: i64_id)
    obtain p where p: "MarshalSafe (job_event ?e jid (j_DeliveryID j) (j_Attempts j + 1)) = Some p"
      "DecodeEvent p = Inr (job_event ?e jid (j_DeliveryID j) (j_Attempts j + 1))"
      using job_event_payload [of ?e jid "j_DeliveryID j" "j_Attempts j + 1"] newID_ok [OF assms(1)] plain d a
      by (auto simp: retry_event_id_def plain_job_def)
    have nh: "\<not> not_holding owner now j" using ended(2) by (simp add: not_holding_def running_by_def)
    have out: "ms_outbox s' = (ms_outbox s)(?e \<mapsto>
        \<lparr>ob_EventID = ?e, ob_JobID = jid, ob_Topic = ''sql-sentinel.jobs'', ob_Payload = Some p,
         ob_Attempts = 0, ob_AvailableAt = nxt\<rparr>)"
      using assms(3) j p(1) nh id a(1) by (auto simp: mem_Retry_def Let_def retry_event_id_def)
    have jobs: "ms_jobs s' = (ms_jobs s)(jid \<mapsto> j')" using ended(5,6) assms(3) by simp
    have osound: "outbox_sound s'"
      using assms(2) p(2) by (auto simp: announced_def outbox_sound_def out job_event_def)
    have pend: "pending s' k" if "pending s k \<or> k = jid" for k
      using that fresh unfolding pending_def out by (metis (no_types, lifting) OutboxRecord.select_convs(2,4)
          fun_upd_apply option.distinct(1))
    have "plain_job jid j'" using plain ended(3) by (auto simp: plain_job_def ended_job_def same_identity_def)
    then have "announced H (K - {jid}) s'"
      using assms(2) sound' osound pend by (auto simp: announced_def jobs)
    then show ?thesis using announced_mono [of H "K - {jid}" s' K] by auto
  qed (use assms in auto)
  then show "announced H K s'" and "r = Inr True \<Longrightarrow> announced H (K - {jid}) s'" by blast+
qed

subsection \<open>One message\<close>

text \<open>In the single-process pipeline only the renewal ticker runs beside the runner.\<close>

definition quiet :: "'s run_event list \<Rightarrow> bool" where
  "quiet es \<longleftrightarrow> (\<forall>f. Other f \<notin> set es)"

lemma quiet_simps [simp]:
  "quiet []" "quiet (Tick t # es) = quiet es" "\<not> quiet (Other f # es)"
  by (auto simp: quiet_def)

definition same_frame :: "MemoryStore \<Rightarrow> MemoryStore \<Rightarrow> bool" where
  "same_frame s s' \<longleftrightarrow> ms_outbox s' = ms_outbox s \<and> ms_ids s' = ms_ids s
     \<and> (\<forall>k. map_option j_Attempts (ms_jobs s' k) = map_option j_Attempts (ms_jobs s k))"

lemma mem_Renew_frame: "same_frame s (snd (mem_Renew jid owner now lease s))"
  by (auto simp: mem_Renew_def same_frame_def split: option.splits)

lemma renew_loop_announced:
  assumes "announced H K s" "quiet es"
    and "renew_loop (memory_store H order) jid owner lease es c s = (c', s')"
  shows "announced H K s' \<and> same_frame s s'"
  using assms
proof (induction es arbitrary: c s)
  case Nil
  then show ?case by (simp add: same_frame_def)
next
  case (Cons e es)
  then obtain t where e: "e = Tick t" by (cases e) auto
  obtain r s1 where r: "mem_Renew jid owner t lease s = (r, s1)" by force
  have s1: "announced H K s1" "same_frame s s1"
    using mem_Renew_announced [OF Cons.prems(1) r] mem_Renew_frame [of s jid owner t lease] r by auto
  show ?case
  proof (cases c)
    case True
    with Cons.prems e Cons.IH [of s True] show ?thesis by simp
  next
    case False
    have "\<exists>c1. renew_loop (memory_store H order) jid owner lease es c1 s1 = (c', s')"
      using Cons.prems(3) e False r by (auto split: sum.splits)
    with Cons.IH [of s1] s1 Cons.prems(2) e show ?thesis by (auto simp: same_frame_def)
  qed
qed

text \<open>The identifier the retry of this call would draw is not in the outbox yet.\<close>

definition retry_fresh :: "hash \<Rightarrow> HandleClock \<Rightarrow> string \<Rightarrow> MemoryStore \<Rightarrow> bool" where
  "retry_fresh H k jid s \<longleftrightarrow>
     (\<forall>j. ms_jobs s jid = Some j \<longrightarrow>
        ms_outbox s (newID H ''retry'' (k_finish k) (i64 (j_Attempts j + 1)) (ms_ids s + 1)) = None)"

lemma finish_job_announced:
  assumes "hex_hash H" "announced H K s" "finish_job (memory_store H order) cfg k job err s = (e, s')"
    and "\<And>j. ms_jobs s (j_ID job) = Some j \<Longrightarrow>
      ms_outbox s (retry_event_id H (k_finish k) j s) = None \<and> j_Attempts j < 2 ^ 63 - 1"
  shows "announced H K s'" and "e = None \<Longrightarrow> announced H (K - {j_ID job}) s'"
proof -
  let ?good = "\<lambda>out. announced H K (snd out) \<and> (fst out = Inr True \<longrightarrow> announced H (K - {j_ID job}) (snd out))"
  have fin: "?good (mem_finish (j_ID job) owner now st reason s)" if "terminal st" for owner now st reason
    using mem_finish_announced [OF assms(2) that] by (metis prod.collapse)
  have ret: "?good (mem_Retry H (j_ID job) owner (k_finish k) nxt reason s)" for owner nxt reason
    using mem_Retry_announced [OF assms(1,2) _ assms(4)] by (metis prod.collapse)
  have "\<exists>out. settle out = (e, s') \<and> ?good out"
    using assms(3) fin [of Completed] fin [of Rejected] fin [of DeadLetter] ret
    by (auto simp: finish_job_def Let_def mem_Complete_def mem_Reject_def mem_DeadLetter_def
        simp del: split_paired_Ex split: option.splits if_splits intro!: exI)
  then obtain out where "settle out = (e, s')" "?good out" by blast
  then have "announced H K s' \<and> (e = None \<longrightarrow> announced H (K - {j_ID job}) s')"
    using settle_None [of out s'] settle_snd [of out] by (cases e) auto
  then show "announced H K s'" and "e = None \<Longrightarrow> announced H (K - {j_ID job}) s'" by blast+
qed

lemma handle_event_announced:
  assumes "hex_hash H" "announced H K s" "claims_left s" "retry_fresh H k (e_JobID event) s"
    and "\<And>job. quiet (run_events (runner job))"
    and "handle_event H (memory_store H order) runner cfg k event s = (e, s')"
  shows "announced H K s'" and "e = None \<Longrightarrow> announced H (K - {e_JobID event}) s'"
proof -
  let ?id = "e_JobID event"
  have sound: "mem_sound H s" using assms(2) by (simp add: announced_def)
  have "announced H K s' \<and> (e = None \<longrightarrow> announced H (K - {?id}) s')"
    using sound
  proof (cases rule: mem_Claim_cases [where jid = ?id and owner = "c_Owner cfg" and now = "k_claim k" and lease = "c_Lease cfg"])
    case missing
    with assms(2,6) show ?thesis by (auto simp: handle_event_def)
  next
    case (lost j)
    have "announced H (K - {?id}) s" if "terminal (j_Status j)"
      using assms(2) that lost(1) by (auto simp: announced_def)
    with lost assms(2,6) show ?thesis by (auto simp: handle_event_def terminal_def split: if_splits)
  next
    case (won j)
    let ?j = "claimed_job (\<lambda>t. t) (c_Owner cfg) (k_claim k) (c_Lease cfg) j"
    let ?s1 = "s\<lparr>ms_jobs := (ms_jobs s)(?id \<mapsto> ?j)\<rparr>"
    have s1: "announced H K ?s1" by (rule mem_Claim_announced [OF assms(2,3) won(3)])
    have id: "j_ID ?j = ?id" using mem_sound_job [OF sound won(1)] by (simp add: sound_job_def claimed_job_def)
    have top: "j_Attempts ?j < 2 ^ 63 - 1" "0 \<le> j_Attempts ?j"
    proof -
      have "0 \<le> j_Attempts j" "j_Attempts j < 2 ^ 63 - 2"
        using assms(2,3) won(1) by (auto simp: announced_def plain_job_def claims_left_def)
      then show "j_Attempts ?j < 2 ^ 63 - 1" "0 \<le> j_Attempts ?j"
        by (simp_all add: claimed_job_def i64_id in_i64_def)
    qed
    have fresh: "ms_outbox s (newID H ''retry'' (k_finish k) (j_Attempts ?j) (ms_ids s + 1)) = None"
      using assms(4) won(1) by (simp add: retry_fresh_def claimed_job_def)
    show ?thesis
    proof (cases "j_Attempts ?j > c_MaxAttempts cfg")
      case True
      then have "settle (mem_finish ?id (c_Owner cfg) (k_dead k) DeadLetter ''attempts_exhausted'' ?s1) = (e, s')"
        using assms(6) won(3) id by (simp add: handle_event_def mem_DeadLetter_def)
      moreover obtain r s2 where "mem_finish ?id (c_Owner cfg) (k_dead k) DeadLetter ''attempts_exhausted'' ?s1 = (r, s2)"
        by force
      ultimately show ?thesis
        using mem_finish_announced [OF s1 _, of DeadLetter ?id "c_Owner cfg" "k_dead k" "''attempts_exhausted''" r s2]
        by (auto simp: settle_def split: sum.splits if_splits)
    next
      case False
      obtain err s2 where run: "run_job H (memory_store H order) runner cfg event ?j ?s1 = (err, s2)" by force
      have s2: "announced H K s2 \<and> same_frame ?s1 s2"
      proof (cases "input_mismatch H event ?j")
        case True
        with run s1 show ?thesis by (auto simp: run_job_def same_frame_def)
      next
        case no: False
        obtain c s3 where l: "renew_loop (memory_store H order) (j_ID ?j) (c_Owner cfg) (c_Lease cfg)
            (run_events (runner ?j)) False ?s1 = (c, s3)" by force
        with run no have "s2 = s3" by (simp add: run_job_def)
        with renew_loop_announced [OF s1 assms(5) l] show ?thesis by simp
      qed
      have fin: "finish_job (memory_store H order) cfg k ?j err s2 = (e, s')"
        using assms(6) won(3) False run by (simp add: handle_event_def)
      have same: "j_Attempts j2 = j_Attempts ?j" if "ms_jobs s2 ?id = Some j2" for j2
      proof -
        have "map_option j_Attempts (ms_jobs s2 ?id) = map_option j_Attempts (ms_jobs ?s1 ?id)"
          using s2 unfolding same_frame_def by blast
        with that show ?thesis by simp
      qed
      have "ms_outbox s2 (retry_event_id H (k_finish k) j2 s2) = None \<and> j_Attempts j2 < 2 ^ 63 - 1"
        if "ms_jobs s2 (j_ID ?j) = Some j2" for j2
        using same [of j2] that id fresh top(1) s2 by (simp add: retry_event_id_def same_frame_def)
      from finish_job_announced [OF assms(1) _ fin this] s2 id show ?thesis by auto
    qed
  qed
  then show "announced H K s'" and "e = None \<Longrightarrow> announced H (K - {?id}) s'" by blast+
qed

subsection \<open>Receiving and relaying\<close>

definition recv_fresh :: "hash \<Rightarrow> time \<Rightarrow> MemoryStore \<Rightarrow> bool" where
  "recv_fresh H now s \<longleftrightarrow>
     ms_jobs s (mem_new_id H now s) = None
     \<and> ms_outbox s (newID H ''event'' now (i64 (ms_seq s + 1)) (ms_ids s + 2)) = None"

lemma mem_Receive_announced:
  assumes "hex_hash H" "announced H K s" "recv_fresh H now s" "is_ascii (in_DeliveryID inp)"
    and "mem_Receive H now inp s = (r, s')"
  shows "announced H K s'"
proof -
  have sound: "mem_sound H s" and ok: "mem_ok H now s"
    using assms(2,3) by (simp_all add: announced_def recv_fresh_def mem_ok_def mem_new_id_def)
  have sound': "mem_sound H s'" using mem_Receive_sound [OF sound ok, of inp] assms(5) by simp
  show ?thesis
  proof (cases rule: mem_Receive_cases [where s = s and inp = inp and H = H and now = now])
    case (created s'')
    let ?k = "mem_new_id H now s" and ?d = "in_DeliveryID inp"
    let ?e = "newID H ''event'' now (i64 (ms_seq s + 1)) (ms_ids s + 2)"
    have k: "?k \<noteq> []" "is_ascii ?k" and e: "?e \<noteq> []" "is_ascii ?e"
      using newID_ok [OF assms(1)] by (simp_all add: mem_new_id_def)
    have d: "?d \<noteq> []" using created(1) by (simp add: invalid_input_def)
    obtain p where p: "MarshalSafe (job_event ?e ?k ?d 1) = Some p" "DecodeEvent p = Inr (job_event ?e ?k ?d 1)"
      using job_event_payload [OF e(2,1) k(2,1) assms(4) d, of 1] by (auto simp: in_i64_def)
    have jobs: "ms_jobs s' = (ms_jobs s)(?k \<mapsto> queued_job H ?k now inp)" using created(3,4) assms(5) by simp
    have out: "ms_outbox s' = (ms_outbox s)(?e \<mapsto> \<lparr>ob_EventID = ?e, ob_JobID = ?k,
        ob_Topic = ''sql-sentinel.jobs'', ob_Payload = Some p, ob_Attempts = 0, ob_AvailableAt = now\<rparr>)"
      using assms(5) created(1,2) p(1) by (auto simp: mem_Receive_def Let_def mem_new_id_def)
    have fresh: "ms_outbox s ?e = None" using assms(3) by (simp add: recv_fresh_def)
    have osound: "outbox_sound s'"
      using assms(2) p(2) by (auto simp: announced_def outbox_sound_def out job_event_def)
    have pend: "pending s' i" if "pending s i \<or> i = ?k" for i
      using that fresh unfolding pending_def out by (metis (no_types, lifting) OutboxRecord.select_convs(2,4)
          fun_upd_apply option.distinct(1))
    have "plain_job ?k (queued_job H ?k now inp)"
      using k assms(4) by (simp add: plain_job_def) (simp add: queued_job_def received_job_def)
    then show ?thesis using assms(2) sound' osound pend by (auto simp: announced_def jobs)
  qed (use assms in auto)
qed

definition inflight :: "MemoryBroker \<Rightarrow> string set" where
  "inflight b = {e_JobID ev | ev m. m \<in> set (drop (br_next b) (br_messages b)) \<and> DecodeEvent (m_Value m) = Inr ev}"

lemma inflight_Publish:
  assumes "DecodeEvent p = Inr ev" "br_next b \<le> length (br_messages b)"
  shows "inflight (snd (broker_Publish topic key p b)) = insert (e_JobID ev) (inflight b)"
  using assms by (auto simp: inflight_def broker_Publish_def) (metis Message.select_convs(3))

lemma mem_MarkPublished_announced:
  assumes "announced H K s" "mem_MarkPublished wall e now err s = (r, s')"
  shows "err \<noteq> None \<Longrightarrow> announced H K s'"
    and "ms_outbox s e = Some rec \<Longrightarrow> announced H (insert (ob_JobID rec) K) s'"
    and "ms_outbox s k = Some x \<Longrightarrow> \<exists>x'. ms_outbox s' k = Some x' \<and> ob_JobID x' = ob_JobID x"
proof -
  have frame: "ms_jobs s' = ms_jobs s" "ms_byDeliv s' = ms_byDeliv s"
    using assms(2) by (auto simp: mem_MarkPublished_def Let_def split: option.splits)
  have out: "ms_outbox s' = ms_outbox s \<or> (\<exists>x x'. ms_outbox s e = Some x \<and> ms_outbox s' = (ms_outbox s)(e \<mapsto> x')
      \<and> ob_JobID x' = ob_JobID x \<and> ob_EventID x' = ob_EventID x
      \<and> (ob_Payload x' = None \<or> ob_Payload x' = ob_Payload x) \<and> (err \<noteq> None \<longrightarrow> ob_Payload x' = ob_Payload x))"
    using assms(2) by (auto simp: mem_MarkPublished_def Let_def split: option.splits)
  have s1: "mem_sound H s'" using assms(1) frame by (simp add: announced_def mem_sound_def)
  have s2: "outbox_sound s'" using assms(1) out by (auto simp: announced_def outbox_sound_def split: if_splits)
  have pend: "pending s' k" if "pending s k" "err \<noteq> None \<or> (\<forall>x. ms_outbox s e = Some x \<longrightarrow> ob_JobID x \<noteq> k)" for k
    using out that unfolding pending_def by (elim disjE exE conjE) (metis fun_upd_apply option.inject)+
  show "err \<noteq> None \<Longrightarrow> announced H K s'"
    using assms(1) s1 s2 pend frame by (auto simp: announced_def)
  show "ms_outbox s e = Some rec \<Longrightarrow> announced H (insert (ob_JobID rec) K) s'"
    using assms(1) s1 s2 pend frame by (auto simp: announced_def)
  show "ms_outbox s k = Some x \<Longrightarrow> \<exists>x'. ms_outbox s' k = Some x' \<and> ob_JobID x' = ob_JobID x"
    using out by (auto split: if_splits)
qed

definition rows_sound :: "MemoryStore \<Rightarrow> OutboxRecord list \<Rightarrow> bool" where
  "rows_sound s rows \<longleftrightarrow>
     (\<forall>row \<in> set rows. (\<exists>x. ms_outbox s (ob_EventID row) = Some x \<and> ob_JobID x = ob_JobID row)
        \<and> (\<exists>p ev. ob_Payload row = Some p \<and> DecodeEvent p = Inr ev \<and> e_JobID ev = ob_JobID row))"

lemma relay_rows_announced:
  assumes "announced H (inflight b) s" "rows_sound s rows" "br_next b \<le> length (br_messages b)"
    and "relay_rows (memory_store H order) broker_Publish wall now rows count s b = (res, s', b')"
  shows "announced H (inflight b') s' \<and> br_next b' \<le> length (br_messages b')"
  using assms
proof (induction rows arbitrary: count s b)
  case (Cons row rows)
  obtain p ev x where row: "ob_Payload row = Some p" "DecodeEvent p = Inr ev" "e_JobID ev = ob_JobID row"
    "ms_outbox s (ob_EventID row) = Some x" "ob_JobID x = ob_JobID row"
    using Cons.prems(2) by (auto simp: rows_sound_def)
  obtain b1 where b1: "broker_Publish (ob_Topic row) (ob_EventID row) p b = (None, b1)"
    by (simp add: broker_Publish_def)
  have infl: "inflight b1 = insert (ob_JobID row) (inflight b)"
    using inflight_Publish [OF row(2) Cons.prems(3)] b1 row(3) by (metis snd_conv)
  have nx: "br_next b1 \<le> length (br_messages b1)"
    using b1 Cons.prems(3) by (auto simp: broker_Publish_def)
  obtain r s1 where m: "mem_MarkPublished wall (ob_EventID row) now None s = (r, s1)" by force
  have s1: "announced H (inflight b1) s1"
    using mem_MarkPublished_announced(2) [OF Cons.prems(1) m row(4)] infl row(5) by simp
  show ?case
  proof (cases r)
    case (Some e)
    with Cons.prems(4) m b1 row(1) s1 nx show ?thesis by (auto simp: payload_bytes_def)
  next
    case None
    have "rows_sound s1 rows"
      using Cons.prems(2) mem_MarkPublished_announced(3) [OF Cons.prems(1) m]
      unfolding rows_sound_def by (metis list.set_intros(2))
    moreover have "relay_rows (memory_store H order) broker_Publish wall now rows (count + 1) s1 b1 = (res, s', b')"
      using Cons.prems(4) m b1 row(1) None by (simp add: payload_bytes_def)
    ultimately show ?thesis using Cons.IH [OF s1 _ nx] by blast
  qed
qed simp

lemma mem_pending_loop_set:
  "r \<in> set (mem_pending_loop m limit now ks acc) \<Longrightarrow>
    r \<in> set acc \<or> (\<exists>k \<in> set ks. m k = Some r \<and> ob_Payload r \<noteq> None \<and> ob_AvailableAt r \<le> now)"
  by (induction m limit now ks acc rule: mem_pending_loop.induct)
     (auto simp: Let_def not_less split: option.splits if_splits)

definition pipeline_relay :: "hash \<Rightarrow> (MemoryStore \<Rightarrow> string list) \<Rightarrow> int \<Rightarrow> (MemoryStore, MemoryBroker) Relay" where
  "pipeline_relay H order batch =
     \<lparr>rl_Store = Some (memory_store H order), rl_Publisher = Some broker_Publish, rl_BatchSize = batch\<rparr>"

lemma RunOnce_announced:
  assumes "announced H (inflight b) s" "br_next b \<le> length (br_messages b)"
    and "RunOnce (pipeline_relay H order batch) wall now s b = (res, s', b')"
  shows "announced H (inflight b') s' \<and> br_next b' \<le> length (br_messages b')"
proof -
  let ?batch = "if batch < 1 then 16 else batch"
  let ?rows = "mem_pending_loop (ms_outbox s) ?batch now (order s) []"
  have "rows_sound s ?rows"
    using assms(1) mem_pending_loop_set [of _ "ms_outbox s" ?batch now "order s" "[]"]
    by (fastforce simp: rows_sound_def announced_def outbox_sound_def)
  moreover have "relay_rows (memory_store H order) broker_Publish wall now ?rows 0 s b = (res, s', b')"
    using assms(3) by (auto simp: RunOnce_def pipeline_relay_def mem_PendingOutbox_def Let_def split: if_splits)
  ultimately show ?thesis using relay_rows_announced assms(1,2) by blast
qed

subsection \<open>The transition system\<close>

text \<open>
  The states of the pipeline and its steps: a request is received, the relay runs, a published row
  is not marked because the relay crashed, the worker handles the next message (and commits it when
  it answers nil), the worker crashes after a claim.  The side conditions say that identifiers drawn
  in the step are new and that attempt counters are far from overflow.
\<close>

record Pipeline =
  pl_store :: MemoryStore
  pl_broker :: MemoryBroker

definition initial_pipeline :: Pipeline where
  "initial_pipeline = \<lparr>pl_store = NewMemoryStore, pl_broker = NewMemoryBroker\<rparr>"

definition memory_worker ::
  "hash \<Rightarrow> (MemoryStore \<Rightarrow> string list) \<Rightarrow> (Job \<Rightarrow> MemoryStore run_script) \<Rightarrow> Config \<Rightarrow> MemoryStore Worker" where
  "memory_worker H order runner cfg =
     \<lparr>w_Store = Some (memory_store H order), w_Runner = Some runner, w_Config = cfg\<rparr>"

definition handle_guard :: "hash \<Rightarrow> HandleClock \<Rightarrow> Message \<Rightarrow> MemoryStore \<Rightarrow> bool" where
  "handle_guard H k m s \<longleftrightarrow> claims_left s
     \<and> (case DecodeEvent (m_Value m) of Inl e \<Rightarrow> True | Inr ev \<Rightarrow> retry_fresh H k (e_JobID ev) s)"

inductive pipeline_step :: "hash \<Rightarrow> Pipeline \<Rightarrow> Pipeline \<Rightarrow> bool" for H where
  ps_receive: "recv_fresh H now (pl_store p) \<Longrightarrow> is_ascii (in_DeliveryID inp) \<Longrightarrow>
    mem_Receive H now inp (pl_store p) = (r, s') \<Longrightarrow> pipeline_step H p (p\<lparr>pl_store := s'\<rparr>)"
| ps_relay: "RunOnce (pipeline_relay H order batch) wall now (pl_store p) (pl_broker p) = (res, s', b') \<Longrightarrow>
    pipeline_step H p (p\<lparr>pl_store := s', pl_broker := b'\<rparr>)"
| ps_relay_crash: "ms_outbox (pl_store p) e = Some row \<Longrightarrow> ob_Payload row = Some x \<Longrightarrow>
    pipeline_step H p (p\<lparr>pl_broker := snd (broker_Publish (ob_Topic row) e x (pl_broker p))\<rparr>)"
| ps_handled: "broker_Receive (pl_broker p) = Some m \<Longrightarrow> handle_guard H k m (pl_store p) \<Longrightarrow>
    (\<And>job. quiet (run_events (runner job))) \<Longrightarrow>
    Handle H (memory_worker H order runner cfg) k m (pl_store p) = (None, s') \<Longrightarrow>
    pipeline_step H p (p\<lparr>pl_store := s', pl_broker := snd (broker_Commit m (pl_broker p))\<rparr>)"
| ps_failed: "broker_Receive (pl_broker p) = Some m \<Longrightarrow> handle_guard H k m (pl_store p) \<Longrightarrow>
    (\<And>job. quiet (run_events (runner job))) \<Longrightarrow>
    Handle H (memory_worker H order runner cfg) k m (pl_store p) = (Some e, s') \<Longrightarrow>
    pipeline_step H p (p\<lparr>pl_store := s'\<rparr>)"
| ps_crash: "claims_left (pl_store p) \<Longrightarrow> mem_Claim jid owner now lease (pl_store p) = (r, s') \<Longrightarrow>
    pipeline_step H p (p\<lparr>pl_store := s'\<rparr>)"

definition reachable :: "hash \<Rightarrow> Pipeline \<Rightarrow> bool" where
  "reachable H p \<longleftrightarrow> (pipeline_step H)\<^sup>*\<^sup>* initial_pipeline p"

definition pipeline_inv :: "hash \<Rightarrow> Pipeline \<Rightarrow> bool" where
  "pipeline_inv H p \<longleftrightarrow> announced H (inflight (pl_broker p)) (pl_store p)
     \<and> br_next (pl_broker p) \<le> length (br_messages (pl_broker p))"

lemma inflight_Commit:
  assumes "broker_Receive b = Some m"
  shows "inflight b - {k. \<exists>ev. DecodeEvent (m_Value m) = Inr ev \<and> k = e_JobID ev} \<subseteq> inflight (snd (broker_Commit m b))"
    and "br_next (snd (broker_Commit m b)) \<le> length (br_messages (snd (broker_Commit m b)))"
proof -
  have lt: "br_next b < length (br_messages b)" and m: "m = br_messages b ! br_next b"
    using assms by (auto simp: broker_Receive_def split: if_splits)
  have "drop (br_next b) (br_messages b) = m # drop (Suc (br_next b)) (br_messages b)"
    using lt m by (simp add: Cons_nth_drop_Suc)
  then show "inflight b - {k. \<exists>ev. DecodeEvent (m_Value m) = Inr ev \<and> k = e_JobID ev} \<subseteq> inflight (snd (broker_Commit m b))"
    using lt by (auto simp: inflight_def broker_Commit_def)
  show "br_next (snd (broker_Commit m b)) \<le> length (br_messages (snd (broker_Commit m b)))"
    using lt by (simp add: broker_Commit_def)
qed

lemma Handle_announced:
  assumes "hex_hash H" "announced H K s" "handle_guard H k m s" "\<And>job. quiet (run_events (runner job))"
    and "Handle H (memory_worker H order runner cfg) k m s = (e, s')"
  shows "announced H K s'" and "e = None \<Longrightarrow> \<exists>ev. DecodeEvent (m_Value m) = Inr ev \<and> announced H (K - {e_JobID ev}) s'"
proof -
  have "announced H K s' \<and> (e = None \<longrightarrow> (\<exists>ev. DecodeEvent (m_Value m) = Inr ev \<and> announced H (K - {e_JobID ev}) s'))"
  proof (cases "DecodeEvent (m_Value m)")
    case (Inl x)
    with assms(2,5) show ?thesis by (auto simp: Handle_def memory_worker_def)
  next
    case (Inr ev)
    with assms(3) have g: "claims_left s" "retry_fresh H k (e_JobID ev) s" by (simp_all add: handle_guard_def)
    from Inr assms(5) have h: "handle_event H (memory_store H order) runner (claim_config H cfg k) k ev s = (e, s')"
      by (simp add: Handle_def memory_worker_def)
    from handle_event_announced [OF assms(1,2) g assms(4) h] Inr show ?thesis by blast
  qed
  then show "announced H K s'" and "e = None \<Longrightarrow> \<exists>ev. DecodeEvent (m_Value m) = Inr ev \<and> announced H (K - {e_JobID ev}) s'"
    by blast+
qed

lemma pipeline_step_inv:
  assumes "pipeline_step H p p'" "hex_hash H" "pipeline_inv H p"
  shows "pipeline_inv H p'"
  using assms(1)
proof cases
  case (ps_receive now inp r s')
  with mem_Receive_announced [OF assms(2) _ ps_receive(2,3,4)] assms(3) show ?thesis
    by (simp add: pipeline_inv_def)
next
  case (ps_relay order batch wall now res s' b')
  with RunOnce_announced [OF _ _ ps_relay(2)] assms(3) show ?thesis by (simp add: pipeline_inv_def)
next
  case (ps_relay_crash e row x)
  have "outbox_sound (pl_store p)" using assms(3) by (simp add: pipeline_inv_def announced_def)
  then obtain ev where "DecodeEvent x = Inr ev"
    using ps_relay_crash(2,3) unfolding outbox_sound_def by blast
  then have infl: "inflight (snd (broker_Publish (ob_Topic row) e x (pl_broker p))) = insert (e_JobID ev) (inflight (pl_broker p))"
    using inflight_Publish assms(3) by (simp add: pipeline_inv_def)
  have "announced H (insert (e_JobID ev) (inflight (pl_broker p))) (pl_store p)"
    by (rule announced_mono [of H "inflight (pl_broker p)"]) (use assms(3) in \<open>auto simp: pipeline_inv_def\<close>)
  moreover have "br_next (pl_broker p) \<le> length (br_messages (pl_broker p))"
    using assms(3) by (simp add: pipeline_inv_def)
  ultimately show ?thesis
    unfolding ps_relay_crash(1) pipeline_inv_def by (simp add: infl) (simp add: broker_Publish_def)
next
  case (ps_handled m k runner order cfg s')
  obtain ev where ev: "DecodeEvent (m_Value m) = Inr ev" "announced H (inflight (pl_broker p) - {e_JobID ev}) s'"
    using Handle_announced(2) [OF assms(2) _ ps_handled(3,4,5)] assms(3) by (auto simp: pipeline_inv_def)
  have "inflight (pl_broker p) - {e_JobID ev} \<subseteq> inflight (snd (broker_Commit m (pl_broker p)))"
    using inflight_Commit(1) [OF ps_handled(2)] ev(1) by auto
  with announced_mono [OF ev(2)] inflight_Commit(2) [OF ps_handled(2)] ps_handled(1) show ?thesis
    by (simp add: pipeline_inv_def)
next
  case (ps_failed m k runner order cfg e s')
  with Handle_announced(1) [OF assms(2) _ ps_failed(3,4,5)] assms(3) show ?thesis by (simp add: pipeline_inv_def)
next
  case (ps_crash jid owner now lease r s')
  with mem_Claim_announced [OF _ ps_crash(2,3)] assms(3) show ?thesis by (simp add: pipeline_inv_def)
qed

lemma pipeline_inv_initial: "pipeline_inv H initial_pipeline"
  by (simp add: pipeline_inv_def initial_pipeline_def announced_def outbox_sound_def NewMemoryBroker_def)
     (simp add: NewMemoryStore_def)

lemma pipeline_inv_reachable:
  assumes "hex_hash H" "reachable H p"
  shows "pipeline_inv H p"
  using assms(2) unfolding reachable_def
  by (induction rule: rtranclp_induct) (auto intro: pipeline_inv_initial pipeline_step_inv assms(1))

section \<open>Properties of the pipeline\<close>

text \<open>A digest function and inputs to evaluate the properties at.\<close>

definition sample_hash :: hash where
  "sample_hash x = replicate 64 CHR ''a''"

definition sample_input :: ReceiveInput where
  "sample_input = \<lparr>in_Options = zero_options, in_DeliveryID = ''d1'', in_PRNumber = 1,
     in_SQL = ''SELECT 1'', in_CandidateSpec = ''{}'', in_SourceJSON = []\<rparr>"

lemma sample_hash_hex: "hex_hash sample_hash"
  by (simp add: hex_hash_def sample_hash_def is_ascii_def ord_def)

lemma sample_input_valid [simp]: "\<not> invalid_input sample_input"
  by (simp add: invalid_input_def sample_input_def)

section \<open>Concrete states\<close>

definition sample_db :: Database where
  "sample_db = \<lparr>db_time = (\<lambda>t. t), db_json = (\<lambda>b. b)\<rparr>"

definition sample_row :: "JobStatus \<Rightarrow> string \<Rightarrow> time option \<Rightarrow> JobRow" where
  "sample_row st owner lease =
     \<lparr>r_job_id = ''j1'', r_delivery_id = ''d1'', r_pr_number = 1, r_sql_text = ''S'', r_candidate_spec = ''C'',
      r_sql_sha256 = sample_hash ''S'', r_candidate_spec_sha256 = sample_hash ''C'', r_status = st,
      r_attempts = 1, r_next_attempt_at = 0, r_lease_owner = owner, r_lease_until = lease, r_last_error = [],
      r_created_at = 0, r_updated_at = 0, r_completed_at = None\<rparr>"

definition sample_mysql :: "JobRow list \<Rightarrow> MySQL" where
  "sample_mysql rows =
     \<lparr>my_tables = \<lparr>t_guard = True, t_jobs = rows, t_options = [], t_outbox = [], t_history = [], t_audit = [],
        t_sources = [], t_poison = []\<rparr>,
      my_ids = 0, my_fail = (\<lambda>n. False), my_stmt = 0\<rparr>"

definition sample_event :: Event where
  "sample_event = job_event ''e1'' ''j1'' ''d1'' 1"

definition sample_message :: Message where
  "sample_message = \<lparr>m_Topic = [], m_Key = [], m_Value = enc_object (event_members sample_event),
     m_Partition = 0, m_Offset = 0\<rparr>"

definition sample_script :: "'s run_script" where
  "sample_script = \<lparr>run_events = [], run_err = None, run_ctx_done = False\<rparr>"

definition sample_clock :: HandleClock where
  "sample_clock = \<lparr>k_wall = 0, k_seq = 1, k_claim = 10, k_dead = 10, k_finish = 20\<rparr>"

definition sample_config :: Config where
  "sample_config = \<lparr>c_Topic = [], c_MaxAttempts = 0, c_Lease = 0, c_RetryBase = 0, c_RetryMax = 0, c_Owner = []\<rparr>"

definition sample_worker :: "MySQL Worker" where
  "sample_worker = \<lparr>w_Store = Some (mysql_store sample_hash sample_db (\<lambda>e. []) ([], [])),
     w_Runner = Some (\<lambda>job. sample_script), w_Config = sample_config\<rparr>"

lemma sample_worker_fields:
  "w_Store sample_worker = Some (mysql_store sample_hash sample_db (\<lambda>e. []) ([], []))"
  "w_Runner sample_worker = Some (\<lambda>job. sample_script)"
  "\<And>job::Job. friendly job_of sound (run_events ((\<lambda>job. sample_script) job))"
  by (simp_all add: sample_worker_def sample_script_def)

lemma sample_message_decodes: "DecodeEvent (m_Value sample_message) = Inr sample_event"
  using DecodeEvent_enc [of sample_event]
  by (simp add: sample_message_def sample_event_def job_event_def is_ascii_def ord_def in_i64_def Validate_def)

lemma sample_row_sound:
  "st \<noteq> Received \<Longrightarrow> (st = Running \<or> owner = []) \<Longrightarrow> (st = Running \<longleftrightarrow> lease \<noteq> None) \<Longrightarrow>
    my_sound sample_hash (sample_mysql [sample_row st owner lease])"
  by (simp add: my_sound_def tables_sound_def row_sound_def sample_row_def sample_mysql_def digest_def int_max_def)

lemmas db_eval = db_bind_def db_stmt_def db_query_def db_return_def db_raise_def db_new_id_def Let_def

lemma sample_handle:
  "Handle sample_hash sample_worker sample_clock sample_message (sample_mysql [sample_row Completed [] None])
    = (None, (sample_mysql [sample_row Completed [] None])\<lparr>my_stmt := 2\<rparr>)"
  by (simp add: Handle_def sample_worker_def sample_message_decodes handle_event_def my_Claim_def my_getByID_def
      my_get_def db_eval sample_mysql_def sample_row_def sample_event_def job_event_def upd_job_def find_job_def
      row_claimable_def scan_job_def)

lemma sample_receive:
  "\<exists>v s1. my_Receive sample_hash sample_db ([], []) 5 sample_input (sample_mysql []) = (Inr v, s1)"
  by (simp add: my_Receive_def receive_body_def receive_inserts_def db_eval sample_mysql_def sample_input_def
      invalid_input_def find_delivery_def pending_count_def ins_job_def new_row_def ins_history_def ins_keyed_def
      ins_outbox_def MarshalSafe_def Validate_def job_event_def newID_def sample_hash_def upd_job_def my_Get_def
      my_get_def scan_job_def)

text \<open>C1: In every state the in-memory pipeline can reach (requests, relay runs, relay crashes after a
  publish, handled and failed messages, worker crashes after a claim, in any order), a stored job that
  has not ended still has an unpublished outbox record or an uncommitted message naming it: accepted
  work is never lost.\<close>

theorem pipeline_never_loses_job:
  assumes "hex_hash H" "reachable H p" "ms_jobs (pl_store p) k = Some j" "\<not> terminal (j_Status j)"
  shows "pending (pl_store p) k \<or> k \<in> inflight (pl_broker p)"
  using pipeline_inv_reachable [OF assms(1,2)] assms(3,4) by (auto simp: pipeline_inv_def announced_def)

definition sample_pipeline :: Pipeline where
  "sample_pipeline = initial_pipeline\<lparr>pl_store := snd (mem_Receive sample_hash 5 sample_input NewMemoryStore)\<rparr>"

lemma sample_pipeline_reachable: "reachable sample_hash sample_pipeline"
proof -
  have "pipeline_step sample_hash initial_pipeline (initial_pipeline\<lparr>pl_store := snd (mem_Receive sample_hash 5 sample_input NewMemoryStore)\<rparr>)"
    by (rule ps_receive [where now = 5 and inp = sample_input
          and r = "fst (mem_Receive sample_hash 5 sample_input NewMemoryStore)"])
       (simp_all add: initial_pipeline_def recv_fresh_def NewMemoryStore_def sample_input_def is_ascii_def ord_def)
  then show ?thesis by (simp add: reachable_def sample_pipeline_def r_into_rtranclp)
qed

lemma sample_pipeline_job:
  "ms_jobs (pl_store sample_pipeline) (mem_new_id sample_hash 5 NewMemoryStore)
    = Some (queued_job sample_hash (mem_new_id sample_hash 5 NewMemoryStore) 5 sample_input)"
  by (rule mem_Receive_cases [where s = NewMemoryStore and inp = sample_input and H = sample_hash and now = 5])
     (auto simp: sample_pipeline_def NewMemoryStore_def)

theorem pipeline_never_loses_job_witness:
  "\<exists>p k. reachable sample_hash p \<and> ms_jobs (pl_store p) k \<noteq> None \<and> (pending (pl_store p) k \<or> k \<in> inflight (pl_broker p))"
  using sample_pipeline_reachable sample_pipeline_job
    pipeline_never_loses_job [OF sample_hash_hex sample_pipeline_reachable sample_pipeline_job] by auto

section \<open>Properties of the worker on the durable store\<close>

text \<open>C2: A worker that answers nil for a message (so that the message is committed) has decoded an event
  whose job is in the store and has ended or is scheduled for a retry, whatever statements of the database
  failed and whatever other processes did to the jobs while the runner worked.\<close>

theorem handle_ack_means_settled:
  assumes "my_sound H s" "w_Store w = Some (mysql_store H q err_text carrier)" "w_Runner w = Some runner"
    and "\<And>job. friendly my_job (my_sound H) (run_events (runner job))"
    and "Handle H w k m s = (None, s')"
  shows "\<exists>ev j. DecodeEvent (m_Value m) = Inr ev \<and> my_job s' (e_JobID ev) = Some j
    \<and> (terminal (j_Status j) \<or> j_Status j = Retrying)"
proof -
  obtain ev where ev: "DecodeEvent (m_Value m) = Inr ev"
    using assms(2,3,5) by (cases "DecodeEvent (m_Value m)") (auto simp: Handle_def)
  then have "handle_event H (mysql_store H q err_text carrier) runner (claim_config H (w_Config w) k) k ev s = (None, s')"
    using assms(2,3,5) by (simp add: Handle_def)
  from sql_store.handle_event_ack [OF assms(1,4) this] ev show ?thesis by blast
qed

theorem handle_ack_means_settled_witness:
  "\<exists>j. my_job (snd (Handle sample_hash sample_worker sample_clock sample_message
      (sample_mysql [sample_row Completed [] None]))) ''j1'' = Some j \<and> (terminal (j_Status j) \<or> j_Status j = Retrying)"
proof -
  have "my_sound sample_hash (sample_mysql [sample_row Completed [] None])" by (rule sample_row_sound) simp_all
  from handle_ack_means_settled [OF this sample_worker_fields sample_handle] show ?thesis
    by (simp add: sample_message_decodes sample_event_def job_event_def sample_handle)
qed

text \<open>C7: Handling any message moves every job of the durable store only along the life cycle and keeps the
  invariant of the tables; in particular a job that has ended stays exactly as it is.\<close>

theorem handle_follows_life_cycle:
  assumes "my_sound H s" "w_Store w = Some (mysql_store H q err_text carrier)" "w_Runner w = Some runner"
    and "\<And>job. friendly my_job (my_sound H) (run_events (runner job))"
    and "Handle H w k m s = (e, s')"
  shows "my_sound H s' \<and> jobs_path my_job s s'
    \<and> (\<forall>i j. my_job s i = Some j \<and> terminal (j_Status j) \<longrightarrow> my_job s' i = Some j)"
proof -
  have "my_sound H s' \<and> jobs_path my_job s s'"
  proof (cases "DecodeEvent (m_Value m)")
    case (Inl x)
    with assms(1,2,3,5) show ?thesis by (auto simp: Handle_def)
  next
    case (Inr ev)
    then have "handle_event H (mysql_store H q err_text carrier) runner (claim_config H (w_Config w) k) k ev s = (e, s')"
      using assms(2,3,5) by (simp add: Handle_def)
    from sql_store.handle_event_path [OF assms(1,4) this] show ?thesis .
  qed
  then show ?thesis by (metis job_path_terminal jobs_path_def)
qed

theorem handle_follows_life_cycle_witness:
  "my_sound sample_hash (snd (Handle sample_hash sample_worker sample_clock sample_message
      (sample_mysql [sample_row Completed [] None])))"
proof -
  have "my_sound sample_hash (sample_mysql [sample_row Completed [] None])" by (rule sample_row_sound) simp_all
  from handle_follows_life_cycle [OF this sample_worker_fields sample_handle] show ?thesis
    by (simp add: sample_handle)
qed

text \<open>C6: Fencing: when a worker comes back from its runner and the lease of its job has meanwhile been taken
  by another owner, finishing the job (complete, reject, dead-letter or retry) returns an error and changes no
  job of the durable store.\<close>

theorem stale_worker_is_fenced:
  assumes "my_sound H s" "my_job s (j_ID job) = Some j" "j_LeaseOwner j \<noteq> c_Owner cfg"
    and "finish_job (mysql_store H q err_text carrier) cfg k job err s = (e, s')"
  shows "e \<noteq> None \<and> my_job s' = my_job s"
  by (rule sql_store.finish_job_fenced [OF assms])

theorem stale_worker_is_fenced_witness:
  "fst (finish_job (mysql_store sample_hash sample_db (\<lambda>e. []) ([], [])) (sample_config\<lparr>c_Owner := ''old''\<rparr>) sample_clock
      (scan_job (my_tables (sample_mysql [])) (sample_row Running ''new'' (Some 99))) None
      (sample_mysql [sample_row Running ''new'' (Some 99)])) \<noteq> None"
proof -
  have "my_sound sample_hash (sample_mysql [sample_row Running ''new'' (Some 99)])" by (rule sample_row_sound) simp_all
  from stale_worker_is_fenced [OF this _ _ prod.collapse [symmetric],
      where job = "scan_job (my_tables (sample_mysql [])) (sample_row Running ''new'' (Some 99))"
        and cfg = "sample_config\<lparr>c_Owner := ''old''\<rparr>"]
  show ?thesis
    by (simp add: my_job_def tables_job_def find_job_def sample_mysql_def sample_row_def scan_job_def)
qed

text \<open>C3: Transactional outbox: \<open>Receive\<close> on the durable store either leaves all tables as they were, or adds
  exactly one queued job together with its options and one unpublished outbox row that carries that job's first
  event; a failing statement never leaves a job without its event.\<close>

theorem receive_is_atomic:
  "my_tables (snd (my_Receive H q carrier now inp s)) = my_tables s
    \<or> (\<exists>jobID. inserted_post H q now (traced carrier inp) jobID (my_tables s)
          (my_tables (snd (my_Receive H q carrier now inp s))))"
  using my_Receive_post [of H q carrier now inp s "fst (my_Receive H q carrier now inp s)"
      "snd (my_Receive H q carrier now inp s)"]
  by (auto simp: my_receive_post_def split: sum.splits)

text \<open>Deliveries are deduplicated: once a delivery was accepted, receiving it again (with any trace context,
  at any time) creates nothing, and an accepted answer is the duplicate of the same job.\<close>

theorem receive_deduplicates:
  assumes "my_sound H s" "my_Receive H q c1 t1 inp s = (Inr v1, s1)" "my_Receive H q c2 t2 inp s1 = (r, s2)"
  shows "my_tables s2 = my_tables s1
    \<and> (\<forall>v2. r = Inr v2 \<longrightarrow> res_Duplicate v2 \<and> res_Job v2 = res_Job v1)"
proof -
  obtain row where row: "find_delivery (in_DeliveryID inp) (my_tables s1) = Some row" "res_Job v1 = scan_job (my_tables s1) row"
    using my_Receive_post [OF assms(2)] by (auto simp: my_receive_post_def)
  then have "in_DeliveryID inp \<in> r_delivery_id ` set (t_jobs (my_tables s1))" using find_deliveryD by force
  then have "\<not> inserted_post H q t2 (traced c2 inp) jobID (my_tables s1) (my_tables s2)" for jobID
    by (simp add: inserted_post_def)
  with my_Receive_post [OF assms(3)] row show ?thesis by (auto simp: my_receive_post_def split: sum.splits)
qed

theorem receive_deduplicates_witness:
  "\<exists>v1 s1. my_Receive sample_hash sample_db ([], []) 5 sample_input (sample_mysql []) = (Inr v1, s1)
    \<and> my_tables (snd (my_Receive sample_hash sample_db ([], []) 9 sample_input s1)) = my_tables s1"
proof -
  have "my_sound sample_hash (sample_mysql [])" by (simp add: my_sound_def tables_sound_def sample_mysql_def)
  moreover obtain v1 s1 where r: "my_Receive sample_hash sample_db ([], []) 5 sample_input (sample_mysql []) = (Inr v1, s1)"
    using sample_receive by blast
  ultimately show ?thesis
    using receive_deduplicates [OF _ r prod.collapse [symmetric]] by blast
qed

definition backlog :: "Tables \<Rightarrow> nat" where
  "backlog t = length (filter (\<lambda>r. \<not> terminal (r_status r)) (t_jobs t))"

lemma backlog_pending: "pending_count t < 1000 \<Longrightarrow> backlog t < 1000"
proof -
  have "filter (\<lambda>r. r_status r \<in> {Received, Queued, Running, Retrying}) (t_jobs t) = filter (\<lambda>r. \<not> terminal (r_status r)) (t_jobs t)"
    by (rule filter_cong [OF refl]) (auto simp: terminal_def intro: JobStatus.exhaust)
  then show "pending_count t < 1000 \<Longrightarrow> backlog t < 1000" by (simp add: pending_count_def backlog_def)
qed

text \<open>The backlog is bounded: a receive never brings the number of unfinished jobs above 1000.\<close>

theorem receive_bounds_backlog:
  assumes "backlog (my_tables s) \<le> 1000" "my_Receive H q carrier now inp s = (r, s')"
  shows "backlog (my_tables s') \<le> 1000"
proof -
  have "my_tables s' = my_tables s \<or> (pending_count (my_tables s) < 1000
      \<and> (\<exists>row. t_jobs (my_tables s') = t_jobs (my_tables s) @ [row]))"
    using my_Receive_post [OF assms(2)] by (auto simp: my_receive_post_def inserted_post_def split: sum.splits)
  then show ?thesis using assms(1) backlog_pending [of "my_tables s"] by (auto simp: backlog_def)
qed

theorem receive_bounds_backlog_witness:
  "backlog (my_tables (snd (my_Receive sample_hash sample_db ([], []) 5 sample_input (sample_mysql [])))) \<le> 1000"
  by (rule receive_bounds_backlog [OF _ prod.collapse [symmetric]]) (simp add: backlog_def sample_mysql_def)

subsection \<open>Recovery of expired leases\<close>

definition recovered_job :: "Database \<Rightarrow> time \<Rightarrow> Job \<Rightarrow> Job" where
  "recovered_job q now j =
     j\<lparr>j_Status := Retrying, j_LeaseOwner := [], j_LeaseUntil := zero_time, j_NextAttemptAt := db_time q now,
       j_UpdatedAt := db_time q now, j_LastError := ''delivery_recovered''\<rparr>"

definition recover_post :: "hash \<Rightarrow> Database \<Rightarrow> time \<Rightarrow> string set \<Rightarrow> Tables \<Rightarrow> Tables \<Rightarrow> bool" where
  "recover_post H q now I t u \<longleftrightarrow> tables_sound H u
     \<and> (\<forall>k. tables_job u k = (if k \<in> I then map_option (recovered_job q now) (tables_job t k) else tables_job t k))
     \<and> (\<forall>k \<in> I. \<exists>x \<in> set (t_outbox u). x_job_id x = k \<and> x_published_at x = None)
     \<and> set (t_outbox t) \<subseteq> set (t_outbox u)"

lemma recover_post_empty: "tables_sound H t \<Longrightarrow> recover_post H q now {} t t"
  by (simp add: recover_post_def)

lemma recover_post_step:
  assumes "tables_sound H t"
    and "upd_job k (\<lambda>r. True) (\<lambda>r. r\<lparr>r_status := Retrying, r_lease_owner := [], r_lease_until := None,
               r_next_attempt_at := db_time q now, r_updated_at := db_time q now,
               r_last_error := ''delivery_recovered''\<rparr>) t = Some (n, t1)"
    and "ins_outbox q e k p now now t1 = Some (v, t2)" "ins_history k Retrying reason w t2 = Some (v', t3)"
  shows "recover_post H q now {k} t t3"
proof -
  note eff = upd_job_effect [OF assms(2,1)]
  have s1: "tables_sound H t1" by (rule eff(4)) (auto simp: row_sound_def)
  have f1: "find_job i t1 = (if i = k then map_option (\<lambda>r. r\<lparr>r_status := Retrying, r_lease_owner := [], r_lease_until := None,
               r_next_attempt_at := db_time q now, r_updated_at := db_time q now,
               r_last_error := ''delivery_recovered''\<rparr>) (find_job i t) else find_job i t)" for i
    using eff(1) [of i] by simp
  have "t_options t1 = t_options t" using eff(3) by simp
  then have sc: "scan_job t1 r = scan_job t r" for r by (rule scan_job_cong)
  have rc: "scan_job t (r\<lparr>r_status := Retrying, r_lease_owner := [], r_lease_until := None,
               r_next_attempt_at := db_time q now, r_updated_at := db_time q now,
               r_last_error := ''delivery_recovered''\<rparr>) = recovered_job q now (scan_job t r)" for r
    by (simp add: recovered_job_def scan_job_def)
  have j1: "tables_job t1 i = (if i = k then map_option (recovered_job q now) (tables_job t i) else tables_job t i)" for i
    by (cases "find_job i t"; cases "i = k") (simp_all add: tables_job_def f1 sc rc)
  have "tables_sound H t3" using tables_job_outbox(2) [OF assms(3) s1] tables_job_history(2) [OF assms(4)] by simp
  moreover have "tables_job t3 = tables_job t1"
    using tables_job_outbox(1) [OF assms(3)] tables_job_history(1) [OF assms(4)] by simp
  moreover have "t_outbox t1 = t_outbox t" "t_outbox t3 = t_outbox t2"
    using assms(2,4) by (auto simp: upd_job_def ins_history_def)
  moreover have "\<exists>x. t_outbox t2 = t_outbox t1 @ [x] \<and> x_job_id x = k \<and> x_published_at x = None"
    using assms(3) by (auto simp: ins_outbox_Some)
  ultimately show ?thesis unfolding recover_post_def by (simp add: j1) auto
qed

lemma recovered_job_idem [simp]: "recovered_job q now (recovered_job q now j) = recovered_job q now j"
  by (simp add: recovered_job_def)

lemma recover_post_trans:
  assumes "recover_post H q now I t u" "recover_post H q now J u v"
  shows "recover_post H q now (I \<union> J) t v"
proof -
  have "tables_job v k = (if k \<in> I \<union> J then map_option (recovered_job q now) (tables_job t k) else tables_job t k)" for k
    using assms by (cases "tables_job t k") (auto simp: recover_post_def)
  then show ?thesis using assms unfolding recover_post_def by blast
qed

lemma recover_each_wp:
  assumes "tables_sound H t"
  shows "wpt (recover_each q now es)
    (\<lambda>r u. case r of Inl e \<Rightarrow> e = StoreFailed | Inr _ \<Rightarrow> recover_post H q now (e_JobID ` set es) t u) t"
  using assms
proof (induction es arbitrary: t)
  case Nil
  then show ?case by (simp add: recover_post_empty wpt_return)
next
  case (Cons e es)
  show ?case
    unfolding recover_each.simps
    apply (rule wpt_stmt_bind, simp)
    apply (rule wpt_stmt_bind, simp)
    apply (rule wpt_stmt_bind, simp)
    subgoal premises p for n t1 v t2 v' t3
    proof -
      have st: "recover_post H q now {e_JobID e} t t3" by (rule recover_post_step [OF Cons.prems p])
      then have "tables_sound H t3" by (simp add: recover_post_def)
      from Cons.IH [OF this] show ?thesis
        by (rule wpt_mono) (auto dest: recover_post_trans [OF st] split: sum.splits)
    qed
    done
qed

lemma recovery_events_wp:
  "wpt (recovery_events H now rows) (\<lambda>r u. u = t \<and> (\<exists>es. r = Inr es \<and> map e_JobID es = map r_job_id rows)) t"
proof (induction rows)
  case Nil
  then show ?case by (simp add: wpt_return)
next
  case (Cons r rows)
  show ?case
    unfolding recovery_events.simps
    by (rule wpt_new_id_bind, rule wpt_bind, rule wpt_mono [OF Cons.IH])
       (auto simp: job_event_def intro!: wpt_return)
qed

definition selected :: "Database \<Rightarrow> (string \<Rightarrow> bool) \<Rightarrow> time \<Rightarrow> int \<Rightarrow> Tables \<Rightarrow> string set" where
  "selected q locked now limit t = r_job_id ` set (take (nat limit) (sort_key r_updated_at
     (filter (\<lambda>r. recoverable q t now r \<and> \<not> locked (r_job_id r)) (t_jobs t))))"

lemma my_RecoverExpired_wp:
  assumes "tables_sound H t"
  shows "wpt (my_RecoverExpired H q locked now limit)
    (\<lambda>r u. case r of Inl e \<Rightarrow> u = t
       | Inr n \<Rightarrow> n \<le> limit \<and> recover_post H q now (selected q locked now limit t) t u) t"
  unfolding my_RecoverExpired_def
  apply (rule wpt_transact, simp)
  apply (rule wpt_stmt_bind, simp)
  subgoal premises p for rows u
  proof -
    have u: "u = t" and lim: "0 \<le> limit" and rows: "r_job_id ` set rows = selected q locked now limit t"
      and len: "length rows \<le> nat limit"
      using p by (auto simp: select_recoverable_def selected_def split: if_splits)
    show ?thesis
      unfolding u
      apply (rule wpt_bind, rule wpt_mono [OF recovery_events_wp])
      apply (elim conjE exE, simp)
      apply (rule wpt_bind, rule wpt_mono [OF recover_each_wp [OF assms]])
      subgoal premises ev for r w es r' w'
      proof -
        have "e_JobID ` set es = r_job_id ` set rows" "length es = length rows"
          using ev(3) map_eq_imp_length_eq [OF ev(3)] by (metis image_set, simp)
        with rows len lim ev(4) show ?thesis by (auto intro!: wpt_return split: sum.splits)
      qed
      done
  qed
  done

lemma recover_expired_effect:
  assumes "my_sound H s" "my_RecoverExpired H q locked now limit s = (r, s')"
  shows "case r of Inl e \<Rightarrow> my_tables s' = my_tables s
    | Inr n \<Rightarrow> n \<le> limit \<and> my_sound H s'
        \<and> (\<forall>k. k \<notin> selected q locked now limit (my_tables s) \<longrightarrow> my_job s' k = my_job s k)
        \<and> (\<forall>k \<in> selected q locked now limit (my_tables s).
             (\<exists>j. my_job s k = Some j \<and> my_job s' k = Some (recovered_job q now j))
             \<and> (\<exists>x \<in> set (t_outbox (my_tables s')). x_job_id x = k \<and> x_published_at x = None))"
proof -
  have t: "tables_sound H (my_tables s)" using assms(1) by (simp add: my_sound_def)
  have post: "case r of Inl e \<Rightarrow> my_tables s' = my_tables s
       | Inr n \<Rightarrow> n \<le> limit \<and> recover_post H q now (selected q locked now limit (my_tables s)) (my_tables s) (my_tables s')"
    using wptD [OF my_RecoverExpired_wp [OF t] assms(2)] by simp
  have "\<exists>j. my_job s k = Some j" if "k \<in> selected q locked now limit (my_tables s)" for k
    using that find_job_unique [OF t]
    by (auto simp: selected_def my_job_def tables_job_def dest!: in_set_takeD)
  with post show ?thesis
    by (cases r) (fastforce simp: recover_post_def my_sound_def my_job_def)+
qed

text \<open>C10: Recovery is all or nothing: when \<open>RecoverExpired\<close> fails, no table changes; when it succeeds it
  touches exactly the selected jobs (at most \<open>limit\<close>), each of which is then waiting for a retry, has no lease
  owner any more (so that its former owner is fenced) and has an unpublished outbox row, whether or not its
  original message still exists.\<close>

theorem recovery_requeues_and_fences:
  assumes "my_sound H s" "my_RecoverExpired H q locked now limit s = (r, s')"
  shows "case r of Inl e \<Rightarrow> my_tables s' = my_tables s
    | Inr n \<Rightarrow> n \<le> limit \<and> my_sound H s'
        \<and> (\<forall>k. k \<notin> selected q locked now limit (my_tables s) \<longrightarrow> my_job s' k = my_job s k)
        \<and> (\<forall>k \<in> selected q locked now limit (my_tables s).
             (\<exists>j. my_job s k = Some j \<and> my_job s' k = Some (recovered_job q now j))
             \<and> (\<exists>x \<in> set (t_outbox (my_tables s')). x_job_id x = k \<and> x_published_at x = None))"
  by (rule recover_expired_effect [OF assms])

theorem recovery_requeues_and_fences_witness:
  "my_sound sample_hash (snd (my_RecoverExpired sample_hash sample_db (\<lambda>k. False) 50 10
      (sample_mysql [sample_row Running ''o'' (Some 20)])))"
proof -
  let ?s = "sample_mysql [sample_row Running ''o'' (Some 20)]"
  have "my_sound sample_hash ?s" by (rule sample_row_sound) simp_all
  from recovery_requeues_and_fences [OF this prod.collapse [symmetric], of sample_db "\<lambda>k. False" 50 10] this
  show ?thesis by (auto simp: my_sound_def split: sum.splits)
qed



section \<open>What one message does, on the memory store\<close>

definition outcome_status :: "Config \<Rightarrow> int \<Rightarrow> workflow_error option \<Rightarrow> JobStatus" where
  "outcome_status cfg attempts err =
     (case err of
        None \<Rightarrow> Completed
      | Some e \<Rightarrow> if e = ErrRejected then Rejected
                  else if attempts \<ge> c_MaxAttempts cfg then DeadLetter else Retrying)"

lemma mem_finish_held:
  assumes "ms_jobs s i = Some j" "running_by owner now j"
  shows "\<exists>j'. ended_job st reason j j'
    \<and> mem_finish i owner now st reason s = (Inr True, s\<lparr>ms_jobs := (ms_jobs s)(i \<mapsto> j')\<rparr>)"
  by (rule mem_finish_cases [where s = s and jid = i and owner = owner and now = now and st = st and reason = reason])
     (use assms in auto)

lemma mem_Retry_held:
  assumes "ms_jobs s i = Some j" "running_by owner now j"
  shows "\<exists>j' s'. ended_job Retrying reason j j' \<and> j_NextAttemptAt j' = nxt
    \<and> mem_Retry H i owner now nxt reason s = (Inr True, s') \<and> ms_jobs s' = (ms_jobs s)(i \<mapsto> j')"
  by (rule mem_Retry_cases [where s = s and jid = i and owner = owner and now = now and H = H and reason = reason
      and nxt = nxt]) (use assms in auto)

text \<open>C11: One message for a claimable job, undisturbed: the worker answers nil and the job ends exactly as the
  runner's answer and the attempt count say (completed; rejected; dead-lettered once the attempts are used up;
  otherwise scheduled for a retry after the back-off of this attempt), with the attempt counted.\<close>

theorem worker_outcome:
  assumes "mem_sound H s" "ms_jobs s (e_JobID ev) = Some j" "claimable_at (k_claim k) j"
    and "j_DeliveryID j = e_DeliveryID ev" "j_Attempts j + 1 \<le> c_MaxAttempts cfg" "j_Attempts j + 1 < 2 ^ 63"
    and "0 \<le> j_Attempts j" "\<And>job. run_events (runner job) = [] \<and> \<not> run_ctx_done (runner job) \<and> run_err (runner job) = err"
    and "k_finish k < k_claim k + c_Lease cfg"
  shows "\<exists>s' j'. handle_event H (memory_store H order) runner cfg k ev s = (None, s')
    \<and> ms_jobs s' (e_JobID ev) = Some j' \<and> j_Attempts j' = j_Attempts j + 1
    \<and> j_Status j' = outcome_status cfg (j_Attempts j + 1) err
    \<and> (j_Status j' = Retrying \<longrightarrow> j_NextAttemptAt j' =
         k_finish k + RetryDelay (c_RetryBase cfg) (c_RetryMax cfg) (j_Attempts j + 1))"
proof -
  let ?i = "e_JobID ev"
  let ?j = "claimed_job (\<lambda>t. t) (c_Owner cfg) (k_claim k) (c_Lease cfg) j"
  let ?s = "s\<lparr>ms_jobs := (ms_jobs s)(?i \<mapsto> ?j)\<rparr>"
  have job: "sound_job H ?i j" by (rule mem_sound_job [OF assms(1,2)])
  have claim: "mem_Claim ?i (c_Owner cfg) (k_claim k) (c_Lease cfg) s = (Inr (?j, True), ?s)"
    by (rule mem_Claim_won_eq [OF assms(2,3)])
  have att: "j_Attempts ?j = j_Attempts j + 1"
    using assms(6,7) by (simp add: claimed_job_def i64_id in_i64_def)
  have id: "j_ID ?j = ?i" using job by (simp add: sound_job_def claimed_job_def)
  have match: "\<not> input_mismatch H ev ?j"
    using job assms(4) by (simp add: input_mismatch_def sound_job_def claimed_job_def)
  have held: "running_by (c_Owner cfg) (k_finish k) ?j"
    using assms(9) by (simp add: running_by_def claimed_job_def)
  have run: "run_job H (memory_store H order) runner cfg ev ?j ?s = (err, ?s)"
    using match assms(8) [of ?j] by (simp add: run_job_def)
  have handle: "handle_event H (memory_store H order) runner cfg k ev s = finish_job (memory_store H order) cfg k ?j err ?s"
    using claim att assms(5) run by (simp add: handle_event_def)
  have at_s: "ms_jobs ?s ?i = Some ?j" by simp
  note fin = mem_finish_held [OF at_s held] and ret = mem_Retry_held [OF at_s held]
  consider "err = None" | e where "err = Some e" "e = ErrRejected"
    | e where "err = Some e" "e \<noteq> ErrRejected" "j_Attempts ?j \<ge> c_MaxAttempts cfg"
    | e where "err = Some e" "e \<noteq> ErrRejected" "\<not> j_Attempts ?j \<ge> c_MaxAttempts cfg" by blast
  then show ?thesis
  proof cases
    case 1
    with fin [of Completed "[]"] handle id att show ?thesis
      by (auto simp: finish_job_def mem_Complete_def settle_def ended_job_def outcome_status_def)
  next
    case (2 e)
    with fin [of Rejected "truncateError e"] handle id att show ?thesis
      by (auto simp: finish_job_def mem_Reject_def settle_def ended_job_def outcome_status_def)
  next
    case (3 e)
    with fin [of DeadLetter "truncateError e"] handle id att show ?thesis
      by (auto simp: finish_job_def mem_DeadLetter_def settle_def ended_job_def outcome_status_def)
  next
    case (4 e)
    with ret [of "truncateError e" "k_finish k + RetryDelay (c_RetryBase cfg) (c_RetryMax cfg) (j_Attempts ?j)" H] handle id att
    show ?thesis
      by (auto simp: finish_job_def Let_def settle_def ended_job_def outcome_status_def)
  qed
qed

theorem worker_outcome_witness:
  "\<exists>s' j'. handle_event sample_hash (memory_store sample_hash (\<lambda>s. [])) (\<lambda>job. sample_script)
      (sample_config\<lparr>c_MaxAttempts := 3, c_Lease := 100\<rparr>) sample_clock
      (job_event ''e'' (mem_new_id sample_hash 5 NewMemoryStore) ''d1'' 1) (pl_store sample_pipeline) = (None, s')
    \<and> ms_jobs s' (mem_new_id sample_hash 5 NewMemoryStore) = Some j' \<and> j_Status j' = Completed"
proof -
  let ?j = "queued_job sample_hash (mem_new_id sample_hash 5 NewMemoryStore) 5 sample_input"
  have "mem_sound sample_hash (pl_store sample_pipeline)"
    using pipeline_inv_reachable [OF sample_hash_hex sample_pipeline_reachable]
    by (simp add: pipeline_inv_def announced_def)
  from worker_outcome [OF this, of "job_event ''e'' (mem_new_id sample_hash 5 NewMemoryStore) ''d1'' 1" ?j sample_clock
      "sample_config\<lparr>c_MaxAttempts := 3, c_Lease := 100\<rparr>" "\<lambda>job. sample_script" None "\<lambda>s. []"]
  show ?thesis
    using sample_pipeline_job
    by (fastforce simp: job_event_def claimable_at_def sample_clock_def sample_script_def sample_config_def
        queued_job_def received_job_def sample_input_def outcome_status_def)
qed

end
