(* ===== verification/GoFloat.thy ===== *)
theory GoFloat
  imports Prelude
begin

text \<open>
  Go's \<open>float64\<close> on the values that the measurement code computes.  A \<open>float64\<close> is the rational
  number it denotes and every operation is the exact operation followed by \<open>fl\<close>, the rounding to
  53 significant bits, ties to even.  The durations are \<open>int64\<close> values, so the quotients and
  products formed from them stay far from the subnormal range and from overflow; the exponent is
  therefore not bounded in \<open>fl\<close>.  No operation of the modelled code divides by zero, so no NaN or
  infinity arises.
\<close>

type_synonym float64 = rat

fun bit_len :: "nat \<Rightarrow> nat" where
  "bit_len n = (if n = 0 then 0 else Suc (bit_len (n div 2)))"

declare bit_len.simps [simp del]

definition pow2 :: "int \<Rightarrow> rat" where
  "pow2 e = (if 0 \<le> e then 2 ^ nat e else 1 / 2 ^ nat (- e))"

text \<open>The exponent of a positive rational: \<open>2^e \<le> x < 2^(e+1)\<close>.\<close>

definition ilog2 :: "rat \<Rightarrow> int" where
  "ilog2 x =
     (let (p, q) = quotient_of x;
          e = int (bit_len (nat p)) - int (bit_len (nat q))
      in if pow2 e \<le> x then e else e - 1)"

definition round_half_even :: "rat \<Rightarrow> int" where
  "round_half_even y =
     (let f = \<lfloor>y\<rfloor>; d = y - of_int f
      in if d < 1 / 2 then f else if 1 / 2 < d then f + 1 else if even f then f else f + 1)"

definition fl :: "rat \<Rightarrow> float64" where
  "fl x =
     (if x = 0 then 0
      else let u = pow2 (ilog2 \<bar>x\<bar> - 52) in of_int (round_half_even (x / u)) * u)"

text \<open>Conversion from and to \<open>int64\<close>; the latter truncates and, on amd64, yields the smallest
  \<open>int64\<close> where the truncated value is out of range.\<close>

definition f64_of_int :: "int \<Rightarrow> float64" where
  "f64_of_int i = fl (of_int i)"

definition f64_to_i64 :: "float64 \<Rightarrow> int" where
  "f64_to_i64 x =
     (let t = (if 0 \<le> x then \<lfloor>x\<rfloor> else \<lceil>x\<rceil>) in if in_i64 t then t else - (2 ^ 63))"

section \<open>Powers of two\<close>

lemma pow2_pos [simp]: "0 < pow2 e"
  by (simp add: pow2_def)

lemma pow2_nonneg [simp]: "0 \<le> pow2 e" and pow2_nz [simp]: "pow2 e \<noteq> 0"
  using pow2_pos [of e] by linarith+

lemma pow2_powi: "pow2 e = 2 powi e"
  unfolding pow2_def power_int_def by (simp add: power_one_over inverse_eq_divide)

lemma pow2_add: "pow2 (a + b) = pow2 a * pow2 b"
  by (simp add: pow2_powi power_int_add)

lemma pow2_Suc: "pow2 (e + 1) = 2 * pow2 e"
  unfolding pow2_powi using power_int_add_1 [of "2::rat" e] by simp

lemma pow2_mono: "a \<le> b \<Longrightarrow> pow2 a \<le> pow2 b"
  by (simp add: pow2_powi power_int_increasing)

lemma pow2_less_cancel: "pow2 a < pow2 b \<Longrightarrow> a < b"
  by (meson not_less pow2_mono)

lemma pow2_nat: "pow2 (int n) = 2 ^ n"
  by (simp add: pow2_def)

lemma bit_len_bounds: "0 < n \<Longrightarrow> 2 ^ (bit_len n - 1) \<le> n \<and> n < 2 ^ bit_len n \<and> 0 < bit_len n"
proof (induction n rule: bit_len.induct)
  case (1 n)
  show ?case
  proof (cases "n div 2 = 0")
    case True
    with "1.prems" have "n = 1" by auto
    then show ?thesis by (simp add: bit_len.simps)
  next
    case False
    with "1.IH" "1.prems" have IH: "2 ^ (bit_len (n div 2) - 1) \<le> n div 2"
      "n div 2 < 2 ^ bit_len (n div 2)" "0 < bit_len (n div 2)" by simp_all
    have e: "bit_len n = Suc (bit_len (n div 2))"
      using "1.prems" by (subst bit_len.simps) simp
    have "2 * 2 ^ (bit_len (n div 2) - 1) \<le> n" using IH(1) by linarith
    moreover have "(2::nat) * 2 ^ (bit_len (n div 2) - 1) = 2 ^ bit_len (n div 2)"
      using IH(3) by (metis Suc_pred' power_Suc)
    moreover have "n < 2 * 2 ^ bit_len (n div 2)" using IH(2) by linarith
    ultimately show ?thesis by (simp add: e)
  qed
qed

lemma ilog2_bounds:
  assumes "0 < x"
  shows "pow2 (ilog2 x) \<le> x" and "x < pow2 (ilog2 x + 1)"
proof -
  obtain p q where pq: "quotient_of x = (p, q)" by (cases "quotient_of x")
  then have q: "0 < q" and x: "x = of_int p / of_int q"
    by (simp_all add: quotient_of_denom_pos quotient_of_div)
  with assms have p: "0 < p" by (simp add: zero_less_divide_iff)
  define a b where "a = bit_len (nat p)" and "b = bit_len (nat q)"
  have A: "2 ^ (a - 1) \<le> nat p" "nat p < 2 ^ a" "0 < a"
    and B: "2 ^ (b - 1) \<le> nat q" "nat q < 2 ^ b" "0 < b"
    using bit_len_bounds [of "nat p"] bit_len_bounds [of "nat q"] p q by (simp_all add: a_def b_def)
  have rp: "of_int p = (of_nat (nat p) :: rat)" and rq: "of_int q = (of_nat (nat q) :: rat)"
    using p q by simp_all
  have P: "2 ^ (a - 1) \<le> (of_int p :: rat)" "(of_int p :: rat) < 2 ^ a"
    unfolding rp using A(1,2) by (metis of_nat_le_iff of_nat_numeral of_nat_power,
      metis of_nat_less_iff of_nat_numeral of_nat_power)
  have Q: "2 ^ (b - 1) \<le> (of_int q :: rat)" "(of_int q :: rat) < 2 ^ b"
    unfolding rq using B(1,2) by (metis of_nat_le_iff of_nat_numeral of_nat_power,
      metis of_nat_less_iff of_nat_numeral of_nat_power)
  define e where "e = int a - int b"
  have pw: "pow2 (int a) = pow2 e * pow2 (int b)"
    by (simp add: e_def flip: pow2_add)
  have "x < 2 ^ a / 2 ^ (b - 1)"
    unfolding x using P(2) Q(1) p q by (intro frac_less) auto
  also have "\<dots> = pow2 (e + 1)"
  proof -
    have "pow2 (e + 1) * 2 ^ (b - 1) = pow2 e * (2 * 2 ^ (b - 1))" by (simp add: pow2_Suc)
    also have "2 * 2 ^ (b - 1) = pow2 (int b)"
      using B(3) by (metis Suc_pred' power_Suc pow2_nat)
    finally have "pow2 (e + 1) * 2 ^ (b - 1) = 2 ^ a" using pw by (simp add: pow2_nat)
    then show ?thesis by (simp add: field_simps)
  qed
  finally have up: "x < pow2 (e + 1)" .
  have "pow2 (e - 1) = 2 ^ (a - 1) / 2 ^ b"
  proof -
    have "2 * (pow2 (e - 1) * 2 ^ b) = pow2 e * pow2 (int b)"
      using pow2_Suc [of "e - 1"] by (simp add: pow2_nat)
    also have "\<dots> = 2 * 2 ^ (a - 1)"
      using A(3) by (metis Suc_pred' power_Suc pow2_nat pw)
    finally show ?thesis by (simp add: field_simps)
  qed
  also have "\<dots> \<le> x"
    unfolding x using P(1) Q(2) p q by (intro frac_le) auto
  finally have lo: "pow2 (e - 1) \<le> x" .
  have "ilog2 x = (if pow2 e \<le> x then e else e - 1)"
    by (simp add: ilog2_def pq e_def a_def b_def Let_def)
  with up lo show "pow2 (ilog2 x) \<le> x" "x < pow2 (ilog2 x + 1)"
    by (auto split: if_splits)
qed

lemma ilog2_unique: "pow2 e \<le> x \<Longrightarrow> x < pow2 (e + 1) \<Longrightarrow> ilog2 x = e"
proof -
  assume a: "pow2 e \<le> x" "x < pow2 (e + 1)"
  then have "0 < x" using pow2_pos [of e] by linarith
  with ilog2_bounds have b: "pow2 (ilog2 x) \<le> x" "x < pow2 (ilog2 x + 1)" by blast+
  from a b have "ilog2 x < e + 1" "e < ilog2 x + 1"
    by (meson le_less_trans pow2_less_cancel)+
  then show ?thesis by linarith
qed

section \<open>Rounding\<close>

lemma round_half_even_mono: "x \<le> y \<Longrightarrow> round_half_even x \<le> round_half_even y"
proof -
  assume xy: "x \<le> y"
  have f: "\<lfloor>x\<rfloor> \<le> \<lfloor>y\<rfloor>" using xy by (rule floor_mono)
  show ?thesis
  proof (cases "\<lfloor>x\<rfloor> = \<lfloor>y\<rfloor>")
    case True
    with xy show ?thesis by (auto simp: round_half_even_def Let_def)
  next
    case False
    with f have "\<lfloor>x\<rfloor> + 1 \<le> \<lfloor>y\<rfloor>" by simp
    then show ?thesis by (auto simp: round_half_even_def Let_def)
  qed
qed

lemma round_half_even_of_int [simp]: "round_half_even (of_int n) = n"
  by (simp add: round_half_even_def)

lemma round_half_even_minus: "round_half_even (- x) = - round_half_even x"
proof (cases "x = of_int \<lfloor>x\<rfloor>")
  case True
  then show ?thesis by (metis of_int_minus round_half_even_of_int)
next
  case False
  have "\<lfloor>- x\<rfloor> = - \<lfloor>x\<rfloor> - 1"
  proof (rule floor_unique)
    have "of_int \<lfloor>x\<rfloor> \<le> x" "x < of_int \<lfloor>x\<rfloor> + 1" by linarith+
    moreover have "of_int (- \<lfloor>x\<rfloor> - 1) = - of_int \<lfloor>x\<rfloor> - (1 :: rat)" by simp
    ultimately show "of_int (- \<lfloor>x\<rfloor> - 1) \<le> - x" "- x < of_int (- \<lfloor>x\<rfloor> - 1) + 1"
      using False by linarith+
  qed
  then show ?thesis by (auto simp: round_half_even_def Let_def)
qed

text \<open>Rounding in a binade: for \<open>2^e \<le> x < 2^(e+1)\<close> the result stays in \<open>[2^e, 2^(e+1)]\<close>.\<close>

lemma fl_binade:
  assumes "0 < x"
  shows "pow2 (ilog2 x) \<le> fl x" and "fl x \<le> pow2 (ilog2 x + 1)"
proof -
  define e u where "e = ilog2 x" and "u = pow2 (ilog2 x - 52)"
  have b: "pow2 e \<le> x" "x < pow2 (e + 1)" using ilog2_bounds [OF assms] by (simp_all add: e_def)
  have e52: "pow2 e = of_int (2 ^ 52) * u"
    using pow2_add [of 52 "e - 52"] pow2_nat [of 52] by (simp add: u_def e_def)
  have e53: "pow2 (e + 1) = of_int (2 ^ 53) * u" by (simp add: pow2_Suc e52)
  have u: "0 < u" by (simp add: u_def)
  have "of_int (2 ^ 52) \<le> x / u" "x / u \<le> of_int (2 ^ 53)"
    using b u unfolding e52 e53 by (simp_all add: field_simps)
  then have "2 ^ 52 \<le> round_half_even (x / u)" "round_half_even (x / u) \<le> 2 ^ 53"
    using round_half_even_mono round_half_even_of_int by metis+
  then have "of_int (2 ^ 52) \<le> (of_int (round_half_even (x / u)) :: rat)"
    "(of_int (round_half_even (x / u)) :: rat) \<le> of_int (2 ^ 53)"
    by (simp_all only: of_int_le_iff)
  then have "of_int (2 ^ 52) * u \<le> of_int (round_half_even (x / u)) * u"
    "of_int (round_half_even (x / u)) * u \<le> of_int (2 ^ 53) * u"
    using u by (simp_all only: mult_right_mono less_imp_le)
  moreover have "fl x = of_int (round_half_even (x / u)) * u"
    using assms by (simp add: fl_def u_def Let_def)
  ultimately show "pow2 (ilog2 x) \<le> fl x" "fl x \<le> pow2 (ilog2 x + 1)"
    using e52 e53 by (simp_all add: e_def)
qed

lemma fl_0 [simp]: "fl 0 = 0"
  by (simp add: fl_def)

lemma fl_minus [simp]: "fl (- x) = - fl x"
  by (simp add: fl_def Let_def round_half_even_minus)

lemma fl_pos: "0 < x \<Longrightarrow> 0 < fl x"
  using fl_binade(1) [of x] pow2_pos [of "ilog2 x"] by linarith

lemma fl_pos_iff [simp]: "0 < fl x \<longleftrightarrow> 0 < x"
  using fl_pos [of x] fl_pos [of "- x"] by (cases x "0::rat" rule: linorder_cases) auto

lemma fl_neg_iff [simp]: "fl x < 0 \<longleftrightarrow> x < 0"
  using fl_pos_iff [of "- x"] by simp

lemma fl_nonneg_iff [simp]: "0 \<le> fl x \<longleftrightarrow> 0 \<le> x"
  using fl_neg_iff [of x] by linarith

lemma fl_eq_0_iff [simp]: "fl x = 0 \<longleftrightarrow> x = 0"
  using fl_pos_iff [of x] fl_neg_iff [of x] by (metis fl_0 linorder_neq_iff)

lemma fl_mono_pos:
  assumes "0 < x" "x \<le> y"
  shows "fl x \<le> fl y"
proof (cases "ilog2 x = ilog2 y")
  case True
  have "x / pow2 (ilog2 x - 52) \<le> y / pow2 (ilog2 x - 52)"
    using assms by (simp add: divide_right_mono)
  then have "of_int (round_half_even (x / pow2 (ilog2 x - 52))) \<le>
      (of_int (round_half_even (y / pow2 (ilog2 x - 52))) :: rat)"
    by (simp only: of_int_le_iff round_half_even_mono)
  with True assms show ?thesis
    by (simp add: fl_def Let_def mult_right_mono)
next
  case False
  have "pow2 (ilog2 x) < pow2 (ilog2 y + 1)"
    using assms ilog2_bounds [of x] ilog2_bounds [of y] by linarith
  then have "ilog2 x < ilog2 y + 1" by (rule pow2_less_cancel)
  with False have "ilog2 x + 1 \<le> ilog2 y" by simp
  then have "pow2 (ilog2 x + 1) \<le> pow2 (ilog2 y)" by (rule pow2_mono)
  with assms fl_binade(2) [of x] fl_binade(1) [of y] show ?thesis by linarith
qed

theorem fl_mono: "x \<le> y \<Longrightarrow> fl x \<le> fl y"
proof -
  assume xy: "x \<le> y"
  consider "0 < x" | "x \<le> 0" "0 \<le> y" | "y < 0" by linarith
  then show ?thesis
  proof cases
    case 1
    then show ?thesis using xy by (rule fl_mono_pos)
  next
    case 2
    then show ?thesis using fl_pos_iff [of x] fl_nonneg_iff [of y] by linarith
  next
    case 3
    with xy have "fl (- y) \<le> fl (- x)" by (intro fl_mono_pos) auto
    then show ?thesis by simp
  qed
qed

text \<open>Scaling by two is exact.\<close>

lemma ilog2_double:
  assumes "0 < x"
  shows "ilog2 (2 * x) = ilog2 x + 1"
proof (rule ilog2_unique)
  show "pow2 (ilog2 x + 1) \<le> 2 * x"
    unfolding pow2_Suc using ilog2_bounds(1) [OF assms] by linarith
  show "2 * x < pow2 (ilog2 x + 1 + 1)"
    unfolding pow2_Suc [of "ilog2 x + 1"] using ilog2_bounds(2) [OF assms] by linarith
qed

lemma fl_double: "fl (2 * x) = 2 * fl x"
proof -
  have pos: "fl (2 * y) = 2 * fl y" if "0 < y" for y
  proof -
    have "pow2 (ilog2 y + 1 - 52) = 2 * pow2 (ilog2 y - 52)"
      using pow2_Suc [of "ilog2 y - 52"] by (metis add_diff_eq diff_add_eq)
    with that show ?thesis by (simp add: fl_def Let_def ilog2_double)
  qed
  consider "0 < x" | "x = 0" | "0 < - x" by linarith
  then show ?thesis
  proof cases
    case 3
    then have "fl (2 * (- x)) = 2 * fl (- x)" by (rule pos)
    then show ?thesis by simp
  qed (auto simp: pos)
qed

text \<open>Integers of up to 53 bits are represented exactly.\<close>

lemma fl_of_int:
  assumes "\<bar>n\<bar> < 2 ^ 53"
  shows "fl (of_int n) = of_int n"
proof -
  have pos: "fl (of_int m) = of_int m" if m: "0 < m" "m < 2 ^ 53" for m :: int
  proof -
    define e where "e = ilog2 (of_int m)"
    have b: "pow2 e \<le> of_int m" using ilog2_bounds(1) [of "of_int m"] m by (simp add: e_def)
    also have "(of_int m :: rat) < of_int (2 ^ 53)" using m by (simp only: of_int_less_iff)
    also have "of_int (2 ^ 53) = pow2 53" using pow2_nat [of 53] by simp
    finally have "e < 53" by (rule pow2_less_cancel)
    then have "of_int m / pow2 (e - 52) = of_int m * pow2 (52 - e)"
      using pow2_add [of "52 - e" "e - 52"] by (simp add: field_simps) (simp add: pow2_def)
    moreover have "pow2 (52 - e) = of_int (2 ^ nat (52 - e))"
      using \<open>e < 53\<close> by (simp add: pow2_def)
    ultimately have "of_int m / pow2 (e - 52) = (of_int (m * 2 ^ nat (52 - e)) :: rat)" by simp
    then have "of_int (round_half_even (of_int m / pow2 (e - 52))) = of_int m / pow2 (e - 52)"
      by (metis round_half_even_of_int)
    with m show ?thesis by (simp add: fl_def Let_def e_def)
  qed
  consider "0 < n" | "n = 0" | "n < 0" by linarith
  then show ?thesis
  proof cases
    case 3
    with assms have "fl (of_int (- n)) = of_int (- n)" by (intro pos) auto
    then show ?thesis by simp
  qed (use assms pos in auto)
qed

end
