(* ===== verification/Measure.thy ===== *)
theory Measure
  imports GoFloat "HOL-Library.Multiset"
begin

text \<open>
  \<open>internal/measure\<close>: the robust statistics of the latency samples (\<open>stats.go\<close>), the direction
  verdict (\<open>verdict.go\<close>), the evidence admission (\<open>admission.go\<close>), the gates before a
  measurement (\<open>gate.go\<close>) and the timed round (\<open>round.go\<close>).  A duration is an \<open>int64\<close>
  with its wrap-around, a ratio a \<open>float64\<close> (\<open>GoFloat\<close>).
\<close>

section \<open>Statistics\<close>

definition MADScale :: float64 where
  "MADScale = fl (14826 / 10000)"

definition Median :: "duration list \<Rightarrow> duration" where
  "Median xs =
     (if length xs = 0 then 0
      else let s = sort xs; mid = length s div 2
           in if length s mod 2 = 1 then s ! mid
              else i64 (s ! (mid - 1) + s ! mid) sdiv 2)"

definition abs_dev :: "duration \<Rightarrow> duration \<Rightarrow> duration" where
  "abs_dev med x = (let d = i64 (x - med) in if d < 0 then i64 (- d) else d)"

definition MAD :: "duration list \<Rightarrow> duration" where
  "MAD xs =
     (if length xs = 0 then 0
      else let med = Median xs in Median (map (abs_dev med) xs))"

definition ScaledMAD :: "duration list \<Rightarrow> duration" where
  "ScaledMAD xs = f64_to_i64 (fl (f64_of_int (MAD xs) * MADScale))"

definition NoiseRatio :: "duration list \<Rightarrow> float64" where
  "NoiseRatio xs =
     (let med = Median xs
      in if med \<le> 0 then 0 else fl (f64_of_int (ScaledMAD xs) / f64_of_int med))"

section \<open>The direction verdict\<close>

text \<open>\<open>Verdict\<close> is a string type of the source; \<open>OtherVerdict\<close> stands for any other string.\<close>

datatype Verdict = Better | Worse | NotSignificant | OtherVerdict string

record SideStats =
  ss_Name :: string
  ss_Samples :: nat
  ss_Median :: duration
  ss_ScaledMAD :: duration
  ss_NoiseRatio :: float64

definition Summarize :: "string \<Rightarrow> duration list \<Rightarrow> SideStats" where
  "Summarize name xs =
     \<lparr>ss_Name = name, ss_Samples = length xs, ss_Median = Median xs, ss_ScaledMAD = ScaledMAD xs,
      ss_NoiseRatio = NoiseRatio xs\<rparr>"

record Decision =
  d_Baseline :: SideStats
  d_Candidate :: SideStats
  d_MaxNoiseRatio :: float64
  d_ThresholdRatio :: float64
  d_ThresholdFrom :: string
  d_RelativeDelta :: float64
  d_Verdict :: Verdict

definition SignificanceMultiplier :: float64 where
  "SignificanceMultiplier = 2"

definition Decide :: "SideStats \<Rightarrow> SideStats \<Rightarrow> Decision" where
  "Decide baseline candidate =
     (let (maxNoise, from) =
            (if ss_NoiseRatio candidate > ss_NoiseRatio baseline
             then (ss_NoiseRatio candidate, ss_Name candidate)
             else (ss_NoiseRatio baseline, ss_Name baseline));
          d = \<lparr>d_Baseline = baseline, d_Candidate = candidate, d_MaxNoiseRatio = maxNoise,
               d_ThresholdRatio = fl (SignificanceMultiplier * maxNoise), d_ThresholdFrom = from,
               d_RelativeDelta = 0, d_Verdict = OtherVerdict []\<rparr>
      in if ss_Median baseline \<le> 0 then d\<lparr>d_Verdict := NotSignificant\<rparr>
         else
           let delta = fl (f64_of_int (i64 (ss_Median candidate - ss_Median baseline))
                           / f64_of_int (ss_Median baseline));
               d2 = d\<lparr>d_RelativeDelta := delta\<rparr>;
               mag = (if delta < 0 then - delta else delta)
           in if mag \<le> d_ThresholdRatio d2 then d2\<lparr>d_Verdict := NotSignificant\<rparr>
              else if delta < 0 then d2\<lparr>d_Verdict := Better\<rparr>
              else d2\<lparr>d_Verdict := Worse\<rparr>)"

section \<open>Evidence admission\<close>

definition NoiseRatioLimit :: float64 where
  "NoiseRatioLimit = fl (1 / 10)"

datatype EvidenceLevel = EvidenceL1 | EvidenceL2

datatype RejectionReason =
    ReasonBaselineNoiseExceedsLimit | ReasonCandidateNoiseExceedsLimit
  | ReasonDirectionNotSignificant | ReasonDirectionWorse | ReasonNoMeasurement

definition reasonOrder :: "RejectionReason list" where
  "reasonOrder =
     [ReasonNoMeasurement, ReasonBaselineNoiseExceedsLimit, ReasonCandidateNoiseExceedsLimit,
      ReasonDirectionNotSignificant, ReasonDirectionWorse]"

record Admission =
  a_DirectionVerdict :: "Verdict option"
  a_EligibleForPerformanceClaim :: bool
  a_EvidenceLevel :: EvidenceLevel
  a_RejectionReasons :: "RejectionReason list"
  a_NoiseRatioLimit :: float64
  a_SignificanceMultiplier :: float64

definition Admit :: "SideStats \<Rightarrow> SideStats \<Rightarrow> Decision option \<Rightarrow> Admission" where
  "Admit baselineCal candidateCal decision =
     (let hit0 = (if ss_NoiseRatio baselineCal > NoiseRatioLimit then {ReasonBaselineNoiseExceedsLimit} else {});
          hit1 = (if ss_NoiseRatio candidateCal > NoiseRatioLimit
                  then insert ReasonCandidateNoiseExceedsLimit hit0 else hit0);
          (verdict, hit2) =
            (case decision of
               None \<Rightarrow> (None, insert ReasonNoMeasurement hit1)
             | Some d \<Rightarrow>
                 (Some (d_Verdict d),
                  (case d_Verdict d of
                     NotSignificant \<Rightarrow> insert ReasonDirectionNotSignificant hit1
                   | Worse \<Rightarrow> insert ReasonDirectionWorse hit1
                   | _ \<Rightarrow> hit1)));
          reasons = filter (\<lambda>r. r \<in> hit2) reasonOrder
      in \<lparr>a_DirectionVerdict = verdict,
          a_EligibleForPerformanceClaim = (length reasons = 0),
          a_EvidenceLevel = (if length reasons = 0 then EvidenceL2 else EvidenceL1),
          a_RejectionReasons = reasons,
          a_NoiseRatioLimit = NoiseRatioLimit,
          a_SignificanceMultiplier = SignificanceMultiplier\<rparr>)"

section \<open>Gates and rounds\<close>

datatype gate_error =
    ProbeFailed string | ErrSnapshotMismatch | ErrCandidateIndexMissing | ErrServerVersionMismatch
  | NonPositiveExecutions | ContextCancelled nat | ExecutionFailed nat

record SideSnapshot =
  sn_Name :: string
  sn_Digest :: string
  sn_Rows :: int

text \<open>A probe is a function of the side it is asked about; \<open>None\<close> is its error.\<close>

definition RequireSameServerVersion :: "(string \<Rightarrow> string option) \<Rightarrow> gate_error + string" where
  "RequireSameServerVersion p =
     (case p ''baseline'' of
        None \<Rightarrow> Inl (ProbeFailed ''baseline'')
      | Some b \<Rightarrow>
          (case p ''candidate'' of
             None \<Rightarrow> Inl (ProbeFailed ''candidate'')
           | Some c \<Rightarrow> if b \<noteq> c then Inl ErrServerVersionMismatch else Inr b))"

definition RequireIdenticalSnapshots ::
  "(string \<Rightarrow> SideSnapshot option) \<Rightarrow> gate_error + SideSnapshot \<times> SideSnapshot" where
  "RequireIdenticalSnapshots p =
     (case p ''baseline'' of
        None \<Rightarrow> Inl (ProbeFailed ''baseline'')
      | Some b \<Rightarrow>
          (case p ''candidate'' of
             None \<Rightarrow> Inl (ProbeFailed ''candidate'')
           | Some c \<Rightarrow>
               if sn_Rows b \<noteq> sn_Rows c then Inl ErrSnapshotMismatch
               else if sn_Digest b \<noteq> sn_Digest c then Inl ErrSnapshotMismatch
               else Inr (b, c)))"

definition RequireCandidateIndex :: "bool option \<Rightarrow> gate_error + unit" where
  "RequireCandidateIndex p =
     (case p of
        None \<Rightarrow> Inl (ProbeFailed ''candidate'')
      | Some ok \<Rightarrow> if \<not> ok then Inl ErrCandidateIndexMissing else Inr ())"

text \<open>
  The loop of \<open>executeRound\<close> from iteration \<open>i\<close>: \<open>ctx_err i\<close> is \<open>ctx.Err() \<noteq> nil\<close> before
  it, \<open>execute i\<close> whether the execution succeeds.
\<close>

function execute_loop :: "int \<Rightarrow> (nat \<Rightarrow> bool) \<Rightarrow> (nat \<Rightarrow> bool) \<Rightarrow> nat \<Rightarrow> gate_error option" where
  "execute_loop executions ctx_err execute i =
     (if int i < executions then
        (if ctx_err i then Some (ContextCancelled i)
         else if \<not> execute i then Some (ExecutionFailed i)
         else execute_loop executions ctx_err execute (Suc i))
      else None)"
  by pat_completeness auto
termination
  by (relation "measure (\<lambda>(n, c, e, i). nat (n - int i))") auto

declare execute_loop.simps [simp del]

definition executeRound ::
  "int \<Rightarrow> (nat \<Rightarrow> bool) \<Rightarrow> (nat \<Rightarrow> bool) \<Rightarrow> time \<Rightarrow> time \<Rightarrow> gate_error + duration" where
  "executeRound executions ctx_err execute t_start t_end =
     (if executions \<le> 0 then Inl NonPositiveExecutions
      else case execute_loop executions ctx_err execute 0 of
             Some e \<Rightarrow> Inl e
           | None \<Rightarrow> Inr ((t_end - t_start) sdiv executions))"

section \<open>The median is an order statistic\<close>

lemma i64_avg:
  assumes "a \<le> b" "in_i64 a" "in_i64 b" "in_i64 (a + b)"
  shows "a \<le> i64 (a + b) sdiv 2 \<and> i64 (a + b) sdiv 2 \<le> b"
proof -
  have "i64 (a + b) = a + b" by (rule i64_id [OF assms(4)])
  moreover have "a \<le> (a + b) sdiv 2 \<and> (a + b) sdiv 2 \<le> b"
  proof (cases "0 \<le> a + b")
    case True
    then have "(a + b) sdiv 2 = (a + b) div 2" by (simp add: sdiv_2_nonneg)
    then show ?thesis using assms(1) by presburger
  next
    case False
    then have "(a + b) sdiv 2 = - ((- (a + b)) div 2)" by (simp add: signed_divide_int_def sgn_if)
    then show ?thesis using assms(1) by presburger
  qed
  ultimately show ?thesis by simp
qed

text \<open>In a sorted list, more than half of whose elements lie in \<open>[a, b]\<close>, so do the middle ones.\<close>

lemma sorted_count_above:
  assumes "sorted s" "i < length s" "b < s ! i"
  shows "length s - i \<le> length (filter (\<lambda>x. b < x) s)"
proof -
  have "set (drop i s) \<subseteq> {x. b < x}"
  proof
    fix x assume "x \<in> set (drop i s)"
    then obtain j where "j < length (drop i s)" "x = drop i s ! j" by (metis in_set_conv_nth)
    then have "s ! i \<le> x" using sorted_nth_mono [OF assms(1), of i "i + j"] by simp
    then show "x \<in> {x. b < x}" using assms(3) by simp
  qed
  then have "filter (\<lambda>x. b < x) (drop i s) = drop i s" by (auto simp: filter_id_conv)
  moreover have "length (filter (\<lambda>x. b < x) s)
      = length (filter (\<lambda>x. b < x) (take i s)) + length (filter (\<lambda>x. b < x) (drop i s))"
    by (metis append_take_drop_id filter_append length_append)
  ultimately show ?thesis by simp
qed

lemma sorted_count_below:
  assumes "sorted s" "i < length s" "s ! i < a"
  shows "Suc i \<le> length (filter (\<lambda>x. x < a) s)"
proof -
  have "set (take (Suc i) s) \<subseteq> {x. x < a}"
  proof
    fix x assume "x \<in> set (take (Suc i) s)"
    then obtain j where "j < length (take (Suc i) s)" "x = take (Suc i) s ! j" by (metis in_set_conv_nth)
    then have "x \<le> s ! i" using sorted_nth_mono [OF assms(1), of j i] assms(2) by simp
    then show "x \<in> {x. x < a}" using assms(3) by simp
  qed
  then have "filter (\<lambda>x. x < a) (take (Suc i) s) = take (Suc i) s" by (auto simp: filter_id_conv)
  moreover have "length (filter (\<lambda>x. x < a) s)
      = length (filter (\<lambda>x. x < a) (take (Suc i) s)) + length (filter (\<lambda>x. x < a) (drop (Suc i) s))"
    by (metis append_take_drop_id filter_append length_append)
  ultimately show ?thesis using assms(2) by simp
qed

definition inside :: "int \<Rightarrow> int \<Rightarrow> int list \<Rightarrow> nat" where
  "inside a b xs = length (filter (\<lambda>x. a \<le> x \<and> x \<le> b) xs)"

lemma inside_sort: "inside a b (sort xs) = inside a b xs"
proof -
  have "mset (filter (\<lambda>x. a \<le> x \<and> x \<le> b) (sort xs)) = mset (filter (\<lambda>x. a \<le> x \<and> x \<le> b) xs)"
    by simp
  then show ?thesis unfolding inside_def by (metis size_mset)
qed

lemma inside_outside:
  "inside a b xs + length (filter (\<lambda>x. x < a) xs) \<le> length xs"
  "inside a b xs + length (filter (\<lambda>x. b < x) xs) \<le> length xs"
  by (induction xs) (auto simp: inside_def)

lemma middle_inside:
  assumes "sorted s" "length s < 2 * inside a b s" "i < length s" "length s \<le> 2 * Suc i" "2 * i \<le> length s"
  shows "a \<le> s ! i \<and> s ! i \<le> b"
proof
  show "s ! i \<le> b"
  proof (rule ccontr)
    assume "\<not> s ! i \<le> b"
    then have "length s - i \<le> length (filter (\<lambda>x. b < x) s)"
      using sorted_count_above [OF assms(1,3)] by simp
    with inside_outside(2) [of a b s] assms(2,5) show False by linarith
  qed
  show "a \<le> s ! i"
  proof (rule ccontr)
    assume "\<not> a \<le> s ! i"
    then have "Suc i \<le> length (filter (\<lambda>x. x < a) s)"
      using sorted_count_below [OF assms(1,3)] by simp
    with inside_outside(1) [of a b s] assms(2,4) show False by arith
  qed
qed

definition moderate :: "int \<Rightarrow> bool" where
  "moderate x \<longleftrightarrow> - (2 ^ 62) \<le> x \<and> x < 2 ^ 62"

lemma Median_inside:
  assumes "length xs < 2 * inside a b xs" "moderate a" "moderate b"
  shows "a \<le> Median xs \<and> Median xs \<le> b"
proof -
  let ?s = "sort xs"
  let ?m = "length xs div 2"
  have ne: "xs \<noteq> []" using assms(1) by (auto simp: inside_def)
  have cnt: "length ?s < 2 * inside a b ?s" using assms(1) by (simp add: inside_sort)
  have mid: "a \<le> ?s ! ?m \<and> ?s ! ?m \<le> b"
    by (rule middle_inside [OF sorted_sort cnt]) (use ne in auto)
  show ?thesis
  proof (cases "length xs mod 2 = 1")
    case True
    with mid ne show ?thesis by (simp add: Median_def Let_def)
  next
    case False
    then have even: "length xs = 2 * ?m" by presburger
    then have pos: "0 < ?m" using ne by (cases ?m) auto
    have lower: "a \<le> ?s ! (?m - 1) \<and> ?s ! (?m - 1) \<le> b"
      by (rule middle_inside [OF sorted_sort cnt]) (use even pos in auto)
    have le: "?s ! (?m - 1) \<le> ?s ! ?m"
      by (rule sorted_nth_mono) (use even pos in auto)
    have "in_i64 (?s ! (?m - 1))" "in_i64 (?s ! ?m)" "in_i64 (?s ! (?m - 1) + ?s ! ?m)"
      using lower mid assms(2,3) by (auto simp: in_i64_def moderate_def)
    from i64_avg [OF le this] lower mid have "a \<le> i64 (?s ! (?m - 1) + ?s ! ?m) sdiv 2
        \<and> i64 (?s ! (?m - 1) + ?s ! ?m) sdiv 2 \<le> b" by linarith
    with False ne show ?thesis by (simp add: Median_def Let_def)
  qed
qed

lemma abs_dev_inside:
  assumes "a \<le> med" "med \<le> b" "moderate a" "moderate b" "a \<le> x" "x \<le> b"
  shows "0 \<le> abs_dev med x \<and> abs_dev med x \<le> b - a"
proof -
  have "i64 (x - med) = x - med" "i64 (- (x - med)) = - (x - med)"
    using assms by (auto intro!: i64_id simp: in_i64_def moderate_def)
  then show ?thesis using assms by (auto simp: abs_dev_def Let_def)
qed

lemma inside_map:
  "(\<And>x. a \<le> x \<Longrightarrow> x \<le> b \<Longrightarrow> c \<le> f x \<and> f x \<le> d) \<Longrightarrow> inside a b xs \<le> inside c d (map f xs)"
  by (induction xs) (auto simp: inside_def)

lemma MAD_inside:
  assumes "length xs < 2 * inside a b xs" "moderate a" "moderate b" "moderate (b - a)"
  shows "0 \<le> MAD xs \<and> MAD xs \<le> b - a"
proof -
  have med: "a \<le> Median xs" "Median xs \<le> b" using Median_inside [OF assms(1-3)] by auto
  have ne: "xs \<noteq> []" using assms(1) by (auto simp: inside_def)
  have "inside a b xs \<le> inside 0 (b - a) (map (abs_dev (Median xs)) xs)"
    by (rule inside_map) (use abs_dev_inside [OF med assms(2,3)] in blast)
  then have "length (map (abs_dev (Median xs)) xs) < 2 * inside 0 (b - a) (map (abs_dev (Median xs)) xs)"
    using assms(1) by simp
  from Median_inside [OF this _ assms(4)] ne show ?thesis by (simp add: MAD_def Let_def moderate_def)
qed

lemma sort_mset: "mset xs = mset ys \<Longrightarrow> sort xs = sort ys"
  by (metis properties_for_sort sorted_sort mset_sort)

lemma Median_mset:
  assumes "mset xs = mset ys" shows "Median xs = Median ys"
proof -
  have "sort xs = sort ys" "length xs = length ys"
    using sort_mset [OF assms] mset_eq_length [OF assms] by simp_all
  then show ?thesis unfolding Median_def by (simp only:)
qed

section \<open>The verdict\<close>

lemma fl_abs: "\<bar>fl x\<bar> = fl \<bar>x\<bar>"
  by (cases "0 \<le> x") (simp_all add: abs_if)

lemma f64_of_int_sign [simp]:
  "f64_of_int i < 0 \<longleftrightarrow> i < 0" "0 < f64_of_int i \<longleftrightarrow> 0 < i"
  by (simp_all add: f64_of_int_def)

lemma Decide_fields:
  "d_MaxNoiseRatio (Decide b c) = max (ss_NoiseRatio b) (ss_NoiseRatio c)"
  "d_ThresholdRatio (Decide b c) = fl (2 * max (ss_NoiseRatio b) (ss_NoiseRatio c))"
  "d_Baseline (Decide b c) = b" "d_Candidate (Decide b c) = c"
  by (auto simp: Decide_def Let_def SignificanceMultiplier_def max_def)

definition delta_of :: "SideStats \<Rightarrow> SideStats \<Rightarrow> float64" where
  "delta_of b c = fl (f64_of_int (i64 (ss_Median c - ss_Median b)) / f64_of_int (ss_Median b))"

lemma Decide_verdict:
  "d_Verdict (Decide b c) =
     (if ss_Median b \<le> 0 \<or> \<bar>delta_of b c\<bar> \<le> fl (2 * max (ss_NoiseRatio b) (ss_NoiseRatio c)) then NotSignificant
      else if delta_of b c < 0 then Better else Worse)"
  by (auto simp: Decide_def Let_def SignificanceMultiplier_def max_def delta_of_def abs_if)

lemma delta_sign:
  assumes "0 < ss_Median b" "0 \<le> ss_Median c" "in_i64 (ss_Median b)" "in_i64 (ss_Median c)"
  shows "delta_of b c < 0 \<longleftrightarrow> ss_Median c < ss_Median b" "0 < delta_of b c \<longleftrightarrow> ss_Median b < ss_Median c"
proof -
  have "i64 (ss_Median c - ss_Median b) = ss_Median c - ss_Median b"
    by (rule i64_id, rule in_i64_diff) (use assms in auto)
  moreover have "0 < f64_of_int (ss_Median b)" using assms(1) by simp
  ultimately show "delta_of b c < 0 \<longleftrightarrow> ss_Median c < ss_Median b" "0 < delta_of b c \<longleftrightarrow> ss_Median b < ss_Median c"
    by (auto simp: delta_of_def divide_less_0_iff zero_less_divide_iff)
qed

lemma verdict_cases:
  assumes "0 \<le> ss_Median b" "0 \<le> ss_Median c" "in_i64 (ss_Median b)" "in_i64 (ss_Median c)"
    and "0 \<le> ss_NoiseRatio b" "0 \<le> ss_NoiseRatio c"
  shows "(d_Verdict (Decide b c) = Better \<longleftrightarrow>
      ss_Median c < ss_Median b \<and> fl (2 * ss_NoiseRatio b) < \<bar>delta_of b c\<bar> \<and> fl (2 * ss_NoiseRatio c) < \<bar>delta_of b c\<bar>)
    \<and> (d_Verdict (Decide b c) = Worse \<longleftrightarrow>
      0 < ss_Median b \<and> ss_Median b < ss_Median c \<and> fl (2 * ss_NoiseRatio b) < \<bar>delta_of b c\<bar>
        \<and> fl (2 * ss_NoiseRatio c) < \<bar>delta_of b c\<bar>)
    \<and> (\<forall>t. d_Verdict (Decide b c) \<noteq> OtherVerdict t)"
proof (cases "0 < ss_Median b")
  case False
  then show ?thesis using assms(1,2) by (auto simp: Decide_verdict)
next
  case True
  note sign = delta_sign [OF True assms(2-4)]
  let ?nb = "ss_NoiseRatio b" and ?nc = "ss_NoiseRatio c"
  have thr: "fl (2 * max ?nb ?nc) < x \<longleftrightarrow> fl (2 * ?nb) < x \<and> fl (2 * ?nc) < x" for x
  proof -
    have "fl (2 * max ?nb ?nc) = max (fl (2 * ?nb)) (fl (2 * ?nc))"
      using fl_mono [of "2 * ?nb" "2 * ?nc"] fl_mono [of "2 * ?nc" "2 * ?nb"] by (auto simp: max_def)
    then show ?thesis by simp
  qed
  have "0 \<le> fl (2 * max ?nb ?nc)" using assms(5) by (simp add: le_max_iff_disj)
  then have nz: "fl (2 * max ?nb ?nc) < \<bar>delta_of b c\<bar> \<Longrightarrow> delta_of b c \<noteq> 0" by auto
  show ?thesis
    using True sign nz by (auto simp: Decide_verdict not_le thr)
qed

section \<open>Properties\<close>


lemma moderate_samples: "moderate 90" "moderate 100" "moderate (100 - 90)"
  by (simp_all add: moderate_def)


text \<open>The direction verdict is \<open>Better\<close> exactly when the candidate's median is smaller and the relative change
  strictly exceeds twice the noise ratio of each side, \<open>Worse\<close> exactly when it is larger (and the baseline positive)
  with the same excess, and never anything but the three verdicts.\<close>

theorem verdict_needs_twice_the_noise:
  assumes "0 \<le> ss_Median b" "0 \<le> ss_Median c" "in_i64 (ss_Median b)" "in_i64 (ss_Median c)"
    and "0 \<le> ss_NoiseRatio b" "0 \<le> ss_NoiseRatio c"
  shows "(d_Verdict (Decide b c) = Better \<longleftrightarrow>
      ss_Median c < ss_Median b \<and> fl (2 * ss_NoiseRatio b) < \<bar>delta_of b c\<bar> \<and> fl (2 * ss_NoiseRatio c) < \<bar>delta_of b c\<bar>)
    \<and> (d_Verdict (Decide b c) = Worse \<longleftrightarrow>
      0 < ss_Median b \<and> ss_Median b < ss_Median c \<and> fl (2 * ss_NoiseRatio b) < \<bar>delta_of b c\<bar>
        \<and> fl (2 * ss_NoiseRatio c) < \<bar>delta_of b c\<bar>)
    \<and> (\<forall>t. d_Verdict (Decide b c) \<noteq> OtherVerdict t)"
  by (rule verdict_cases [OF assms])

definition sample_side :: "duration \<Rightarrow> SideStats" where
  "sample_side m = \<lparr>ss_Name = [], ss_Samples = 5, ss_Median = m, ss_ScaledMAD = 0, ss_NoiseRatio = 0\<rparr>"

theorem verdict_needs_twice_the_noise_witness:
  "d_Verdict (Decide (sample_side 200) (sample_side 100)) = Better"
proof -
  have "delta_of (sample_side 200) (sample_side 100) < 0"
    by (subst delta_sign) (simp_all add: sample_side_def in_i64_def)
  then show ?thesis
    using verdict_needs_twice_the_noise [of "sample_side 200" "sample_side 100"]
    by (simp add: sample_side_def in_i64_def)
qed

lemma Admit_reasons:
  "subseq (a_RejectionReasons (Admit b c d)) reasonOrder \<and> distinct (a_RejectionReasons (Admit b c d))"
  "a_EligibleForPerformanceClaim (Admit b c d) \<longleftrightarrow> a_RejectionReasons (Admit b c d) = []"
  "a_EvidenceLevel (Admit b c d) = EvidenceL2 \<longleftrightarrow> a_RejectionReasons (Admit b c d) = []"
proof -
  have "distinct reasonOrder" by (simp add: reasonOrder_def)
  then show "subseq (a_RejectionReasons (Admit b c d)) reasonOrder \<and> distinct (a_RejectionReasons (Admit b c d))"
    by (simp add: Admit_def Let_def subseq_filter_left split: prod.split)
qed (simp_all add: Admit_def Let_def split: prod.split)

lemma Admit_reasons_empty:
  "a_RejectionReasons (Admit b c d) = [] \<longleftrightarrow>
    ss_NoiseRatio b \<le> NoiseRatioLimit \<and> ss_NoiseRatio c \<le> NoiseRatioLimit
    \<and> (case d of None \<Rightarrow> False | Some x \<Rightarrow> d_Verdict x \<noteq> NotSignificant \<and> d_Verdict x \<noteq> Worse)"
  by (cases d; cases "NoiseRatioLimit < ss_NoiseRatio b"; cases "NoiseRatioLimit < ss_NoiseRatio c")
     (auto simp: Admit_def Let_def reasonOrder_def split: Verdict.splits)

text \<open>C31: A performance claim is admitted (evidence level L2, no rejection reason) exactly when a measurement was made,
  neither side's calibration noise exceeds the 10% limit, and the verdict of \<open>Decide\<close> is \<open>Better\<close>; the reasons of a
  rejected claim come in the fixed order, without repetition.\<close>

theorem claim_needs_quiet_calibration_and_better:
  "let a = Admit bcal ccal (map_option (\<lambda>(b, c). Decide b c) sides)
   in (a_EligibleForPerformanceClaim a \<longleftrightarrow>
         ss_NoiseRatio bcal \<le> NoiseRatioLimit \<and> ss_NoiseRatio ccal \<le> NoiseRatioLimit
         \<and> (case sides of None \<Rightarrow> False | Some (b, c) \<Rightarrow> d_Verdict (Decide b c) = Better))
      \<and> (a_EvidenceLevel a = EvidenceL2 \<longleftrightarrow> a_EligibleForPerformanceClaim a)
      \<and> (a_RejectionReasons a = [] \<longleftrightarrow> a_EligibleForPerformanceClaim a)
      \<and> subseq (a_RejectionReasons a) reasonOrder \<and> distinct (a_RejectionReasons a)"
proof -
  let ?a = "Admit bcal ccal (map_option (\<lambda>(b, c). Decide b c) sides)"
  have order: "subseq (a_RejectionReasons ?a) reasonOrder \<and> distinct (a_RejectionReasons ?a)"
    by (rule Admit_reasons(1))
  have "(case sides of None \<Rightarrow> False | Some (b, c) \<Rightarrow> d_Verdict (Decide b c) = Better)
    = (case map_option (\<lambda>(b, c). Decide b c) sides of None \<Rightarrow> False
        | Some x \<Rightarrow> d_Verdict x \<noteq> NotSignificant \<and> d_Verdict x \<noteq> Worse)"
    by (cases sides) (auto simp: Decide_verdict split: if_splits)
  then show ?thesis
    unfolding Let_def Admit_reasons(2,3) Admit_reasons_empty [symmetric] using order
    by (simp add: Admit_reasons_empty)
qed

lemma execute_loop_spec:
  assumes "int i \<le> n"
  shows "case execute_loop n ctx_err execute i of
      None \<Rightarrow> \<forall>j. i \<le> j \<and> int j < n \<longrightarrow> \<not> ctx_err j \<and> execute j
    | Some e \<Rightarrow> \<exists>j. i \<le> j \<and> int j < n \<and> (\<forall>l. i \<le> l \<and> l < j \<longrightarrow> \<not> ctx_err l \<and> execute l)
        \<and> (ctx_err j \<and> e = ContextCancelled j \<or> \<not> ctx_err j \<and> \<not> execute j \<and> e = ExecutionFailed j)"
  using assms
proof (induction n ctx_err execute i rule: execute_loop.induct)
  case (1 n ctx_err execute i)
  consider "\<not> int i < n" | "int i < n" "ctx_err i \<or> \<not> execute i" | "int i < n" "\<not> ctx_err i" "execute i" by blast
  then show ?case
  proof cases
    case 1
    then show ?thesis by (auto simp: execute_loop.simps [of n ctx_err execute i])
  next
    case 2
    then show ?thesis by (auto simp: execute_loop.simps [of n ctx_err execute i] intro: exI [of _ i])
  next
    case 3
    have eq: "execute_loop n ctx_err execute i = execute_loop n ctx_err execute (Suc i)"
      using 3 by (simp add: execute_loop.simps [of n ctx_err execute i])
    have ih: "case execute_loop n ctx_err execute (Suc i) of
      None \<Rightarrow> \<forall>j. Suc i \<le> j \<and> int j < n \<longrightarrow> \<not> ctx_err j \<and> execute j
    | Some e \<Rightarrow> \<exists>j. Suc i \<le> j \<and> int j < n \<and> (\<forall>l. Suc i \<le> l \<and> l < j \<longrightarrow> \<not> ctx_err l \<and> execute l)
        \<and> (ctx_err j \<and> e = ContextCancelled j \<or> \<not> ctx_err j \<and> \<not> execute j \<and> e = ExecutionFailed j)"
      using 3 by (intro "1.IH") auto
    show ?thesis
    proof (cases "execute_loop n ctx_err execute (Suc i)")
      case None
      have "\<not> ctx_err j \<and> execute j" if "i \<le> j" "int j < n" for j
        using ih [unfolded None option.case] 3 that by (cases "j = i") auto
      then show ?thesis unfolding eq None option.case by blast
    next
      case (Some e)
      with ih obtain j where j: "Suc i \<le> j" "int j < n" "\<forall>l. Suc i \<le> l \<and> l < j \<longrightarrow> \<not> ctx_err l \<and> execute l"
        "ctx_err j \<and> e = ContextCancelled j \<or> \<not> ctx_err j \<and> \<not> execute j \<and> e = ExecutionFailed j" by auto
      have "\<forall>l. i \<le> l \<and> l < j \<longrightarrow> \<not> ctx_err l \<and> execute l" using j(3) 3 by (metis Suc_leI le_neq_implies_less)
      moreover have "i \<le> j" using j(1) by simp
      ultimately show ?thesis unfolding eq Some option.case using j(2,4) by blast
    qed
  qed
qed

text \<open>A measured round is a sample only if every one of its \<open>N\<close> executions ran: the loop stops with the index of
  the first cancelled or failed execution, and a successful round is the elapsed time divided by \<open>N\<close>.\<close>

theorem round_counts_every_execution:
  "case executeRound n ctx_err execute t0 t1 of
     Inr d \<Rightarrow> 0 < n \<and> (\<forall>j. int j < n \<longrightarrow> \<not> ctx_err j \<and> execute j) \<and> d = (t1 - t0) sdiv n
   | Inl e \<Rightarrow> n \<le> 0 \<and> e = NonPositiveExecutions
       \<or> (\<exists>j. int j < n \<and> (\<forall>l<j. \<not> ctx_err l \<and> execute l) \<and> (e = ContextCancelled j \<or> e = ExecutionFailed j))"
proof (cases "n \<le> 0")
  case True
  then show ?thesis by (simp add: executeRound_def)
next
  case False
  then have spec: "case execute_loop n ctx_err execute 0 of
      None \<Rightarrow> \<forall>j. 0 \<le> j \<and> int j < n \<longrightarrow> \<not> ctx_err j \<and> execute j
    | Some e \<Rightarrow> \<exists>j. 0 \<le> j \<and> int j < n \<and> (\<forall>l. 0 \<le> l \<and> l < j \<longrightarrow> \<not> ctx_err l \<and> execute l)
        \<and> (ctx_err j \<and> e = ContextCancelled j \<or> \<not> ctx_err j \<and> \<not> execute j \<and> e = ExecutionFailed j)"
    by (intro execute_loop_spec) simp
  show ?thesis
  proof (cases "execute_loop n ctx_err execute 0")
    case None
    with spec False show ?thesis by (simp add: executeRound_def)
  next
    case (Some e)
    have "executeRound n ctx_err execute t0 t1 = Inl e" using False Some by (simp add: executeRound_def)
    moreover have "\<exists>j. int j < n \<and> (\<forall>l<j. \<not> ctx_err l \<and> execute l) \<and> (e = ContextCancelled j \<or> e = ExecutionFailed j)"
      using spec unfolding Some option.case by (elim exE conjE) blast
    ultimately show ?thesis by simp
  qed
qed

theorem round_counts_every_execution_witness:
  "executeRound 2 (\<lambda>_. False) (\<lambda>_. True) 10 17 = Inr 3
    \<and> (\<exists>j. int j < 2 \<and> executeRound 2 (\<lambda>_. False) (\<lambda>j. j \<noteq> 1) 10 17 = Inl (ExecutionFailed j))"
proof -
  have ok: "executeRound 2 (\<lambda>_. False) (\<lambda>_. True) 10 17 = Inr 3"
    by (simp add: executeRound_def execute_loop.simps)
  have bad: "executeRound 2 (\<lambda>_. False) (\<lambda>j. j \<noteq> 1) 10 17 = Inl (ExecutionFailed 1)"
    by (simp add: executeRound_def execute_loop.simps)
  show ?thesis
    using ok bad round_counts_every_execution [of 2 "\<lambda>_. False" "\<lambda>j. j \<noteq> 1" 10 17] by auto
qed

end
