(* ===== verification/Sql_Scan.thy ===== *)
theory Sql_Scan
  imports GoStrings
begin

text \<open>
  The lexical part of \<open>internal/sqladmit/admit.go\<close>: \<open>scan\<close> splits a statement into upper-cased
  words, parentheses, stars and string literals, skipping comments and quoted identifiers, and the
  signal detectors.  The scanner works on bytes; \<open>unicode.IsLetter(rune(c))\<close> and the like see a
  byte as the Latin-1 code point of the same number.
\<close>

section \<open>Character classes of a byte\<close>

definition is_letter_l1 :: "char \<Rightarrow> bool" where
  "is_letter_l1 c \<longleftrightarrow>
     (let n = ord c in
      (65 \<le> n \<and> n \<le> 90) \<or> (97 \<le> n \<and> n \<le> 122) \<or> n = 0xAA \<or> n = 0xB5 \<or> n = 0xBA
      \<or> (0xC0 \<le> n \<and> n \<noteq> 0xD7 \<and> n \<noteq> 0xF7))"

definition is_space_l1 :: "char \<Rightarrow> bool" where
  "is_space_l1 c \<longleftrightarrow> ord c \<in> {9, 10, 11, 12, 13, 32, 0x85, 0xA0}"

definition is_word_byte :: "char \<Rightarrow> bool" where
  "is_word_byte c \<longleftrightarrow> is_letter_l1 c \<or> is_digit_byte c \<or> c = CHR ''_'' \<or> c = CHR ''%''"

definition quote_char :: char where "quote_char = CHR 0x27"
definition dquote_char :: char where "dquote_char = CHR 0x22"
definition backquote_char :: char where "backquote_char = CHR 0x60"
definition backslash_char :: char where "backslash_char = CHR 0x5C"

lemmas quote_chars = quote_char_def dquote_char_def backquote_char_def backslash_char_def

section \<open>The scanner\<close>

datatype scan_error = ErrUnterminatedLiteralOrComment | ErrExecutableComment

text \<open>The variable \<open>state\<close>: 0, the quote character, \<open>-\<close> or \<open>/\<close>.\<close>

datatype scan_state = Code | SingleQuoted | DoubleQuoted | BackQuoted | LineComment | BlockComment

record Scan =
  sc_tokens :: "string list"
  sc_b :: string
  sc_literal :: string
  sc_semis :: nat
  sc_after :: bool

definition appendToken :: "string \<Rightarrow> Scan \<Rightarrow> Scan" where
  "appendToken t s =
     (let s1 = (if sc_semis s > 0 then s\<lparr>sc_after := True\<rparr> else s)
      in s1\<lparr>sc_tokens := sc_tokens s1 @ [t]\<rparr>)"

definition flush :: "unicode_tables \<Rightarrow> Scan \<Rightarrow> Scan" where
  "flush U s =
     (if length (sc_b s) > 0 then (appendToken (ToUpper U (sc_b s)) s)\<lparr>sc_b := []\<rparr> else s)"

definition peek :: "string \<Rightarrow> char" where
  "peek rest = (case rest of [] \<Rightarrow> CHR 0x00 | d # _ \<Rightarrow> d)"

text \<open>
  The body of the loop: \<open>c\<close> is the current byte, \<open>rest\<close> what follows it.  The result is the new
  state and record with the input still to read; \<open>tl rest\<close> is a step with \<open>i++\<close>.
\<close>

definition scan_step ::
  "unicode_tables \<Rightarrow> scan_state \<Rightarrow> Scan \<Rightarrow> char \<Rightarrow> string \<Rightarrow> scan_error + (scan_state \<times> Scan \<times> string)" where
  "scan_step U st s c rest =
     (let nxt = peek rest in
      case st of
        SingleQuoted \<Rightarrow>
          if c = backslash_char \<and> rest \<noteq> [] then
            Inr (SingleQuoted, s\<lparr>sc_literal := sc_literal s @ [nxt]\<rparr>, tl rest)
          else if c = quote_char \<and> nxt = quote_char then
            Inr (SingleQuoted, s\<lparr>sc_literal := sc_literal s @ [c]\<rparr>, tl rest)
          else if c = quote_char then
            Inr (Code, (appendToken ([quote_char] @ sc_literal s @ [quote_char]) s)\<lparr>sc_literal := []\<rparr>, rest)
          else Inr (SingleQuoted, s\<lparr>sc_literal := sc_literal s @ [c]\<rparr>, rest)
      | DoubleQuoted \<Rightarrow>
          if c = backslash_char \<and> rest \<noteq> [] then Inr (DoubleQuoted, s, tl rest)
          else if c = dquote_char \<and> nxt = dquote_char then Inr (DoubleQuoted, s, tl rest)
          else if c = dquote_char then Inr (Code, s, rest)
          else Inr (DoubleQuoted, s, rest)
      | BackQuoted \<Rightarrow>
          if c = backquote_char \<and> nxt = backquote_char then Inr (BackQuoted, s, tl rest)
          else if c = backquote_char then Inr (Code, s, rest)
          else Inr (BackQuoted, s, rest)
      | LineComment \<Rightarrow> if c = CHR 0x0A then Inr (Code, s, rest) else Inr (LineComment, s, rest)
      | BlockComment \<Rightarrow>
          if c = CHR ''*'' \<and> nxt = CHR ''/'' then Inr (Code, s, tl rest) else Inr (BlockComment, s, rest)
      | Code \<Rightarrow>
          if c = CHR ''-'' \<and> nxt = CHR ''-'' \<and> length rest > 1 \<and> is_space_l1 (rest ! 1) then
            Inr (LineComment, flush U s, tl rest)
          else if c = CHR ''#'' then Inr (LineComment, flush U s, rest)
          else if c = CHR ''/'' \<and> nxt = CHR ''*'' then
            (if length rest > 1 \<and> rest ! 1 = CHR ''!'' then Inl ErrExecutableComment
             else Inr (BlockComment, flush U s, tl rest))
          else if c = quote_char then Inr (SingleQuoted, flush U s, rest)
          else if c = dquote_char then Inr (DoubleQuoted, flush U s, rest)
          else if c = backquote_char then Inr (BackQuoted, flush U s, rest)
          else if c = CHR '';'' then
            Inr (Code, (let s1 = flush U s in s1\<lparr>sc_semis := sc_semis s1 + 1\<rparr>), rest)
          else if c = CHR ''*'' then Inr (Code, appendToken ''*'' (flush U s), rest)
          else if c = CHR ''('' \<or> c = CHR '')'' then Inr (Code, appendToken [c] (flush U s), rest)
          else if is_word_byte c then Inr (Code, s\<lparr>sc_b := sc_b s @ [c]\<rparr>, rest)
          else Inr (Code, flush U s, rest))"

lemma scan_step_shorter:
  "scan_step U st s c rest = Inr (st', s', rest') \<Longrightarrow> length rest' \<le> length rest"
  by (cases st) (auto simp: scan_step_def Let_def split: if_splits)

function scan_loop :: "unicode_tables \<Rightarrow> scan_state \<Rightarrow> Scan \<Rightarrow> string \<Rightarrow> scan_error + (scan_state \<times> Scan)" where
  "scan_loop U st s [] = Inr (st, s)"
| "scan_loop U st s (c # rest) =
     (case scan_step U st s c rest of
        Inl e \<Rightarrow> Inl e
      | Inr (st', s', rest') \<Rightarrow> scan_loop U st' s' rest')"
  by pat_completeness auto
termination
  by (relation "measure (\<lambda>(U, st, s, inp). length inp)") (auto dest: scan_step_shorter)

definition bom :: string where
  "bom = [CHR 0xEF, CHR 0xBB, CHR 0xBF]"

definition scan_init :: Scan where
  "scan_init = \<lparr>sc_tokens = [], sc_b = [], sc_literal = [], sc_semis = 0, sc_after = False\<rparr>"

definition scan :: "unicode_tables \<Rightarrow> string \<Rightarrow> scan_error + (string list \<times> nat \<times> bool)" where
  "scan U sql =
     (case scan_loop U Code scan_init (TrimPrefix sql bom) of
        Inl e \<Rightarrow> Inl e
      | Inr (st, s) \<Rightarrow>
          if st \<in> {SingleQuoted, DoubleQuoted, BackQuoted, BlockComment}
          then Inl ErrUnterminatedLiteralOrComment
          else let s1 = flush U s in Inr (sc_tokens s1, sc_semis s1, sc_after s1))"

section \<open>Signals\<close>

fun hasSelectStar :: "string list \<Rightarrow> bool" where
  "hasSelectStar (a # b # t) \<longleftrightarrow> (a = ''SELECT'' \<and> b = ''*'') \<or> hasSelectStar (b # t)"
| "hasSelectStar _ \<longleftrightarrow> False"

fun function_call :: "string \<Rightarrow> string list \<Rightarrow> bool" where
  "function_call f (a # b # c # t) \<longleftrightarrow> (a = f \<and> b = ''('' \<and> c \<noteq> '')'') \<or> function_call f (b # c # t)"
| "function_call f _ \<longleftrightarrow> False"

definition hasFunctionOnColumn :: "string list \<Rightarrow> bool" where
  "hasFunctionOnColumn t \<longleftrightarrow>
     (\<exists>f \<in> set [''LOWER'', ''UPPER'', ''DATE'', ''YEAR'', ''MONTH'']. function_call f t)"

section \<open>What the scanner keeps apart\<close>

text \<open>A token is a string literal, or a word, star or parenthesis.\<close>

definition literal_token :: "string \<Rightarrow> bool" where
  "literal_token t \<longleftrightarrow> HasPrefix t [quote_char]"

text \<open>The body of a plain literal (no quote, no backslash) is swallowed byte by byte.\<close>

lemma scan_literal_body:
  assumes "quote_char \<notin> set lit" "backslash_char \<notin> set lit"
  shows "scan_loop U SingleQuoted s (lit @ rest) =
    scan_loop U SingleQuoted (s\<lparr>sc_literal := sc_literal s @ lit\<rparr>) rest"
  using assms
proof (induction lit arbitrary: s)
  case (Cons c lit)
  then have "scan_step U SingleQuoted s c (lit @ rest) =
      Inr (SingleQuoted, s\<lparr>sc_literal := sc_literal s @ [c]\<rparr>, lit @ rest)"
    by (auto simp: scan_step_def Let_def)
  with Cons show ?case by simp
qed simp

text \<open>
  A quoted literal in code position becomes one token, whatever words it contains, and scanning
  goes on in code position after it.
\<close>

lemma scan_literal:
  assumes "quote_char \<notin> set lit" "backslash_char \<notin> set lit" "peek rest \<noteq> quote_char" "sc_literal s = []"
  shows "scan_loop U Code s (quote_char # lit @ quote_char # rest) =
    scan_loop U Code (appendToken ([quote_char] @ lit @ [quote_char]) (flush U s)) rest"
proof -
  have lit: "sc_literal (flush U s) = []" using assms(4) by (simp add: flush_def appendToken_def)
  have body: "scan_loop U SingleQuoted (flush U s) (lit @ quote_char # rest) =
      scan_loop U SingleQuoted ((flush U s)\<lparr>sc_literal := lit\<rparr>) (quote_char # rest)"
    using scan_literal_body [OF assms(1,2), of U "flush U s" "quote_char # rest"] lit by simp
  have close: "scan_step U SingleQuoted ((flush U s)\<lparr>sc_literal := lit\<rparr>) quote_char rest =
      Inr (Code, appendToken ([quote_char] @ lit @ [quote_char]) (flush U s), rest)"
    using assms(3) lit by (simp add: scan_step_def Let_def quote_chars appendToken_def)
  have "scan_step U Code s quote_char (lit @ quote_char # rest) =
      Inr (SingleQuoted, flush U s, lit @ quote_char # rest)"
    by (simp add: scan_step_def Let_def quote_chars)
  with body close show ?thesis by simp
qed

text \<open>A block comment without \<open>*/\<close> inside, and not executable, leaves no token behind.\<close>

lemma scan_block_body:
  assumes "CHR ''*'' \<notin> set body"
  shows "scan_loop U BlockComment s (body @ ''*/'' @ rest) = scan_loop U Code s rest"
  using assms
proof (induction body)
  case Nil
  then show ?case by (simp add: scan_step_def Let_def peek_def)
next
  case (Cons c body)
  then have "c \<noteq> CHR ''*''" by auto
  then have "scan_step U BlockComment s c (body @ ''*/'' @ rest) = Inr (BlockComment, s, body @ ''*/'' @ rest)"
    by (simp add: scan_step_def Let_def)
  with Cons show ?case by simp
qed

lemma scan_block_comment:
  assumes "CHR ''*'' \<notin> set body" "\<not> HasPrefix body ''!''"
  shows "scan_loop U Code s (''/*'' @ body @ ''*/'' @ rest) = scan_loop U Code (flush U s) rest"
proof -
  have "(''*'' @ body @ ''*/'' @ rest) ! 1 \<noteq> CHR ''!''"
    using assms(2) by (cases body) (auto simp: HasPrefix_def)
  then have "scan_step U Code s CHR ''/'' (''*'' @ body @ ''*/'' @ rest) =
      Inr (BlockComment, flush U s, body @ ''*/'' @ rest)"
    by (simp add: scan_step_def Let_def peek_def quote_chars)
  then show ?thesis using scan_block_body [OF assms(1), of U "flush U s" rest] by simp
qed

end
