(* ===== verification/Sql_Analyze.thy ===== *)
theory Sql_Analyze
  imports Sql_Scan "HOL-Library.Char_ord" "HOL-Library.List_Lexorder"
begin

text \<open>
  \<open>internal/sqladmit/ast.go\<close>: the bounded traversal of a parsed statement that rejects side
  effects and collects the physical tables.  The MySQL parser is third-party code: it is the
  parameter \<open>P\<close>, from a statement to its syntax trees (\<open>None\<close> for a syntax error).  A tree keeps
  what the visitor looks at; every other kind of node is \<open>OtherNode\<close>.  \<open>accept\<close> is the
  documented protocol of the parser's \<open>Accept\<close>: enter, then the children from left to right
  unless the visitor skips them, then leave; a traversal that answers \<open>False\<close> is abandoned.
\<close>

datatype node_kind =
    SelectStmt (sel_limit: bool) (sel_orderby: bool) (sel_locking: bool) (sel_into: bool) (sel_hints: nat)
  | SetOprStmt (set_limit: bool) (set_orderby: bool)
  | WithClause (with_recursive: bool)
  | TableName (tn_schema: string) (tn_name: string)
  | VariableExpr
  | FuncCallExpr (fc_schema: string) (fc_name: string)
  | CommonTableExpression (cte_name: string)
  | OtherNode

datatype node = Node node_kind "node list"

type_synonym sql_parser = "string \<Rightarrow> node list option"

datatype analyze_error =
    SqlLimitExceeded | InvalidSqlSyntax | NotReadonlySelect | LockingRead | SelectIntoNotSupported
  | OptimizerHintNotSupported | RecursiveCteNotSupported | CrossSchemaNotSupported
  | SessionVariableNotSupported | UnsafeOrUnknownFunction | SqlComplexityExceeded

record Analysis =
  an_Tables :: "string list"
  an_Ordered :: bool
  an_UnorderedLimit :: bool

text \<open>The visitor; \<open>v_scopes\<close> has the innermost scope last.\<close>

record safetyVisitor =
  v_tables :: "string list"
  v_scopes :: "string list list"
  v_err :: "analyze_error option"
  v_count :: nat
  v_unorderedLimit :: bool

definition safeFunctions :: "string list" where
  "safeFunctions =
     [''ABS'', ''CEIL'', ''CEILING'', ''FLOOR'', ''ROUND'', ''TRUNCATE'', ''MOD'', ''POW'', ''POWER'', ''SQRT'',
      ''SIGN'', ''GREATEST'', ''LEAST'', ''COALESCE'', ''IF'', ''IFNULL'', ''NULLIF'', ''CONCAT'', ''CONCAT_WS'',
      ''LENGTH'', ''CHAR_LENGTH'', ''CHARACTER_LENGTH'', ''LOWER'', ''LCASE'', ''UPPER'', ''UCASE'', ''TRIM'',
      ''LTRIM'', ''RTRIM'', ''SUBSTRING'', ''SUBSTR'', ''LEFT'', ''RIGHT'', ''REPLACE'', ''INSTR'', ''LOCATE'',
      ''LPAD'', ''RPAD'', ''REVERSE'', ''ASCII'', ''ORD'', ''HEX'', ''UNHEX'', ''DATE'', ''YEAR'', ''MONTH'',
      ''DAY'', ''DAYOFMONTH'', ''DAYOFWEEK'', ''HOUR'', ''MINUTE'', ''SECOND'', ''DATE_FORMAT'', ''DATEDIFF'',
      ''TIMESTAMPDIFF'', ''TIMESTAMPADD'', ''DATE_ADD'', ''DATE_SUB'', ''ADDDATE'', ''SUBDATE'', ''NOW'',
      ''CURRENT_DATE'', ''CURRENT_TIME'', ''CURRENT_TIMESTAMP'', ''UTC_TIMESTAMP'', ''CAST'', ''CONVERT'',
      ''JSON_EXTRACT'', ''JSON_UNQUOTE'', ''JSON_LENGTH'', ''JSON_CONTAINS'', ''JSON_VALID'']"

section \<open>The visitor\<close>

definition fail :: "analyze_error \<Rightarrow> safetyVisitor \<Rightarrow> safetyVisitor" where
  "fail code v = (if v_err v = None then v\<lparr>v_err := Some code\<rparr> else v)"

definition push :: "safetyVisitor \<Rightarrow> safetyVisitor" where
  "push v = v\<lparr>v_scopes := v_scopes v @ [[]]\<rparr>"

definition visible :: "string \<Rightarrow> safetyVisitor \<Rightarrow> bool" where
  "visible name v \<longleftrightarrow> (\<exists>scope \<in> set (v_scopes v). name \<in> set scope)"

definition add_table :: "string \<Rightarrow> safetyVisitor \<Rightarrow> safetyVisitor" where
  "add_table name v = (if name \<in> set (v_tables v) then v else v\<lparr>v_tables := v_tables v @ [name]\<rparr>)"

text \<open>\<open>Enter\<close>: whether to skip the children, whether the node was pushed, and the visitor.\<close>

definition Enter :: "unicode_tables \<Rightarrow> node_kind \<Rightarrow> safetyVisitor \<Rightarrow> bool \<times> bool \<times> safetyVisitor" where
  "Enter U k v0 =
     (let v = v0\<lparr>v_count := v_count v0 + 1\<rparr> in
      if v_count v > 4096 then (True, False, v\<lparr>v_err := Some SqlComplexityExceeded\<rparr>)
      else
        let (pushed, v') =
          (case k of
             SelectStmt limit orderby locking into hints \<Rightarrow>
               let v1 = (if limit \<and> \<not> orderby then v\<lparr>v_unorderedLimit := True\<rparr> else v);
                   v2 = push v1;
                   v3 = (if locking then fail LockingRead v2 else v2);
                   v4 = (if into then fail SelectIntoNotSupported v3 else v3);
                   v5 = (if hints > 0 then fail OptimizerHintNotSupported v4 else v4)
               in (True, v5)
           | WithClause rec \<Rightarrow> (False, if rec then fail RecursiveCteNotSupported v else v)
           | SetOprStmt limit orderby \<Rightarrow>
               (True, push (if limit \<and> \<not> orderby then v\<lparr>v_unorderedLimit := True\<rparr> else v))
           | TableName schema tname \<Rightarrow>
               let v1 = (if schema \<noteq> [] then fail CrossSchemaNotSupported v else v);
                   name = ToLower U tname
               in (False, if visible name v1 then v1 else add_table name v1)
           | VariableExpr \<Rightarrow> (False, fail SessionVariableNotSupported v)
           | FuncCallExpr schema fname \<Rightarrow>
               (False, if schema \<noteq> [] \<or> ToUpper U fname \<notin> set safeFunctions
                       then fail UnsafeOrUnknownFunction v else v)
           | _ \<Rightarrow> (False, v))
        in (v_err v' \<noteq> None, pushed, v'))"

definition Leave :: "unicode_tables \<Rightarrow> bool \<Rightarrow> node_kind \<Rightarrow> safetyVisitor \<Rightarrow> bool \<times> safetyVisitor" where
  "Leave U pushed k v =
     (let v1 = (if pushed then v\<lparr>v_scopes := butlast (v_scopes v)\<rparr> else v);
          v2 = (case k of
                  CommonTableExpression name \<Rightarrow>
                    if v_scopes v1 \<noteq> []
                    then v1\<lparr>v_scopes := butlast (v_scopes v1) @ [ToLower U name # last (v_scopes v1)]\<rparr>
                    else v1
                | _ \<Rightarrow> v1)
      in (v_err v2 = None, v2))"

fun accept :: "unicode_tables \<Rightarrow> node \<Rightarrow> safetyVisitor \<Rightarrow> bool \<times> safetyVisitor"
  and accept_list :: "unicode_tables \<Rightarrow> node list \<Rightarrow> safetyVisitor \<Rightarrow> bool \<times> safetyVisitor" where
  "accept U (Node k ns) v =
     (case Enter U k v of
        (skip, pushed, v1) \<Rightarrow>
          if skip then Leave U pushed k v1
          else (case accept_list U ns v1 of
                  (False, v2) \<Rightarrow> (False, v2)
                | (True, v2) \<Rightarrow> Leave U pushed k v2))"
| "accept_list U [] v = (True, v)"
| "accept_list U (n # ns) v =
     (case accept U n v of
        (False, v1) \<Rightarrow> (False, v1)
      | (True, v1) \<Rightarrow> accept_list U ns v1)"

definition new_visitor :: safetyVisitor where
  "new_visitor = \<lparr>v_tables = [], v_scopes = [], v_err = None, v_count = 0, v_unorderedLimit = False\<rparr>"

definition Analyze :: "unicode_tables \<Rightarrow> sql_parser \<Rightarrow> string \<Rightarrow> analyze_error + Analysis" where
  "Analyze U P query =
     (if length query > 65536 then Inl SqlLimitExceeded
      else case P (TrimPrefix query bom) of
        None \<Rightarrow> Inl InvalidSqlSyntax
      | Some nodes \<Rightarrow>
          (case nodes of
             [Node k ns] \<Rightarrow>
               (if \<not> (is_SelectStmt k \<or> is_SetOprStmt k) then Inl NotReadonlySelect
                else
                  let v = snd (accept U (Node k ns) new_visitor)
                  in case v_err v of
                       Some e \<Rightarrow> Inl e
                     | None \<Rightarrow>
                         Inr \<lparr>an_Tables = sort (v_tables v),
                              an_Ordered = (case k of SelectStmt l ob lk i h \<Rightarrow> ob | SetOprStmt l ob \<Rightarrow> ob | _ \<Rightarrow> False),
                              an_UnorderedLimit = v_unorderedLimit v\<rparr>)
           | _ \<Rightarrow> Inl InvalidSqlSyntax))"

definition Inspect :: "unicode_tables \<Rightarrow> sql_parser \<Rightarrow> string \<Rightarrow> analyze_error + string list" where
  "Inspect U P query = (case Analyze U P query of Inl e \<Rightarrow> Inl e | Inr a \<Rightarrow> Inr (an_Tables a))"

definition OrderSensitive :: "unicode_tables \<Rightarrow> sql_parser \<Rightarrow> string \<Rightarrow> bool" where
  "OrderSensitive U P query = (case Analyze U P query of Inl e \<Rightarrow> True | Inr a \<Rightarrow> an_Ordered a)"

section \<open>What an accepted tree contains\<close>

fun kinds :: "node \<Rightarrow> node_kind list" where
  "kinds (Node k ns) = k # concat (map kinds ns)"

definition safe_kind :: "unicode_tables \<Rightarrow> node_kind \<Rightarrow> bool" where
  "safe_kind U k \<longleftrightarrow>
     (case k of
        SelectStmt limit orderby locking into hints \<Rightarrow> \<not> locking \<and> \<not> into \<and> hints = 0
      | WithClause rec \<Rightarrow> \<not> rec
      | TableName schema name \<Rightarrow> schema = []
      | VariableExpr \<Rightarrow> False
      | FuncCallExpr schema name \<Rightarrow> schema = [] \<and> ToUpper U name \<in> set safeFunctions
      | _ \<Rightarrow> True)"

definition unordered_kind :: "node_kind \<Rightarrow> bool" where
  "unordered_kind k \<longleftrightarrow>
     (case k of SelectStmt limit orderby lk i h \<Rightarrow> limit \<and> \<not> orderby | SetOprStmt limit orderby \<Rightarrow> limit \<and> \<not> orderby
      | _ \<Rightarrow> False)"

definition cte_names :: "unicode_tables \<Rightarrow> node_kind list \<Rightarrow> string set" where
  "cte_names U ks = {ToLower U n | n. CommonTableExpression n \<in> set ks}"

definition table_names :: "unicode_tables \<Rightarrow> node_kind list \<Rightarrow> string set" where
  "table_names U ks = {ToLower U n | s n. TableName s n \<in> set ks}"

definition scope_names :: "safetyVisitor \<Rightarrow> string set" where
  "scope_names v = \<Union> (set ` set (v_scopes v))"

text \<open>What a completed traversal of nodes of the kinds \<open>ks\<close> has established.\<close>

definition traversed :: "unicode_tables \<Rightarrow> node_kind list \<Rightarrow> safetyVisitor \<Rightarrow> safetyVisitor \<Rightarrow> bool" where
  "traversed U ks v v' \<longleftrightarrow>
     v_err v' = None \<and> (\<forall>k \<in> set ks. safe_kind U k)
     \<and> v_count v' = v_count v + length ks \<and> (ks \<noteq> [] \<longrightarrow> v_count v' \<le> 4096)
     \<and> length (v_scopes v') = length (v_scopes v)
     \<and> set (v_tables v) \<subseteq> set (v_tables v')
     \<and> set (v_tables v') \<subseteq> set (v_tables v) \<union> table_names U ks
     \<and> table_names U ks \<subseteq> set (v_tables v') \<union> scope_names v \<union> cte_names U ks
     \<and> scope_names v' \<subseteq> scope_names v \<union> cte_names U ks
     \<and> (distinct (v_tables v) \<longrightarrow> distinct (v_tables v'))
     \<and> (v_unorderedLimit v' \<longleftrightarrow> v_unorderedLimit v \<or> (\<exists>k \<in> set ks. unordered_kind k))"

lemma names_append [simp]:
  "cte_names U (a @ b) = cte_names U a \<union> cte_names U b"
  "table_names U (a @ b) = table_names U a \<union> table_names U b"
  "cte_names U [] = {}" "table_names U [] = {}"
  by (auto simp: cte_names_def table_names_def)

lemma names_Cons:
  "cte_names U (k # ks) = cte_names U [k] \<union> cte_names U ks"
  "table_names U (k # ks) = table_names U [k] \<union> table_names U ks"
  by (auto simp: cte_names_def table_names_def)

lemma traversed_trans:
  assumes "traversed U a v v1" "traversed U b v1 v2"
  shows "traversed U (a @ b) v v2"
  using assms unfolding traversed_def names_append
  apply (elim conjE)
  apply (intro conjI)
            apply assumption
           apply (metis Un_iff set_append)
          apply simp
         apply (cases "b = []"; simp)
        apply simp
       apply (erule (1) order_trans)
      apply (blast dest: subsetD)
     apply (blast dest: subsetD)
    apply (blast dest: subsetD)
   apply blast
  apply (metis Un_iff set_append)
  done

lemma traversed_Nil: "v_err v = None \<Longrightarrow> traversed U [] v v"
  by (simp add: traversed_def)

text \<open>One node: entering it, and leaving it, in terms of its kind alone.\<close>

lemma Enter_ok:
  assumes "v_err v = None" "Enter U k v = (skip, pushed, v1)" "v_err v1 = None"
  shows "\<not> skip \<and> safe_kind U k \<and> v_count v1 = v_count v + 1 \<and> v_count v1 \<le> 4096
    \<and> (pushed \<longleftrightarrow> is_SelectStmt k \<or> is_SetOprStmt k)
    \<and> v_scopes v1 = (if pushed then v_scopes v @ [[]] else v_scopes v)
    \<and> (v_unorderedLimit v1 \<longleftrightarrow> v_unorderedLimit v \<or> unordered_kind k)
    \<and> set (v_tables v) \<subseteq> set (v_tables v1) \<and> set (v_tables v1) \<subseteq> set (v_tables v) \<union> table_names U [k]
    \<and> table_names U [k] \<subseteq> set (v_tables v1) \<union> scope_names v
    \<and> (distinct (v_tables v) \<longrightarrow> distinct (v_tables v1))"
proof -
  have small: "v_count v + 1 \<le> 4096"
    using assms(2,3) by (auto simp: Enter_def Let_def split: if_splits)
  show ?thesis
    using assms small
    by (cases k) (auto simp: Enter_def Let_def fail_def push_def safe_kind_def unordered_kind_def table_names_def
        visible_def add_table_def scope_names_def split: if_splits)
qed

lemma Enter_skip:
  assumes "Enter U k v = (skip, pushed, v1)" shows "skip \<longleftrightarrow> v_err v1 \<noteq> None"
  using assms by (auto simp: Enter_def Let_def split: if_splits prod.splits)

lemma Leave_fields:
  "Leave U pushed k v = (ok, v') \<Longrightarrow>
    v_err v' = v_err v \<and> (ok \<longleftrightarrow> v_err v = None) \<and> v_count v' = v_count v \<and> v_tables v' = v_tables v
    \<and> v_unorderedLimit v' = v_unorderedLimit v"
  by (auto simp: Leave_def Let_def split: node_kind.splits if_splits)

lemma Leave_scopes:
  assumes "Leave U pushed k v = (ok, v')" "pushed \<longleftrightarrow> is_SelectStmt k \<or> is_SetOprStmt k"
  shows "length (v_scopes v') = (if pushed then length (v_scopes v) - 1 else length (v_scopes v))"
    and "scope_names v' \<subseteq> scope_names v \<union> cte_names U [k]"
proof -
  have names: "\<Union> (set ` set (butlast ss)) \<subseteq> \<Union> (set ` set ss)" for ss :: "string list list"
    by (auto dest: in_set_butlastD)
  have upd: "\<Union> (set ` set (butlast ss @ [n # last ss])) \<subseteq> \<Union> (set ` set ss) \<union> {n}" if "ss \<noteq> []"
    for n and ss :: "string list list"
    using that last_in_set [OF that] by (auto dest: in_set_butlastD)
  show "length (v_scopes v') = (if pushed then length (v_scopes v) - 1 else length (v_scopes v))"
    using assms by (cases k) (auto simp: Leave_def Let_def split: if_splits)
  have sc: "v_scopes v' = (case k of
      CommonTableExpression n \<Rightarrow> if v_scopes v = [] then [] else butlast (v_scopes v) @ [ToLower U n # last (v_scopes v)]
    | _ \<Rightarrow> if pushed then butlast (v_scopes v) else v_scopes v)"
  proof -
    have "v' = snd (Leave U pushed k v)" using assms(1) by simp
    then show ?thesis using assms(2) by (cases k) (simp_all add: Leave_def Let_def)
  qed
  consider "pushed" "v_scopes v' = butlast (v_scopes v)"
    | n where "k = CommonTableExpression n" "v_scopes v \<noteq> []"
        "v_scopes v' = butlast (v_scopes v) @ [ToLower U n # last (v_scopes v)]"
    | "v_scopes v' = v_scopes v"
    using sc by (cases k; cases pushed; cases "v_scopes v = []") auto
  then show "scope_names v' \<subseteq> scope_names v \<union> cte_names U [k]"
  proof cases
    case 1
    then show ?thesis using names [of "v_scopes v"] unfolding scope_names_def by auto
  next
    case (2 n)
    then show ?thesis using upd [OF 2(2), of "ToLower U n"] unfolding scope_names_def by (auto simp: cte_names_def)
  next
    case 3
    then show ?thesis by (simp add: scope_names_def)
  qed
qed

text \<open>Set inclusions of the induction below.\<close>

lemma Un_mono_left: "(A :: 'a set) \<subseteq> B \<union> C \<Longrightarrow> A \<union> D \<subseteq> B \<union> (C \<union> D)"
  by blast

lemma Un_cover:
  "(K :: 'a set) \<subseteq> T1 \<union> S \<Longrightarrow> T1 \<subseteq> T2 \<Longrightarrow> R \<subseteq> T2 \<union> S \<union> C \<Longrightarrow> K \<union> R \<subseteq> T2 \<union> S \<union> (D \<union> C)"
  by blast

lemma Un_cover2: "(A :: 'a set) \<subseteq> B \<union> D \<Longrightarrow> B \<subseteq> S \<union> C \<Longrightarrow> A \<subseteq> S \<union> (D \<union> C)"
  by blast

text \<open>A traversal that answers \<open>True\<close> has checked every node below.\<close>

lemma accept_traversed:
  "v_err v = None \<Longrightarrow> accept U n v = (True, v') \<Longrightarrow> traversed U (kinds n) v v'"
  "v_err v = None \<Longrightarrow> accept_list U ns v = (True, v') \<Longrightarrow> traversed U (concat (map kinds ns)) v v'"
proof (induction U n v and U ns v arbitrary: v' and v' rule: accept_accept_list.induct)
  case (1 U k ns v)
  obtain skip pushed v1 where e: "Enter U k v = (skip, pushed, v1)" by (metis prod_cases3)
  have err1: "v_err v1 = None"
  proof (rule ccontr)
    assume "v_err v1 \<noteq> None"
    with Enter_skip [OF e] have "Leave U pushed k v1 = (True, v')" using "1.prems"(2) e by simp
    from Leave_fields [OF this] \<open>v_err v1 \<noteq> None\<close> show False by simp
  qed
  note en = Enter_ok [OF "1.prems"(1) e err1]
  have "\<not> skip" using en by blast
  then obtain v2 where l: "accept_list U ns v1 = (True, v2)" "Leave U pushed k v2 = (True, v')"
    using "1.prems"(2) e by (auto split: prod.splits bool.splits)
  have tr: "traversed U (concat (map kinds ns)) v1 v2"
    using "1.IH" [OF e [symmetric] refl \<open>\<not> skip\<close> err1 l(1)] .
  note lf = Leave_fields [OF l(2)]
  note ls = Leave_scopes [OF l(2)]
  have push: "pushed \<longleftrightarrow> is_SelectStmt k \<or> is_SetOprStmt k" using en by blast
  have sc1: "scope_names v1 = scope_names v" using en by (auto simp: scope_names_def)
  have len: "length (v_scopes v') = length (v_scopes v)"
    using ls(1) [OF push] tr en by (auto simp: traversed_def)
  let ?ks = "concat (map kinds ns)"
  have tabs: "set (v_tables v1) \<subseteq> set (v_tables v2)" "set (v_tables v2) \<subseteq> set (v_tables v1) \<union> table_names U ?ks"
    "table_names U ?ks \<subseteq> set (v_tables v2) \<union> scope_names v1 \<union> cte_names U ?ks"
    "scope_names v2 \<subseteq> scope_names v1 \<union> cte_names U ?ks"
    "distinct (v_tables v1) \<longrightarrow> distinct (v_tables v2)"
    "v_unorderedLimit v2 \<longleftrightarrow> v_unorderedLimit v1 \<or> (\<exists>k \<in> set ?ks. unordered_kind k)"
    using tr unfolding traversed_def by blast+
  have enf: "set (v_tables v) \<subseteq> set (v_tables v1)" "set (v_tables v1) \<subseteq> set (v_tables v) \<union> table_names U [k]"
    "table_names U [k] \<subseteq> set (v_tables v1) \<union> scope_names v"
    "distinct (v_tables v) \<longrightarrow> distinct (v_tables v1)"
    "v_unorderedLimit v1 \<longleftrightarrow> v_unorderedLimit v \<or> unordered_kind k"
    using en by blast+
  have ltab: "v_tables v' = v_tables v2" using lf by simp
  show ?case
    unfolding traversed_def kinds.simps
  proof (intro conjI)
    show "v_err v' = None" using lf by simp
    show "\<forall>k' \<in> set (k # ?ks). safe_kind U k'" using tr en by (simp add: traversed_def)
    show "v_count v' = v_count v + length (k # ?ks)" using tr en lf by (simp add: traversed_def)
    show "k # ?ks \<noteq> [] \<longrightarrow> v_count v' \<le> 4096"
      using tr en lf by (cases "?ks = []") (simp_all add: traversed_def)
    show "length (v_scopes v') = length (v_scopes v)" by (rule len)
    show "set (v_tables v) \<subseteq> set (v_tables v')" unfolding ltab by (rule order_trans [OF enf(1) tabs(1)])
    show "set (v_tables v') \<subseteq> set (v_tables v) \<union> table_names U (k # ?ks)"
      unfolding ltab names_Cons(2) [of U k ?ks]
      by (rule order_trans [OF tabs(2)]) (rule Un_mono_left [OF enf(2)])
    show "table_names U (k # ?ks) \<subseteq> set (v_tables v') \<union> scope_names v \<union> cte_names U (k # ?ks)"
      unfolding ltab names_Cons [of U k ?ks]
      by (rule Un_cover [OF enf(3) tabs(1) tabs(3) [unfolded sc1]])
    show "scope_names v' \<subseteq> scope_names v \<union> cte_names U (k # ?ks)"
      unfolding names_Cons(1) [of U k ?ks]
      by (rule Un_cover2 [OF ls(2) [OF push] tabs(4) [unfolded sc1]])
    show "distinct (v_tables v) \<longrightarrow> distinct (v_tables v')" using tabs(5) enf(4) ltab by simp
    show "v_unorderedLimit v' = (v_unorderedLimit v \<or> (\<exists>k' \<in> set (k # ?ks). unordered_kind k'))"
      using tabs(6) enf(5) lf by auto
  qed
next
  case (2 U v)
  then show ?case by (simp add: traversed_Nil)
next
  case (3 U n ns v)
  then obtain v1 where l: "accept U n v = (True, v1)" "accept_list U ns v1 = (True, v')"
    by (auto split: prod.splits bool.splits)
  have t1: "traversed U (kinds n) v v1" using "3.IH"(1) [OF "3.prems"(1) l(1)] .
  then have "v_err v1 = None" by (simp add: traversed_def)
  from "3.IH"(2) [OF l(1) [symmetric] refl this l(2)] t1 show ?case
    by (auto intro: traversed_trans)
qed

section \<open>The promise of the traversal\<close>

lemma accept_error:
  "\<not> fst (accept U n v) \<or> v_err (snd (accept U n v)) \<noteq> None \<or> accept U n v = (True, snd (accept U n v))"
  by (cases "accept U n v") auto

text \<open>A traversal that is abandoned has recorded an error.\<close>

lemma accept_abandoned:
  "accept U n v = (False, v') \<Longrightarrow> v_err v' \<noteq> None"
  "accept_list U ns v = (False, v') \<Longrightarrow> v_err v' \<noteq> None"
proof (induction U n v and U ns v arbitrary: v' and v' rule: accept_accept_list.induct)
  case (1 U k ns v)
  obtain skip pushed v1 where e: "Enter U k v = (skip, pushed, v1)" by (metis prod_cases3)
  show ?case
  proof (cases skip)
    case True
    then have "Leave U pushed k v1 = (False, v')" using "1.prems" e by simp
    then show ?thesis using Leave_fields by fastforce
  next
    case False
    obtain ok v2 where l: "accept_list U ns v1 = (ok, v2)" by (cases "accept_list U ns v1")
    show ?thesis
    proof (cases ok)
      case True
      then have "Leave U pushed k v2 = (False, v')" using "1.prems" e l False by simp
      then show ?thesis using Leave_fields by fastforce
    next
      case okF: False
      then show ?thesis using "1.IH" [OF e [symmetric] refl False, of v'] "1.prems" e l False by simp
    qed
  qed
next
  case (3 U n ns v)
  obtain ok v1 where a: "accept U n v = (ok, v1)" by (cases "accept U n v")
  show ?case
  proof (cases ok)
    case True
    then show ?thesis using "3.IH"(2) [OF a [symmetric]] "3.prems" a by simp
  next
    case False
    then show ?thesis using "3.IH"(1) [of v1] "3.prems" a by simp
  qed
qed simp

lemma Analyze_inversion:
  assumes "Analyze U P query = Inr a"
  obtains k ns v where "P (TrimPrefix query bom) = Some [Node k ns]" "is_SelectStmt k \<or> is_SetOprStmt k"
    "length query \<le> 65536" "traversed U (kinds (Node k ns)) new_visitor v"
    "an_Tables a = sort (v_tables v)" "an_UnorderedLimit a = v_unorderedLimit v"
proof -
  obtain k ns where p: "P (TrimPrefix query bom) = Some [Node k ns]" "is_SelectStmt k \<or> is_SetOprStmt k"
    "length query \<le> 65536"
    using assms by (auto simp: Analyze_def split: option.splits list.splits node.splits if_splits)
  obtain ok v where acc: "accept U (Node k ns) new_visitor = (ok, v)"
    by (cases "accept U (Node k ns) new_visitor")
  have err: "v_err v = None" and a: "an_Tables a = sort (v_tables v)" "an_UnorderedLimit a = v_unorderedLimit v"
    using assms p acc by (auto simp: Analyze_def Let_def simp del: accept.simps split: option.splits)
  have ok: "ok" using accept_abandoned(1) [of U "Node k ns" new_visitor v] acc err by (cases ok) auto
  have "traversed U (kinds (Node k ns)) new_visitor v"
    using accept_traversed(1) [of new_visitor U "Node k ns" v] acc ok by (simp add: new_visitor_def)
  with p a that show ?thesis by blast
qed


text \<open>A statement with a common table expression over one physical table.\<close>

definition cte_tree :: node where
  "cte_tree = Node (SelectStmt True False False False 0)
     [Node (WithClause False)
        [Node (CommonTableExpression ''Recent'')
           [Node (SelectStmt False False False False 0) [Node (TableName [] ''Orders'') []]]],
      Node (TableName [] ''recent'') [], Node (FuncCallExpr [] ''abs'') []]"

definition cte_query :: string where
  "cte_query = ''WITH Recent AS (SELECT id FROM Orders) SELECT abs(id) FROM recent LIMIT 1''"

lemma cte_names_folded:
  "ToUpper ascii_tables ''abs'' = ''ABS''" "ToLower ascii_tables ''Orders'' = ''orders''"
  "ToLower ascii_tables ''Recent'' = ''recent''" "ToLower ascii_tables ''recent'' = ''recent''"
  by code_simp+

lemma cte_query_analysis:
  "Analyze ascii_tables (\<lambda>_. Some [cte_tree]) cte_query =
     Inr \<lparr>an_Tables = [''orders''], an_Ordered = False, an_UnorderedLimit = True\<rparr>"
  by (simp add: Analyze_def cte_query_def cte_tree_def Enter_def Leave_def new_visitor_def push_def fail_def
      add_table_def visible_def Let_def cte_names_folded safeFunctions_def)


end
