(* ===== verification/GoDecode.thy ===== *)
theory GoDecode
  imports GoJson
begin

text \<open>
  More of \<open>encoding/json\<close>: the default decoder, which skips unknown keys, slices of structs, and
  fields kept undecoded.  A second occurrence of a slice-valued key decodes into the elements the
  first one left, as Go does (elements beyond the length of a slice that a shorter repetition
  truncated are taken as fresh; they need the same key three times).
\<close>

fun decode_members_lax :: "(string \<times> 'r field_setter) list \<Rightarrow> (string \<times> json) list \<Rightarrow> 'r \<Rightarrow> 'r option" where
  "decode_members_lax fs [] r = Some r"
| "decode_members_lax fs ((k, v) # m) r =
     (case find_field fs k of
        None \<Rightarrow> decode_members_lax fs m r
      | Some setter \<Rightarrow> (case setter v r of None \<Rightarrow> None | Some r' \<Rightarrow> decode_members_lax fs m r'))"

definition decode_struct_lax :: "(string \<times> 'r field_setter) list \<Rightarrow> 'r field_setter" where
  "decode_struct_lax fs v r =
     (case v of JObj m \<Rightarrow> decode_members_lax fs m r | JNull \<Rightarrow> Some r | _ \<Rightarrow> None)"

text \<open>\<open>json.Unmarshal\<close>: exactly one value, white space around it.\<close>

definition unmarshal :: "(json \<Rightarrow> 'r option) \<Rightarrow> string \<Rightarrow> 'r option" where
  "unmarshal f raw =
     (case json_decode raw of
        Some (v, rest) \<Rightarrow> if json_at_eof rest then f v else None
      | None \<Rightarrow> None)"

text \<open>\<open>json.Valid\<close>.\<close>

definition json_valid :: "string \<Rightarrow> bool" where
  "json_valid raw \<longleftrightarrow> (case json_decode raw of Some (v, rest) \<Rightarrow> json_at_eof rest | None \<Rightarrow> False)"

fun decode_elems :: "'e field_setter \<Rightarrow> 'e \<Rightarrow> json list \<Rightarrow> 'e list \<Rightarrow> 'e list option" where
  "decode_elems setter zero [] old = Some []"
| "decode_elems setter zero (v # vs) old =
     (case setter v (case old of [] \<Rightarrow> zero | e # _ \<Rightarrow> e) of
        None \<Rightarrow> None
      | Some e \<Rightarrow> map_option (\<lambda>es. e # es) (decode_elems setter zero vs (tl old)))"

text \<open>A slice field: \<open>get\<close> and \<open>upd\<close> read and write it; \<open>null\<close> makes it nil.\<close>

definition set_slice ::
  "'e field_setter \<Rightarrow> 'e \<Rightarrow> ('r \<Rightarrow> 'e list) \<Rightarrow> ('e list \<Rightarrow> 'r \<Rightarrow> 'r) \<Rightarrow> 'r field_setter" where
  "set_slice setter zero get upd v r =
     (case v of
        JArr vs \<Rightarrow> map_option (\<lambda>es. upd es r) (decode_elems setter zero vs (get r))
      | JNull \<Rightarrow> Some (upd [] r)
      | _ \<Rightarrow> None)"

definition plain_string :: "string field_setter" where
  "plain_string = set_string (\<lambda>x _. x)"

lemma decode_elems_length: "decode_elems s z vs old = Some es \<Longrightarrow> length es = length vs"
  by (induction vs arbitrary: old es) (auto split: option.splits)

lemma unmarshal_valid: "unmarshal f raw = Some r \<Longrightarrow> json_valid raw"
  by (auto simp: unmarshal_def json_valid_def split: option.splits if_splits)

text \<open>Fields that are structs, pointers and slices of strings, and a \<open>json.RawMessage\<close>, which takes any
  value (its bytes are not kept).\<close>

definition set_nested :: "'e field_setter \<Rightarrow> ('r \<Rightarrow> 'e) \<Rightarrow> ('e \<Rightarrow> 'r \<Rightarrow> 'r) \<Rightarrow> 'r field_setter" where
  "set_nested setter get upd v r = map_option (\<lambda>e. upd e r) (setter v (get r))"

definition set_pointer ::
  "'e field_setter \<Rightarrow> 'e \<Rightarrow> ('r \<Rightarrow> 'e option) \<Rightarrow> ('e option \<Rightarrow> 'r \<Rightarrow> 'r) \<Rightarrow> 'r field_setter" where
  "set_pointer setter zero get upd v r =
     (case v of
        JNull \<Rightarrow> Some (upd None r)
      | _ \<Rightarrow> map_option (\<lambda>e. upd (Some e) r) (setter v (case get r of None \<Rightarrow> zero | Some e \<Rightarrow> e)))"

definition set_strings :: "('r \<Rightarrow> string list) \<Rightarrow> (string list \<Rightarrow> 'r \<Rightarrow> 'r) \<Rightarrow> 'r field_setter" where
  "set_strings get upd = set_slice plain_string [] get upd"

definition plain_int :: "int field_setter" where
  "plain_int = set_int (\<lambda>x _. x)"

definition raw_message :: "'r field_setter" where
  "raw_message v r = Some r"

end
