(* ===== verification/Sql_Admit.thy ===== *)
theory Sql_Admit
  imports Sql_Analyze GoDecode
begin

text \<open>
  \<open>Admit\<close> of \<open>internal/sqladmit/admit.go\<close>: the lexical gate in front of the analysis of
  \<open>Sql_Analyze\<close>; and \<open>internal/rewrite/rewrite.go\<close>: the admission of a proposed rewrite of a
  statement.
\<close>

section \<open>The gate\<close>

record Result =
  ad_Accepted :: bool
  ad_EvidenceLevel :: string
  ad_ReasonCode :: string
  ad_Signals :: "string list"
  ad_InputSHA256 :: string

definition reject :: "string \<Rightarrow> Result" where
  "reject code = \<lparr>ad_Accepted = False, ad_EvidenceLevel = ''L0'', ad_ReasonCode = code, ad_Signals = [],
     ad_InputSHA256 = []\<rparr>"

fun scan_code :: "scan_error \<Rightarrow> string" where
  "scan_code ErrUnterminatedLiteralOrComment = ''unterminated_literal_or_comment''"
| "scan_code ErrExecutableComment = ''executable_comment_not_supported''"

fun analyze_code :: "analyze_error \<Rightarrow> string" where
  "analyze_code SqlLimitExceeded = ''sql_limit_exceeded''"
| "analyze_code InvalidSqlSyntax = ''invalid_sql_syntax''"
| "analyze_code NotReadonlySelect = ''not_readonly_select''"
| "analyze_code LockingRead = ''locking_read''"
| "analyze_code SelectIntoNotSupported = ''select_into_not_supported''"
| "analyze_code OptimizerHintNotSupported = ''optimizer_hint_not_supported''"
| "analyze_code RecursiveCteNotSupported = ''recursive_cte_not_supported''"
| "analyze_code CrossSchemaNotSupported = ''cross_schema_not_supported''"
| "analyze_code SessionVariableNotSupported = ''session_variable_not_supported''"
| "analyze_code UnsafeOrUnknownFunction = ''unsafe_or_unknown_function''"
| "analyze_code SqlComplexityExceeded = ''sql_complexity_exceeded''"

definition forbidden :: "(string \<times> string) list" where
  "forbidden =
     [(''locking_read'', '' FOR UPDATE ''), (''locking_read'', '' LOCK IN SHARE MODE ''),
      (''write_or_ddl_statement'', '' INSERT ''), (''write_or_ddl_statement'', '' UPDATE ''),
      (''write_or_ddl_statement'', '' DELETE ''), (''write_or_ddl_statement'', '' CREATE ''),
      (''write_or_ddl_statement'', '' ALTER ''), (''write_or_ddl_statement'', '' DROP ''),
      (''select_into_file'', '' INTO OUTFILE ''), (''select_into_file'', '' INTO DUMPFILE '')]"

text \<open>A list of tokens with one space before, between and after.\<close>

definition spaced :: "string list \<Rightarrow> string" where
  "spaced ts = '' '' @ Join ts '' '' @ '' ''"

definition code_tokens :: "string list \<Rightarrow> string list" where
  "code_tokens ts = filter (\<lambda>t. \<not> HasPrefix t [quote_char]) ts"

definition Admit :: "unicode_tables \<Rightarrow> sql_parser \<Rightarrow> string \<Rightarrow> Result" where
  "Admit U P sql =
     (case scan U sql of
        Inl e \<Rightarrow> reject (scan_code e)
      | Inr (tokens, semis, tokenAfterSemicolon) \<Rightarrow>
          if tokens = [] then reject ''empty_sql''
          else if semis > 1 \<or> tokenAfterSemicolon then reject ''multiple_statements''
          else if hd tokens \<noteq> ''SELECT'' \<and> hd tokens \<noteq> ''WITH'' then reject ''not_readonly_select''
          else (case find (\<lambda>(code, phrase). Contains (spaced (code_tokens tokens)) phrase) forbidden of
              Some (code, phrase) \<Rightarrow> reject code
            | None \<Rightarrow>
                (case Inspect U P sql of
                   Inl e \<Rightarrow> reject (analyze_code e)
                 | Inr tables \<Rightarrow>
                     \<lparr>ad_Accepted = True, ad_EvidenceLevel = ''L0'', ad_ReasonCode = [],
                      ad_Signals =
                        (if hasSelectStar tokens then [''select_star''] else [])
                        @ (if Contains (spaced tokens) ('' LIKE '' @ [quote_char] @ ''%'')
                           then [''leading_wildcard_like''] else [])
                        @ (if hasFunctionOnColumn tokens then [''function_on_probable_column''] else []),
                      ad_InputSHA256 = []\<rparr>)))"

section \<open>Rewrites\<close>

record Rewrite =
  rw_Kind :: string
  rw_SQL :: string

definition rewrite_fields :: "(string \<times> Rewrite field_setter) list" where
  "rewrite_fields = [(''kind'', set_string (\<lambda>x r. r\<lparr>rw_Kind := x\<rparr>)), (''sql'', set_string (\<lambda>x r. r\<lparr>rw_SQL := x\<rparr>))]"

text \<open>\<open>Is\<close> looks at the kind alone and ignores every other key.\<close>

definition Is :: "string \<Rightarrow> bool" where
  "Is raw \<longleftrightarrow> unmarshal (\<lambda>v. decode_struct_lax [(''kind'', plain_string)] v []) raw = Some ''rewrite''"

definition Decode :: "unicode_tables \<Rightarrow> sql_parser \<Rightarrow> string \<Rightarrow> string \<Rightarrow> Rewrite option" where
  "Decode U P raw original =
     (if length raw > 65536 then None
      else case decode_strict rewrite_fields \<lparr>rw_Kind = [], rw_SQL = []\<rparr> raw of
        None \<Rightarrow> None
      | Some s \<Rightarrow>
          if rw_Kind s \<noteq> ''rewrite'' \<or> rw_SQL s = [] \<or> length (rw_SQL s) > 65536 then None
          else (case Analyze U P original of
              Inl e \<Rightarrow> None
            | Inr a \<Rightarrow>
                if an_Tables a = [] then None
                else (case Analyze U P (rw_SQL s) of
                    Inl e \<Rightarrow> None
                  | Inr b \<Rightarrow>
                      if an_Tables a \<noteq> an_Tables b \<or> an_Ordered a \<noteq> an_Ordered b then None
                      else if an_UnorderedLimit a \<or> an_UnorderedLimit b then None
                      else Some s)))"

section \<open>Words and phrases\<close>

text \<open>A run of consecutive tokens occurs, with its spaces, in the spaced text.\<close>

lemma spaced_Cons: "spaced (t # ts) = '' '' @ t @ (if ts = [] then '' '' else spaced ts)"
  by (cases ts) (simp_all add: spaced_def)

lemma spaced_append:
  "\<exists>l r. spaced (xs @ ws @ ys) = l @ spaced ws @ r" if "ws \<noteq> []"
proof (induction xs)
  case Nil
  have "\<exists>r. spaced (ws @ ys) = spaced ws @ r"
    using that
  proof (induction ws)
    case (Cons w ws)
    then show ?case by (cases ws; cases ys) (auto simp: spaced_Cons)
  qed simp
  then obtain r where "spaced ([] @ ws @ ys) = [] @ spaced ws @ r" by auto
  then show ?case by blast
next
  case (Cons x xs)
  then obtain l r where "spaced (xs @ ws @ ys) = l @ spaced ws @ r" by blast
  then have "spaced ((x # xs) @ ws @ ys) = ('' '' @ x @ l) @ spaced ws @ r"
    using that by (simp add: spaced_Cons)
  then show ?case by blast
qed

lemma Contains_spaced: "ws \<noteq> [] \<Longrightarrow> Contains (spaced (xs @ ws @ ys)) (spaced ws)"
  using spaced_append [of ws xs ys] by (simp add: Contains_iff)

definition has_run :: "string list \<Rightarrow> string list \<Rightarrow> bool" where
  "has_run ws ts \<longleftrightarrow> (\<exists>xs ys. ts = xs @ ws @ ys)"

lemma Contains_run: "has_run ws ts \<Longrightarrow> ws \<noteq> [] \<Longrightarrow> Contains (spaced ts) (spaced ws)"
  by (auto simp: has_run_def Contains_spaced)

text \<open>The forbidden runs, as tokens.\<close>

definition forbidden_runs :: "string list list" where
  "forbidden_runs =
     [[''FOR'', ''UPDATE''], [''LOCK'', ''IN'', ''SHARE'', ''MODE''], [''INSERT''], [''UPDATE''], [''DELETE''],
      [''CREATE''], [''ALTER''], [''DROP''], [''INTO'', ''OUTFILE''], [''INTO'', ''DUMPFILE'']]"

lemma forbidden_runs_eq: "map snd forbidden = map spaced forbidden_runs"
  by (simp add: forbidden_def forbidden_runs_def spaced_def)

lemma Admit_acceptedD:
  assumes "ad_Accepted (Admit U P sql)"
  obtains tokens semis tables where "scan U sql = Inr (tokens, semis, False)" "semis \<le> 1" "tokens \<noteq> []"
    "hd tokens = ''SELECT'' \<or> hd tokens = ''WITH''" "Inspect U P sql = Inr tables"
    "\<forall>ws \<in> set forbidden_runs. \<not> Contains (spaced (code_tokens tokens)) (spaced ws)"
proof -
  obtain tokens semis aft where s: "scan U sql = Inr (tokens, semis, aft)"
    using assms by (cases "scan U sql") (auto simp: Admit_def reject_def)
  have f: "find (\<lambda>(code, phrase). Contains (spaced (code_tokens tokens)) phrase) forbidden = None"
    using assms s by (auto simp: Admit_def reject_def split: if_splits option.splits prod.splits)
  have "\<forall>p \<in> set (map snd forbidden). \<not> Contains (spaced (code_tokens tokens)) p"
    using f by (auto simp: find_None_iff)
  then have runs: "\<forall>ws \<in> set forbidden_runs. \<not> Contains (spaced (code_tokens tokens)) (spaced ws)"
    unfolding forbidden_runs_eq by auto
  obtain tables where t: "Inspect U P sql = Inr tables"
    using assms s f by (cases "Inspect U P sql") (auto simp: Admit_def reject_def split: if_splits)
  have "semis \<le> 1" "\<not> aft" "tokens \<noteq> []" "hd tokens = ''SELECT'' \<or> hd tokens = ''WITH''"
    using assms s by (auto simp: Admit_def reject_def split: if_splits)
  then show ?thesis using that [of tokens semis tables] s runs t by simp
qed

section \<open>What is admitted\<close>

lemma Admit_level: "ad_EvidenceLevel (Admit U P sql) = ''L0''"
  unfolding Admit_def reject_def case_prod_beta by (simp split: sum.split option.split)

lemma Admit_reason: "ad_Accepted (Admit U P sql) \<Longrightarrow> ad_ReasonCode (Admit U P sql) = []"
  unfolding Admit_def reject_def case_prod_beta
  by (simp split: sum.split_asm option.split_asm if_split_asm)

text \<open>
  C24: A statement that the gate accepts consists of one statement (at most one semicolon, and no
  token after it) that starts with SELECT or WITH; none of the forbidden words and phrases (FOR
  UPDATE, LOCK IN SHARE MODE, INSERT, UPDATE, DELETE, CREATE, ALTER, DROP, INTO OUTFILE, INTO
  DUMPFILE) occurs among its tokens outside string literals, however comments, quotes and white
  space are placed between them; and it parses to a single tree all of whose nodes are free of
  side effects.  The result is evidence of level L0 without a reason code.
\<close>

theorem admit_accepts_only_plain_reads:
  assumes "ad_Accepted (Admit U P sql)"
  shows "\<exists>tokens semis k ns. scan U sql = Inr (tokens, semis, False) \<and> semis \<le> 1
    \<and> tokens \<noteq> [] \<and> hd tokens \<in> {''SELECT'', ''WITH''}
    \<and> (\<forall>ws \<in> set forbidden_runs. \<not> has_run ws (code_tokens tokens))
    \<and> P (TrimPrefix sql bom) = Some [Node k ns] \<and> (\<forall>j \<in> set (kinds (Node k ns)). safe_kind U j)
    \<and> ad_EvidenceLevel (Admit U P sql) = ''L0'' \<and> ad_ReasonCode (Admit U P sql) = []"
proof -
  obtain tokens semis tables where s: "scan U sql = Inr (tokens, semis, False)" "semis \<le> 1" "tokens \<noteq> []"
      "hd tokens = ''SELECT'' \<or> hd tokens = ''WITH''" and i: "Inspect U P sql = Inr tables"
    and runs: "\<forall>ws \<in> set forbidden_runs. \<not> Contains (spaced (code_tokens tokens)) (spaced ws)"
    by (rule Admit_acceptedD [OF assms])
  obtain a where "Analyze U P sql = Inr a" using i by (auto simp: Inspect_def split: sum.splits)
  then obtain k ns v where k: "P (TrimPrefix sql bom) = Some [Node k ns]" "traversed U (kinds (Node k ns)) new_visitor v"
    by (rule Analyze_inversion)
  have no_run: "\<not> has_run ws (code_tokens tokens)" if "ws \<in> set forbidden_runs" for ws
  proof -
    have "ws \<noteq> []" using that by (auto simp: forbidden_runs_def)
    then show ?thesis using runs that Contains_run [of ws "code_tokens tokens"] by blast
  qed
  note lvl = Admit_level [of U P sql] Admit_reason [OF assms]
  have safe: "\<forall>j \<in> set (kinds (Node k ns)). safe_kind U j" using k(2) unfolding traversed_def by blast
  have first: "hd tokens \<in> {''SELECT'', ''WITH''}" using s(4) by blast
  show ?thesis using s(1-3) first no_run k(1) safe lvl by blast
qed

definition plain_read :: string where
  "plain_read = ''SELECT /* DROP */ id FROM t WHERE a = '' @ [quote_char] @ ''DROP'' @ [quote_char] @ '' ;''"

definition plain_tree :: node where
  "plain_tree = Node (SelectStmt False False False False 0) [Node (TableName [] ''t'') []]"

lemmas byte_class = is_word_byte_def is_letter_l1_def is_space_l1_def is_digit_byte_def ord_def

lemma plain_words:
  "ToUpper ascii_tables ''SELECT'' = ''SELECT''" "ToUpper ascii_tables ''id'' = ''ID''"
  "ToUpper ascii_tables ''FROM'' = ''FROM''" "ToUpper ascii_tables ''t'' = ''T''"
  "ToUpper ascii_tables ''WHERE'' = ''WHERE''" "ToUpper ascii_tables ''a'' = ''A''"
  "ToLower ascii_tables ''t'' = ''t''"
  by code_simp+

lemma plain_read_scan:
  "scan ascii_tables plain_read =
     Inr ([''SELECT'', ''ID'', ''FROM'', ''T'', ''WHERE'', ''A'', [quote_char] @ ''DROP'' @ [quote_char]], 1, False)"
  by (simp add: scan_def plain_read_def scan_init_def bom_def TrimPrefix_def HasPrefix_def scan_step_def peek_def
      quote_chars byte_class Let_def flush_def appendToken_def plain_words)

lemma plain_read_analysis:
  "Analyze ascii_tables (\<lambda>_. Some [plain_tree]) plain_read =
     Inr \<lparr>an_Tables = [''t''], an_Ordered = False, an_UnorderedLimit = False\<rparr>"
  by (simp add: Analyze_def plain_read_def plain_tree_def Enter_def Leave_def new_visitor_def push_def fail_def
      add_table_def visible_def Let_def plain_words)

lemma plain_read_admitted: "ad_Accepted (Admit ascii_tables (\<lambda>_. Some [plain_tree]) plain_read)"
  by (simp add: Admit_def Inspect_def plain_read_scan plain_read_analysis code_tokens_def spaced_def HasPrefix_def
      quote_char_def forbidden_def)

theorem admit_accepts_only_plain_reads_witness:
  "\<exists>tokens. scan ascii_tables plain_read = Inr (tokens, 1, False) \<and> \<not> has_run [''DROP''] (code_tokens tokens)"
  using admit_accepts_only_plain_reads [OF plain_read_admitted] plain_read_scan
  by (auto simp: forbidden_runs_def)

text \<open>
  A rewrite proposal that is admitted is a JSON object of at most 64 KiB with the kind
  \<open>rewrite\<close> and a non-empty statement of at most 64 KiB.  Original and rewrite both pass the
  analysis, read the same non-empty set of tables, agree on whether their result is ordered, and
  neither contains a limit without an order anywhere in its tree.
\<close>

theorem rewrite_keeps_tables_and_order:
  assumes "Decode U P raw original = Some s"
  shows "rw_Kind s = ''rewrite'' \<and> rw_SQL s \<noteq> [] \<and> length (rw_SQL s) \<le> 65536 \<and> length raw \<le> 65536
    \<and> (\<exists>a b. Analyze U P original = Inr a \<and> Analyze U P (rw_SQL s) = Inr b
          \<and> an_Tables a \<noteq> [] \<and> an_Tables b = an_Tables a \<and> an_Ordered b = an_Ordered a
          \<and> (\<forall>q \<in> {original, rw_SQL s}. \<exists>k ns. P (TrimPrefix q bom) = Some [Node k ns]
                \<and> (\<forall>j \<in> set (kinds (Node k ns)). safe_kind U j \<and> \<not> unordered_kind j)))"
proof -
  obtain a b where ab: "Analyze U P original = Inr a" "Analyze U P (rw_SQL s) = Inr b"
      "an_Tables a \<noteq> []" "an_Tables b = an_Tables a" "an_Ordered b = an_Ordered a"
      "\<not> an_UnorderedLimit a" "\<not> an_UnorderedLimit b"
    and s: "rw_Kind s = ''rewrite''" "rw_SQL s \<noteq> []" "length (rw_SQL s) \<le> 65536" "length raw \<le> 65536"
    using assms by (auto simp: Decode_def split: if_splits option.splits sum.splits)
  have tree: "\<exists>k ns. P (TrimPrefix q bom) = Some [Node k ns]
      \<and> (\<forall>j \<in> set (kinds (Node k ns)). safe_kind U j \<and> \<not> unordered_kind j)"
    if an: "Analyze U P q = Inr x" and lim: "\<not> an_UnorderedLimit x" for q x
  proof -
    obtain k ns v where "P (TrimPrefix q bom) = Some [Node k ns]" "traversed U (kinds (Node k ns)) new_visitor v"
        "an_UnorderedLimit x = v_unorderedLimit v"
      by (rule Analyze_inversion [OF an])
    then show ?thesis using lim unfolding traversed_def by blast
  qed
  show ?thesis using s ab tree [OF ab(1) ab(6)] tree [OF ab(2) ab(7)] by blast
qed

definition rewrite_doc :: string where
  "rewrite_doc = enc_object [(''kind'', enc_string ''rewrite''), (''sql'', enc_string plain_read)]"

definition rewrite_original :: string where
  "rewrite_original = ''SELECT id FROM t''"

lemma rewrite_doc_decoded:
  "decode_strict rewrite_fields \<lparr>rw_Kind = [], rw_SQL = []\<rparr> rewrite_doc =
     Some \<lparr>rw_Kind = ''rewrite'', rw_SQL = plain_read\<rparr>"
proof -
  have asc: "is_ascii ''kind''" "is_ascii ''sql''" "is_ascii ''rewrite''" "is_ascii plain_read"
    by (simp_all only: is_ascii_def plain_read_def) (simp_all add: ord_def quote_char_def)
  have "json_decode (rewrite_doc @ []) = Some (JObj [(''kind'', JStr ''rewrite''), (''sql'', JStr plain_read)], [])"
    unfolding rewrite_doc_def
    by (rule json_decode_enc_object)
      (simp_all add: encodes_string [OF asc(3)] encodes_string [OF asc(4)] ord_def)
  then show ?thesis
    by (simp add: decode_strict_def decode_struct_def rewrite_fields_def find_field_def set_string_def
        json_at_eof_def skip_ws_def)
qed

lemma rewrite_original_analysis:
  "Analyze ascii_tables (\<lambda>_. Some [plain_tree]) rewrite_original =
     Inr \<lparr>an_Tables = [''t''], an_Ordered = False, an_UnorderedLimit = False\<rparr>"
  by (simp add: Analyze_def rewrite_original_def plain_tree_def Enter_def Leave_def new_visitor_def push_def fail_def
      add_table_def visible_def Let_def plain_words)

lemma length_esc_byte: "length (esc_byte c) \<le> 6"
  by (simp add: esc_byte_def)

lemma length_enc_string: "is_ascii s \<Longrightarrow> length (enc_string s) \<le> 6 * length s + 2"
proof -
  have "length (concat (map esc_byte s)) \<le> 6 * length s"
    using length_esc_byte by (induction s) (auto intro: add_mono)
  then show "is_ascii s \<Longrightarrow> ?thesis" by (simp add: enc_string_def esc_string_ascii)
qed

lemma rewrite_doc_length: "length rewrite_doc \<le> 65536"
proof -
  have "is_ascii plain_read" "is_ascii ''rewrite''" "is_ascii ''kind''" "is_ascii ''sql''"
    by (simp_all add: is_ascii_def ord_def plain_read_def quote_char_def)
  moreover have "length plain_read = 46" by (simp add: plain_read_def)
  ultimately show ?thesis
    using length_enc_string [of plain_read] length_enc_string [of "''rewrite''"] length_enc_string [of "''kind''"]
      length_enc_string [of "''sql''"]
    by (simp add: rewrite_doc_def enc_object_def enc_member_def)
qed

lemma rewrite_doc_admitted:
  "Decode ascii_tables (\<lambda>_. Some [plain_tree]) rewrite_doc rewrite_original =
     Some \<lparr>rw_Kind = ''rewrite'', rw_SQL = plain_read\<rparr>"
proof -
  have "length plain_read \<le> 65536" "plain_read \<noteq> []" by (simp_all add: plain_read_def)
  then show ?thesis
    by (simp add: Decode_def rewrite_doc_decoded rewrite_original_analysis plain_read_analysis not_less [THEN iffD2, OF rewrite_doc_length])
qed

theorem rewrite_keeps_tables_and_order_witness:
  "\<exists>a b. Analyze ascii_tables (\<lambda>_. Some [plain_tree]) rewrite_original = Inr a
    \<and> Analyze ascii_tables (\<lambda>_. Some [plain_tree]) plain_read = Inr b \<and> an_Tables b = an_Tables a"
  using rewrite_keeps_tables_and_order [OF rewrite_doc_admitted] by auto

end
