(* ===== verification/Candidate_Spec.thy ===== *)
theory Candidate_Spec
  imports GoDecode
begin

text \<open>
  \<open>internal/candidate/spec.go\<close>: the constrained description of a candidate index, its strict
  decoding, its validation and its compilation to the only DDL statement the system ever runs
  against a shadow database.
\<close>

section \<open>Identifiers\<close>

text \<open>The regular expression \<open>^[A-Za-z_][A-Za-z0-9_]{0,63}$\<close>; \<open>$\<close> is the end of the text.\<close>

definition ident_start :: "char \<Rightarrow> bool" where
  "ident_start c \<longleftrightarrow> is_upper_byte c \<or> is_lower_byte c \<or> c = CHR ''_''"

definition ident_byte :: "char \<Rightarrow> bool" where
  "ident_byte c \<longleftrightarrow> ident_start c \<or> is_digit_byte c"

definition is_identifier :: "string \<Rightarrow> bool" where
  "is_identifier s \<longleftrightarrow>
     (case s of [] \<Rightarrow> False | c # t \<Rightarrow> ident_start c \<and> list_all ident_byte t \<and> length t \<le> 63)"

definition backquote :: char where
  "backquote = CHR 0x60"

definition quoteIdentifier :: "string \<Rightarrow> string" where
  "quoteIdentifier s = [backquote] @ s @ [backquote]"

section \<open>The specification\<close>

record Column =
  col_Name :: string
  col_Direction :: string

record Spec =
  sp_Table :: string
  sp_IndexName :: string
  sp_Columns :: "Column list"

definition requiredIndexPrefix :: string where
  "requiredIndexPrefix = ''idx_cand_''"

definition zero_column :: Column where
  "zero_column = \<lparr>col_Name = [], col_Direction = []\<rparr>"

definition zero_spec :: Spec where
  "zero_spec = \<lparr>sp_Table = [], sp_IndexName = [], sp_Columns = []\<rparr>"

definition column_fields :: "(string \<times> Column field_setter) list" where
  "column_fields =
     [(''name'', set_string (\<lambda>x c. c\<lparr>col_Name := x\<rparr>)), (''direction'', set_string (\<lambda>x c. c\<lparr>col_Direction := x\<rparr>))]"

definition spec_fields :: "(string \<times> Spec field_setter) list" where
  "spec_fields =
     [(''table'', set_string (\<lambda>x s. s\<lparr>sp_Table := x\<rparr>)), (''index_name'', set_string (\<lambda>x s. s\<lparr>sp_IndexName := x\<rparr>)),
      (''columns'', set_slice (decode_struct column_fields) zero_column sp_Columns (\<lambda>x s. s\<lparr>sp_Columns := x\<rparr>))]"

datatype spec_error =
    DecodeFailed | TrailingJSONValue | TrailingGarbage
  | UnsafeIdentifier string | IndexPrefixMissing | ColumnCountOutOfRange
  | DuplicateColumn nat string | BadDirection nat

definition DecodeStrict :: "string \<Rightarrow> spec_error + Spec" where
  "DecodeStrict raw =
     (case json_decode raw of
        None \<Rightarrow> Inl DecodeFailed
      | Some (v, rest) \<Rightarrow>
          (case decode_struct spec_fields v zero_spec of
             None \<Rightarrow> Inl DecodeFailed
           | Some spec \<Rightarrow>
               if json_at_eof rest then Inr spec
               else if json_decode rest \<noteq> None then Inl TrailingJSONValue
               else Inl TrailingGarbage))"

section \<open>Validation\<close>

definition validateIdentifier :: "string \<Rightarrow> string \<Rightarrow> spec_error option" where
  "validateIdentifier field value = (if is_identifier value then None else Some (UnsafeIdentifier field))"

definition column_field :: "nat \<Rightarrow> string" where
  "column_field i = ''columns['' @ nat_dec i @ ''].name''"

text \<open>The loop over the columns; \<open>seen\<close> holds the lower-cased names.\<close>

fun validate_columns :: "unicode_tables \<Rightarrow> nat \<Rightarrow> string list \<Rightarrow> Column list \<Rightarrow> spec_error option" where
  "validate_columns U i seen [] = None"
| "validate_columns U i seen (col # cols) =
     (case validateIdentifier (column_field i) (col_Name col) of
        Some e \<Rightarrow> Some e
      | None \<Rightarrow>
          if ToLower U (col_Name col) \<in> set seen then Some (DuplicateColumn i (col_Name col))
          else
            let direction = ToUpper U (col_Direction col)
            in if direction \<noteq> [] \<and> direction \<noteq> ''ASC'' \<and> direction \<noteq> ''DESC'' then Some (BadDirection i)
               else validate_columns U (i + 1) (ToLower U (col_Name col) # seen) cols)"

definition ValidateSpec :: "unicode_tables \<Rightarrow> Spec \<Rightarrow> spec_error option" where
  "ValidateSpec U spec =
     (case validateIdentifier ''table'' (sp_Table spec) of
        Some e \<Rightarrow> Some e
      | None \<Rightarrow>
          (case validateIdentifier ''index_name'' (sp_IndexName spec) of
             Some e \<Rightarrow> Some e
           | None \<Rightarrow>
               if \<not> HasPrefix (sp_IndexName spec) requiredIndexPrefix then Some IndexPrefixMissing
               else if length (sp_Columns spec) < 1 \<or> length (sp_Columns spec) > 4 then Some ColumnCountOutOfRange
               else validate_columns U 0 [] (sp_Columns spec)))"

section \<open>Compilation\<close>

definition column_direction :: "unicode_tables \<Rightarrow> Column \<Rightarrow> string" where
  "column_direction U col = (let d = ToUpper U (col_Direction col) in if d = [] then ''ASC'' else d)"

definition CompileCreateIndex :: "unicode_tables \<Rightarrow> Spec \<Rightarrow> spec_error + string" where
  "CompileCreateIndex U spec =
     (case ValidateSpec U spec of
        Some e \<Rightarrow> Inl e
      | None \<Rightarrow>
          Inr (''CREATE INDEX '' @ quoteIdentifier (sp_IndexName spec) @ '' ON '' @ quoteIdentifier (sp_Table spec) @ '' (''
               @ Join (map (\<lambda>c. quoteIdentifier (col_Name c) @ '' '' @ column_direction U c) (sp_Columns spec)) '', '' @ '')''))"

section \<open>What validation establishes\<close>

lemma is_identifier_bytes: "is_identifier s \<Longrightarrow> list_all ident_byte s"
  by (auto simp: is_identifier_def ident_byte_def split: list.splits)

lemma ident_byte_not_backquote: "ident_byte c \<Longrightarrow> c \<noteq> backquote"
  by (auto simp: ident_byte_def ident_start_def backquote_def is_upper_byte_def is_lower_byte_def is_digit_byte_def ord_def)

lemma ident_byte_ascii: "ident_byte c \<Longrightarrow> ord c < 128"
  by (auto simp: ident_byte_def ident_start_def is_upper_byte_def is_lower_byte_def is_digit_byte_def ord_def)

lemma is_identifier_ascii: "is_identifier s \<Longrightarrow> is_ascii s"
  using is_identifier_bytes [of s] ident_byte_ascii by (auto simp: is_ascii_def list_all_iff)

lemma is_identifier_no_backquote: "is_identifier s \<Longrightarrow> backquote \<notin> set s"
  using is_identifier_bytes [of s] ident_byte_not_backquote by (auto simp: list_all_iff)

lemma is_identifier_length: "is_identifier s \<Longrightarrow> 0 < length s \<and> length s \<le> 64"
  by (auto simp: is_identifier_def split: list.splits)

definition column_ok :: "unicode_tables \<Rightarrow> Column \<Rightarrow> bool" where
  "column_ok U c \<longleftrightarrow> is_identifier (col_Name c) \<and> column_direction U c \<in> {''ASC'', ''DESC''}"

lemma validate_columns_None:
  "validate_columns U i seen cols = None \<longleftrightarrow>
     (\<forall>c \<in> set cols. column_ok U c) \<and> distinct (map (\<lambda>c. ToLower U (col_Name c)) cols)
     \<and> (\<lambda>c. ToLower U (col_Name c)) ` set cols \<inter> set seen = {}"
proof (induction cols arbitrary: i seen)
  case (Cons c cols)
  have "validate_columns U i seen (c # cols) = None \<longleftrightarrow>
      column_ok U c \<and> ToLower U (col_Name c) \<notin> set seen
      \<and> validate_columns U (i + 1) (ToLower U (col_Name c) # seen) cols = None"
    by (auto simp: validateIdentifier_def column_ok_def column_direction_def Let_def)
  then show ?case by (auto simp: Cons)
qed simp

lemma ValidateSpec_None:
  "ValidateSpec U spec = None \<longleftrightarrow>
     is_identifier (sp_Table spec) \<and> is_identifier (sp_IndexName spec)
     \<and> HasPrefix (sp_IndexName spec) requiredIndexPrefix
     \<and> 1 \<le> length (sp_Columns spec) \<and> length (sp_Columns spec) \<le> 4
     \<and> (\<forall>c \<in> set (sp_Columns spec). column_ok U c)
     \<and> distinct (map (\<lambda>c. ToLower U (col_Name c)) (sp_Columns spec))"
  by (auto simp: ValidateSpec_def validateIdentifier_def validate_columns_None Suc_le_eq)

text \<open>The statement cut at its backquotes: identifiers and the text between them alternate.\<close>

lemma Split1_unbroken: "c \<notin> set w \<Longrightarrow> Split1 c (w @ c # s) = w # Split1 c s"
  by (induction w) auto

lemma Split1_single: "c \<notin> set w \<Longrightarrow> Split1 c w = [w]"
  by (induction w) auto

fun column_pieces :: "unicode_tables \<Rightarrow> Column list \<Rightarrow> string list" where
  "column_pieces U [] = []"
| "column_pieces U [c] = [col_Name c, '' '' @ column_direction U c @ '')'']"
| "column_pieces U (c # d # cs) = [col_Name c, '' '' @ column_direction U c @ '', ''] @ column_pieces U (d # cs)"

lemma direction_no_backquote: "column_ok U c \<Longrightarrow> backquote \<notin> set (column_direction U c)"
  by (auto simp: column_ok_def backquote_def)

lemma column_pieces_unbroken:
  assumes "column_ok U c"
  shows "backquote \<notin> set (col_Name c)" "backquote \<notin> set ('' '' @ column_direction U c @ '')'')"
    "backquote \<notin> set ('' '' @ column_direction U c @ '', '')"
proof -
  show "backquote \<notin> set (col_Name c)" using assms by (simp add: column_ok_def is_identifier_no_backquote)
  show "backquote \<notin> set ('' '' @ column_direction U c @ '')'')" "backquote \<notin> set ('' '' @ column_direction U c @ '', '')"
    using direction_no_backquote [OF assms] by (simp_all add: backquote_def)
qed

lemma Split1_columns:
  assumes "\<forall>c \<in> set cols. column_ok U c" "cols \<noteq> []"
  shows "Split1 backquote (Join (map (\<lambda>c. quoteIdentifier (col_Name c) @ '' '' @ column_direction U c) cols) '', '' @ '')'')
    = [] # column_pieces U cols"
  using assms
proof (induction U cols rule: column_pieces.induct)
  case (2 U c)
  then have "column_ok U c" by simp
  then have b: "backquote \<notin> set (col_Name c)" "backquote \<notin> set ('' '' @ column_direction U c @ '')'')"
    by (rule column_pieces_unbroken)+
  have "Split1 backquote (backquote # col_Name c @ backquote # ('' '' @ column_direction U c @ '')''))
      = [[], col_Name c, '' '' @ column_direction U c @ '')'']"
    by (simp only: Split1.simps(2) Split1_unbroken [OF b(1)] Split1_single [OF b(2)] refl if_True)
  then show ?case by (simp add: quoteIdentifier_def)
next
  case (3 U c d cs)
  let ?rest = "Join (map (\<lambda>c. quoteIdentifier (col_Name c) @ '' '' @ column_direction U c) (d # cs)) '', '' @ '')''"
  have ok: "column_ok U c" using 3 by simp
  then have b: "backquote \<notin> set (col_Name c)" "backquote \<notin> set ('' '' @ column_direction U c @ '', '')"
    by (rule column_pieces_unbroken)+
  obtain r where r: "?rest = backquote # r" by (cases cs) (auto simp: quoteIdentifier_def)
  have "Split1 backquote ?rest = [] # column_pieces U (d # cs)" using 3 by simp
  then have "Split1 backquote r = column_pieces U (d # cs)" unfolding r by simp
  moreover have "Join (map (\<lambda>c. quoteIdentifier (col_Name c) @ '' '' @ column_direction U c) (c # d # cs)) '', '' @ '')''
      = backquote # col_Name c @ backquote # ('' '' @ column_direction U c @ '', '') @ backquote # r"
    using r by (simp add: quoteIdentifier_def)
  ultimately show ?case
    using Split1_unbroken [OF b(1), of "('' '' @ column_direction U c @ '', '') @ backquote # r"]
      Split1_unbroken [OF b(2), of r] by simp
qed simp

section \<open>The compiled statement\<close>

lemma CompileCreateIndex_pieces:
  assumes "CompileCreateIndex U spec = Inr ddl"
  shows "Split1 backquote ddl =
      [''CREATE INDEX '', sp_IndexName spec, '' ON '', sp_Table spec, '' (''] @ column_pieces U (sp_Columns spec)"
    and "ValidateSpec U spec = None"
proof -
  have v: "ValidateSpec U spec = None" using assms by (auto simp: CompileCreateIndex_def split: option.splits)
  note ok = v [unfolded ValidateSpec_None column_ok_def requiredIndexPrefix_def]
  let ?cols = "Join (map (\<lambda>c. quoteIdentifier (col_Name c) @ '' '' @ column_direction U c) (sp_Columns spec)) '', '' @ '')''"
  have ddl: "ddl = ''CREATE INDEX '' @ backquote # sp_IndexName spec @ backquote # '' ON '' @ backquote #
      sp_Table spec @ backquote # '' ('' @ ?cols"
    using assms v by (simp add: CompileCreateIndex_def quoteIdentifier_def)
  have cols: "Split1 backquote ?cols = [] # column_pieces U (sp_Columns spec)"
    using v by (intro Split1_columns) (auto simp: ValidateSpec_None)
  obtain r where r: "?cols = backquote # r"
    using ok by (cases "sp_Columns spec"; cases "tl (sp_Columns spec)") (auto simp: quoteIdentifier_def)
  have pieces: "Split1 backquote r = column_pieces U (sp_Columns spec)" using cols unfolding r by simp
  have nb: "backquote \<notin> set (sp_IndexName spec)" "backquote \<notin> set (sp_Table spec)"
    using ok by (simp_all add: is_identifier_no_backquote)
  have fixed: "backquote \<notin> set ''CREATE INDEX ''" "backquote \<notin> set '' ON ''" "backquote \<notin> set '' (''"
    by (simp_all add: backquote_def)
  have "Split1 backquote ddl =
      ''CREATE INDEX '' # sp_IndexName spec # '' ON '' # sp_Table spec # '' ('' # Split1 backquote r"
    unfolding ddl r
    by (simp only: Split1_unbroken [OF fixed(1)] Split1_unbroken [OF fixed(2)] Split1_unbroken [OF fixed(3)]
        Split1_unbroken [OF nb(1)] Split1_unbroken [OF nb(2)])
  then show "Split1 backquote ddl =
      [''CREATE INDEX '', sp_IndexName spec, '' ON '', sp_Table spec, '' (''] @ column_pieces U (sp_Columns spec)"
    using pieces by simp
  show "ValidateSpec U spec = None" by (rule v)
qed

lemma column_pieces_inj:
  assumes "column_pieces U cs = column_pieces U ds"
    and "\<forall>c \<in> set cs \<union> set ds. column_direction U c \<in> {''ASC'', ''DESC''}"
  shows "map (\<lambda>c. (col_Name c, column_direction U c)) cs = map (\<lambda>c. (col_Name c, column_direction U c)) ds"
  using assms
proof (induction U cs arbitrary: ds rule: column_pieces.induct)
  case (1 U)
  then show ?case by (cases ds rule: remdups_adj.cases) auto
next
  case (2 U c)
  then show ?case by (cases ds rule: remdups_adj.cases) auto
next
  case (3 U c d cs)
  then obtain e f es where ds: "ds = e # f # es"
    by (cases ds rule: remdups_adj.cases) auto
  have "column_pieces U (d # cs) = column_pieces U (f # es)" using "3.prems"(1) by (simp add: ds)
  moreover have "\<forall>c \<in> set (d # cs) \<union> set (f # es). column_direction U c \<in> {''ASC'', ''DESC''}"
    using "3.prems"(2) unfolding ds by auto
  ultimately have "map (\<lambda>c. (col_Name c, column_direction U c)) (d # cs) = map (\<lambda>c. (col_Name c, column_direction U c)) (f # es)"
    by (rule "3.IH")
  then show ?case using "3.prems" by (simp add: ds)
qed

text \<open>
  C30: A specification compiles exactly when it is valid, and then to a statement which, cut at its
  backquotes, is the fixed text of CREATE INDEX with the index name, the table name and each column
  name as complete pieces of their own, each a plain identifier, and only ASC or DESC, commas and
  the closing parenthesis between the columns.  So no name can end its quotation or add SQL, the
  index name carries the reserved prefix, and the column names are distinct whatever their case.
\<close>

theorem compiled_ddl_is_one_create_index:
  assumes "CompileCreateIndex U spec = Inr ddl"
  shows "Split1 backquote ddl =
      [''CREATE INDEX '', sp_IndexName spec, '' ON '', sp_Table spec, '' (''] @ column_pieces U (sp_Columns spec)
    \<and> is_identifier (sp_Table spec) \<and> is_identifier (sp_IndexName spec)
    \<and> HasPrefix (sp_IndexName spec) ''idx_cand_''
    \<and> 1 \<le> length (sp_Columns spec) \<and> length (sp_Columns spec) \<le> 4
    \<and> (\<forall>c \<in> set (sp_Columns spec). is_identifier (col_Name c) \<and> column_direction U c \<in> {''ASC'', ''DESC''})
    \<and> distinct (map (\<lambda>c. ToLower U (col_Name c)) (sp_Columns spec))"
  using CompileCreateIndex_pieces [OF assms] unfolding ValidateSpec_None column_ok_def requiredIndexPrefix_def
  by blast

definition sample_spec :: Spec where
  "sample_spec = \<lparr>sp_Table = ''orders'', sp_IndexName = ''idx_cand_a'',
     sp_Columns = [\<lparr>col_Name = ''user_id'', col_Direction = []\<rparr>, \<lparr>col_Name = ''total'', col_Direction = ''desc''\<rparr>]\<rparr>"

lemma sample_spec_ddl:
  "CompileCreateIndex ascii_tables sample_spec =
     Inr (''CREATE INDEX '' @ quoteIdentifier ''idx_cand_a'' @ '' ON '' @ quoteIdentifier ''orders'' @ '' ('' @
       quoteIdentifier ''user_id'' @ '' ASC, '' @ quoteIdentifier ''total'' @ '' DESC)'')"
  by code_simp

theorem compiled_ddl_is_one_create_index_witness:
  "column_direction ascii_tables \<lparr>col_Name = ''total'', col_Direction = ''desc''\<rparr> \<in> {''ASC'', ''DESC''}
    \<and> is_identifier (sp_Table sample_spec)"
  using compiled_ddl_is_one_create_index [OF sample_spec_ddl] by (auto simp: sample_spec_def)

text \<open>
  The compiled statement determines the specification up to the spelling of the directions:
  two valid specifications with the same statement have the same table, the same index name and
  the same columns, in order, with the same effective direction.
\<close>

theorem compiled_ddl_is_unambiguous:
  assumes "CompileCreateIndex U a = Inr ddl" "CompileCreateIndex U b = Inr ddl"
  shows "sp_Table a = sp_Table b \<and> sp_IndexName a = sp_IndexName b
    \<and> map (\<lambda>c. (col_Name c, column_direction U c)) (sp_Columns a)
      = map (\<lambda>c. (col_Name c, column_direction U c)) (sp_Columns b)"
proof -
  note pa = CompileCreateIndex_pieces [OF assms(1)] and pb = CompileCreateIndex_pieces [OF assms(2)]
  have "column_pieces U (sp_Columns a) = column_pieces U (sp_Columns b)" "sp_Table a = sp_Table b"
    "sp_IndexName a = sp_IndexName b"
    using pa(1) pb(1) by simp_all
  moreover have "\<forall>c \<in> set (sp_Columns a) \<union> set (sp_Columns b). column_direction U c \<in> {''ASC'', ''DESC''}"
    using pa(2) pb(2) unfolding ValidateSpec_None column_ok_def by blast
  ultimately show ?thesis using column_pieces_inj by blast
qed

theorem compiled_ddl_is_unambiguous_witness:
  "\<exists>ddl. CompileCreateIndex ascii_tables sample_spec = Inr ddl \<and> sp_Table sample_spec = sp_Table sample_spec"
  using compiled_ddl_is_unambiguous [OF sample_spec_ddl sample_spec_ddl] sample_spec_ddl by blast

end
