(* ===== verification/Framing.thy ===== *)
theory Framing
  imports GoStrings
begin

text \<open>
  Length-prefixed framing of byte strings, as the digests of the source use it, and what makes a
  byte stream of frames and tags readable in only one way: every item is self-delimiting, and the
  items of a list begin with bytes that cannot begin what follows the list.
\<close>

section \<open>Frames\<close>

text \<open>\<open>binary.BigEndian.PutUint64\<close> of a length.\<close>

definition be64 :: "nat \<Rightarrow> string" where
  "be64 n = map (\<lambda>i. chr (n div 256 ^ (7 - i) mod 256)) [0..<8]"

text \<open>A nullable value: the byte 0 for NULL, otherwise 1, the length in eight bytes and the value.\<close>

definition frame :: "string option \<Rightarrow> string" where
  "frame v = (case v of None \<Rightarrow> [CHR 0x00] | Some raw \<Rightarrow> CHR 0x01 # be64 (length raw) @ raw)"

definition fits :: "string option \<Rightarrow> bool" where
  "fits v \<longleftrightarrow> (case v of None \<Rightarrow> True | Some raw \<Rightarrow> length raw < 2 ^ 63)"

lemma length_be64 [simp]: "length (be64 n) = 8"
  by (simp add: be64_def)

lemma chr_inj: "m < 256 \<Longrightarrow> n < 256 \<Longrightarrow> chr m = chr n \<longleftrightarrow> m = n"
  using ord_chr by metis

lemma base256_inj:
  "m < 256 ^ k \<Longrightarrow> n < 256 ^ k \<Longrightarrow> (\<And>i. i < k \<Longrightarrow> m div 256 ^ i mod 256 = n div 256 ^ i mod 256) \<Longrightarrow> m = (n :: nat)"
proof (induction k arbitrary: m n)
  case (Suc k)
  have "m div 256 < 256 ^ k" "n div 256 < 256 ^ k"
    using Suc.prems(1,2) by (auto simp: less_mult_imp_div_less mult.commute)
  moreover have "m div 256 div 256 ^ i mod 256 = n div 256 div 256 ^ i mod 256" if "i < k" for i
    using Suc.prems(3) [of "Suc i"] that by (simp add: div_mult2_eq)
  ultimately have "m div 256 = n div 256" by (rule Suc.IH)
  moreover have "m mod 256 = n mod 256" using Suc.prems(3) [of 0] by simp
  ultimately show ?case by (metis div_mult_mod_eq)
qed simp

lemma be64_inj: "m < 2 ^ 64 \<Longrightarrow> n < 2 ^ 64 \<Longrightarrow> be64 m = be64 n \<Longrightarrow> m = n"
proof -
  assume mn: "m < 2 ^ 64" "n < 2 ^ 64" and eq: "be64 m = be64 n"
  have "m div 256 ^ i mod 256 = n div 256 ^ i mod 256" if "i < 8" for i
  proof -
    have "be64 m ! (7 - i) = be64 n ! (7 - i)" using eq by simp
    moreover have "[0..<8] ! (7 - i) = 7 - i" using that by (subst nth_upt) auto
    ultimately show ?thesis using that by (simp add: be64_def chr_inj)
  qed
  moreover have "(2 :: nat) ^ 64 = 256 ^ 8" by simp
  ultimately show "m = n" using mn base256_inj [of m 8 n] by simp
qed

section \<open>Self-delimiting items\<close>

definition delimited :: "('a \<Rightarrow> string) \<Rightarrow> 'a set \<Rightarrow> bool" where
  "delimited e A \<longleftrightarrow> (\<forall>x \<in> A. \<forall>y \<in> A. \<forall>r s. e x @ r = e y @ s \<longrightarrow> x = y \<and> r = s)"

lemma delimitedD: "delimited e A \<Longrightarrow> x \<in> A \<Longrightarrow> y \<in> A \<Longrightarrow> e x @ r = e y @ s \<Longrightarrow> x = y \<and> r = s"
  unfolding delimited_def by blast

lemma delimitedI:
  "(\<And>x y r s. x \<in> A \<Longrightarrow> y \<in> A \<Longrightarrow> e x @ r = e y @ s \<Longrightarrow> x = y \<and> r = s) \<Longrightarrow> delimited e A"
  unfolding delimited_def by blast

lemma frame_delimited: "delimited frame {v. fits v}"
proof (rule delimitedI)
  fix v w r s
  assume fit: "v \<in> {v. fits v}" "w \<in> {v. fits v}" and eq: "frame v @ r = frame w @ s"
  show "v = w \<and> r = s"
  proof (cases v)
    case None
    then show ?thesis using eq by (cases w) (auto simp: frame_def)
  next
    case (Some a)
    then obtain b where w: "w = Some b" using eq by (cases w) (auto simp: frame_def)
    have rest: "be64 (length a) @ a @ r = be64 (length b) @ b @ s" using eq Some w by (simp add: frame_def)
    then have "be64 (length a) = be64 (length b)" by (rule append_eq_append_conv [THEN iffD1, THEN conjunct1, rotated]) simp
    then have "length a = length b" using fit Some w by (intro be64_inj) (auto simp: fits_def)
    then show ?thesis using rest Some w by simp
  qed
qed

text \<open>A tag in front, and one item after another.\<close>

lemma delimited_tag: "delimited e A \<Longrightarrow> delimited (\<lambda>x. tag @ e x) A"
  unfolding delimited_def append_assoc same_append_eq by assumption

lemma delimited_pair:
  assumes "delimited e A" "delimited f B"
  shows "delimited (\<lambda>(x, y). e x @ f y) (A \<times> B)"
proof (rule delimitedI, clarify)
  fix x1 y1 x2 y2 r s
  assume m: "x1 \<in> A" "y1 \<in> B" "x2 \<in> A" "y2 \<in> B" and eq: "(e x1 @ f y1) @ r = (e x2 @ f y2) @ s"
  have "x1 = x2 \<and> f y1 @ r = f y2 @ s" using assms(1) m(1,3) by (rule delimitedD) (use eq in simp)
  then show "(x1, y1) = (x2, y2) \<and> r = s" using delimitedD [OF assms(2) m(2,4)] by blast
qed

text \<open>Lists of a known length.\<close>

lemma delimited_fixed:
  assumes "delimited e A"
  shows "delimited (\<lambda>xs. concat (map e xs)) {xs. set xs \<subseteq> A \<and> length xs = n}"
proof (rule delimitedI)
  fix xs ys r s
  assume "xs \<in> {xs. set xs \<subseteq> A \<and> length xs = n}" "ys \<in> {xs. set xs \<subseteq> A \<and> length xs = n}"
    and "concat (map e xs) @ r = concat (map e ys) @ s"
  then show "xs = ys \<and> r = s"
  proof (induction xs arbitrary: ys n)
    case (Cons x xs)
    then obtain y ys' where ys: "ys = y # ys'" by (cases ys) auto
    have "x = y \<and> concat (map e xs) @ r = concat (map e ys') @ s"
      using Cons.prems ys by (intro delimitedD [OF assms]) auto
    moreover have "xs = ys' \<and> r = s"
      using Cons.prems ys calculation by (intro Cons.IH [of "n - 1"]) auto
    ultimately show ?case using ys by simp
  qed simp
qed

text \<open>Lists of any length, before something that cannot be the beginning of another item.\<close>

definition ends_list :: "char set \<Rightarrow> string \<Rightarrow> bool" where
  "ends_list C r \<longleftrightarrow> (case r of [] \<Rightarrow> True | c # _ \<Rightarrow> c \<notin> C)"

definition starts_in :: "('a \<Rightarrow> string) \<Rightarrow> 'a set \<Rightarrow> char set \<Rightarrow> bool" where
  "starts_in e A C \<longleftrightarrow> (\<forall>x \<in> A. \<exists>c t. e x = c # t \<and> c \<in> C)"

lemma delimited_list:
  assumes "delimited e A" "starts_in e A C" "set xs \<subseteq> A" "set ys \<subseteq> A" "ends_list C r" "ends_list C s"
    and "concat (map e xs) @ r = concat (map e ys) @ s"
  shows "xs = ys \<and> r = s"
  using assms(3,4,7)
proof (induction xs arbitrary: ys)
  case Nil
  show ?case
  proof (cases ys)
    case (Cons y ys')
    then obtain c t where "e y = c # t" "c \<in> C" using Nil.prems assms(2) by (auto simp: starts_in_def)
    then show ?thesis using Nil.prems Cons assms(5) by (auto simp: ends_list_def)
  qed (use Nil in simp)
next
  case (Cons x xs)
  show ?case
  proof (cases ys)
    case Nil
    obtain c t where "e x = c # t" "c \<in> C" using Cons.prems assms(2) by (auto simp: starts_in_def)
    then show ?thesis using Cons.prems Nil assms(6) by (auto simp: ends_list_def)
  next
    case ys: (Cons y ys')
    have "x = y \<and> concat (map e xs) @ r = concat (map e ys') @ s"
      using Cons.prems ys by (intro delimitedD [OF assms(1)]) auto
    moreover have "xs = ys' \<and> r = s" using Cons.prems ys calculation by (intro Cons.IH) auto
    ultimately show ?thesis using ys by simp
  qed
qed

text \<open>A list closed by an end tag is one self-delimiting item.\<close>

lemma delimited_closed_list:
  assumes "delimited e A" "starts_in e A C" "tag = c # t" "c \<notin> C"
  shows "delimited (\<lambda>xs. concat (map e xs) @ tag) {xs. set xs \<subseteq> A}"
proof (rule delimitedI)
  fix xs ys r s
  assume m: "xs \<in> {xs. set xs \<subseteq> A}" "ys \<in> {xs. set xs \<subseteq> A}"
    and eq: "(concat (map e xs) @ tag) @ r = (concat (map e ys) @ tag) @ s"
  have "ends_list C (tag @ r)" "ends_list C (tag @ s)" using assms(3,4) by (simp_all add: ends_list_def)
  then have "xs = ys \<and> tag @ r = tag @ s"
    by (rule delimited_list [OF assms(1,2), rotated 2]) (use m eq in simp_all)
  then show "xs = ys \<and> r = s" by simp
qed

end
