(* ===== verification/Shadow_Data.thy ===== *)
theory Shadow_Data
  imports Candidate_Spec Framing
begin

text \<open>
  \<open>internal/shadowdata\<close>: the digest of the allowed tables of a shadow database
  (\<open>snapshot.go\<close>) and the bounded description of its schema (\<open>schema.go\<close>).  A database is the
  parameter \<open>D\<close>, a record of its answers to the queries of the source in a state \<open>'s\<close>; a driver
  error can come from a query, from reading a row or from the end of the rows.  \<open>H\<close> is the
  hexadecimal SHA-256; \<open>h.Write\<close> appends to the stream whose digest is taken at the end.
\<close>

section \<open>Answers of a database\<close>

datatype rows_end = RowsDone | ScanError | RowsError

record 'v row_set =
  rs_rows :: "'v list"
  rs_end :: rows_end

text \<open>\<open>None\<close>: the query itself failed.\<close>

type_synonym 'v answer = "'v row_set option"

type_synonym nullable_row = "string option list"

record 's ShadowDB =
  db_version :: "'s \<Rightarrow> string option"
  db_table_type :: "'s \<Rightarrow> string \<Rightarrow> string option"
  db_columns :: "'s \<Rightarrow> string \<Rightarrow> nullable_row answer"
  db_primary :: "'s \<Rightarrow> string \<Rightarrow> string answer"
  db_indexes :: "'s \<Rightarrow> string \<Rightarrow> nullable_row answer"
  db_select :: "'s \<Rightarrow> string \<Rightarrow> nullable_row answer"
  db_schema_columns :: "'s \<Rightarrow> string \<Rightarrow> (string \<times> string \<times> string) answer"
  db_schema_indexes :: "'s \<Rightarrow> string \<Rightarrow> (string \<times> string \<times> int \<times> int) answer"
  db_estimated_rows :: "'s \<Rightarrow> string \<Rightarrow> int option"
  db_table_count :: "'s \<Rightarrow> string \<Rightarrow> int option"
  db_column_count :: "'s \<Rightarrow> string \<Rightarrow> string \<Rightarrow> int option"
  db_index :: "'s \<Rightarrow> string \<Rightarrow> string \<Rightarrow> (string \<times> string option) answer"
  db_explain :: "'s \<Rightarrow> string \<Rightarrow> string option"
  db_exec :: "string \<Rightarrow> 's \<Rightarrow> bool \<times> 's"

datatype shadow_error =
    ShadowTableLimit | UnsafeIdentifierError | ShadowBaseTableRequired | DriverError
  | ShadowPrimaryKeyRequired | ShadowSnapshotLimit
  | SchemaTableLimit | SchemaColumnLimit | SchemaIndexLimit

text \<open>The \<open>for rows.Next()\<close> idiom: each row is scanned and handled, then \<open>rows.Err\<close> is looked at.\<close>

fun each_row :: "('v \<Rightarrow> 'a \<Rightarrow> shadow_error + 'a) \<Rightarrow> 'v list \<Rightarrow> rows_end \<Rightarrow> 'a \<Rightarrow> shadow_error + 'a" where
  "each_row f [] e acc = (if e = RowsDone then Inr acc else Inl DriverError)"
| "each_row f (v # vs) e acc = (case f v acc of Inl err \<Rightarrow> Inl err | Inr acc' \<Rightarrow> each_row f vs e acc')"

definition query_rows :: "('v \<Rightarrow> 'a \<Rightarrow> shadow_error + 'a) \<Rightarrow> 'v answer \<Rightarrow> 'a \<Rightarrow> shadow_error + 'a" where
  "query_rows f q acc = (case q of None \<Rightarrow> Inl DriverError | Some rs \<Rightarrow> each_row f (rs_rows rs) (rs_end rs) acc)"

section \<open>The digest\<close>

definition Quote :: "string \<Rightarrow> shadow_error + string" where
  "Quote name = (if is_identifier name then Inr (quoteIdentifier name) else Inl UnsafeIdentifierError)"

record Snapshot =
  sn_Digest :: string
  sn_Rows :: int

text \<open>The hash stream with the row and byte counters.\<close>

record SnapState =
  ss_stream :: string
  ss_count :: int
  ss_bytes :: int

definition hash_write :: "string \<Rightarrow> SnapState \<Rightarrow> SnapState" where
  "hash_write b s = s\<lparr>ss_stream := ss_stream s @ b\<rparr>"

definition tag :: "string \<Rightarrow> string" where
  "tag name = name @ [CHR 0x00]"

definition frames :: "nullable_row \<Rightarrow> string" where
  "frames vs = concat (map frame vs)"

definition column_row :: "nullable_row \<Rightarrow> SnapState \<Rightarrow> shadow_error + SnapState" where
  "column_row vals s = Inr (hash_write (frames vals) (hash_write (tag ''column'') s))"

definition key_row :: "string \<Rightarrow> string list \<Rightarrow> shadow_error + string list" where
  "key_row col order = (case Quote col of Inl e \<Rightarrow> Inl e | Inr q \<Rightarrow> Inr (order @ [q]))"

definition index_row :: "nullable_row \<Rightarrow> SnapState \<Rightarrow> shadow_error + SnapState" where
  "index_row vals s = Inr (hash_write (frames vals) (hash_write (tag ''index'') s))"

definition value_bytes :: "nullable_row \<Rightarrow> int" where
  "value_bytes vals = int (sum_list (map (\<lambda>v. case v of None \<Rightarrow> 0 | Some b \<Rightarrow> length b) vals))"

definition data_row :: "nullable_row \<Rightarrow> SnapState \<Rightarrow> shadow_error + SnapState" where
  "data_row vals s =
     (let s1 = hash_write (frames vals) (hash_write (tag ''row'') (s\<lparr>ss_count := ss_count s + 1\<rparr>));
          s2 = s1\<lparr>ss_bytes := ss_bytes s1 + value_bytes vals\<rparr>
      in if ss_count s2 > 2000000 \<or> ss_bytes s2 > 268435456 then Inl ShadowSnapshotLimit else Inr s2)"

definition select_all :: "string \<Rightarrow> string list \<Rightarrow> string" where
  "select_all quoted order = ''SELECT * FROM '' @ quoted @ '' ORDER BY '' @ Join order '','' @ '' LIMIT 2000001''"

text \<open>One table: the body of the outer loop of \<open>Compute\<close>.\<close>

definition snap_table :: "'s ShadowDB \<Rightarrow> 's \<Rightarrow> string \<Rightarrow> SnapState \<Rightarrow> shadow_error + SnapState" where
  "snap_table D st table s =
     result_bind (Quote table) (\<lambda>quoted.
       if db_table_type D st table \<noteq> Some ''BASE TABLE'' then Inl ShadowBaseTableRequired
       else
         result_bind (query_rows column_row (db_columns D st table)
                        (hash_write (frame (Some table)) (hash_write (tag ''table'') s))) (\<lambda>s1.
         result_bind (query_rows key_row (db_primary D st table) []) (\<lambda>order.
           if order = [] then Inl ShadowPrimaryKeyRequired
           else
             result_bind (query_rows index_row (db_indexes D st table)
                            (hash_write (frames (map Some order)) (hash_write (tag ''primarykey'') s1))) (\<lambda>s2.
             result_bind (query_rows data_row (db_select D st (select_all quoted order)) s2) (\<lambda>s3.
             Inr (hash_write (tag ''endtable'') s3))))))"

fun snap_tables :: "'s ShadowDB \<Rightarrow> 's \<Rightarrow> string list \<Rightarrow> SnapState \<Rightarrow> shadow_error + SnapState" where
  "snap_tables D st [] s = Inr s"
| "snap_tables D st (t # ts) s = result_bind (snap_table D st t s) (snap_tables D st ts)"

definition Compute :: "(string \<Rightarrow> string) \<Rightarrow> 's ShadowDB \<Rightarrow> 's \<Rightarrow> string list \<Rightarrow> shadow_error + Snapshot" where
  "Compute H D st tables =
     (if length tables = 0 \<or> length tables > 16 then Inl ShadowTableLimit
      else result_bind (snap_tables D st tables \<lparr>ss_stream = [], ss_count = 0, ss_bytes = 0\<rparr>)
             (\<lambda>s. Inr \<lparr>sn_Digest = H (ss_stream s), sn_Rows = ss_count s\<rparr>))"

section \<open>The schema description\<close>

record SchemaColumn =
  sc_Name :: string
  sc_Type :: string
  sc_Nullable :: string

record SchemaIndex =
  ix_Name :: string
  ix_Column :: string
  ix_Sequence :: int
  ix_Unique :: bool

record SchemaTable =
  tb_Name :: string
  tb_Columns :: "SchemaColumn list"
  tb_Indexes :: "SchemaIndex list"
  tb_EstimatedRows :: int

definition schema_column_row :: "string \<times> string \<times> string \<Rightarrow> SchemaColumn list \<Rightarrow> shadow_error + SchemaColumn list" where
  "schema_column_row r cs =
     (case r of (name, ty, nullable) \<Rightarrow> Inr (cs @ [\<lparr>sc_Name = name, sc_Type = ty, sc_Nullable = nullable\<rparr>]))"

definition schema_index_row :: "string \<times> string \<times> int \<times> int \<Rightarrow> SchemaIndex list \<Rightarrow> shadow_error + SchemaIndex list" where
  "schema_index_row r xs =
     (case r of (name, column, pos, nonUnique) \<Rightarrow>
        Inr (xs @ [\<lparr>ix_Name = name, ix_Column = column, ix_Sequence = pos, ix_Unique = (nonUnique = 0)\<rparr>]))"

definition describe_table :: "'s ShadowDB \<Rightarrow> 's \<Rightarrow> string \<Rightarrow> shadow_error + SchemaTable" where
  "describe_table D st name =
     result_bind (Quote name) (\<lambda>_.
     result_bind (query_rows schema_column_row (db_schema_columns D st name) []) (\<lambda>cs.
       if length cs = 0 \<or> length cs > 128 then Inl SchemaColumnLimit
       else
         result_bind (query_rows schema_index_row (db_schema_indexes D st name) []) (\<lambda>xs.
           if length xs > 128 then Inl SchemaIndexLimit
           else (case db_estimated_rows D st name of
               None \<Rightarrow> Inl DriverError
             | Some n \<Rightarrow> Inr \<lparr>tb_Name = name, tb_Columns = cs, tb_Indexes = xs, tb_EstimatedRows = n\<rparr>))))"

fun describe_tables :: "'s ShadowDB \<Rightarrow> 's \<Rightarrow> string list \<Rightarrow> SchemaTable list \<Rightarrow> shadow_error + SchemaTable list" where
  "describe_tables D st [] out = Inr out"
| "describe_tables D st (n # ns) out = result_bind (describe_table D st n) (\<lambda>t. describe_tables D st ns (out @ [t]))"

definition Describe :: "'s ShadowDB \<Rightarrow> 's \<Rightarrow> string list \<Rightarrow> shadow_error + SchemaTable list" where
  "Describe D st tables = (if length tables > 16 then Inl SchemaTableLimit else describe_tables D st tables [])"

section \<open>What a digest is taken of\<close>

record TableContent =
  tc_name :: string
  tc_columns :: "nullable_row list"
  tc_keys :: "string list"
  tc_indexes :: "nullable_row list"
  tc_rows :: "nullable_row list"

definition answered :: "'v answer \<Rightarrow> 'v list option" where
  "answered q = (case q of Some rs \<Rightarrow> if rs_end rs = RowsDone then Some (rs_rows rs) else None | None \<Rightarrow> None)"

text \<open>The content of an allowed table, when every query about it is answered.\<close>

definition table_content :: "'s ShadowDB \<Rightarrow> 's \<Rightarrow> string \<Rightarrow> TableContent option" where
  "table_content D st table =
     (case (answered (db_columns D st table), answered (db_primary D st table), answered (db_indexes D st table)) of
        (Some cols, Some keys, Some ixs) \<Rightarrow>
          map_option
            (\<lambda>rows. \<lparr>tc_name = table, tc_columns = cols, tc_keys = map quoteIdentifier keys, tc_indexes = ixs, tc_rows = rows\<rparr>)
            (answered (db_select D st (select_all (quoteIdentifier table) (map quoteIdentifier keys))))
      | _ \<Rightarrow> None)"

definition column_stream :: "nullable_row \<Rightarrow> string" where
  "column_stream vals = tag ''column'' @ frames vals"

definition index_stream :: "nullable_row \<Rightarrow> string" where
  "index_stream vals = tag ''index'' @ frames vals"

definition row_stream :: "nullable_row \<Rightarrow> string" where
  "row_stream vals = tag ''row'' @ frames vals"

definition table_stream :: "TableContent \<Rightarrow> string" where
  "table_stream c =
     tag ''table'' @ frame (Some (tc_name c)) @ concat (map column_stream (tc_columns c)) @ tag ''primarykey''
     @ frames (map Some (tc_keys c)) @ concat (map index_stream (tc_indexes c)) @ concat (map row_stream (tc_rows c))
     @ tag ''endtable''"

lemma each_row_stream:
  assumes "\<And>v a a'. f v a = Inr a' \<Longrightarrow> stream a' = stream a @ e v"
    and "each_row f vs rend acc = Inr acc'"
  shows "rend = RowsDone \<and> stream acc' = stream acc @ concat (map e vs)"
  using assms(2)
proof (induction vs arbitrary: acc)
  case (Cons v vs)
  then obtain acc1 where "f v acc = Inr acc1" "each_row f vs rend acc1 = Inr acc'" by (auto split: sum.splits)
  with Cons.IH assms(1) show ?case by simp
qed (simp split: if_splits)

lemma query_rows_stream:
  assumes "query_rows f q acc = Inr acc'" "\<And>v a a'. f v a = Inr a' \<Longrightarrow> stream a' = stream a @ e v"
  obtains vs where "answered q = Some vs" "stream acc' = stream acc @ concat (map e vs)"
proof -
  obtain rs where q: "q = Some rs" "each_row f (rs_rows rs) (rs_end rs) acc = Inr acc'"
    using assms(1) by (auto simp: query_rows_def split: option.splits)
  have "rs_end rs = RowsDone \<and> stream acc' = stream acc @ concat (map e (rs_rows rs))"
    using each_row_stream [OF assms(2) q(2)] .
  with q(1) that show ?thesis by (simp add: answered_def)
qed

lemma write_stream [simp]: "ss_stream (hash_write b s) = ss_stream s @ b" "ss_count (hash_write b s) = ss_count s"
  by (simp_all add: hash_write_def)

lemma key_row_Inr: "key_row v acc = Inr a \<longleftrightarrow> is_identifier v \<and> a = acc @ [quoteIdentifier v]"
  by (auto simp: key_row_def Quote_def)

lemma each_row_keys:
  assumes "each_row key_row vs rend acc = Inr acc'"
  shows "rend = RowsDone \<and> acc' = acc @ map quoteIdentifier vs \<and> list_all is_identifier vs"
  using assms
proof (induction vs arbitrary: acc)
  case (Cons v vs)
  then have "is_identifier v" "each_row key_row vs rend (acc @ [quoteIdentifier v]) = Inr acc'"
    by (auto simp: key_row_Inr split: sum.splits)
  with Cons.IH [of "acc @ [quoteIdentifier v]"] show ?case by simp
qed (simp split: if_splits)

lemma query_rows_keys:
  assumes "query_rows key_row q [] = Inr order"
  obtains vs where "answered q = Some vs" "order = map quoteIdentifier vs"
  using assms each_row_keys [where acc = "[]"]
  by (fastforce simp: query_rows_def answered_def split: option.splits)

lemma each_row_count:
  assumes "each_row data_row vs rend s = Inr s'"
  shows "ss_count s' = ss_count s + int (length vs)"
  using assms
proof (induction vs arbitrary: s)
  case (Cons v vs)
  then obtain s1 where "data_row v s = Inr s1" "each_row data_row vs rend s1 = Inr s'" by (auto split: sum.splits)
  moreover from this(1) have "ss_count s1 = ss_count s + 1" by (auto simp: data_row_def Let_def split: if_splits)
  ultimately show ?case using Cons.IH [of s1] by simp
qed (simp split: if_splits)

lemma count_rows [simp]:
  "each_row column_row vs rend s = Inr s1 \<Longrightarrow> ss_count s1 = ss_count s"
  "each_row index_row vs rend s = Inr s1 \<Longrightarrow> ss_count s1 = ss_count s"
  by (induction vs arbitrary: s) (auto simp: column_row_def index_row_def split: if_splits)

lemma snap_tableE:
  assumes "snap_table D st table s = Inr s'"
  obtains s1 order s2 s3 where "is_identifier table"
    "query_rows column_row (db_columns D st table) (hash_write (frame (Some table)) (hash_write (tag ''table'') s)) = Inr s1"
    "query_rows key_row (db_primary D st table) [] = Inr order" "order \<noteq> []"
    "query_rows index_row (db_indexes D st table)
       (hash_write (frames (map Some order)) (hash_write (tag ''primarykey'') s1)) = Inr s2"
    "query_rows data_row (db_select D st (select_all (quoteIdentifier table) order)) s2 = Inr s3"
    "s' = hash_write (tag ''endtable'') s3"
  using assms by (auto simp: snap_table_def Quote_def result_bind_Inr_iff split: if_splits)

text \<open>A table that is digested adds its stream and its number of rows.\<close>

lemma snap_table_content:
  assumes "snap_table D st table s = Inr s'"
  obtains c where "table_content D st table = Some c" "ss_stream s' = ss_stream s @ table_stream c"
    "ss_count s' = ss_count s + int (length (tc_rows c))" "is_identifier table" "tc_keys c \<noteq> []"
proof -
  let ?s0 = "hash_write (frame (Some table)) (hash_write (tag ''table'') s)"
  obtain s1 order s2 s3 where id: "is_identifier table"
    and cols: "query_rows column_row (db_columns D st table) ?s0 = Inr s1"
    and keys: "query_rows key_row (db_primary D st table) [] = Inr order" and ne: "order \<noteq> []"
    and ixs: "query_rows index_row (db_indexes D st table)
       (hash_write (frames (map Some order)) (hash_write (tag ''primarykey'') s1)) = Inr s2"
    and rows: "query_rows data_row (db_select D st (select_all (quoteIdentifier table) order)) s2 = Inr s3"
    and s': "s' = hash_write (tag ''endtable'') s3"
    using assms by (rule snap_tableE)
  obtain cs where c: "answered (db_columns D st table) = Some cs"
    "ss_stream s1 = ss_stream ?s0 @ concat (map column_stream cs)"
    by (rule query_rows_stream [where stream = ss_stream and e = column_stream, OF cols]) (auto simp: column_row_def column_stream_def)
  obtain ks where k: "answered (db_primary D st table) = Some ks" "order = map quoteIdentifier ks"
    using keys by (rule query_rows_keys)
  obtain xs where i: "answered (db_indexes D st table) = Some xs"
    "ss_stream s2 = ss_stream (hash_write (frames (map Some order)) (hash_write (tag ''primarykey'') s1)) @ concat (map index_stream xs)"
    by (rule query_rows_stream [where stream = ss_stream and e = index_stream, OF ixs]) (auto simp: index_row_def index_stream_def)
  obtain rs where r: "answered (db_select D st (select_all (quoteIdentifier table) order)) = Some rs"
    "ss_stream s3 = ss_stream s2 @ concat (map row_stream rs)"
    by (rule query_rows_stream [where stream = ss_stream and e = row_stream, OF rows]) (auto simp: data_row_def row_stream_def Let_def split: if_splits)
  have n: "ss_count s3 = ss_count s2 + int (length rs)"
    using rows r(1) each_row_count by (auto simp: query_rows_def answered_def split: option.splits if_splits)
  have "ss_count s1 = ss_count s" "ss_count s2 = ss_count s1"
    using cols ixs by (auto simp: query_rows_def split: option.splits)
  then have n': "ss_count s' = ss_count s + int (length rs)" using n s' by simp
  let ?c = "\<lparr>tc_name = table, tc_columns = cs, tc_keys = order, tc_indexes = xs, tc_rows = rs\<rparr>"
  have "table_content D st table = Some ?c" using c(1) k i(1) r(1) by (simp add: table_content_def)
  moreover have "ss_stream s' = ss_stream s @ table_stream ?c"
    using s' r(2) i(2) c(2) by (simp add: table_stream_def)
  ultimately show ?thesis using n' id ne by (intro that [of ?c]) simp_all
qed

definition contents :: "'s ShadowDB \<Rightarrow> 's \<Rightarrow> string list \<Rightarrow> TableContent option list" where
  "contents D st tables = map (table_content D st) tables"

lemma snap_tables_content:
  assumes "snap_tables D st tables s = Inr s'"
  shows "\<exists>cs. contents D st tables = map Some cs \<and> ss_stream s' = ss_stream s @ concat (map table_stream cs)
    \<and> ss_count s' = ss_count s + int (sum_list (map (\<lambda>c. length (tc_rows c)) cs))"
  using assms
proof (induction tables arbitrary: s)
  case (Cons t ts)
  then obtain s1 where s1: "snap_table D st t s = Inr s1" "snap_tables D st ts s1 = Inr s'"
    by (auto simp: result_bind_Inr_iff)
  obtain c where c: "table_content D st t = Some c" "ss_stream s1 = ss_stream s @ table_stream c"
    "ss_count s1 = ss_count s + int (length (tc_rows c))"
    using s1(1) by (rule snap_table_content)
  obtain cs where cs: "contents D st ts = map Some cs" "ss_stream s' = ss_stream s1 @ concat (map table_stream cs)"
    "ss_count s' = ss_count s1 + int (sum_list (map (\<lambda>c. length (tc_rows c)) cs))"
    using Cons.IH [OF s1(2)] by blast
  show ?case by (rule exI [of _ "c # cs"]) (use c cs in \<open>simp add: contents_def\<close>)
qed (auto simp: contents_def)

section \<open>The stream can be read in only one way\<close>

definition sized_row :: "nullable_row \<Rightarrow> bool" where
  "sized_row vals \<longleftrightarrow> (\<forall>v \<in> set vals. fits v)"

text \<open>
  Lengths are below \<open>2 ^ 63\<close>, as every Go string's is; a row of \<open>information_schema.COLUMNS\<close> was
  scanned into six values, one of \<open>STATISTICS\<close> into nine.
\<close>

definition go_content :: "TableContent \<Rightarrow> bool" where
  "go_content c \<longleftrightarrow> fits (Some (tc_name c)) \<and> (\<forall>k \<in> set (tc_keys c). fits (Some k))
     \<and> (\<forall>r \<in> set (tc_columns c). sized_row r \<and> length r = 6) \<and> (\<forall>r \<in> set (tc_indexes c). sized_row r \<and> length r = 9)
     \<and> (\<forall>r \<in> set (tc_rows c). sized_row r)"

definition frame_bytes :: "char set" where
  "frame_bytes = {CHR 0x00, CHR 0x01}"

lemma frame_starts: "starts_in frame {v. fits v} frame_bytes"
  by (auto simp: starts_in_def frame_def frame_bytes_def split: option.splits)

lemma frames_fixed: "delimited frames {vs. sized_row vs \<and> length vs = n}"
proof -
  have "{vs. sized_row vs \<and> length vs = n} = {xs. set xs \<subseteq> {v. fits v} \<and> length xs = n}"
    by (auto simp: sized_row_def)
  then show ?thesis using delimited_fixed [OF frame_delimited, of n] by (simp add: frames_def [abs_def])
qed

lemma frames_delimited:
  assumes "sized_row vs" "sized_row ws" "ends_list frame_bytes r" "ends_list frame_bytes s"
    and "frames vs @ r = frames ws @ s"
  shows "vs = ws \<and> r = s"
  using assms(5) unfolding frames_def
  by (rule delimited_list [OF frame_delimited frame_starts, rotated 4])
     (use assms in \<open>auto simp: sized_row_def\<close>)

lemma column_stream_delimited: "delimited column_stream {vs. sized_row vs \<and> length vs = 6}"
  unfolding column_stream_def [abs_def] by (rule delimited_tag [OF frames_fixed])

lemma index_stream_delimited: "delimited index_stream {vs. sized_row vs \<and> length vs = 9}"
  unfolding index_stream_def [abs_def] by (rule delimited_tag [OF frames_fixed])

text \<open>What can follow the keys and the indexes of a table.\<close>

definition rows_end_stream :: "nullable_row list \<Rightarrow> string \<Rightarrow> string" where
  "rows_end_stream rs r = concat (map row_stream rs) @ tag ''endtable'' @ r"

lemma rows_end_start: "\<exists>t. rows_end_stream rs r = CHR ''r'' # t \<or> rows_end_stream rs r = CHR ''e'' # t"
  by (cases rs) (auto simp: rows_end_stream_def row_stream_def tag_def)

lemma rows_end_ends [simp]:
  "ends_list frame_bytes (rows_end_stream rs r)" "ends_list {CHR ''i''} (rows_end_stream rs r)"
  using rows_end_start [of rs r] by (auto simp: ends_list_def frame_bytes_def)

lemma rows_end_inj:
  assumes "\<forall>r \<in> set rs \<union> set ss. sized_row r" "rows_end_stream rs r = rows_end_stream ss s"
  shows "rs = ss \<and> r = s"
  using assms
proof (induction rs arbitrary: ss)
  case Nil
  then show ?case by (cases ss) (auto simp: rows_end_stream_def row_stream_def tag_def)
next
  case (Cons v vs)
  then obtain w ws where ss: "ss = w # ws"
    by (cases ss) (auto simp: rows_end_stream_def row_stream_def tag_def)
  have "frames v @ rows_end_stream vs r = frames w @ rows_end_stream ws s"
    using Cons.prems(2) ss by (simp add: rows_end_stream_def row_stream_def)
  then have "v = w \<and> rows_end_stream vs r = rows_end_stream ws s"
    using Cons.prems(1) ss by (intro frames_delimited) auto
  then show ?case using Cons.IH [of ws] Cons.prems(1) ss by auto
qed

lemma indexes_end: "ends_list frame_bytes (concat (map index_stream xs) @ rows_end_stream rs r)"
proof (cases xs)
  case (Cons a as)
  then show ?thesis by (simp add: index_stream_def tag_def ends_list_def frame_bytes_def)
qed simp

lemma table_stream_delimited: "delimited table_stream {c. go_content c}"
proof (rule delimitedI)
  fix c d r s
  assume ok: "c \<in> {c. go_content c}" "d \<in> {c. go_content c}" and eq: "table_stream c @ r = table_stream d @ s"
  let ?tail = "\<lambda>c r. concat (map index_stream (tc_indexes c)) @ rows_end_stream (tc_rows c) r"
  let ?keys = "\<lambda>c r. frames (map Some (tc_keys c)) @ ?tail c r"
  let ?cols = "\<lambda>c. concat (map column_stream (tc_columns c)) @ tag ''primarykey''"
  have e1: "frame (Some (tc_name c)) @ ?cols c @ ?keys c r = frame (Some (tc_name d)) @ ?cols d @ ?keys d s"
    using eq by (simp add: table_stream_def rows_end_stream_def)
  have n: "tc_name c = tc_name d" and e2: "?cols c @ ?keys c r = ?cols d @ ?keys d s"
    using delimitedD [OF frame_delimited, of "Some (tc_name c)" "Some (tc_name d)", OF _ _ e1] ok
    by (simp_all add: go_content_def)
  have "starts_in column_stream {vs. sized_row vs \<and> length vs = 6} {CHR ''c''}"
    by (auto simp: starts_in_def column_stream_def tag_def)
  from delimited_closed_list [OF column_stream_delimited this, of "tag ''primarykey''"]
  have dc: "delimited (\<lambda>xs. concat (map column_stream xs) @ tag ''primarykey'') {xs. set xs \<subseteq> {vs. sized_row vs \<and> length vs = 6}}"
    by (simp add: tag_def)
  have c: "tc_columns c = tc_columns d" and e3: "?keys c r = ?keys d s"
    using delimitedD [OF dc, of "tc_columns c" "tc_columns d", OF _ _ e2] ok by (auto simp: go_content_def)
  have "map Some (tc_keys c) = map Some (tc_keys d)" and e4: "?tail c r = ?tail d s"
    using frames_delimited [of "map Some (tc_keys c)" "map Some (tc_keys d)", OF _ _ indexes_end indexes_end e3] ok
    by (auto simp: go_content_def sized_row_def)
  then have k: "tc_keys c = tc_keys d" by (simp add: inj_map_eq_map)
  have si: "starts_in index_stream {vs. sized_row vs \<and> length vs = 9} {CHR ''i''}"
    by (auto simp: starts_in_def index_stream_def tag_def)
  have i: "tc_indexes c = tc_indexes d" and e5: "rows_end_stream (tc_rows c) r = rows_end_stream (tc_rows d) s"
  proof -
    have "set (tc_indexes c) \<subseteq> {vs. sized_row vs \<and> length vs = 9}" "set (tc_indexes d) \<subseteq> {vs. sized_row vs \<and> length vs = 9}"
      using ok by (auto simp: go_content_def)
    from delimited_list [OF index_stream_delimited si this rows_end_ends(2) rows_end_ends(2) e4]
    show "tc_indexes c = tc_indexes d" "rows_end_stream (tc_rows c) r = rows_end_stream (tc_rows d) s" by blast+
  qed
  have "tc_rows c = tc_rows d \<and> r = s"
    by (rule rows_end_inj [OF _ e5]) (use ok in \<open>auto simp: go_content_def\<close>)
  with n c k i show "c = d \<and> r = s" by simp
qed

lemma tables_stream_inj:
  assumes "\<forall>c \<in> set cs \<union> set ds. go_content c"
    and "concat (map table_stream cs) = concat (map table_stream ds)"
  shows "cs = ds"
proof -
  have "starts_in table_stream {c. go_content c} {CHR ''t''}"
    by (auto simp: starts_in_def table_stream_def tag_def)
  from delimited_list [OF table_stream_delimited this, of cs ds "[]" "[]"] assms
  show ?thesis by (auto simp: ends_list_def)
qed

section \<open>What equal digests mean\<close>

definition go_sized :: "'s ShadowDB \<Rightarrow> 's \<Rightarrow> string list \<Rightarrow> bool" where
  "go_sized D st tables \<longleftrightarrow> (\<forall>c. Some c \<in> set (contents D st tables) \<longrightarrow> go_content c)"

lemma Compute_content:
  assumes "Compute H D st tables = Inr snap"
  obtains cs where "contents D st tables = map Some cs" "sn_Digest snap = H (concat (map table_stream cs))"
    "sn_Rows snap = int (sum_list (map (\<lambda>c. length (tc_rows c)) cs))" "0 < length tables" "length tables \<le> 16"
proof -
  let ?s0 = "\<lparr>ss_stream = [], ss_count = 0, ss_bytes = 0\<rparr>"
  obtain s where s: "snap_tables D st tables ?s0 = Inr s" "snap = \<lparr>sn_Digest = H (ss_stream s), sn_Rows = ss_count s\<rparr>"
    and n: "0 < length tables" "length tables \<le> 16"
    using assms by (auto simp: Compute_def result_bind_Inr_iff split: if_splits)
  from snap_tables_content [OF s(1)] s(2) n that show ?thesis by auto
qed

text \<open>The text that a digest is taken of, and a hash that tells two texts apart.\<close>

definition tables_text :: "'s ShadowDB \<Rightarrow> 's \<Rightarrow> string list \<Rightarrow> string" where
  "tables_text D st tables = concat (map (\<lambda>c. case c of None \<Rightarrow> [] | Some x \<Rightarrow> table_stream x) (contents D st tables))"

definition tells_apart :: "(string \<Rightarrow> string) \<Rightarrow> string \<Rightarrow> string \<Rightarrow> bool" where
  "tells_apart H x y \<longleftrightarrow> (H x = H y \<longrightarrow> x = y)"

lemma tables_text_contents: "contents D st tables = map Some cs \<Longrightarrow> tables_text D st tables = concat (map table_stream cs)"
  by (simp add: tables_text_def comp_def)

lemma equal_digests_equal_content:
  assumes "Compute H D st tables = Inr a" "Compute H D' st' tables' = Inr b" "sn_Digest a = sn_Digest b"
    and "go_sized D st tables" "go_sized D' st' tables'" "tells_apart H (tables_text D st tables) (tables_text D' st' tables')"
  shows "contents D st tables = contents D' st' tables'"
proof -
  obtain cs where cs: "contents D st tables = map Some cs" "sn_Digest a = H (concat (map table_stream cs))"
    using assms(1) by (rule Compute_content)
  obtain ds where ds: "contents D' st' tables' = map Some ds" "sn_Digest b = H (concat (map table_stream ds))"
    using assms(2) by (rule Compute_content)
  have go: "\<forall>c \<in> set cs \<union> set ds. go_content c"
    using assms(4,5) cs(1) ds(1) by (auto simp: go_sized_def)
  have "concat (map table_stream cs) = concat (map table_stream ds)"
    using assms(3,6) cs ds by (simp add: tells_apart_def tables_text_contents)
  then show ?thesis using tables_stream_inj [OF go] cs(1) ds(1) by simp
qed

section \<open>Bounds\<close>

definition snap_bounded :: "SnapState \<Rightarrow> bool" where
  "snap_bounded s \<longleftrightarrow> ss_count s \<le> 2000000 \<and> ss_bytes s \<le> 268435456"

lemma each_row_bounded:
  assumes "\<And>v a a'. ok a \<Longrightarrow> f v a = Inr a' \<Longrightarrow> ok a'" "each_row f vs e a = Inr a'" "ok a"
  shows "ok a'"
  using assms(2,3) by (induction vs arbitrary: a) (auto split: sum.splits if_splits intro: assms(1))

lemma query_rows_bounded:
  assumes "query_rows f q a = Inr a'" "ok a" "\<And>v a a'. ok a \<Longrightarrow> f v a = Inr a' \<Longrightarrow> ok a'"
  shows "ok a'"
  using assms(1,2) each_row_bounded [of ok f, OF assms(3)] by (auto simp: query_rows_def split: option.splits)

lemma hash_write_bounded [simp]: "snap_bounded (hash_write b s) \<longleftrightarrow> snap_bounded s"
  by (simp add: snap_bounded_def hash_write_def)

lemma row_bounded:
  "snap_bounded s \<Longrightarrow> column_row v s = Inr s' \<Longrightarrow> snap_bounded s'"
  "snap_bounded s \<Longrightarrow> index_row v s = Inr s' \<Longrightarrow> snap_bounded s'"
  "data_row v s = Inr s' \<Longrightarrow> snap_bounded s'"
  by (auto simp: column_row_def index_row_def data_row_def Let_def snap_bounded_def hash_write_def split: if_splits)

lemma snap_table_bounded:
  assumes "snap_table D st t s = Inr s'" "snap_bounded s" shows "snap_bounded s'"
proof -
  obtain s1 order s2 s3 where q:
    "query_rows column_row (db_columns D st t) (hash_write (frame (Some t)) (hash_write (tag ''table'') s)) = Inr s1"
    "query_rows index_row (db_indexes D st t)
       (hash_write (frames (map Some order)) (hash_write (tag ''primarykey'') s1)) = Inr s2"
    "query_rows data_row (db_select D st (select_all (quoteIdentifier t) order)) s2 = Inr s3"
    "s' = hash_write (tag ''endtable'') s3"
    using assms(1) by (rule snap_tableE)
  have b1: "snap_bounded s1" by (rule query_rows_bounded [where ok = snap_bounded, OF q(1) _ row_bounded(1)]) (simp_all add: assms(2))
  have b2: "snap_bounded s2" by (rule query_rows_bounded [where ok = snap_bounded, OF q(2) _ row_bounded(2)]) (simp_all add: b1)
  have "snap_bounded s3" by (rule query_rows_bounded [where ok = snap_bounded, OF q(3) b2 row_bounded(3)])
  then show ?thesis using q(4) by simp
qed

lemma snap_tables_bounded: "snap_tables D st ts s = Inr s' \<Longrightarrow> snap_bounded s \<Longrightarrow> snap_bounded s'"
  by (induction ts arbitrary: s) (auto simp: result_bind_Inr_iff dest: snap_table_bounded)

lemma snap_tables_identifiers: "snap_tables D st ts s = Inr s' \<Longrightarrow> list_all is_identifier ts"
  by (induction ts arbitrary: s) (auto simp: result_bind_Inr_iff elim: snap_table_content)

lemma describe_tables_bounded:
  assumes "describe_tables D st ns out = Inr ts"
  shows "\<exists>us. ts = out @ us \<and> map tb_Name us = ns
    \<and> (\<forall>t \<in> set us. is_identifier (tb_Name t) \<and> 1 \<le> length (tb_Columns t) \<and> length (tb_Columns t) \<le> 128
          \<and> length (tb_Indexes t) \<le> 128)"
  using assms
proof (induction ns arbitrary: out)
  case (Cons n ns)
  then obtain t where t: "describe_table D st n = Inr t" "describe_tables D st ns (out @ [t]) = Inr ts"
    by (auto simp: result_bind_Inr_iff)
  have "tb_Name t = n \<and> is_identifier (tb_Name t) \<and> 1 \<le> length (tb_Columns t) \<and> length (tb_Columns t) \<le> 128
      \<and> length (tb_Indexes t) \<le> 128"
    using t(1) by (auto simp: describe_table_def Quote_def result_bind_Inr_iff Suc_le_eq split: if_splits option.splits)
  moreover obtain us where "ts = (out @ [t]) @ us" "map tb_Name us = ns"
    "\<forall>t \<in> set us. is_identifier (tb_Name t) \<and> 1 \<le> length (tb_Columns t) \<and> length (tb_Columns t) \<le> 128
          \<and> length (tb_Indexes t) \<le> 128"
    using Cons.IH [OF t(2)] by blast
  ultimately show ?case by (intro exI [of _ "t # us"]) auto
qed simp

lemma contents_names:
  assumes "contents D st tables = map Some cs" shows "map tc_name cs = tables"
proof -
  have name: "tc_name c = t" if "table_content D st t = Some c" for t c
    using that by (auto simp: table_content_def split: option.splits)
  show ?thesis
    using assms by (induction tables arbitrary: cs) (auto simp: contents_def Cons_eq_map_conv name)
qed

section \<open>Properties\<close>

text \<open>
  C29: The snapshot digest speaks for the data: when the digests computed from two databases (or from
  two states of one) agree, and SHA-256 tells the two hashed texts apart if they differ, then the two
  computations looked at the same tables with the same columns, primary keys, indexes (other than
  candidate indexes, which the query leaves out) and rows in key order, NULLs and empty strings kept
  apart, and counted the same number of rows.
\<close>

theorem equal_digests_mean_equal_tables:
  assumes "Compute H D st tables = Inr a" "Compute H D' st' tables' = Inr b" "sn_Digest a = sn_Digest b"
    and "go_sized D st tables" "go_sized D' st' tables'" "tells_apart H (tables_text D st tables) (tables_text D' st' tables')"
  shows "contents D st tables = contents D' st' tables' \<and> tables = tables' \<and> sn_Rows a = sn_Rows b"
proof -
  have same: "contents D st tables = contents D' st' tables'" using equal_digests_equal_content [OF assms] .
  obtain cs where cs: "contents D st tables = map Some cs" "sn_Rows a = int (sum_list (map (\<lambda>c. length (tc_rows c)) cs))"
    using assms(1) by (rule Compute_content)
  obtain ds where ds: "contents D' st' tables' = map Some ds" "sn_Rows b = int (sum_list (map (\<lambda>c. length (tc_rows c)) ds))"
    using assms(2) by (rule Compute_content)
  have "cs = ds" using same cs(1) ds(1) by (simp add: inj_map_eq_map)
  moreover have "map tc_name cs = tables" "map tc_name ds = tables'"
    using contents_names [OF cs(1)] contents_names [OF ds(1)] by simp_all
  ultimately show ?thesis using same cs(2) ds(2) by simp
qed

definition sample_shadow :: "unit ShadowDB" where
  "sample_shadow =
     \<lparr>db_version = (\<lambda>_. Some ''8.0.36''), db_table_type = (\<lambda>_ t. Some ''BASE TABLE''),
      db_columns = (\<lambda>_ t. Some \<lparr>rs_rows = [[Some ''id'', Some ''bigint'', Some ''NO'', None, Some [], None]], rs_end = RowsDone\<rparr>),
      db_primary = (\<lambda>_ t. Some \<lparr>rs_rows = [''id''], rs_end = RowsDone\<rparr>),
      db_indexes = (\<lambda>_ t. Some \<lparr>rs_rows = [], rs_end = RowsDone\<rparr>),
      db_select = (\<lambda>_ query. Some \<lparr>rs_rows = [[Some ''1''], [Some ''2'']], rs_end = RowsDone\<rparr>),
      db_schema_columns = (\<lambda>_ t. Some \<lparr>rs_rows = [(''id'', ''bigint'', ''NO'')], rs_end = RowsDone\<rparr>),
      db_schema_indexes = (\<lambda>_ t. Some \<lparr>rs_rows = [(''PRIMARY'', ''id'', 1, 0)], rs_end = RowsDone\<rparr>),
      db_estimated_rows = (\<lambda>_ t. Some 2), db_table_count = (\<lambda>_ t. Some 1), db_column_count = (\<lambda>_ t c. Some 1),
      db_index = (\<lambda>_ t n. Some \<lparr>rs_rows = [], rs_end = RowsDone\<rparr>), db_explain = (\<lambda>_ query. Some ''{}''),
      db_exec = (\<lambda>stmt st. (True, st))\<rparr>"

lemma sample_identifiers: "is_identifier ''t''" "is_identifier ''id''" "is_identifier ''orders''"
  by code_simp+

lemma sample_snapshot:
  "\<exists>snap. Compute (\<lambda>x. x) sample_shadow () [''t''] = Inr snap \<and> sn_Rows snap = 2"
  by (simp add: Compute_def snap_table_def sample_shadow_def Quote_def query_rows_def column_row_def key_row_def
      index_row_def data_row_def value_bytes_def hash_write_def sample_identifiers)

lemma sample_sized: "go_sized sample_shadow () [''t'']"
  by (auto simp: go_sized_def contents_def table_content_def sample_shadow_def answered_def go_content_def sized_row_def
      fits_def quoteIdentifier_def)

theorem equal_digests_mean_equal_tables_witness:
  "\<exists>a. Compute (\<lambda>x. x) sample_shadow () [''t''] = Inr a
    \<and> contents sample_shadow () [''t''] = contents sample_shadow () [''t''] \<and> sn_Rows a = 2"
proof -
  have "tells_apart (\<lambda>x. x) u u" for u by (simp add: tells_apart_def)
  then show ?thesis
    using sample_snapshot equal_digests_mean_equal_tables [OF _ _ _ sample_sized sample_sized] by blast
qed

text \<open>
  What is read from a shadow database is bounded whatever it answers: a snapshot covers 1 to 16
  tables, all of them plain identifiers, and at most 2000000 rows; a schema description covers at most
  16 tables in the order asked for, each with 1 to 128 columns and at most 128 index parts.
\<close>

theorem shadow_reads_are_bounded:
  "(case Compute H D st tables of Inl e \<Rightarrow> True
    | Inr snap \<Rightarrow> 1 \<le> length tables \<and> length tables \<le> 16 \<and> list_all is_identifier tables
        \<and> 0 \<le> sn_Rows snap \<and> sn_Rows snap \<le> 2000000)
   \<and> (case Describe D st tables of Inl e \<Rightarrow> True
    | Inr ts \<Rightarrow> length ts \<le> 16 \<and> map tb_Name ts = tables
        \<and> list_all (\<lambda>t. is_identifier (tb_Name t) \<and> 1 \<le> length (tb_Columns t) \<and> length (tb_Columns t) \<le> 128
              \<and> length (tb_Indexes t) \<le> 128) ts)"
proof
  show "case Compute H D st tables of Inl e \<Rightarrow> True
    | Inr snap \<Rightarrow> 1 \<le> length tables \<and> length tables \<le> 16 \<and> list_all is_identifier tables
        \<and> 0 \<le> sn_Rows snap \<and> sn_Rows snap \<le> 2000000"
  proof (cases "Compute H D st tables")
    case (Inr snap)
    obtain cs where "contents D st tables = map Some cs"
      and c: "sn_Rows snap = int (sum_list (map (\<lambda>c. length (tc_rows c)) cs))" "0 < length tables" "length tables \<le> 16"
      using Inr by (rule Compute_content)
    obtain s where s: "snap_tables D st tables \<lparr>ss_stream = [], ss_count = 0, ss_bytes = 0\<rparr> = Inr s"
      "sn_Rows snap = ss_count s"
      using Inr by (auto simp: Compute_def result_bind_Inr_iff split: if_splits)
    have "snap_bounded s" by (rule snap_tables_bounded [OF s(1)]) (simp add: snap_bounded_def)
    then show ?thesis using Inr c s(2) snap_tables_identifiers [OF s(1)] by (simp add: snap_bounded_def Suc_le_eq)
  qed simp
  show "case Describe D st tables of Inl e \<Rightarrow> True
    | Inr ts \<Rightarrow> length ts \<le> 16 \<and> map tb_Name ts = tables
        \<and> list_all (\<lambda>t. is_identifier (tb_Name t) \<and> 1 \<le> length (tb_Columns t) \<and> length (tb_Columns t) \<le> 128
              \<and> length (tb_Indexes t) \<le> 128) ts"
  proof (cases "Describe D st tables")
    case (Inr ts)
    then have "length tables \<le> 16" "describe_tables D st tables [] = Inr ts"
      by (auto simp: Describe_def split: if_splits)
    with describe_tables_bounded [OF this(2)] Inr show ?thesis by (auto simp: list_all_iff)
  qed simp
qed

end
