(* ===== verification/Shadow_Gate.thy ===== *)
theory Shadow_Gate
  imports Sql_Admit Shadow_Data
begin

text \<open>
  \<open>internal/shadowgate/gate.go\<close>: the preparation of an admitted statement and a candidate
  specification, and the run that applies the one index to the candidate shadow database and reads
  its plan.  \<open>B\<close> and \<open>C\<close> are the baseline and the candidate database with states \<open>'b\<close> and \<open>'c\<close>;
  only the candidate's state is threaded, because the source only reads from the baseline.
\<close>

section \<open>Bind placeholders\<close>

definition blank_after_dashes :: "char \<Rightarrow> bool" where
  "blank_after_dashes c \<longleftrightarrow> c = CHR '' '' \<or> c = CHR 0x09 \<or> c = CHR 0x0D \<or> c = CHR 0x0A"

text \<open>
  One iteration of \<open>hasBindPlaceholder\<close>: the next state and the rest of the input, or \<open>None\<close> for
  \<open>return true\<close>.  The states are those of the scanner of \<open>Sql_Scan\<close>.
\<close>

definition bind_step :: "scan_state \<Rightarrow> char \<Rightarrow> string \<Rightarrow> (scan_state \<times> string) option" where
  "bind_step st c rest =
     (let nxt = peek rest in
      case st of
        SingleQuoted \<Rightarrow>
          Some (if c = backslash_char \<and> rest \<noteq> [] then (SingleQuoted, tl rest)
                else if c = quote_char \<and> nxt = quote_char then (SingleQuoted, tl rest)
                else if c = quote_char then (Code, rest) else (SingleQuoted, rest))
      | DoubleQuoted \<Rightarrow>
          Some (if c = backslash_char \<and> rest \<noteq> [] then (DoubleQuoted, tl rest)
                else if c = dquote_char \<and> nxt = dquote_char then (DoubleQuoted, tl rest)
                else if c = dquote_char then (Code, rest) else (DoubleQuoted, rest))
      | BackQuoted \<Rightarrow>
          Some (if c = backquote_char \<and> nxt = backquote_char then (BackQuoted, tl rest)
                else if c = backquote_char then (Code, rest) else (BackQuoted, rest))
      | LineComment \<Rightarrow> Some (if c = CHR 0x0A then (Code, rest) else (LineComment, rest))
      | BlockComment \<Rightarrow> Some (if c = CHR ''*'' \<and> nxt = CHR ''/'' then (Code, tl rest) else (BlockComment, rest))
      | Code \<Rightarrow>
          if c = CHR ''-'' \<and> nxt = CHR ''-'' \<and> length rest > 1 \<and> blank_after_dashes (rest ! 1) then Some (LineComment, tl rest)
          else if c = CHR ''#'' then Some (LineComment, rest)
          else if c = CHR ''/'' \<and> nxt = CHR ''*'' then Some (BlockComment, tl rest)
          else if c = quote_char then Some (SingleQuoted, rest)
          else if c = dquote_char then Some (DoubleQuoted, rest)
          else if c = backquote_char then Some (BackQuoted, rest)
          else if c = CHR ''?'' then None
          else Some (Code, rest))"

lemma bind_step_shorter: "bind_step st c rest = Some (st', rest') \<Longrightarrow> length rest' \<le> length rest"
  by (cases st) (auto simp: bind_step_def Let_def split: if_splits)

function bind_loop :: "scan_state \<Rightarrow> string \<Rightarrow> bool" where
  "bind_loop st [] = False"
| "bind_loop st (c # rest) = (case bind_step st c rest of None \<Rightarrow> True | Some (st', rest') \<Rightarrow> bind_loop st' rest')"
  by pat_completeness auto
termination
  by (relation "measure (\<lambda>(st, s). length s)") (auto dest: bind_step_shorter)

definition hasBindPlaceholder :: "string \<Rightarrow> bool" where
  "hasBindPlaceholder s = bind_loop Code s"

section \<open>Preparation\<close>

record Prepared =
  pr_SQL :: string
  pr_SQLSignals :: "string list"
  pr_Spec :: Spec
  pr_DDL :: string

datatype prepare_error =
    SQLRejected string | PlaceholderUnsupported | PrepareInspect analyze_error | UnsupportedTable string
  | BadSpec spec_error

definition Prepare :: "unicode_tables \<Rightarrow> sql_parser \<Rightarrow> string \<Rightarrow> Spec \<Rightarrow> prepare_error + Prepared" where
  "Prepare U P sql spec =
     (let admission = Admit U P sql
      in if \<not> ad_Accepted admission then Inl (SQLRejected (ad_ReasonCode admission))
         else if hasBindPlaceholder sql then Inl PlaceholderUnsupported
         else (case Inspect U P sql of
             Inl e \<Rightarrow> Inl (PrepareInspect e)
           | Inr tables \<Rightarrow>
               if \<not> (\<exists>table \<in> set tables. EqualFold U table (sp_Table spec)) then Inl (UnsupportedTable (sp_Table spec))
               else (case CompileCreateIndex U spec of
                   Inl e \<Rightarrow> Inl (BadSpec e)
                 | Inr ddl \<Rightarrow>
                     Inr \<lparr>pr_SQL = sql, pr_SQLSignals = ad_Signals admission, pr_Spec = spec, pr_DDL = ddl\<rparr>)))"

section \<open>The run\<close>

record ('b, 'c) Gate =
  g_Baseline :: "'b ShadowDB option"
  g_Candidate :: "'c ShadowDB option"
  g_AllowedTables :: "(string \<Rightarrow> bool) option"

record CandidateIndex =
  ci_Table :: string
  ci_Name :: string
  ci_DDL :: string
  ci_Created :: bool

record Report =
  rp_GeneratedAt :: string
  rp_EvidenceLevel :: string
  rp_EligibleForPerformanceClaim :: bool
  rp_MySQLVersion :: string
  rp_Snapshot :: Snapshot
  rp_SQL :: string
  rp_Signals :: "string list"
  rp_Candidate :: CandidateIndex
  rp_ExplainJSON :: string

datatype side = BaselineSide | CandidateSide

datatype run_error =
    HandlesRequired | VersionQueryFailed side | ServerVersionMismatch | RunInspect analyze_error
  | TableNotAllowed | SnapshotFailed side shadow_error | SnapshotMismatch
  | TableCheckFailed | TableMissing | ColumnCheckFailed string | ColumnMissing string
  | IndexInspectFailed | IndexDefinitionConflict | CreateIndexFailed | AnalyzeFailed
  | ExplainFailed | InvalidExplainJSON

definition sameServerVersion :: "'b ShadowDB \<Rightarrow> 'b \<Rightarrow> 'c ShadowDB \<Rightarrow> 'c \<Rightarrow> run_error + string" where
  "sameServerVersion B b C c =
     (case db_version B b of
        None \<Rightarrow> Inl (VersionQueryFailed BaselineSide)
      | Some v \<Rightarrow>
          (case db_version C c of
             None \<Rightarrow> Inl (VersionQueryFailed CandidateSide)
           | Some w \<Rightarrow> if v \<noteq> w then Inl ServerVersionMismatch else Inr v))"

definition identicalSnapshots ::
  "(string \<Rightarrow> string) \<Rightarrow> 'b ShadowDB \<Rightarrow> 'b \<Rightarrow> 'c ShadowDB \<Rightarrow> 'c \<Rightarrow> string list \<Rightarrow> run_error + Snapshot" where
  "identicalSnapshots H B b C c tables =
     (case Compute H B b tables of
        Inl e \<Rightarrow> Inl (SnapshotFailed BaselineSide e)
      | Inr x \<Rightarrow>
          (case Compute H C c tables of
             Inl e \<Rightarrow> Inl (SnapshotFailed CandidateSide e)
           | Inr y \<Rightarrow>
               if sn_Rows x \<noteq> sn_Rows y \<or> sn_Digest x \<noteq> sn_Digest y then Inl SnapshotMismatch else Inr x))"

fun require_columns :: "'c ShadowDB \<Rightarrow> 'c \<Rightarrow> string \<Rightarrow> Column list \<Rightarrow> run_error option" where
  "require_columns C c table [] = None"
| "require_columns C c table (col # cols) =
     (case db_column_count C c table (col_Name col) of
        None \<Rightarrow> Some (ColumnCheckFailed (col_Name col))
      | Some n \<Rightarrow> if n \<noteq> 1 then Some (ColumnMissing (col_Name col)) else require_columns C c table cols)"

definition requireSchema :: "'c ShadowDB \<Rightarrow> 'c \<Rightarrow> Spec \<Rightarrow> run_error option" where
  "requireSchema C c spec =
     (case db_table_count C c (sp_Table spec) of
        None \<Rightarrow> Some TableCheckFailed
      | Some n \<Rightarrow> if n \<noteq> 1 then Some TableMissing else require_columns C c (sp_Table spec) (sp_Columns spec))"

record indexColumn =
  xc_Name :: string
  xc_Direction :: string

definition index_column :: "string \<times> string option \<Rightarrow> indexColumn" where
  "index_column r = \<lparr>xc_Name = fst r, xc_Direction = (if snd r = Some ''D'' then ''DESC'' else ''ASC'')\<rparr>"

definition existingIndex :: "'c ShadowDB \<Rightarrow> 'c \<Rightarrow> string \<Rightarrow> string \<Rightarrow> run_error + indexColumn list" where
  "existingIndex C c table name =
     (case answered (db_index C c table name) of
        None \<Rightarrow> Inl IndexInspectFailed
      | Some rows \<Rightarrow> Inr (map index_column rows))"

definition expectedIndex :: "unicode_tables \<Rightarrow> Spec \<Rightarrow> indexColumn list" where
  "expectedIndex U spec = map (\<lambda>col. \<lparr>xc_Name = col_Name col, xc_Direction = column_direction U col\<rparr>) (sp_Columns spec)"

definition sameIndex :: "indexColumn list \<Rightarrow> indexColumn list \<Rightarrow> bool" where
  "sameIndex actual expected \<longleftrightarrow>
     length actual = length expected \<and> list_all (\<lambda>(a, e). a = e) (zip actual expected)"

definition ensureCandidateIndex :: "unicode_tables \<Rightarrow> 'c ShadowDB \<Rightarrow> Prepared \<Rightarrow> 'c \<Rightarrow> (run_error + bool) \<times> 'c" where
  "ensureCandidateIndex U C p c =
     (case existingIndex C c (sp_Table (pr_Spec p)) (sp_IndexName (pr_Spec p)) of
        Inl e \<Rightarrow> (Inl e, c)
      | Inr actual \<Rightarrow>
          if length actual > 0 then
            (if \<not> sameIndex actual (expectedIndex U (pr_Spec p)) then (Inl IndexDefinitionConflict, c) else (Inr False, c))
          else (case db_exec C (pr_DDL p) c of
              (False, c') \<Rightarrow> (Inl CreateIndexFailed, c')
            | (True, c') \<Rightarrow> (Inr True, c')))"

definition analyze_statement :: "Spec \<Rightarrow> string" where
  "analyze_statement spec = ''ANALYZE TABLE '' @ quoteIdentifier (sp_Table spec)"

definition explain_statement :: "string \<Rightarrow> string" where
  "explain_statement sql = ''EXPLAIN FORMAT=JSON '' @ sql"

text \<open>The end of \<open>Run\<close>, once the index is there.\<close>

definition refresh_and_explain ::
  "'c ShadowDB \<Rightarrow> string \<Rightarrow> Prepared \<Rightarrow> string \<Rightarrow> Snapshot \<Rightarrow> bool \<Rightarrow> 'c \<Rightarrow> (run_error + Report) \<times> 'c" where
  "refresh_and_explain C generatedAt p version snap created c =
     (case db_exec C (analyze_statement (pr_Spec p)) c of
        (False, c1) \<Rightarrow> (Inl AnalyzeFailed, c1)
      | (True, c1) \<Rightarrow>
          (case db_explain C c1 (explain_statement (pr_SQL p)) of
             None \<Rightarrow> (Inl ExplainFailed, c1)
           | Some explain \<Rightarrow>
               if \<not> json_valid explain then (Inl InvalidExplainJSON, c1)
               else
                 (Inr \<lparr>rp_GeneratedAt = generatedAt, rp_EvidenceLevel = ''L1'', rp_EligibleForPerformanceClaim = False,
                       rp_MySQLVersion = version, rp_Snapshot = snap, rp_SQL = pr_SQL p, rp_Signals = pr_SQLSignals p,
                       rp_Candidate = \<lparr>ci_Table = sp_Table (pr_Spec p), ci_Name = sp_IndexName (pr_Spec p),
                                       ci_DDL = pr_DDL p, ci_Created = created\<rparr>,
                       rp_ExplainJSON = explain\<rparr>, c1)))"

definition gate_checks ::
  "unicode_tables \<Rightarrow> sql_parser \<Rightarrow> (string \<Rightarrow> string) \<Rightarrow> 'b ShadowDB \<Rightarrow> 'c ShadowDB \<Rightarrow> (string \<Rightarrow> bool) option
     \<Rightarrow> Prepared \<Rightarrow> 'b \<Rightarrow> 'c \<Rightarrow> run_error + string \<times> Snapshot" where
  "gate_checks U P H B C allowed p b c =
     result_bind (sameServerVersion B b C c) (\<lambda>version.
       (case Inspect U P (pr_SQL p) of
          Inl e \<Rightarrow> Inl (RunInspect e)
        | Inr tables \<Rightarrow>
            if (case allowed of None \<Rightarrow> False | Some ok \<Rightarrow> \<exists>t \<in> set tables. \<not> ok t) then Inl TableNotAllowed
            else
              result_bind (identicalSnapshots H B b C c tables) (\<lambda>snap.
                (case requireSchema C c (pr_Spec p) of
                   Some e \<Rightarrow> Inl e
                 | None \<Rightarrow> Inr (version, snap)))))"

definition GateRun ::
  "unicode_tables \<Rightarrow> sql_parser \<Rightarrow> (string \<Rightarrow> string) \<Rightarrow> string \<Rightarrow> ('b, 'c) Gate \<Rightarrow> Prepared \<Rightarrow> 'b \<Rightarrow> 'c
     \<Rightarrow> (run_error + Report) \<times> 'c" where
  "GateRun U P H generatedAt g p b c =
     (case (g_Baseline g, g_Candidate g) of
        (Some B, Some C) \<Rightarrow>
          (case gate_checks U P H B C (g_AllowedTables g) p b c of
             Inl e \<Rightarrow> (Inl e, c)
           | Inr (version, snap) \<Rightarrow>
               (case ensureCandidateIndex U C p c of
                  (Inl e, c1) \<Rightarrow> (Inl e, c1)
                | (Inr created, c1) \<Rightarrow> refresh_and_explain C generatedAt p version snap created c1))
      | _ \<Rightarrow> (Inl HandlesRequired, c))"

section \<open>The steps of a run\<close>

definition statements_only :: "'c ShadowDB \<Rightarrow> Prepared \<Rightarrow> 'c \<Rightarrow> 'c \<Rightarrow> bool" where
  "statements_only C p c c' \<longleftrightarrow>
     (let create = (\<lambda>x. snd (db_exec C (pr_DDL p) x)); refresh = (\<lambda>x. snd (db_exec C (analyze_statement (pr_Spec p)) x))
      in c' \<in> {c, create c, refresh c, refresh (create c)})"

definition index_rows :: "'c ShadowDB \<Rightarrow> 'c \<Rightarrow> Spec \<Rightarrow> indexColumn list option" where
  "index_rows C c spec = map_option (map index_column) (answered (db_index C c (sp_Table spec) (sp_IndexName spec)))"

lemma sameIndex_eq: "sameIndex a b \<longleftrightarrow> a = b"
proof (induction a arbitrary: b)
  case Nil
  then show ?case by (auto simp: sameIndex_def)
next
  case (Cons x a)
  then show ?case by (cases b) (auto simp: sameIndex_def)
qed

lemma ensureCandidateIndex_cases:
  "ensureCandidateIndex U C p c = (r, c') \<Longrightarrow>
     (case r of
        Inl e \<Rightarrow> c' = c \<or> (index_rows C c (pr_Spec p) = Some [] \<and> c' = snd (db_exec C (pr_DDL p) c))
      | Inr False \<Rightarrow> c' = c \<and> index_rows C c (pr_Spec p) = Some (expectedIndex U (pr_Spec p))
      | Inr True \<Rightarrow> index_rows C c (pr_Spec p) = Some [] \<and> db_exec C (pr_DDL p) c = (True, c'))"
  by (auto simp: ensureCandidateIndex_def existingIndex_def index_rows_def sameIndex_eq
      split: option.splits if_splits prod.splits bool.splits)

lemma refresh_cases:
  "refresh_and_explain C gen p version snap created c = (r, c') \<Longrightarrow> c' = snd (db_exec C (analyze_statement (pr_Spec p)) c)"
  by (auto simp: refresh_and_explain_def split: option.splits if_splits prod.splits bool.splits)

lemma refresh_report:
  "refresh_and_explain C gen p version snap created c = (Inr r, c') \<Longrightarrow>
     rp_EvidenceLevel r = ''L1'' \<and> \<not> rp_EligibleForPerformanceClaim r \<and> rp_MySQLVersion r = version
     \<and> rp_Snapshot r = snap \<and> rp_SQL r = pr_SQL p \<and> ci_DDL (rp_Candidate r) = pr_DDL p
     \<and> ci_Created (rp_Candidate r) = created \<and> json_valid (rp_ExplainJSON r)
     \<and> db_explain C c' (explain_statement (pr_SQL p)) = Some (rp_ExplainJSON r)"
  by (auto simp: refresh_and_explain_def split: option.splits if_splits prod.splits bool.splits)

lemma require_columns_None:
  "require_columns C c t cols = None \<longleftrightarrow> (\<forall>col \<in> set cols. db_column_count C c t (col_Name col) = Some 1)"
  by (induction cols) (auto split: option.splits)

lemma requireSchema_None:
  "requireSchema C c spec = None \<longleftrightarrow> db_table_count C c (sp_Table spec) = Some 1
     \<and> (\<forall>col \<in> set (sp_Columns spec). db_column_count C c (sp_Table spec) (col_Name col) = Some 1)"
  by (auto simp: requireSchema_def require_columns_None split: option.splits)

lemma gate_checks_Inr:
  assumes "gate_checks U P H B C allowed p b c = Inr (version, snap)"
  obtains tables y where "db_version B b = Some version" "db_version C c = Some version"
    "Inspect U P (pr_SQL p) = Inr tables" "\<forall>ok. allowed = Some ok \<longrightarrow> (\<forall>t \<in> set tables. ok t)"
    "Compute H B b tables = Inr snap" "Compute H C c tables = Inr y" "sn_Digest snap = sn_Digest y"
    "requireSchema C c (pr_Spec p) = None"
proof -
  obtain v where v: "sameServerVersion B b C c = Inr v"
    and rest: "(case Inspect U P (pr_SQL p) of
          Inl e \<Rightarrow> Inl (RunInspect e)
        | Inr tables \<Rightarrow>
            if (case allowed of None \<Rightarrow> False | Some ok \<Rightarrow> \<exists>t \<in> set tables. \<not> ok t) then Inl TableNotAllowed
            else
              result_bind (identicalSnapshots H B b C c tables) (\<lambda>snap.
                (case requireSchema C c (pr_Spec p) of
                   Some e \<Rightarrow> Inl e
                 | None \<Rightarrow> Inr (v, snap)))) = Inr (version, snap)"
    using assms unfolding gate_checks_def by (auto simp: result_bind_Inr_iff)
  obtain tables where t: "Inspect U P (pr_SQL p) = Inr tables" using rest by (auto split: sum.splits)
  have ok: "\<not> (case allowed of None \<Rightarrow> False | Some ok \<Rightarrow> \<exists>t \<in> set tables. \<not> ok t)"
    and snaps: "identicalSnapshots H B b C c tables = Inr snap" and sch: "requireSchema C c (pr_Spec p) = None"
    and vv: "v = version"
    using rest t by (auto simp: result_bind_Inr_iff split: if_splits option.splits)
  have vers: "db_version B b = Some version" "db_version C c = Some version"
    using v vv by (auto simp: sameServerVersion_def split: option.splits if_splits)
  obtain y where "Compute H B b tables = Inr snap" "Compute H C c tables = Inr y" "sn_Digest snap = sn_Digest y"
    using snaps by (auto simp: identicalSnapshots_def split: sum.splits if_splits)
  then show ?thesis using that vers t ok sch by (auto split: option.splits)
qed

lemma GateRun_cases:
  assumes "GateRun U P H gen \<lparr>g_Baseline = Some B, g_Candidate = Some C, g_AllowedTables = allowed\<rparr> p b c = (r, c')"
  obtains (checks) e where "gate_checks U P H B C allowed p b c = Inl e" "r = Inl e" "c' = c"
    | (index) version snap e where "gate_checks U P H B C allowed p b c = Inr (version, snap)"
        "ensureCandidateIndex U C p c = (Inl e, c')" "r = Inl e"
    | (refresh) version snap created c1 where "gate_checks U P H B C allowed p b c = Inr (version, snap)"
        "ensureCandidateIndex U C p c = (Inr created, c1)" "refresh_and_explain C gen p version snap created c1 = (r, c')"
  using assms unfolding GateRun_def
  by (auto split: sum.splits prod.splits)

section \<open>Properties\<close>

text \<open>
  C25: Whatever the outcome of a run, the candidate database is changed by nothing but the prepared
  CREATE INDEX and the ANALYZE TABLE of the specification's table, each at most once and in this
  order; the CREATE INDEX is only sent when no index of that name exists on the table, and a run
  that fails before the index step leaves the candidate as it is.  (The baseline is only read.)
\<close>

theorem gate_run_changes_only_the_index:
  assumes "GateRun U P H gen \<lparr>g_Baseline = Some B, g_Candidate = Some C, g_AllowedTables = allowed\<rparr> p b c = (r, c')"
  shows "statements_only C p c c'
    \<and> (index_rows C c (pr_Spec p) \<noteq> Some [] \<longrightarrow>
         c' = c \<or> c' = snd (db_exec C (analyze_statement (pr_Spec p)) c))
    \<and> (\<forall>e. gate_checks U P H B C allowed p b c = Inl e \<longrightarrow> r = Inl e \<and> c' = c)"
  using assms
proof (cases rule: GateRun_cases)
  case (checks e)
  then show ?thesis by (auto simp: statements_only_def Let_def)
next
  case (index version snap e)
  then show ?thesis using ensureCandidateIndex_cases [OF index(2)] by (auto simp: statements_only_def Let_def)
next
  case (refresh version snap created c1)
  have c': "c' = snd (db_exec C (analyze_statement (pr_Spec p)) c1)" using refresh_cases [OF refresh(3)] .
  show ?thesis
    using ensureCandidateIndex_cases [OF refresh(2)] refresh(1) c'
    by (cases created) (auto simp: statements_only_def Let_def)
qed

definition t_spec :: Spec where
  "t_spec = \<lparr>sp_Table = ''t'', sp_IndexName = ''idx_cand_a'', sp_Columns = [\<lparr>col_Name = ''id'', col_Direction = []\<rparr>]\<rparr>"

definition t_ddl :: string where
  "t_ddl = ''CREATE INDEX '' @ quoteIdentifier ''idx_cand_a'' @ '' ON '' @ quoteIdentifier ''t'' @ '' ('' @ quoteIdentifier ''id'' @ '' ASC)''"

definition t_prepared :: Prepared where
  "t_prepared = \<lparr>pr_SQL = plain_read, pr_SQLSignals = [], pr_Spec = t_spec, pr_DDL = t_ddl\<rparr>"

definition t_parser :: sql_parser where
  "t_parser = (\<lambda>_. Some [plain_tree])"

lemma t_inspect: "Inspect ascii_tables t_parser plain_read = Inr [''t'']"
  using plain_read_analysis by (simp add: Inspect_def t_parser_def)

lemma t_ddl_compiled: "CompileCreateIndex ascii_tables t_spec = Inr t_ddl"
  unfolding t_ddl_def by code_simp

lemma t_prepare: "Prepare ascii_tables t_parser plain_read t_spec = Inr t_prepared"
proof -
  have adm: "ad_Accepted (Admit ascii_tables t_parser plain_read)" "ad_Signals (Admit ascii_tables t_parser plain_read) = []"
    using plain_read_admitted t_inspect
    by (simp_all add: t_parser_def Admit_def plain_read_scan Inspect_def plain_read_analysis code_tokens_def spaced_def HasPrefix_def
      quote_char_def forbidden_def hasFunctionOnColumn_def)
  have "\<not> hasBindPlaceholder plain_read"
    by (simp add: hasBindPlaceholder_def plain_read_def bind_step_def peek_def quote_chars)
  then show ?thesis
    using adm t_inspect t_ddl_compiled by (simp add: Prepare_def t_prepared_def t_spec_def EqualFold_def is_ascii_def ord_def)
qed

definition t_created :: "unit ShadowDB" where
  "t_created = sample_shadow\<lparr>db_index := (\<lambda>_ t n. Some \<lparr>rs_rows = [(''id'', Some ''A'')], rs_end = RowsDone\<rparr>)\<rparr>"

lemma t_created_fields:
  "db_table_type t_created = db_table_type sample_shadow" "db_columns t_created = db_columns sample_shadow"
  "db_primary t_created = db_primary sample_shadow" "db_indexes t_created = db_indexes sample_shadow"
  "db_select t_created = db_select sample_shadow"
  by (simp_all add: t_created_def)

lemma t_contents: "contents t_created () [''t''] = contents sample_shadow () [''t'']"
  unfolding contents_def list.map table_content_def t_created_fields by (rule refl)

lemma empty_object_valid: "json_valid ''{}''"
proof -
  have "\<not> max_nesting_depth \<le> 0" by (simp add: max_nesting_depth_def)
  then have "p_value (Suc 4) 0 ''{}'' = Some (JObj [], [])"
    unfolding p_value.simps(2) by (simp add: skip_ws_def is_json_ws_def ord_def)
  then show ?thesis by (simp add: json_valid_def json_decode_def json_at_eof_def skip_ws_def)
qed

lemma t_run:
  "\<exists>r. GateRun ascii_tables t_parser (\<lambda>x. x) ''now'' \<lparr>g_Baseline = Some sample_shadow, g_Candidate = Some t_created,
      g_AllowedTables = None\<rparr> t_prepared () () = (Inr r, ())"
proof -
  obtain snap where s: "Compute (\<lambda>x. x) sample_shadow () [''t''] = Inr snap" using sample_snapshot by blast
  moreover have "Compute (\<lambda>x. x) t_created () [''t''] = Compute (\<lambda>x. x) sample_shadow () [''t'']"
    unfolding Compute_def snap_tables.simps snap_table_def t_created_fields by (rule refl)
  ultimately have ids: "identicalSnapshots (\<lambda>x. x) sample_shadow () t_created () [''t''] = Inr snap"
    by (simp add: identicalSnapshots_def)
  have checks: "gate_checks ascii_tables t_parser (\<lambda>x. x) sample_shadow t_created None t_prepared () () = Inr (''8.0.36'', snap)"
    by (simp add: gate_checks_def sameServerVersion_def t_prepared_def t_inspect ids requireSchema_def t_spec_def)
       (simp add: sample_shadow_def t_created_def)
  have ensure: "ensureCandidateIndex ascii_tables t_created t_prepared () = (Inr False, ())"
    by (simp add: ensureCandidateIndex_def existingIndex_def answered_def index_column_def sameIndex_eq
      expectedIndex_def column_direction_def ToUpper_def t_created_def t_prepared_def t_spec_def)
  have "\<exists>r. refresh_and_explain t_created ''now'' t_prepared ''8.0.36'' snap False () = (Inr r, ())"
    using empty_object_valid by (simp add: refresh_and_explain_def t_created_def sample_shadow_def)
  then show ?thesis by (simp add: GateRun_def checks ensure)
qed

theorem gate_run_changes_only_the_index_witness:
  "\<exists>r. GateRun ascii_tables t_parser (\<lambda>x. x) ''now'' \<lparr>g_Baseline = Some sample_shadow, g_Candidate = Some t_created,
      g_AllowedTables = None\<rparr> t_prepared () () = (Inr r, ()) \<and> statements_only t_created t_prepared () ()"
proof -
  from t_run obtain r where r: "GateRun ascii_tables t_parser (\<lambda>x. x) ''now'' \<lparr>g_Baseline = Some sample_shadow,
      g_Candidate = Some t_created, g_AllowedTables = None\<rparr> t_prepared () () = (Inr r, ())" by blast
  from gate_run_changes_only_the_index [OF r] r show ?thesis by blast
qed

text \<open>
  C27: A report is evidence about two equal databases: when the run succeeds, both servers had the
  same version, every table of the statement is allowed, the two sides held the same tables and rows
  before the index was created (where SHA-256 tells the two apart if they differ), the candidate has the table and columns of
  the specification, and the index that the plan was read with has exactly the specified columns and
  directions or was created by the prepared DDL.  The report is level L1, is never eligible for a
  performance claim, and carries the plan read for the prepared statement after the statistics were
  refreshed, as valid JSON.
\<close>

theorem gate_report_compares_equal_data:
  assumes "GateRun U P H gen \<lparr>g_Baseline = Some B, g_Candidate = Some C, g_AllowedTables = allowed\<rparr> p b c = (Inr r, c')"
    and "\<And>tables. Inspect U P (pr_SQL p) = Inr tables \<Longrightarrow> go_sized B b tables \<and> go_sized C c tables
      \<and> tells_apart H (tables_text B b tables) (tables_text C c tables)"
  shows "\<exists>tables c1. Inspect U P (pr_SQL p) = Inr tables \<and> (\<forall>ok. allowed = Some ok \<longrightarrow> (\<forall>t \<in> set tables. ok t))
    \<and> db_version B b = Some (rp_MySQLVersion r) \<and> db_version C c = Some (rp_MySQLVersion r)
    \<and> contents B b tables = contents C c tables
    \<and> db_table_count C c (sp_Table (pr_Spec p)) = Some 1
    \<and> (\<forall>col \<in> set (sp_Columns (pr_Spec p)). db_column_count C c (sp_Table (pr_Spec p)) (col_Name col) = Some 1)
    \<and> (if ci_Created (rp_Candidate r)
        then index_rows C c (pr_Spec p) = Some [] \<and> db_exec C (pr_DDL p) c = (True, c1)
        else c1 = c \<and> index_rows C c (pr_Spec p) = Some (expectedIndex U (pr_Spec p)))
    \<and> c' = snd (db_exec C (analyze_statement (pr_Spec p)) c1)
    \<and> db_explain C c' (explain_statement (pr_SQL p)) = Some (rp_ExplainJSON r) \<and> json_valid (rp_ExplainJSON r)
    \<and> rp_EvidenceLevel r = ''L1'' \<and> \<not> rp_EligibleForPerformanceClaim r"
  using assms(1)
proof (cases rule: GateRun_cases)
  case (refresh version snap created c1)
  obtain tables y where g: "db_version B b = Some version" "db_version C c = Some version"
    "Inspect U P (pr_SQL p) = Inr tables" "\<forall>ok. allowed = Some ok \<longrightarrow> (\<forall>t \<in> set tables. ok t)"
    "Compute H B b tables = Inr snap" "Compute H C c tables = Inr y" "sn_Digest snap = sn_Digest y"
    "requireSchema C c (pr_Spec p) = None"
    using refresh(1) by (rule gate_checks_Inr)
  have same: "contents B b tables = contents C c tables"
    using equal_digests_equal_content [OF g(5,6,7)] assms(2) [OF g(3)] by blast
  note rep = refresh_report [OF refresh(3)]
  have idx: "if ci_Created (rp_Candidate r)
        then index_rows C c (pr_Spec p) = Some [] \<and> db_exec C (pr_DDL p) c = (True, c1)
        else c1 = c \<and> index_rows C c (pr_Spec p) = Some (expectedIndex U (pr_Spec p))"
    using ensureCandidateIndex_cases [OF refresh(2)] rep by (cases created) auto
  show ?thesis
    using g(1-4) same g(8) [unfolded requireSchema_None] idx refresh_cases [OF refresh(3)] rep
    by (intro exI [of _ tables] exI [of _ c1]) simp
qed simp_all

theorem gate_report_compares_equal_data_witness:
  "\<exists>r. GateRun ascii_tables t_parser (\<lambda>x. x) ''now'' \<lparr>g_Baseline = Some sample_shadow, g_Candidate = Some t_created,
      g_AllowedTables = None\<rparr> t_prepared () () = (Inr r, ()) \<and> rp_EvidenceLevel r = ''L1''
      \<and> json_valid (rp_ExplainJSON r)"
proof -
  have sized: "go_sized sample_shadow () tables \<and> go_sized t_created () tables
      \<and> tells_apart (\<lambda>x. x) (tables_text sample_shadow () tables) (tables_text t_created () tables)"
    if "Inspect ascii_tables t_parser (pr_SQL t_prepared) = Inr tables" for tables
    using that t_inspect sample_sized t_contents by (simp add: t_prepared_def go_sized_def tells_apart_def)
  from t_run obtain r where r: "GateRun ascii_tables t_parser (\<lambda>x. x) ''now'' \<lparr>g_Baseline = Some sample_shadow,
      g_Candidate = Some t_created, g_AllowedTables = None\<rparr> t_prepared () () = (Inr r, ())" by blast
  from gate_report_compares_equal_data [OF r sized] r show ?thesis by blast
qed

text \<open>
  What reaches a database was admitted: a prepared statement passed the read-only gate, has no
  bind marker outside literals, quoted names and comments, names the table of the specification (up
  to case) among its physical tables, and its DDL is the compilation of a valid specification.
\<close>

theorem prepared_is_admitted:
  assumes "Prepare U P sql spec = Inr p"
  shows "pr_SQL p = sql \<and> pr_Spec p = spec \<and> ad_Accepted (Admit U P sql) \<and> \<not> hasBindPlaceholder sql
    \<and> (\<exists>tables. Inspect U P sql = Inr tables \<and> (\<exists>t \<in> set tables. EqualFold U t (sp_Table spec)))
    \<and> CompileCreateIndex U spec = Inr (pr_DDL p) \<and> ValidateSpec U spec = None"
proof -
  have adm: "ad_Accepted (Admit U P sql)" "\<not> hasBindPlaceholder sql"
    and ddl: "CompileCreateIndex U spec = Inr (pr_DDL p)" and p: "pr_SQL p = sql" "pr_Spec p = spec"
    using assms by (auto simp: Prepare_def Let_def split: if_splits sum.splits)
  obtain tables where "Inspect U P sql = Inr tables" "\<exists>t \<in> set tables. EqualFold U t (sp_Table spec)"
    using assms by (auto simp: Prepare_def Let_def split: if_splits sum.splits)
  then show ?thesis using adm ddl p CompileCreateIndex_pieces(2) [OF ddl] by blast
qed

theorem prepared_is_admitted_witness:
  "ad_Accepted (Admit ascii_tables t_parser plain_read) \<and> ValidateSpec ascii_tables t_spec = None"
  using prepared_is_admitted [OF t_prepare] by blast

end
