(* ===== verification/Plan_Compare.thy ===== *)
theory Plan_Compare
  imports GoDecode "HOL-Library.Multiset" "HOL-Library.List_Lexorder" "HOL-Library.Char_ord"
begin

text \<open>
  \<open>internal/plancompare/compare.go\<close>: the small view taken of two EXPLAIN plans and their
  difference.  A decoded plan is a JSON value; Go visits the members of an object in an order of
  its own choosing, so the value that is walked is any arrangement of the decoded one.
\<close>

section \<open>Data\<close>

record TableAccess =
  ta_TableName :: string
  ta_AccessType :: string
  ta_PossibleKeys :: "string list"
  ta_Key :: string
  ta_RowsExaminedPerScan :: "int option"
  ta_UsingIndex :: bool

record Summary =
  su_Tables :: "TableAccess list"
  su_UsesFilesort :: bool

record Plan =
  pl_Raw :: string
  pl_Summary :: Summary

record Difference =
  df_BaselineUsesFilesort :: bool
  df_CandidateUsesFilesort :: bool
  df_FilesortChanged :: bool
  df_BaselineKeys :: "string list"
  df_CandidateKeys :: "string list"
  df_CandidateOnlyKeys :: "string list"

record PlanSnapshot =
  ps_Digest :: string
  ps_Rows :: int

record PlanSQLInput =
  pq_SQL :: string
  pq_Signals :: "string list"

record PlanIndex =
  px_Table :: string
  px_Name :: string
  px_DDL :: string
  px_Created :: bool

record Metadata =
  md_GeneratedAt :: string
  md_MySQLVersion :: string
  md_Snapshot :: PlanSnapshot
  md_SQL :: PlanSQLInput
  md_CandidateIndex :: PlanIndex

record PlanReport =
  pc_GeneratedAt :: string
  pc_EvidenceLevel :: string
  pc_Eligible :: bool
  pc_MySQLVersion :: string
  pc_Snapshot :: PlanSnapshot
  pc_SQL :: PlanSQLInput
  pc_CandidateIndex :: PlanIndex
  pc_Baseline :: Plan
  pc_Candidate :: Plan
  pc_Difference :: Difference
  pc_InputCandidateExplainSHA256 :: string
  pc_InputBaselineExplainSHA256 :: string

section \<open>Decoded objects\<close>

text \<open>A Go map keeps the last value of a repeated key.\<close>

definition obj_entries :: "(string \<times> json) list \<Rightarrow> (string \<times> json) list" where
  "obj_entries m = map (\<lambda>k. (k, the (map_of (rev m) k))) (remdups (map fst m))"

text \<open>
  \<open>arranged j j'\<close>: \<open>j'\<close> is the decoded value of \<open>j\<close> with every object as the list of its entries in
  the order in which they are visited.
\<close>

inductive arranged :: "json \<Rightarrow> json \<Rightarrow> bool" where
  arr_null: "arranged JNull JNull"
| arr_bool: "arranged (JBool b) (JBool b)"
| arr_num: "arranged (JNum n) (JNum n)"
| arr_str: "arranged (JStr s) (JStr s)"
| arr_arr: "list_all2 arranged vs ws \<Longrightarrow> arranged (JArr vs) (JArr ws)"
| arr_obj: "list_all2 (\<lambda>x y. fst x = fst y \<and> arranged (snd x) (snd y)) (obj_entries m) m' \<Longrightarrow> mset m'' = mset m' \<Longrightarrow>
    arranged (JObj m) (JObj m'')"

section \<open>Reading fields\<close>

definition stringField :: "(string \<times> json) list \<Rightarrow> string \<Rightarrow> string" where
  "stringField values key = (case map_of values key of Some (JStr s) \<Rightarrow> s | _ \<Rightarrow> [])"

fun strings_of :: "json list \<Rightarrow> string list" where
  "strings_of [] = []"
| "strings_of (v # vs) = (case v of JStr s \<Rightarrow> s # strings_of vs | _ \<Rightarrow> strings_of vs)"

definition stringsField :: "(string \<times> json) list \<Rightarrow> string \<Rightarrow> string list" where
  "stringsField values key = (case map_of values key of Some (JArr raw) \<Rightarrow> strings_of raw | _ \<Rightarrow> [])"

text \<open>\<open>strconv.ParseInt(text, 10, 64)\<close>: an optional sign and decimal digits, in range.\<close>

definition ParseInt :: "string \<Rightarrow> int option" where
  "ParseInt text =
     (let signed = HasPrefix text ''-'' \<or> HasPrefix text ''+'';
          ds = (if signed then drop 1 text else text);
          i = (if HasPrefix text ''-'' then - int (digits_val ds) else int (digits_val ds))
      in if ds \<noteq> [] \<and> list_all is_digit_byte ds \<and> in_i64 i then Some i else None)"

definition int64Field :: "(string \<times> json) list \<Rightarrow> string \<Rightarrow> int option" where
  "int64Field values key =
     (case map_of values key of
        Some (JNum text) \<Rightarrow> ParseInt text
      | Some (JStr text) \<Rightarrow> ParseInt text
      | _ \<Rightarrow> None)"

definition boolField :: "(string \<times> json) list \<Rightarrow> string \<Rightarrow> bool" where
  "boolField values key = (case map_of values key of Some (JBool b) \<Rightarrow> b | _ \<Rightarrow> False)"

section \<open>The walk\<close>

definition table_access :: "(string \<times> json) list \<Rightarrow> TableAccess list" where
  "table_access values =
     (case map_of values ''table_name'' of
        Some (JStr tableName) \<Rightarrow>
          [\<lparr>ta_TableName = tableName, ta_AccessType = stringField values ''access_type'',
            ta_PossibleKeys = stringsField values ''possible_keys'', ta_Key = stringField values ''key'',
            ta_RowsExaminedPerScan = int64Field values ''rows_examined_per_scan'',
            ta_UsingIndex = boolField values ''using_index''\<rparr>]
      | _ \<Rightarrow> [])"

definition visit :: "(string \<times> json) list \<Rightarrow> Summary \<Rightarrow> Summary" where
  "visit values s =
     (let s1 = (if boolField values ''using_filesort'' then s\<lparr>su_UsesFilesort := True\<rparr> else s)
      in s1\<lparr>su_Tables := su_Tables s1 @ table_access values\<rparr>)"

fun walk :: "json \<Rightarrow> Summary \<Rightarrow> Summary"
  and walk_members :: "(string \<times> json) list \<Rightarrow> Summary \<Rightarrow> Summary"
  and walk_elems :: "json list \<Rightarrow> Summary \<Rightarrow> Summary" where
  "walk (JObj m) s = walk_members m (visit m s)"
| "walk (JArr vs) s = walk_elems vs s"
| "walk JNull s = s"
| "walk (JBool b) s = s"
| "walk (JNum n) s = s"
| "walk (JStr x) s = s"
| "walk_members [] s = s"
| "walk_members ((k, c) # m) s = walk_members m (walk c s)"
| "walk_elems [] s = s"
| "walk_elems (c # cs) s = walk_elems cs (walk c s)"

datatype plan_error = PlanDecodeFailed | PlanTrailingValue

definition empty_summary :: Summary where
  "empty_summary = \<lparr>su_Tables = [], su_UsesFilesort = False\<rparr>"

text \<open>
  \<open>Parse\<close>; \<open>arrange\<close> is the order the run time visits the objects in.  Only a second well-formed
  value after the first is refused.
\<close>

definition Parse :: "(json \<Rightarrow> json) \<Rightarrow> string \<Rightarrow> plan_error + Plan" where
  "Parse arrange raw =
     (case json_decode raw of
        None \<Rightarrow> Inl PlanDecodeFailed
      | Some (doc, rest) \<Rightarrow>
          if json_decode rest \<noteq> None then Inl PlanTrailingValue
          else Inr \<lparr>pl_Raw = raw, pl_Summary = walk (arrange doc) empty_summary\<rparr>)"

section \<open>The difference\<close>

definition uniqueKeys :: "TableAccess list \<Rightarrow> string list" where
  "uniqueKeys tables = sort (remdups (filter (\<lambda>k. k \<noteq> []) (map ta_Key tables)))"

definition Diff :: "Summary \<Rightarrow> Summary \<Rightarrow> Difference" where
  "Diff baseline candidate =
     (let baselineKeys = uniqueKeys (su_Tables baseline); candidateKeys = uniqueKeys (su_Tables candidate)
      in \<lparr>df_BaselineUsesFilesort = su_UsesFilesort baseline,
          df_CandidateUsesFilesort = su_UsesFilesort candidate,
          df_FilesortChanged = (su_UsesFilesort baseline \<noteq> su_UsesFilesort candidate),
          df_BaselineKeys = baselineKeys, df_CandidateKeys = candidateKeys,
          df_CandidateOnlyKeys = filter (\<lambda>key. key \<notin> set baselineKeys) candidateKeys\<rparr>)"

datatype report_error = BaselinePlan plan_error | CandidatePlan plan_error

definition BuildReport ::
  "(json \<Rightarrow> json) \<Rightarrow> string \<Rightarrow> Metadata \<Rightarrow> string \<Rightarrow> string \<Rightarrow> report_error + PlanReport" where
  "BuildReport arrange now_text meta baselineRaw candidateRaw =
     (case Parse arrange baselineRaw of
        Inl e \<Rightarrow> Inl (BaselinePlan e)
      | Inr baseline \<Rightarrow>
          (case Parse arrange candidateRaw of
             Inl e \<Rightarrow> Inl (CandidatePlan e)
           | Inr candidate \<Rightarrow>
               Inr \<lparr>pc_GeneratedAt = (if md_GeneratedAt meta = [] then now_text else md_GeneratedAt meta),
                    pc_EvidenceLevel = ''L1'', pc_Eligible = False, pc_MySQLVersion = md_MySQLVersion meta,
                    pc_Snapshot = md_Snapshot meta, pc_SQL = md_SQL meta, pc_CandidateIndex = md_CandidateIndex meta,
                    pc_Baseline = baseline, pc_Candidate = candidate,
                    pc_Difference = Diff (pl_Summary baseline) (pl_Summary candidate),
                    pc_InputCandidateExplainSHA256 = [], pc_InputBaselineExplainSHA256 = []\<rparr>))"

section \<open>What a walk collects\<close>

fun tables_of :: "json \<Rightarrow> TableAccess list"
  and tables_of_members :: "(string \<times> json) list \<Rightarrow> TableAccess list"
  and tables_of_elems :: "json list \<Rightarrow> TableAccess list" where
  "tables_of (JObj m) = table_access m @ tables_of_members m"
| "tables_of (JArr vs) = tables_of_elems vs"
| "tables_of JNull = []"
| "tables_of (JBool b) = []"
| "tables_of (JNum n) = []"
| "tables_of (JStr x) = []"
| "tables_of_members [] = []"
| "tables_of_members ((k, c) # m) = tables_of c @ tables_of_members m"
| "tables_of_elems [] = []"
| "tables_of_elems (c # cs) = tables_of c @ tables_of_elems cs"

fun sorts_of :: "json \<Rightarrow> bool"
  and sorts_of_members :: "(string \<times> json) list \<Rightarrow> bool"
  and sorts_of_elems :: "json list \<Rightarrow> bool" where
  "sorts_of (JObj m) \<longleftrightarrow> boolField m ''using_filesort'' \<or> sorts_of_members m"
| "sorts_of (JArr vs) \<longleftrightarrow> sorts_of_elems vs"
| "sorts_of JNull \<longleftrightarrow> False"
| "sorts_of (JBool b) \<longleftrightarrow> False"
| "sorts_of (JNum n) \<longleftrightarrow> False"
| "sorts_of (JStr x) \<longleftrightarrow> False"
| "sorts_of_members [] \<longleftrightarrow> False"
| "sorts_of_members ((k, c) # m) \<longleftrightarrow> sorts_of c \<or> sorts_of_members m"
| "sorts_of_elems [] \<longleftrightarrow> False"
| "sorts_of_elems (c # cs) \<longleftrightarrow> sorts_of c \<or> sorts_of_elems cs"

lemma walk_collects:
  "walk j s = \<lparr>su_Tables = su_Tables s @ tables_of j, su_UsesFilesort = (su_UsesFilesort s \<or> sorts_of j)\<rparr>"
  "walk_members m s = \<lparr>su_Tables = su_Tables s @ tables_of_members m, su_UsesFilesort = (su_UsesFilesort s \<or> sorts_of_members m)\<rparr>"
  "walk_elems vs s = \<lparr>su_Tables = su_Tables s @ tables_of_elems vs, su_UsesFilesort = (su_UsesFilesort s \<or> sorts_of_elems vs)\<rparr>"
  by (induction j s and m s and vs s rule: walk_walk_members_walk_elems.induct) (auto simp: visit_def Let_def)

lemma members_collect:
  "tables_of_members m = concat (map (tables_of \<circ> snd) m)" "sorts_of_members m \<longleftrightarrow> (\<exists>x \<in> set m. sorts_of (snd x))"
  by (induction m) auto

lemma elems_collect:
  "tables_of_elems vs = concat (map tables_of vs)" "sorts_of_elems vs \<longleftrightarrow> (\<exists>x \<in> set vs. sorts_of x)"
  by (induction vs) auto

section \<open>The order of visits does not matter\<close>

text \<open>What a walk takes from a value, whatever the order: its tables as a multiset, and its sorts.\<close>

definition same_view :: "json \<Rightarrow> json \<Rightarrow> bool" where
  "same_view a b \<longleftrightarrow> mset (tables_of a) = mset (tables_of b) \<and> (sorts_of a \<longleftrightarrow> sorts_of b)"

text \<open>Two arrangements look the same to the field readers.\<close>

fun same_leaf :: "json \<Rightarrow> json \<Rightarrow> bool" where
  "same_leaf (JStr a) b \<longleftrightarrow> b = JStr a"
| "same_leaf (JBool a) b \<longleftrightarrow> b = JBool a"
| "same_leaf (JNum a) b \<longleftrightarrow> b = JNum a"
| "same_leaf JNull b \<longleftrightarrow> b = JNull"
| "same_leaf (JArr vs) b \<longleftrightarrow> (case b of JArr ws \<Rightarrow> strings_of vs = strings_of ws | _ \<Rightarrow> False)"
| "same_leaf (JObj m) b \<longleftrightarrow> (case b of JObj m' \<Rightarrow> True | _ \<Rightarrow> False)"

inductive_cases arranged_cases:
  "arranged JNull w" "arranged (JBool b) w" "arranged (JNum n) w" "arranged (JStr s) w" "arranged (JArr vs) w"
  "arranged (JObj m) w"

lemma arranged_strings:
  "list_all2 arranged vs ws \<Longrightarrow> strings_of ws = strings_of vs"
proof (induction rule: list_all2_induct)
  case (Cons v vs w ws)
  then show ?case by (cases v) (auto elim: arranged_cases)
qed simp

lemma arranged_leaf:
  assumes "arranged j a" "arranged j b" shows "same_leaf a b"
  using assms by (cases j) (auto elim!: arranged_cases simp: arranged_strings)

definition same_entries :: "(string \<times> json) list \<Rightarrow> (string \<times> json) list \<Rightarrow> bool" where
  "same_entries m m' \<longleftrightarrow> (\<forall>k. rel_option same_leaf (map_of m k) (map_of m' k))"

lemma same_leaf_fields:
  assumes "rel_option same_leaf (map_of m k) (map_of m' k)"
  shows "stringField m k = stringField m' k" "stringsField m k = stringsField m' k" "int64Field m k = int64Field m' k"
    "boolField m k = boolField m' k"
proof -
  have "stringField m k = stringField m' k \<and> stringsField m k = stringsField m' k \<and> int64Field m k = int64Field m' k
      \<and> boolField m k = boolField m' k"
  proof (cases "map_of m k")
    case None
    then have "map_of m' k = None" using assms by simp
    with None show ?thesis by (simp add: stringField_def stringsField_def int64Field_def boolField_def)
  next
    case (Some v)
    then obtain w where w: "map_of m' k = Some w" "same_leaf v w" using assms by (cases "map_of m' k") auto
    with Some show ?thesis
      by (cases v; cases w) (simp_all add: stringField_def stringsField_def int64Field_def boolField_def)
  qed
  then show "stringField m k = stringField m' k" "stringsField m k = stringsField m' k"
    "int64Field m k = int64Field m' k" "boolField m k = boolField m' k" by blast+
qed

lemma same_entries_fields:
  assumes "same_entries m m'"
  shows "table_access m = table_access m'" "boolField m k = boolField m' k"
proof -
  have r: "rel_option same_leaf (map_of m k) (map_of m' k)" for k using assms by (simp add: same_entries_def)
  note f = same_leaf_fields [OF r]
  show "boolField m k = boolField m' k" by (rule f(4))
  show "table_access m = table_access m'"
  proof (cases "map_of m ''table_name''")
    case None
    then have "map_of m' ''table_name'' = None" using r [of "''table_name''"] by simp
    with None show ?thesis by (simp add: table_access_def)
  next
    case (Some v)
    then obtain w where w: "map_of m' ''table_name'' = Some w" "same_leaf v w"
      using r [of "''table_name''"] by (cases "map_of m' ''table_name''") auto
    with Some show ?thesis by (cases v; cases w) (simp_all add: table_access_def f)
  qed
qed

text \<open>Entries of a map that are related one by one, in any order.\<close>

lemma distinct_obj_entries: "distinct (map fst (obj_entries m))"
  by (simp add: obj_entries_def comp_def)

lemma list_all2_keys:
  "list_all2 (\<lambda>x y. fst x = fst y \<and> R (snd x) (snd y)) m m' \<Longrightarrow> map fst m = map fst m'"
  by (induction rule: list_all2_induct) auto

lemma list_all2_map_of:
  "list_all2 (\<lambda>x y. fst x = fst y \<and> R (snd x) (snd y)) m m' \<Longrightarrow> rel_option R (map_of m k) (map_of m' k)"
  by (induction rule: list_all2_induct) auto

lemma map_of_mset:
  assumes "mset a = mset b" "distinct (map fst b)" shows "map_of a = map_of b"
proof -
  have "distinct (map fst a)"
    using assms by (metis mset_eq_imp_distinct_iff mset_map)
  then show ?thesis using assms by (intro map_of_inject_set [THEN iffD2]) (auto dest: mset_eq_setD)
qed

lemma list_all2_combine:
  assumes "list_all2 R xs ys" "list_all2 Q xs zs" "\<And>x y z. x \<in> set xs \<Longrightarrow> R x y \<Longrightarrow> Q x z \<Longrightarrow> S y z"
  shows "list_all2 S ys zs"
  using assms
proof (induction xs arbitrary: ys zs)
  case (Cons x xs)
  obtain y ys' z zs' where yz: "ys = y # ys'" "zs = z # zs'" "R x y" "Q x z" "list_all2 R xs ys'" "list_all2 Q xs zs'"
    using Cons.prems(1,2) by (auto simp: list_all2_Cons1)
  have "S y z" using yz(3,4) by (intro Cons.prems(3) [of x]) simp_all
  moreover have "list_all2 S ys' zs'" using yz(5,6) Cons.prems(3) by (intro Cons.IH) auto
  ultimately show ?case using yz(1,2) by simp
qed simp

lemma same_view_elems:
  "list_all2 same_view vs ws \<Longrightarrow> mset (tables_of_elems vs) = mset (tables_of_elems ws) \<and> (sorts_of_elems vs \<longleftrightarrow> sorts_of_elems ws)"
  by (induction rule: list_all2_induct) (auto simp: same_view_def)

lemma same_view_members:
  "list_all2 (\<lambda>x y. same_view (snd x) (snd y)) m m' \<Longrightarrow>
    mset (tables_of_members m) = mset (tables_of_members m') \<and> (sorts_of_members m \<longleftrightarrow> sorts_of_members m')"
proof (induction rule: list_all2_induct)
  case (Cons x xs y ys)
  then show ?case by (cases x; cases y) (auto simp: same_view_def)
qed simp

lemma members_mset:
  assumes "mset m = mset m'"
  shows "mset (tables_of_members m) = mset (tables_of_members m') \<and> (sorts_of_members m \<longleftrightarrow> sorts_of_members m')"
proof -
  have "mset (concat (map f l)) = sum_mset (image_mset (\<lambda>x. mset (f x)) (mset l))"
    for f :: "string \<times> json \<Rightarrow> TableAccess list" and l
    by (induction l) simp_all
  then have "mset (concat (map f m)) = mset (concat (map f m'))" for f :: "string \<times> json \<Rightarrow> TableAccess list"
    using assms by metis
  moreover have "set m = set m'" using assms by (rule mset_eq_setD)
  ultimately show ?thesis by (simp add: members_collect)
qed

lemma rel_entries:
  "list_all2 (\<lambda>x y. fst x = fst y \<and> R (snd x) (snd y) \<and> Q (snd x) (snd y)) m m' \<Longrightarrow>
    list_all2 (\<lambda>x y. fst x = fst y \<and> R (snd x) (snd y)) m m'"
  by (auto elim: list_all2_mono)

lemma arranged_same_view: "arranged j a \<Longrightarrow> arranged j b \<Longrightarrow> same_view a b"
proof (induction arbitrary: b rule: arranged.induct)
  case (arr_arr vs ws)
  then obtain xs where b: "b = JArr xs" "list_all2 arranged vs xs" by (auto elim: arranged_cases)
  have "list_all2 same_view ws xs"
    using arr_arr(1) b(2)
  proof (induction vs arbitrary: ws xs)
    case (Cons v vs)
    then show ?case by (auto simp: list_all2_Cons1)
  qed simp
  then show ?case using b same_view_elems by (simp add: same_view_def)
next
  case (arr_obj m m' m'')
  obtain n' n'' where b: "b = JObj n''" "mset n'' = mset n'"
    and n: "list_all2 (\<lambda>x y. fst x = fst y \<and> arranged (snd x) (snd y)) (obj_entries m) n'"
    using arr_obj.prems by (auto elim: arranged_cases)
  have rel: "list_all2 (\<lambda>y z. (fst y = fst z \<and> same_leaf (snd y) (snd z)) \<and> same_view (snd y) (snd z)) m' n'"
    by (rule list_all2_combine [OF arr_obj.IH n]) (auto dest: arranged_leaf)
  have keys: "distinct (map fst m')" "distinct (map fst n')"
    using list_all2_keys [OF n] distinct_obj_entries [of m] list_all2_keys [OF rel_entries [OF arr_obj.IH]]
    by simp_all
  have "rel_option same_leaf (map_of m' k) (map_of n' k)" for k
    using rel by (intro list_all2_map_of) (auto elim: list_all2_mono)
  then have "same_entries m'' n''"
    using map_of_mset [OF arr_obj.hyps(1) keys(1)] map_of_mset [OF b(2) keys(2)] by (simp add: same_entries_def)
  note f = same_entries_fields [OF this]
  have "list_all2 (\<lambda>y z. same_view (snd y) (snd z)) m' n'" using rel by (auto elim: list_all2_mono)
  from same_view_members [OF this] members_mset [OF arr_obj.hyps(1)] members_mset [OF b(2)]
  show ?case unfolding b(1) same_view_def by (simp add: f)
qed (auto elim!: arranged_cases simp: same_view_def)

section \<open>Properties\<close>

lemma Parse_Inr:
  assumes "Parse arrange raw = Inr p"
  obtains doc rest where "json_decode raw = Some (doc, rest)" "pl_Raw p = raw"
    "su_Tables (pl_Summary p) = tables_of (arrange doc)" "su_UsesFilesort (pl_Summary p) = sorts_of (arrange doc)"
  using assms by (auto simp: Parse_def walk_collects empty_summary_def split: option.splits if_splits)

lemma uniqueKeys_mset: "mset a = mset b \<Longrightarrow> uniqueKeys a = uniqueKeys b"
proof -
  assume m: "mset a = mset b"
  have "sorted (uniqueKeys a)" "distinct (uniqueKeys a)" "sorted (uniqueKeys b)" "distinct (uniqueKeys b)"
    by (simp_all add: uniqueKeys_def)
  moreover have "set (uniqueKeys a) = set (uniqueKeys b)"
    using mset_eq_setD [OF m] by (simp add: uniqueKeys_def)
  ultimately show "uniqueKeys a = uniqueKeys b" using sorted_distinct_set_unique by blast
qed

lemma BuildReport_Inr:
  assumes "BuildReport arrange now_text meta b c = Inr r"
  shows "Parse arrange b = Inr (pc_Baseline r)" "Parse arrange c = Inr (pc_Candidate r)"
    "pc_Difference r = Diff (pl_Summary (pc_Baseline r)) (pl_Summary (pc_Candidate r))"
    "pc_EvidenceLevel r = ''L1''" "\<not> pc_Eligible r" "pc_Snapshot r = md_Snapshot meta" "pc_SQL r = md_SQL meta"
    "pc_CandidateIndex r = md_CandidateIndex meta" "pc_MySQLVersion r = md_MySQLVersion meta"
  using assms by (auto simp: BuildReport_def split: sum.splits)

definition arranges :: "(json \<Rightarrow> json) \<Rightarrow> string \<Rightarrow> bool" where
  "arranges arrange raw \<longleftrightarrow> (\<forall>doc rest. json_decode raw = Some (doc, rest) \<longrightarrow> arranged doc (arrange doc))"

lemma Parse_order_free:
  assumes "Parse f raw = Inr p" "Parse g raw = Inr q" "arranges f raw" "arranges g raw"
  shows "mset (su_Tables (pl_Summary p)) = mset (su_Tables (pl_Summary q))"
    "su_UsesFilesort (pl_Summary p) = su_UsesFilesort (pl_Summary q)"
proof -
  obtain doc rest where d: "json_decode raw = Some (doc, rest)"
    "su_Tables (pl_Summary p) = tables_of (f doc)" "su_UsesFilesort (pl_Summary p) = sorts_of (f doc)"
    using assms(1) by (rule Parse_Inr)
  obtain doc' rest' where d': "json_decode raw = Some (doc', rest')"
    "su_Tables (pl_Summary q) = tables_of (g doc')" "su_UsesFilesort (pl_Summary q) = sorts_of (g doc')"
    using assms(2) by (rule Parse_Inr)
  have "same_view (f doc) (g doc)"
    using assms(3,4) d(1) unfolding arranges_def by (blast intro: arranged_same_view)
  then show "mset (su_Tables (pl_Summary p)) = mset (su_Tables (pl_Summary q))"
    "su_UsesFilesort (pl_Summary p) = su_UsesFilesort (pl_Summary q)"
    using d d' by (simp_all add: same_view_def)
qed

text \<open>
  The plan comparison does not depend on the order in which the run time visits the members of
  the JSON objects: for any two orders the reports agree in their difference (filesort flags and key
  lists), in the filesort of each plan, and in the tables of each plan up to their order.  The key
  lists are sorted without duplicates and hold exactly the non-empty keys used by the tables of the
  plan; the candidate-only keys are those of the candidate that the baseline does not use.
\<close>

theorem plan_difference_is_order_free:
  assumes "BuildReport f now_text meta b c = Inr r" "BuildReport g now_text meta b c = Inr r'"
    and "arranges f b" "arranges f c" "arranges g b" "arranges g c"
  shows "pc_Difference r = pc_Difference r'
    \<and> mset (su_Tables (pl_Summary (pc_Baseline r))) = mset (su_Tables (pl_Summary (pc_Baseline r')))
    \<and> mset (su_Tables (pl_Summary (pc_Candidate r))) = mset (su_Tables (pl_Summary (pc_Candidate r')))
    \<and> set (df_BaselineKeys (pc_Difference r)) = ta_Key ` set (su_Tables (pl_Summary (pc_Baseline r))) - {[]}
    \<and> set (df_CandidateKeys (pc_Difference r)) = ta_Key ` set (su_Tables (pl_Summary (pc_Candidate r))) - {[]}
    \<and> set (df_CandidateOnlyKeys (pc_Difference r)) =
        set (df_CandidateKeys (pc_Difference r)) - set (df_BaselineKeys (pc_Difference r))
    \<and> (\<forall>ks \<in> {df_BaselineKeys (pc_Difference r), df_CandidateKeys (pc_Difference r), df_CandidateOnlyKeys (pc_Difference r)}.
          sorted ks \<and> distinct ks)
    \<and> pc_EvidenceLevel r = ''L1'' \<and> \<not> pc_Eligible r"
proof -
  note R = BuildReport_Inr [OF assms(1)] and R' = BuildReport_Inr [OF assms(2)]
  note base = Parse_order_free [OF R(1) R'(1) assms(3,5)] and cand = Parse_order_free [OF R(2) R'(2) assms(4,6)]
  have "pc_Difference r = pc_Difference r'"
    unfolding R(3) R'(3) Diff_def Let_def
    using uniqueKeys_mset [OF base(1)] uniqueKeys_mset [OF cand(1)] base(2) cand(2) by simp
  moreover have u: "set (uniqueKeys ts) = ta_Key ` set ts - {[]}" "sorted (uniqueKeys ts)" "distinct (uniqueKeys ts)" for ts
    by (auto simp: uniqueKeys_def)
  moreover have k: "df_BaselineKeys (pc_Difference r) = uniqueKeys (su_Tables (pl_Summary (pc_Baseline r)))"
    "df_CandidateKeys (pc_Difference r) = uniqueKeys (su_Tables (pl_Summary (pc_Candidate r)))"
    "df_CandidateOnlyKeys (pc_Difference r) = filter (\<lambda>key. key \<notin> set (df_BaselineKeys (pc_Difference r)))
       (df_CandidateKeys (pc_Difference r))"
    by (simp_all add: R(3) Diff_def Let_def)
  moreover have "sorted (df_CandidateOnlyKeys (pc_Difference r)) \<and> distinct (df_CandidateOnlyKeys (pc_Difference r))"
    unfolding k(3) k(2) using u by (auto intro: sorted_wrt_filter)
  ultimately show ?thesis
    using base(1) cand(1) R(4,5) by (simp only: u ball_simps insert_iff) (auto simp: u)
qed

definition plan_without_key :: string where
  "plan_without_key = enc_object [(''table_name'', enc_string ''t'')]"

definition plan_with_key :: string where
  "plan_with_key = enc_object [(''table_name'', enc_string ''t''), (''key'', enc_string ''k'')]"

definition sample_meta :: Metadata where
  "sample_meta = \<lparr>md_GeneratedAt = ''now'', md_MySQLVersion = ''8.0'', md_Snapshot = \<lparr>ps_Digest = ''d'', ps_Rows = 1\<rparr>,
     md_SQL = \<lparr>pq_SQL = ''SELECT 1'', pq_Signals = []\<rparr>,
     md_CandidateIndex = \<lparr>px_Table = ''t'', px_Name = ''idx_cand_a'', px_DDL = [], px_Created = True\<rparr>\<rparr>"

lemma sample_plans_decode:
  "json_decode plan_without_key = Some (JObj [(''table_name'', JStr ''t'')], [])"
  "json_decode plan_with_key = Some (JObj [(''table_name'', JStr ''t''), (''key'', JStr ''k'')], [])"
proof -
  have asc: "is_ascii ''t''" "is_ascii ''k''" by (simp_all add: is_ascii_def ord_def)
  have "json_decode (plan_without_key @ []) = Some (JObj [(''table_name'', JStr ''t'')], [])"
    unfolding plan_without_key_def by (rule json_decode_enc_object) (simp_all add: encodes_string [OF asc(1)] ord_def)
  then show "json_decode plan_without_key = Some (JObj [(''table_name'', JStr ''t'')], [])" by simp
  have "json_decode (plan_with_key @ []) = Some (JObj [(''table_name'', JStr ''t''), (''key'', JStr ''k'')], [])"
    unfolding plan_with_key_def
    by (rule json_decode_enc_object) (simp_all add: encodes_string [OF asc(1)] encodes_string [OF asc(2)] ord_def)
  then show "json_decode plan_with_key = Some (JObj [(''table_name'', JStr ''t''), (''key'', JStr ''k'')], [])" by simp
qed

fun backwards :: "json \<Rightarrow> json" where
  "backwards (JObj m) = JObj (rev m)"
| "backwards v = v"

lemma sample_arranges:
  "arranges (\<lambda>j. j) plan_without_key" "arranges (\<lambda>j. j) plan_with_key"
  "arranges backwards plan_without_key" "arranges backwards plan_with_key"
  by (simp_all add: arranges_def sample_plans_decode)
     (rule arr_obj [where m' = "[(''table_name'', JStr ''t'')]"]
        arr_obj [where m' = "[(''table_name'', JStr ''t''), (''key'', JStr ''k'')]"];
      simp add: obj_entries_def arranged.intros)+

theorem plan_difference_is_order_free_witness:
  "\<exists>r r'. BuildReport (\<lambda>j. j) ''now'' sample_meta plan_without_key plan_with_key = Inr r
    \<and> BuildReport backwards ''now'' sample_meta plan_without_key plan_with_key = Inr r'
    \<and> pc_Difference r = pc_Difference r' \<and> df_CandidateOnlyKeys (pc_Difference r) = [''k'']"
proof -
  have "p_value (Suc 0) 0 [] = None" unfolding p_value.simps(2) by (simp add: skip_ws_def)
  then have eof: "json_decode [] = None" by (simp add: json_decode_def)
  have "\<exists>r. BuildReport (\<lambda>j. j) ''now'' sample_meta plan_without_key plan_with_key = Inr r
      \<and> df_CandidateOnlyKeys (pc_Difference r) = [''k'']"
    by (simp add: BuildReport_def Parse_def sample_plans_decode eof empty_summary_def visit_def table_access_def
        boolField_def stringField_def stringsField_def int64Field_def Diff_def uniqueKeys_def)
  then obtain r where r: "BuildReport (\<lambda>j. j) ''now'' sample_meta plan_without_key plan_with_key = Inr r"
    and k: "df_CandidateOnlyKeys (pc_Difference r) = [''k'']" by blast
  have "\<exists>r'. BuildReport backwards ''now'' sample_meta plan_without_key plan_with_key = Inr r'"
    by (simp add: BuildReport_def Parse_def sample_plans_decode eof)
  then obtain r' where r': "BuildReport backwards ''now'' sample_meta plan_without_key plan_with_key = Inr r'" by blast
  have "pc_Difference r = pc_Difference r'"
    using plan_difference_is_order_free [OF r r' sample_arranges(1,2,3,4)] by (rule conjunct1)
  then show ?thesis using r r' k by blast
qed

end
