(* ===== verification/Diagnosis.thy ===== *)
theory Diagnosis
  imports Plan_Compare
begin

text \<open>
  \<open>internal/diagnosis/diagnosis.go\<close>: an L1 EXPLAIN comparison is turned into hypotheses that carry
  no claim of their own.  SHA-256 in hexadecimal and the current time are parameters.
\<close>

section \<open>Data\<close>

record DiagSource =
  ds_SHA256 :: string
  ds_GeneratedAt :: string
  ds_MySQLVersion :: string
  ds_Snapshot :: string

record Fact =
  fa_Field :: string
  fa_Value :: string

record Hypothesis =
  hy_Code :: string
  hy_EvidenceLevel :: string
  hy_Statement :: string
  hy_Facts :: "Fact list"
  hy_RequiredVerification :: "string list"

record DiagReport =
  dg_GeneratedAt :: string
  dg_EvidenceLevel :: string
  dg_Eligible :: bool
  dg_Source :: DiagSource
  dg_Hypotheses :: "Hypothesis list"
  dg_Unresolved :: "string list"

definition CodeFilesortRemoved :: string where
  "CodeFilesortRemoved = ''candidate_index_removes_filesort''"

definition CodeAccessPathChanged :: string where
  "CodeAccessPathChanged = ''candidate_index_changes_access_path''"

definition CodeEstimatedScanReduced :: string where
  "CodeEstimatedScanReduced = ''candidate_index_reduces_estimated_scan''"

datatype diag_error = DiagDecodeFailed | ErrEvidenceLevel string | ErrPerformanceEligible | LacksEvidence

section \<open>Reading the comparison report back\<close>

definition snapshot_fields :: "(string \<times> PlanSnapshot field_setter) list" where
  "snapshot_fields =
     [(''digest'', set_string (\<lambda>x s. s\<lparr>ps_Digest := x\<rparr>)), (''rows'', set_int (\<lambda>x s. s\<lparr>ps_Rows := x\<rparr>))]"

definition sql_fields :: "(string \<times> PlanSQLInput field_setter) list" where
  "sql_fields =
     [(''sql'', set_string (\<lambda>x s. s\<lparr>pq_SQL := x\<rparr>)), (''signals'', set_strings pq_Signals (\<lambda>x s. s\<lparr>pq_Signals := x\<rparr>))]"

definition index_fields :: "(string \<times> PlanIndex field_setter) list" where
  "index_fields =
     [(''table'', set_string (\<lambda>x s. s\<lparr>px_Table := x\<rparr>)), (''name'', set_string (\<lambda>x s. s\<lparr>px_Name := x\<rparr>)),
      (''ddl'', set_string (\<lambda>x s. s\<lparr>px_DDL := x\<rparr>)), (''created'', set_bool (\<lambda>x s. s\<lparr>px_Created := x\<rparr>))]"

definition table_fields :: "(string \<times> TableAccess field_setter) list" where
  "table_fields =
     [(''table_name'', set_string (\<lambda>x t. t\<lparr>ta_TableName := x\<rparr>)),
      (''access_type'', set_string (\<lambda>x t. t\<lparr>ta_AccessType := x\<rparr>)),
      (''possible_keys'', set_strings ta_PossibleKeys (\<lambda>x t. t\<lparr>ta_PossibleKeys := x\<rparr>)),
      (''key'', set_string (\<lambda>x t. t\<lparr>ta_Key := x\<rparr>)),
      (''rows_examined_per_scan'',
        set_pointer plain_int 0 ta_RowsExaminedPerScan (\<lambda>x t. t\<lparr>ta_RowsExaminedPerScan := x\<rparr>)),
      (''using_index'', set_bool (\<lambda>x t. t\<lparr>ta_UsingIndex := x\<rparr>))]"

definition zero_table :: TableAccess where
  "zero_table = \<lparr>ta_TableName = [], ta_AccessType = [], ta_PossibleKeys = [], ta_Key = [],
     ta_RowsExaminedPerScan = None, ta_UsingIndex = False\<rparr>"

definition summary_fields :: "(string \<times> Summary field_setter) list" where
  "summary_fields =
     [(''tables'', set_slice (decode_struct table_fields) zero_table su_Tables (\<lambda>x s. s\<lparr>su_Tables := x\<rparr>)),
      (''uses_filesort'', set_bool (\<lambda>x s. s\<lparr>su_UsesFilesort := x\<rparr>))]"

definition plan_fields :: "(string \<times> Plan field_setter) list" where
  "plan_fields =
     [(''raw'', raw_message),
      (''summary'', set_nested (decode_struct summary_fields) pl_Summary (\<lambda>x p. p\<lparr>pl_Summary := x\<rparr>))]"

definition difference_fields :: "(string \<times> Difference field_setter) list" where
  "difference_fields =
     [(''baseline_uses_filesort'', set_bool (\<lambda>x d. d\<lparr>df_BaselineUsesFilesort := x\<rparr>)),
      (''candidate_uses_filesort'', set_bool (\<lambda>x d. d\<lparr>df_CandidateUsesFilesort := x\<rparr>)),
      (''filesort_changed'', set_bool (\<lambda>x d. d\<lparr>df_FilesortChanged := x\<rparr>)),
      (''baseline_keys'', set_strings df_BaselineKeys (\<lambda>x d. d\<lparr>df_BaselineKeys := x\<rparr>)),
      (''candidate_keys'', set_strings df_CandidateKeys (\<lambda>x d. d\<lparr>df_CandidateKeys := x\<rparr>)),
      (''candidate_only_keys'', set_strings df_CandidateOnlyKeys (\<lambda>x d. d\<lparr>df_CandidateOnlyKeys := x\<rparr>))]"

definition report_fields :: "(string \<times> PlanReport field_setter) list" where
  "report_fields =
     [(''generated_at'', set_string (\<lambda>x r. r\<lparr>pc_GeneratedAt := x\<rparr>)),
      (''evidence_level'', set_string (\<lambda>x r. r\<lparr>pc_EvidenceLevel := x\<rparr>)),
      (''eligible_for_performance_claim'', set_bool (\<lambda>x r. r\<lparr>pc_Eligible := x\<rparr>)),
      (''mysql_version'', set_string (\<lambda>x r. r\<lparr>pc_MySQLVersion := x\<rparr>)),
      (''snapshot'', set_nested (decode_struct snapshot_fields) pc_Snapshot (\<lambda>x r. r\<lparr>pc_Snapshot := x\<rparr>)),
      (''sql_input'', set_nested (decode_struct sql_fields) pc_SQL (\<lambda>x r. r\<lparr>pc_SQL := x\<rparr>)),
      (''candidate_index'', set_nested (decode_struct index_fields) pc_CandidateIndex (\<lambda>x r. r\<lparr>pc_CandidateIndex := x\<rparr>)),
      (''baseline'', set_nested (decode_struct plan_fields) pc_Baseline (\<lambda>x r. r\<lparr>pc_Baseline := x\<rparr>)),
      (''candidate'', set_nested (decode_struct plan_fields) pc_Candidate (\<lambda>x r. r\<lparr>pc_Candidate := x\<rparr>)),
      (''difference'', set_nested (decode_struct difference_fields) pc_Difference (\<lambda>x r. r\<lparr>pc_Difference := x\<rparr>)),
      (''input_candidate_explain_sha256'', set_string (\<lambda>x r. r\<lparr>pc_InputCandidateExplainSHA256 := x\<rparr>)),
      (''input_baseline_explain_sha256'', set_string (\<lambda>x r. r\<lparr>pc_InputBaselineExplainSHA256 := x\<rparr>))]"

definition zero_plan :: Plan where
  "zero_plan = \<lparr>pl_Raw = [], pl_Summary = \<lparr>su_Tables = [], su_UsesFilesort = False\<rparr>\<rparr>"

definition zero_report :: PlanReport where
  "zero_report =
     \<lparr>pc_GeneratedAt = [], pc_EvidenceLevel = [], pc_Eligible = False, pc_MySQLVersion = [],
      pc_Snapshot = \<lparr>ps_Digest = [], ps_Rows = 0\<rparr>, pc_SQL = \<lparr>pq_SQL = [], pq_Signals = []\<rparr>,
      pc_CandidateIndex = \<lparr>px_Table = [], px_Name = [], px_DDL = [], px_Created = False\<rparr>,
      pc_Baseline = zero_plan, pc_Candidate = zero_plan,
      pc_Difference = \<lparr>df_BaselineUsesFilesort = False, df_CandidateUsesFilesort = False, df_FilesortChanged = False,
        df_BaselineKeys = [], df_CandidateKeys = [], df_CandidateOnlyKeys = []\<rparr>,
      pc_InputCandidateExplainSHA256 = [], pc_InputBaselineExplainSHA256 = []\<rparr>"

definition decodeComparison :: "string \<Rightarrow> PlanReport option" where
  "decodeComparison raw = decode_strict report_fields zero_report raw"

section \<open>Hypotheses\<close>

text \<open>The loop of \<open>comparableEstimatedRows\<close>; the totals are \<open>int64\<close>.\<close>

fun estimated_loop :: "TableAccess list \<Rightarrow> TableAccess list \<Rightarrow> int \<Rightarrow> int \<Rightarrow> (int \<times> int) option" where
  "estimated_loop (b # bs) (c # cs) bTotal cTotal =
     (if ta_TableName b \<noteq> ta_TableName c then None
      else case (ta_RowsExaminedPerScan b, ta_RowsExaminedPerScan c) of
        (Some x, Some y) \<Rightarrow> estimated_loop bs cs (i64 (bTotal + x)) (i64 (cTotal + y))
      | _ \<Rightarrow> None)"
| "estimated_loop _ _ bTotal cTotal = Some (bTotal, cTotal)"

definition comparableEstimatedRows :: "Summary \<Rightarrow> Summary \<Rightarrow> (int \<times> int) option" where
  "comparableEstimatedRows baseline candidate =
     (if length (su_Tables baseline) = 0 \<or> length (su_Tables baseline) \<noteq> length (su_Tables candidate) then None
      else estimated_loop (su_Tables baseline) (su_Tables candidate) 0 0)"

definition hypothesis :: "string \<Rightarrow> string \<Rightarrow> Fact list \<Rightarrow> Hypothesis" where
  "hypothesis code statement facts =
     \<lparr>hy_Code = code, hy_EvidenceLevel = ''L1'', hy_Statement = statement, hy_Facts = facts,
      hy_RequiredVerification = [''controlled_ab_measurement'', ''series_admission'']\<rparr>"

definition fact :: "string \<Rightarrow> string \<Rightarrow> Fact" where
  "fact field val = \<lparr>fa_Field = field, fa_Value = val\<rparr>"

definition derive :: "PlanReport \<Rightarrow> Hypothesis list" where
  "derive input =
     (let diff = pc_Difference input
      in (if df_BaselineUsesFilesort diff \<and> \<not> df_CandidateUsesFilesort diff
          then [hypothesis CodeFilesortRemoved
                  ''The candidate plan removes a filesort that is present in the baseline plan.''
                  [fact ''difference.baseline_uses_filesort'' ''true'',
                   fact ''difference.candidate_uses_filesort'' ''false'']]
          else [])
         @ (if 0 < length (df_CandidateOnlyKeys diff)
            then [hypothesis CodeAccessPathChanged
                    ''The candidate plan uses an index that is absent from the baseline plan.''
                    [fact ''difference.candidate_only_keys'' (Join (df_CandidateOnlyKeys diff) '','')]]
            else [])
         @ (case comparableEstimatedRows (pl_Summary (pc_Baseline input)) (pl_Summary (pc_Candidate input)) of
              None \<Rightarrow> []
            | Some (baselineRows, candidateRows) \<Rightarrow>
                if candidateRows < baselineRows
                then [hypothesis CodeEstimatedScanReduced
                        ''The candidate plan estimates fewer rows examined than the baseline plan.''
                        [fact ''baseline.rows_examined_per_scan_total'' (int_dec baselineRows),
                         fact ''candidate.rows_examined_per_scan_total'' (int_dec candidateRows)]]
                else []))"

definition diagnose :: "(string \<Rightarrow> string) \<Rightarrow> string \<Rightarrow> string \<Rightarrow> diag_error + DiagReport" where
  "diagnose sha256_hex now_text raw =
     (case decodeComparison raw of
        None \<Rightarrow> Inl DiagDecodeFailed
      | Some input \<Rightarrow>
          if pc_EvidenceLevel input \<noteq> ''L1'' then Inl (ErrEvidenceLevel (pc_EvidenceLevel input))
          else if pc_Eligible input then Inl ErrPerformanceEligible
          else if TrimSpace (pq_SQL (pc_SQL input)) = [] \<or> ps_Digest (pc_Snapshot input) = [] then Inl LacksEvidence
          else Inr \<lparr>dg_GeneratedAt = now_text, dg_EvidenceLevel = ''L1'', dg_Eligible = False,
                    dg_Source = \<lparr>ds_SHA256 = sha256_hex raw, ds_GeneratedAt = pc_GeneratedAt input,
                      ds_MySQLVersion = pc_MySQLVersion input, ds_Snapshot = ps_Digest (pc_Snapshot input)\<rparr>,
                    dg_Hypotheses = derive input,
                    dg_Unresolved =
                      [''EXPLAIN differences are plan evidence, not measured latency or write-cost evidence.'',
                       ''Each hypothesis requires controlled_ab_measurement and series_admission before a performance claim.'']\<rparr>)"

section \<open>What a hypothesis rests on\<close>

definition estimates :: "TableAccess list \<Rightarrow> int" where
  "estimates ts = sum_list (map (\<lambda>t. the (ta_RowsExaminedPerScan t)) ts)"

text \<open>The tables match one to one and all carry an estimate.\<close>

definition comparable_tables :: "TableAccess list \<Rightarrow> TableAccess list \<Rightarrow> bool" where
  "comparable_tables bs cs \<longleftrightarrow>
     map ta_TableName bs = map ta_TableName cs \<and> (\<forall>t \<in> set (bs @ cs). ta_RowsExaminedPerScan t \<noteq> None)"

lemma comparable_tables_Cons:
  "comparable_tables (b # bs) (c # cs) \<longleftrightarrow>
     ta_TableName b = ta_TableName c \<and> ta_RowsExaminedPerScan b \<noteq> None \<and> ta_RowsExaminedPerScan c \<noteq> None
     \<and> comparable_tables bs cs"
  by (auto simp: comparable_tables_def)

lemma i64_add_left: "i64 (i64 a + b) = i64 (a + b)"
  unfolding i64_def by (simp add: mod_simps algebra_simps)

lemma estimated_loop_sum:
  assumes "length bs = length cs" "in_i64 x" "in_i64 y"
  shows "estimated_loop bs cs x y =
    (if comparable_tables bs cs then Some (i64 (x + estimates bs), i64 (y + estimates cs)) else None)"
  using assms
proof (induction bs cs arbitrary: x y rule: list_induct2)
  case Nil
  then show ?case by (simp add: comparable_tables_def estimates_def i64_id)
next
  case (Cons b bs c cs)
  then show ?case
    by (auto simp: comparable_tables_Cons i64_add_left estimates_def add.assoc split: option.splits)
qed

lemma comparableEstimatedRows_eq:
  "comparableEstimatedRows b c =
     (if su_Tables b \<noteq> [] \<and> comparable_tables (su_Tables b) (su_Tables c)
      then Some (i64 (estimates (su_Tables b)), i64 (estimates (su_Tables c))) else None)"
proof -
  have "in_i64 0" by (simp add: in_i64_def)
  moreover have "comparable_tables (su_Tables b) (su_Tables c) \<Longrightarrow> length (su_Tables b) = length (su_Tables c)"
    by (metis comparable_tables_def length_map)
  ultimately show ?thesis
    by (auto simp: comparableEstimatedRows_def estimated_loop_sum)
qed

text \<open>When a code is among the hypotheses.\<close>

definition backed :: "PlanReport \<Rightarrow> string \<Rightarrow> bool" where
  "backed input code \<longleftrightarrow>
     code = CodeFilesortRemoved \<and> df_BaselineUsesFilesort (pc_Difference input) \<and> \<not> df_CandidateUsesFilesort (pc_Difference input)
     \<or> code = CodeAccessPathChanged \<and> df_CandidateOnlyKeys (pc_Difference input) \<noteq> []
     \<or> code = CodeEstimatedScanReduced
       \<and> (let b = su_Tables (pl_Summary (pc_Baseline input)); c = su_Tables (pl_Summary (pc_Candidate input))
          in b \<noteq> [] \<and> comparable_tables b c \<and> i64 (estimates c) < i64 (estimates b))"

lemmas diag_codes = CodeFilesortRemoved_def CodeAccessPathChanged_def CodeEstimatedScanReduced_def

lemma hypothesis_sel [simp]:
  "hy_Code (hypothesis c s f) = c" "hy_EvidenceLevel (hypothesis c s f) = ''L1''"
  "hy_RequiredVerification (hypothesis c s f) = [''controlled_ab_measurement'', ''series_admission'']"
  by (simp_all add: hypothesis_def)

lemma derive_codes:
  "map hy_Code (derive input) =
     filter (backed input) [CodeFilesortRemoved, CodeAccessPathChanged, CodeEstimatedScanReduced]"
proof -
  have d: "CodeFilesortRemoved \<noteq> CodeAccessPathChanged" "CodeFilesortRemoved \<noteq> CodeEstimatedScanReduced"
    "CodeAccessPathChanged \<noteq> CodeEstimatedScanReduced"
    by (simp_all add: diag_codes)
  show ?thesis
    unfolding derive_def Let_def comparableEstimatedRows_eq map_append
    using d by (auto simp: backed_def Let_def)
qed

lemma derive_unverified:
  "h \<in> set (derive input) \<Longrightarrow> hy_EvidenceLevel h = ''L1''
     \<and> hy_RequiredVerification h = [''controlled_ab_measurement'', ''series_admission'']"
  by (auto simp: derive_def Let_def split: if_splits option.splits)

text \<open>
  C37: A diagnosis exists only for a comparison report that reads back strictly, is L1, makes no
  claim and names its SQL and snapshot.  It is itself L1 and claims nothing, carries the digest of
  exactly the bytes it was made from, and holds, in a fixed order and at most once each, the
  hypotheses the report backs: a filesort the candidate plan no longer has, an index only the
  candidate plan uses, and, where both plans visit the same non-empty sequence of tables with an
  estimate for each, a smaller (64 bit) total of estimated rows.  Every hypothesis is L1 and asks for
  measurement and series admission.
\<close>

theorem diagnosis_is_unverified_and_backed:
  "case diagnose sha256_hex now_text raw of
     Inl e \<Rightarrow> True
   | Inr d \<Rightarrow> \<exists>input. decodeComparison raw = Some input \<and> pc_EvidenceLevel input = ''L1'' \<and> \<not> pc_Eligible input
       \<and> TrimSpace (pq_SQL (pc_SQL input)) \<noteq> [] \<and> ps_Digest (pc_Snapshot input) \<noteq> []
       \<and> dg_EvidenceLevel d = ''L1'' \<and> \<not> dg_Eligible d \<and> ds_SHA256 (dg_Source d) = sha256_hex raw
       \<and> ds_Snapshot (dg_Source d) = ps_Digest (pc_Snapshot input) \<and> ds_MySQLVersion (dg_Source d) = pc_MySQLVersion input
       \<and> map hy_Code (dg_Hypotheses d) =
           filter (backed input) [CodeFilesortRemoved, CodeAccessPathChanged, CodeEstimatedScanReduced]
       \<and> (\<forall>h \<in> set (dg_Hypotheses d). hy_EvidenceLevel h = ''L1''
            \<and> hy_RequiredVerification h = [''controlled_ab_measurement'', ''series_admission''])"
  using derive_unverified by (auto simp: diagnose_def derive_codes split: option.splits sum.splits)

definition sample_comparison :: string where
  "sample_comparison =
     ''{\"evidence_level\":\"L1\",\"mysql_version\":\"8\",\"snapshot\":{\"digest\":\"d\"},\"sql_input\":{\"sql\":\"q\"},'' @
     ''\"difference\":{\"baseline_uses_filesort\":true}}''"

lemma sample_comparison_diagnosed:
  "case diagnose (\<lambda>x. ''h'') ''now'' sample_comparison of Inl e \<Rightarrow> False
   | Inr d \<Rightarrow> map hy_Code (dg_Hypotheses d) = [CodeFilesortRemoved] \<and> dg_EvidenceLevel d = ''L1'' \<and> \<not> dg_Eligible d
       \<and> ds_SHA256 (dg_Source d) = ''h'' \<and> ds_MySQLVersion (dg_Source d) = ''8'' \<and> ds_Snapshot (dg_Source d) = ''d''"
  by code_simp

theorem diagnosis_is_unverified_and_backed_witness:
  "\<exists>d input. diagnose (\<lambda>x. ''h'') ''now'' sample_comparison = Inr d \<and> decodeComparison sample_comparison = Some input
     \<and> ds_SHA256 (dg_Source d) = ''h'' \<and> backed input CodeFilesortRemoved"
proof -
  obtain d where d: "diagnose (\<lambda>x. ''h'') ''now'' sample_comparison = Inr d"
    and codes: "map hy_Code (dg_Hypotheses d) = [CodeFilesortRemoved]"
    using sample_comparison_diagnosed by (auto split: sum.splits)
  from diagnosis_is_unverified_and_backed [where sha256_hex = "\<lambda>x. ''h''" and now_text = "''now''" and raw = sample_comparison] d
  obtain input where i: "decodeComparison sample_comparison = Some input" "ds_SHA256 (dg_Source d) = ''h''"
    "map hy_Code (dg_Hypotheses d) =
       filter (backed input) [CodeFilesortRemoved, CodeAccessPathChanged, CodeEstimatedScanReduced]"
    by auto
  have "CodeFilesortRemoved \<in> set (map hy_Code (dg_Hypotheses d))" using codes by simp
  then have "backed input CodeFilesortRemoved" unfolding i(3) set_filter by blast
  then show ?thesis using d i by blast
qed

section \<open>The order of the tables\<close>

definition two_tables_doc :: "string \<Rightarrow> json" where
  "two_tables_doc n =
     JObj [(''a'', JObj [(''table_name'', JStr ''t''), (''rows_examined_per_scan'', JStr n)]),
           (''b'', JObj [(''table_name'', JStr ''u''), (''rows_examined_per_scan'', JStr n)])]"

definition two_tables :: "string \<Rightarrow> string" where
  "two_tables n =
     ''{\"a\":{\"table_name\":\"t\",\"rows_examined_per_scan\":\"'' @ n @
     ''\"},\"b\":{\"table_name\":\"u\",\"rows_examined_per_scan\":\"'' @ n @ ''\"}}''"

lemma two_tables_decode:
  "json_decode (two_tables ''9'') = Some (two_tables_doc ''9'', [])"
  "json_decode (two_tables ''2'') = Some (two_tables_doc ''2'', [])"
  by code_simp+

definition candidate_backwards :: "json \<Rightarrow> json" where
  "candidate_backwards j = (if j = two_tables_doc ''2'' then backwards j else j)"

lemma two_tables_arranged:
  "arranged (two_tables_doc n) (two_tables_doc n)" "arranged (two_tables_doc n) (backwards (two_tables_doc n))"
proof -
  have inner: "arranged (JObj [(''table_name'', JStr t), (''rows_examined_per_scan'', JStr n)])
      (JObj [(''table_name'', JStr t), (''rows_examined_per_scan'', JStr n)])" for t
    by (rule arr_obj [where m' = "[(''table_name'', JStr t), (''rows_examined_per_scan'', JStr n)]"])
       (simp_all add: obj_entries_def arr_str)
  let ?m = "[(''a'', JObj [(''table_name'', JStr ''t''), (''rows_examined_per_scan'', JStr n)]),
             (''b'', JObj [(''table_name'', JStr ''u''), (''rows_examined_per_scan'', JStr n)])]"
  have l: "list_all2 (\<lambda>x y. fst x = fst y \<and> arranged (snd x) (snd y)) (obj_entries ?m) ?m"
    using inner by (simp add: obj_entries_def)
  then show "arranged (two_tables_doc n) (two_tables_doc n)" "arranged (two_tables_doc n) (backwards (two_tables_doc n))"
    unfolding two_tables_doc_def by (auto intro!: arr_obj [OF l])
qed

lemma two_tables_arranges:
  assumes "n \<in> {''9'', ''2''}"
  shows "arranges (\<lambda>j. j) (two_tables n)" "arranges candidate_backwards (two_tables n)"
  using assms two_tables_decode two_tables_arranged
  by (auto simp: arranges_def candidate_backwards_def)

text \<open>
  Although the comparison itself does not depend on the order in which the run time visits the
  members of JSON objects, the hypothesis of a smaller estimated scan does: the same two plans, with
  two tables each below different members of an object, yield it in one order and not in another.
\<close>

theorem estimated_scan_depends_on_visit_order:
  "\<exists>f g b c r r'. arranges f b \<and> arranges f c \<and> arranges g b \<and> arranges g c
     \<and> BuildReport f ''now'' sample_meta b c = Inr r \<and> BuildReport g ''now'' sample_meta b c = Inr r'
     \<and> pc_Difference r = pc_Difference r'
     \<and> CodeEstimatedScanReduced \<in> set (map hy_Code (derive r))
     \<and> CodeEstimatedScanReduced \<notin> set (map hy_Code (derive r'))"
proof -
  let ?b = "two_tables ''9''" and ?c = "two_tables ''2''"
  have eof: "json_decode [] = None" by code_simp
  have "\<exists>r r'. BuildReport (\<lambda>j. j) ''now'' sample_meta ?b ?c = Inr r
      \<and> BuildReport candidate_backwards ''now'' sample_meta ?b ?c = Inr r'
      \<and> pc_Difference r = pc_Difference r'
      \<and> CodeEstimatedScanReduced \<in> set (map hy_Code (derive r))
      \<and> CodeEstimatedScanReduced \<notin> set (map hy_Code (derive r'))"
    unfolding BuildReport_def Parse_def two_tables_decode
    by (simp add: eof) (code_simp)
  then show ?thesis
    using two_tables_arranges [of "''9''"] two_tables_arranges [of "''2''"] by blast
qed

end
