(* ===== verification/Report_Series.thy ===== *)
theory Report_Series
  imports Measure
begin

text \<open>
  \<open>internal/report/result.go\<close>: the data of a bench report and how it is filled from the results of
  \<open>internal/measure\<close>; \<open>internal/series/admission.go\<close>: the admission of a series of calibration
  reports and one measurement report.  Pointers that may be nil are options.
\<close>

section \<open>The bench report\<close>

record ReportSide =
  side_Name :: string
  side_Rounds :: int
  side_RawMs :: "float64 list"
  side_MedianMs :: float64
  side_ScaledMADMs :: float64
  side_NoiseRatio :: float64

record Phase =
  ph_Mode :: string
  ph_Baseline :: ReportSide
  ph_Candidate :: ReportSide

record ReportVerdict =
  rv_MaxNoiseRatio :: float64
  rv_SignificanceMultiplier :: float64
  rv_ThresholdRatio :: float64
  rv_ThresholdFrom :: string
  rv_RelativeDelta :: float64
  rv_Verdict :: string

record ReportReason =
  rr_Code :: string
  rr_Description :: string

record ReportThresholds =
  th_NoiseRatioLimit :: float64
  th_SignificanceMultiplier :: float64

record ReportAdmission =
  ra_DirectionVerdict :: "string option"
  ra_Eligible :: bool
  ra_EvidenceLevel :: string
  ra_RejectionReasons :: "ReportReason list"
  ra_Thresholds :: ReportThresholds

record DatasetInfo =
  di_Seed :: int
  di_Rows :: int
  di_DatasetVersion :: string
  di_SchemaVersion :: string
  di_GeneratorVersion :: string
  di_DistributionVersion :: string

record SnapshotInfo =
  si_Digest :: string
  si_Rows :: int
  si_Match :: bool

record CaseInfo =
  ca_Name :: string
  ca_SQL :: string
  ca_Args :: "string list"

record EnvInfo =
  env_OS :: string
  env_Arch :: string
  env_GoVersion :: string
  env_MySQL :: string

record BenchResult =
  br_GeneratedAt :: string
  br_Env :: EnvInfo
  br_Dataset :: DatasetInfo
  br_Snapshot :: SnapshotInfo
  br_Case :: CaseInfo
  br_CandidateIndex :: string
  br_ExecutionsPerRound :: int
  br_Calibration :: Phase
  br_Measurement :: "Phase option"
  br_Verdict :: "ReportVerdict option"
  br_Admission :: ReportAdmission

section \<open>Filling a report\<close>

fun verdict_string :: "Verdict \<Rightarrow> string" where
  "verdict_string Better = ''Better''"
| "verdict_string Worse = ''Worse''"
| "verdict_string NotSignificant = ''NotSignificant''"
| "verdict_string (OtherVerdict s) = s"

fun level_string :: "EvidenceLevel \<Rightarrow> string" where
  "level_string EvidenceL1 = ''L1''"
| "level_string EvidenceL2 = ''L2''"

fun reason_code :: "RejectionReason \<Rightarrow> string" where
  "reason_code ReasonBaselineNoiseExceedsLimit = ''baseline_noise_ratio_exceeds_limit''"
| "reason_code ReasonCandidateNoiseExceedsLimit = ''candidate_noise_ratio_exceeds_limit''"
| "reason_code ReasonDirectionNotSignificant = ''direction_verdict_not_significant''"
| "reason_code ReasonDirectionWorse = ''direction_verdict_worse''"
| "reason_code ReasonNoMeasurement = ''no_measurement_rounds''"

text \<open>\<open>Description\<close>: Chinese sentences, given by their UTF-8 bytes; the limit prints as 10%.\<close>

fun description_bytes :: "RejectionReason \<Rightarrow> nat list" where
  "description_bytes ReasonBaselineNoiseExceedsLimit =
     [98, 97, 115, 101, 108, 105, 110, 101, 32, 230, 160, 135, 229, 174, 154, 229, 153, 170, 229, 163,
      176, 230, 175, 148, 232, 182, 133, 232, 191, 135, 229, 135, 134, 229, 133, 165, 231, 186, 191, 32,
      49, 48, 37]"
| "description_bytes ReasonCandidateNoiseExceedsLimit =
     [99, 97, 110, 100, 105, 100, 97, 116, 101, 32, 230, 160, 135, 229, 174, 154, 229, 153, 170, 229,
      163, 176, 230, 175, 148, 232, 182, 133, 232, 191, 135, 229, 135, 134, 229, 133, 165, 231, 186, 191,
      32, 49, 48, 37]"
| "description_bytes ReasonDirectionNotSignificant =
     [228, 184, 173, 228, 189, 141, 230, 149, 176, 229, 143, 152, 229, 140, 150, 230, 156, 170, 228, 184,
      165, 230, 160, 188, 232, 182, 133, 232, 191, 135, 230, 150, 185, 229, 144, 145, 229, 136, 164, 229,
      174, 154, 233, 151, 168, 230, 167, 155]"
| "description_bytes ReasonDirectionWorse =
     [229, 128, 153, 233, 128, 137, 230, 150, 185, 230, 161, 136, 230, 155, 180, 230, 133, 162, 239, 188,
      140, 228, 184, 141, 229, 173, 152, 229, 156, 168, 232, 175, 187, 230, 148, 182, 231, 155, 138]"
| "description_bytes ReasonNoMeasurement =
     [229, 143, 170, 229, 129, 154, 228, 186, 134, 230, 160, 135, 229, 174, 154, 239, 188, 140, 230, 156,
      170, 232, 191, 155, 232, 161, 140, 230, 173, 163, 229, 188, 143, 230, 181, 139, 233, 135, 143]"

definition Description :: "RejectionReason \<Rightarrow> string" where
  "Description r = map char_of (description_bytes r)"

definition NewAdmission :: "Admission \<Rightarrow> ReportAdmission" where
  "NewAdmission a =
     \<lparr>ra_DirectionVerdict = map_option verdict_string (a_DirectionVerdict a),
      ra_Eligible = a_EligibleForPerformanceClaim a,
      ra_EvidenceLevel = level_string (a_EvidenceLevel a),
      ra_RejectionReasons = map (\<lambda>r. \<lparr>rr_Code = reason_code r, rr_Description = Description r\<rparr>) (a_RejectionReasons a),
      ra_Thresholds = \<lparr>th_NoiseRatioLimit = a_NoiseRatioLimit a, th_SignificanceMultiplier = a_SignificanceMultiplier a\<rparr>\<rparr>"

definition toMs :: "duration \<Rightarrow> float64" where
  "toMs d = fl (f64_of_int d / f64_of_int 1000000)"

definition NewSide :: "SideStats \<Rightarrow> duration list \<Rightarrow> ReportSide" where
  "NewSide stats raw =
     \<lparr>side_Name = ss_Name stats, side_Rounds = int (ss_Samples stats), side_RawMs = map toMs raw,
      side_MedianMs = toMs (ss_Median stats), side_ScaledMADMs = toMs (ss_ScaledMAD stats),
      side_NoiseRatio = ss_NoiseRatio stats\<rparr>"

definition NewVerdict :: "Decision \<Rightarrow> ReportVerdict" where
  "NewVerdict d =
     \<lparr>rv_MaxNoiseRatio = d_MaxNoiseRatio d, rv_SignificanceMultiplier = SignificanceMultiplier,
      rv_ThresholdRatio = d_ThresholdRatio d, rv_ThresholdFrom = d_ThresholdFrom d,
      rv_RelativeDelta = d_RelativeDelta d, rv_Verdict = verdict_string (d_Verdict d)\<rparr>"

section \<open>The series\<close>

record SeriesInput =
  in_Source :: string
  in_Report :: BenchResult

record SeriesReason =
  sr_Code :: string
  sr_Source :: string

record SeriesAdmission =
  sa_CalibrationFiles :: "string list"
  sa_MeasurementFile :: string
  sa_Eligible :: bool
  sa_EvidenceLevel :: string
  sa_RejectionReasons :: "SeriesReason list"

datatype series_error =
    TooFewCalibrations | DuplicateCalibration string | EmptyMeasurementSource | EmptySource
  | FingerprintMismatch string string | CalibrationHasMeasurement string

record fingerprint =
  fp_datasetVersion :: string
  fp_snapshotDigest :: string
  fp_mysqlVersion :: string
  fp_caseName :: string
  fp_caseSQL :: string
  fp_caseArgs :: "string list"
  fp_index :: string
  fp_executions :: int

definition fingerprintOf :: "BenchResult \<Rightarrow> fingerprint" where
  "fingerprintOf r =
     \<lparr>fp_datasetVersion = di_DatasetVersion (br_Dataset r), fp_snapshotDigest = si_Digest (br_Snapshot r),
      fp_mysqlVersion = env_MySQL (br_Env r), fp_caseName = ca_Name (br_Case r), fp_caseSQL = ca_SQL (br_Case r),
      fp_caseArgs = ca_Args (br_Case r), fp_index = br_CandidateIndex r, fp_executions = br_ExecutionsPerRound r\<rparr>"

definition fingerprint_diff :: "fingerprint \<Rightarrow> fingerprint \<Rightarrow> string" where
  "fingerprint_diff a b =
     (if fp_datasetVersion a \<noteq> fp_datasetVersion b then ''dataset_version''
      else if fp_snapshotDigest a \<noteq> fp_snapshotDigest b then ''snapshot.digest''
      else if fp_mysqlVersion a \<noteq> fp_mysqlVersion b then ''env.mysql_version''
      else if fp_caseName a \<noteq> fp_caseName b then ''case.name''
      else if fp_caseSQL a \<noteq> fp_caseSQL b then ''case.sql''
      else if fp_caseArgs a \<noteq> fp_caseArgs b then ''case.args''
      else if fp_index a \<noteq> fp_index b then ''candidate_index''
      else if fp_executions a \<noteq> fp_executions b then ''measurement_protocol.executions_per_round''
      else [])"

text \<open>The three loops that can refuse a series.\<close>

fun duplicate_source :: "string list \<Rightarrow> SeriesInput list \<Rightarrow> string option" where
  "duplicate_source seen [] = None"
| "duplicate_source seen (i # is') =
     (if in_Source i \<in> set seen then Some (in_Source i) else duplicate_source (in_Source i # seen) is')"

fun check_inputs :: "fingerprint \<Rightarrow> SeriesInput list \<Rightarrow> series_error option" where
  "check_inputs base [] = None"
| "check_inputs base (i # is') =
     (if in_Source i = [] then Some EmptySource
      else let d = fingerprint_diff base (fingerprintOf (in_Report i))
           in if d \<noteq> [] then Some (FingerprintMismatch (in_Source i) d) else check_inputs base is')"

fun calibration_reasons :: "SeriesInput list \<Rightarrow> SeriesReason list \<Rightarrow> series_error + SeriesReason list" where
  "calibration_reasons [] out = Inr out"
| "calibration_reasons (i # is') out =
     (if br_Measurement (in_Report i) \<noteq> None \<or> br_Verdict (in_Report i) \<noteq> None
      then Inl (CalibrationHasMeasurement (in_Source i))
      else calibration_reasons is'
             (if side_NoiseRatio (ph_Baseline (br_Calibration (in_Report i))) > NoiseRatioLimit
                 \<or> side_NoiseRatio (ph_Candidate (br_Calibration (in_Report i))) > NoiseRatioLimit
              then out @ [\<lparr>sr_Code = ''calibration_noise_exceeds_limit'', sr_Source = in_Source i\<rparr>] else out))"

definition snapshot_reasons :: "SeriesInput list \<Rightarrow> SeriesReason list" where
  "snapshot_reasons is' =
     map (\<lambda>i. \<lparr>sr_Code = ''snapshot_not_verified'', sr_Source = in_Source i\<rparr>)
       (filter (\<lambda>i. \<not> si_Match (br_Snapshot (in_Report i))) is')"

definition measurement_reasons :: "SeriesInput \<Rightarrow> SeriesReason list" where
  "measurement_reasons measurement =
     (let m = in_Report measurement; reason = (\<lambda>code. \<lparr>sr_Code = code, sr_Source = in_Source measurement\<rparr>)
      in (if br_Measurement m = None \<or> br_Verdict m = None \<or> ra_DirectionVerdict (br_Admission m) = None
          then [reason ''measurement_missing_formal_rounds'']
          else if ra_DirectionVerdict (br_Admission m) \<noteq> Some (verdict_string Better)
          then [reason ''measurement_direction_not_better''] else [])
         @ (if \<not> ra_Eligible (br_Admission m) then [reason ''measurement_not_eligible''] else []))"

definition Evaluate :: "SeriesInput list \<Rightarrow> SeriesInput \<Rightarrow> series_error + SeriesAdmission" where
  "Evaluate calibrations measurement =
     (if length calibrations < 2 then Inl TooFewCalibrations
      else case duplicate_source [] calibrations of
        Some s \<Rightarrow> Inl (DuplicateCalibration s)
      | None \<Rightarrow>
          if in_Source measurement = [] then Inl EmptyMeasurementSource
          else (case check_inputs (fingerprintOf (in_Report (hd calibrations))) (calibrations @ [measurement]) of
              Some e \<Rightarrow> Inl e
            | None \<Rightarrow>
                (case calibration_reasons calibrations (snapshot_reasons (calibrations @ [measurement])) of
                   Inl e \<Rightarrow> Inl e
                 | Inr reasons \<Rightarrow>
                     (let all = reasons @ measurement_reasons measurement
                      in Inr \<lparr>sa_CalibrationFiles = map in_Source calibrations, sa_MeasurementFile = in_Source measurement,
                              sa_Eligible = (length all = 0),
                              sa_EvidenceLevel = (if length all = 0 then ''L2'' else ''L1''),
                              sa_RejectionReasons = all\<rparr>))))"

section \<open>What an evaluation establishes\<close>

lemma duplicate_source_None:
  "duplicate_source seen is' = None \<longleftrightarrow> distinct (map in_Source is') \<and> set (map in_Source is') \<inter> set seen = {}"
  by (induction is' arbitrary: seen) auto

lemma fingerprint_diff_Nil: "fingerprint_diff a b = [] \<longleftrightarrow> a = b"
  by (auto simp: fingerprint_diff_def)

lemma check_inputs_None:
  "check_inputs base is' = None \<longleftrightarrow> (\<forall>i \<in> set is'. in_Source i \<noteq> [] \<and> fingerprintOf (in_Report i) = base)"
  by (induction is') (auto simp: Let_def fingerprint_diff_Nil)

definition quiet_calibration :: "SeriesInput \<Rightarrow> bool" where
  "quiet_calibration i \<longleftrightarrow>
     side_NoiseRatio (ph_Baseline (br_Calibration (in_Report i))) \<le> NoiseRatioLimit
     \<and> side_NoiseRatio (ph_Candidate (br_Calibration (in_Report i))) \<le> NoiseRatioLimit"

definition noise_reason :: "SeriesInput \<Rightarrow> SeriesReason" where
  "noise_reason i = \<lparr>sr_Code = ''calibration_noise_exceeds_limit'', sr_Source = in_Source i\<rparr>"

definition pure_calibration :: "SeriesInput \<Rightarrow> bool" where
  "pure_calibration i \<longleftrightarrow> br_Measurement (in_Report i) = None \<and> br_Verdict (in_Report i) = None"

lemma calibration_reasons_step:
  "calibration_reasons (i # is') out =
     (if \<not> pure_calibration i then Inl (CalibrationHasMeasurement (in_Source i))
      else calibration_reasons is' (out @ (if quiet_calibration i then [] else [noise_reason i])))"
  by (auto simp: pure_calibration_def quiet_calibration_def noise_reason_def)

lemma calibration_reasons_Inr:
  "calibration_reasons is' out = Inr rs \<longleftrightarrow>
     (\<forall>i \<in> set is'. pure_calibration i) \<and> rs = out @ map noise_reason (filter (\<lambda>i. \<not> quiet_calibration i) is')"
proof (induction is' arbitrary: out)
  case (Cons i is')
  show ?case unfolding calibration_reasons_step by (simp add: Cons)
qed auto

definition comparable_series :: "SeriesInput list \<Rightarrow> SeriesInput \<Rightarrow> bool" where
  "comparable_series cs m \<longleftrightarrow>
     2 \<le> length cs \<and> distinct (map in_Source cs) \<and> (\<forall>i \<in> set cs. pure_calibration i)
     \<and> (\<forall>i \<in> set (cs @ [m]). in_Source i \<noteq> [])
     \<and> (\<forall>i \<in> set cs. fingerprintOf (in_Report i) = fingerprintOf (in_Report m))"

definition series_reasons :: "SeriesInput list \<Rightarrow> SeriesInput \<Rightarrow> SeriesReason list" where
  "series_reasons cs m =
     snapshot_reasons (cs @ [m]) @ map noise_reason (filter (\<lambda>i. \<not> quiet_calibration i) cs) @ measurement_reasons m"

lemma same_base:
  "cs \<noteq> [] \<Longrightarrow> (\<forall>i \<in> set (cs @ [m]). f i = f (hd cs)) \<longleftrightarrow> (\<forall>i \<in> set cs. f i = f m)"
  by (cases cs) auto

lemma Evaluate_Inr:
  "Evaluate cs m = Inr a \<longleftrightarrow> comparable_series cs m \<and>
     a = \<lparr>sa_CalibrationFiles = map in_Source cs, sa_MeasurementFile = in_Source m,
          sa_Eligible = (series_reasons cs m = []),
          sa_EvidenceLevel = (if series_reasons cs m = [] then ''L2'' else ''L1''),
          sa_RejectionReasons = series_reasons cs m\<rparr>"
proof (cases "length cs < 2")
  case True
  then show ?thesis by (simp add: Evaluate_def comparable_series_def)
next
  case False
  then have "cs \<noteq> []" by auto
  note base = same_base [where f = "\<lambda>i. fingerprintOf (in_Report i)" and m = m, OF this]
  have checks: "check_inputs (fingerprintOf (in_Report (hd cs))) (cs @ [m]) = None \<longleftrightarrow>
      (\<forall>i \<in> set (cs @ [m]). in_Source i \<noteq> []) \<and> (\<forall>i \<in> set cs. fingerprintOf (in_Report i) = fingerprintOf (in_Report m))"
    unfolding check_inputs_None using base by blast
  show ?thesis
  proof (cases "duplicate_source [] cs = None \<and> in_Source m \<noteq> []
      \<and> check_inputs (fingerprintOf (in_Report (hd cs))) (cs @ [m]) = None")
    case True
    have "comparable_series cs m \<longleftrightarrow> (\<forall>i \<in> set cs. pure_calibration i)"
      using True False unfolding checks duplicate_source_None by (auto simp: comparable_series_def)
    moreover have "Evaluate cs m = Inr a \<longleftrightarrow> (\<exists>rs. calibration_reasons cs (snapshot_reasons (cs @ [m])) = Inr rs \<and>
        a = \<lparr>sa_CalibrationFiles = map in_Source cs, sa_MeasurementFile = in_Source m,
             sa_Eligible = (rs @ measurement_reasons m = []),
             sa_EvidenceLevel = (if rs @ measurement_reasons m = [] then ''L2'' else ''L1''),
             sa_RejectionReasons = rs @ measurement_reasons m\<rparr>)"
      using True False
      by (cases "calibration_reasons cs (snapshot_reasons (cs @ [m]))") (auto simp: Evaluate_def Let_def)
    ultimately show ?thesis
      unfolding calibration_reasons_Inr series_reasons_def by auto
  next
    case bad: False
    then have "\<not> comparable_series cs m"
      unfolding checks duplicate_source_None by (auto simp: comparable_series_def)
    moreover have "\<not> (\<exists>a. Evaluate cs m = Inr a)"
      using bad False by (auto simp: Evaluate_def split: option.splits)
    ultimately show ?thesis by blast
  qed
qed

definition direction_better :: "BenchResult \<Rightarrow> bool" where
  "direction_better r \<longleftrightarrow> br_Measurement r \<noteq> None \<and> br_Verdict r \<noteq> None
     \<and> ra_DirectionVerdict (br_Admission r) = Some ''Better''"

lemma series_reasons_Nil:
  "series_reasons cs m = [] \<longleftrightarrow>
     (\<forall>i \<in> set (cs @ [m]). si_Match (br_Snapshot (in_Report i))) \<and> (\<forall>i \<in> set cs. quiet_calibration i)
     \<and> direction_better (in_Report m) \<and> ra_Eligible (br_Admission (in_Report m))"
  by (auto simp: series_reasons_def snapshot_reasons_def measurement_reasons_def direction_better_def Let_def
      filter_empty_conv)

section \<open>Properties\<close>

text \<open>
  C35: A series is evaluated exactly when it has at least two calibrations under distinct, non-empty
  paths, none of which contains a formal measurement or a verdict, and every report has the same
  data set, snapshot, server version, case, index and protocol.  It then claims performance (level
  L2, no rejection reason) exactly when every snapshot was verified, every calibration is within the
  noise limit on both sides, and the measurement exists, points in the direction Better and was
  itself eligible.
\<close>

theorem series_claims_exactly_when_backed:
  "((\<exists>a. Evaluate cs m = Inr a) \<longleftrightarrow> comparable_series cs m)
   \<and> (case Evaluate cs m of Inl e \<Rightarrow> True
      | Inr a \<Rightarrow>
          (sa_Eligible a \<longleftrightarrow>
             (\<forall>i \<in> set (cs @ [m]). si_Match (br_Snapshot (in_Report i))) \<and> (\<forall>i \<in> set cs. quiet_calibration i)
             \<and> direction_better (in_Report m) \<and> ra_Eligible (br_Admission (in_Report m)))
          \<and> (sa_EvidenceLevel a = ''L2'' \<longleftrightarrow> sa_Eligible a) \<and> (sa_RejectionReasons a = [] \<longleftrightarrow> sa_Eligible a)
          \<and> sa_CalibrationFiles a = map in_Source cs \<and> sa_MeasurementFile a = in_Source m)"
proof -
  have ex: "(\<exists>a. Evaluate cs m = Inr a) \<longleftrightarrow> comparable_series cs m"
    using Evaluate_Inr by blast
  show ?thesis
  proof (cases "Evaluate cs m")
    case (Inl e)
    then show ?thesis unfolding ex [symmetric] by simp
  next
    case (Inr a)
    then have "comparable_series cs m" and a: "a =
      \<lparr>sa_CalibrationFiles = map in_Source cs, sa_MeasurementFile = in_Source m,
       sa_Eligible = (series_reasons cs m = []),
       sa_EvidenceLevel = (if series_reasons cs m = [] then ''L2'' else ''L1''),
       sa_RejectionReasons = series_reasons cs m\<rparr>"
      by (simp_all add: Evaluate_Inr)
    with Inr show ?thesis
      unfolding ex [symmetric] series_reasons_Nil [symmetric] by simp
  qed
qed

definition quiet_side :: ReportSide where
  "quiet_side = \<lparr>side_Name = ''baseline'', side_Rounds = 20, side_RawMs = [], side_MedianMs = 0,
     side_ScaledMADMs = 0, side_NoiseRatio = 0\<rparr>"

definition sample_phase :: "string \<Rightarrow> Phase" where
  "sample_phase mode = \<lparr>ph_Mode = mode, ph_Baseline = quiet_side, ph_Candidate = quiet_side\<rparr>"

definition sample_bench :: "Phase option \<Rightarrow> ReportVerdict option \<Rightarrow> string option \<Rightarrow> BenchResult" where
  "sample_bench measured verdict direction =
     \<lparr>br_GeneratedAt = [], br_Env = \<lparr>env_OS = [], env_Arch = [], env_GoVersion = [], env_MySQL = ''8''\<rparr>,
      br_Dataset = \<lparr>di_Seed = 1, di_Rows = 100, di_DatasetVersion = ''v1'', di_SchemaVersion = [],
        di_GeneratorVersion = [], di_DistributionVersion = []\<rparr>,
      br_Snapshot = \<lparr>si_Digest = ''d'', si_Rows = 100, si_Match = True\<rparr>,
      br_Case = \<lparr>ca_Name = ''c'', ca_SQL = ''q'', ca_Args = []\<rparr>, br_CandidateIndex = ''i'',
      br_ExecutionsPerRound = 5, br_Calibration = sample_phase ''calibration'', br_Measurement = measured,
      br_Verdict = verdict,
      br_Admission = \<lparr>ra_DirectionVerdict = direction, ra_Eligible = (measured \<noteq> None), ra_EvidenceLevel = ''L2'',
        ra_RejectionReasons = [], ra_Thresholds = \<lparr>th_NoiseRatioLimit = 0, th_SignificanceMultiplier = 0\<rparr>\<rparr>\<rparr>"

definition sample_calibrations :: "SeriesInput list" where
  "sample_calibrations =
     [\<lparr>in_Source = ''a.json'', in_Report = sample_bench None None None\<rparr>,
      \<lparr>in_Source = ''b.json'', in_Report = sample_bench None None None\<rparr>]"

definition sample_measurement :: SeriesInput where
  "sample_measurement =
     \<lparr>in_Source = ''m.json'',
      in_Report = sample_bench (Some (sample_phase ''measurement''))
        (Some \<lparr>rv_MaxNoiseRatio = 0, rv_SignificanceMultiplier = 0, rv_ThresholdRatio = 0, rv_ThresholdFrom = [],
               rv_RelativeDelta = 0, rv_Verdict = ''Better''\<rparr>) (Some ''Better'')\<rparr>"

lemmas series_samples =
  sample_calibrations_def sample_measurement_def sample_bench_def sample_phase_def quiet_side_def

theorem series_claims_exactly_when_backed_witness:
  "(\<exists>a. Evaluate sample_calibrations sample_measurement = Inr a \<and> sa_Eligible a \<and> sa_EvidenceLevel a = ''L2'')
   \<and> \<not> (\<exists>a. Evaluate (sample_calibrations @ sample_calibrations) sample_measurement = Inr a)"
proof -
  have "comparable_series sample_calibrations sample_measurement"
    by (simp add: comparable_series_def series_samples pure_calibration_def fingerprintOf_def)
  moreover have "\<forall>i \<in> set sample_calibrations. quiet_calibration i"
    by (simp add: series_samples quiet_calibration_def NoiseRatioLimit_def)
  moreover have "\<forall>i \<in> set (sample_calibrations @ [sample_measurement]). si_Match (br_Snapshot (in_Report i))"
    "direction_better (in_Report sample_measurement)" "ra_Eligible (br_Admission (in_Report sample_measurement))"
    by (simp_all add: series_samples direction_better_def)
  moreover have "\<not> comparable_series (sample_calibrations @ sample_calibrations) sample_measurement"
    by (simp add: comparable_series_def sample_calibrations_def)
  ultimately show ?thesis
    using series_claims_exactly_when_backed [of sample_calibrations sample_measurement]
      series_claims_exactly_when_backed [of "sample_calibrations @ sample_calibrations" sample_measurement]
    by auto
qed

end
