(* ===== verification/Evidence_Bind.thy ===== *)
theory Evidence_Bind
  imports Diagnosis Report_Series
begin

text \<open>
  \<open>internal/evidencebind/bind.go\<close>: the binding of an L1 diagnosis to the measurement and the series
  that are meant to verify it.  SHA-256 in hexadecimal and the current time are parameters.
\<close>

section \<open>Numbers in the reports\<close>

text \<open>\<open>strconv.ParseFloat(lit, 64)\<close> on a JSON number: the value of the literal, rounded to the
  nearest \<open>float64\<close> (subnormals included), out of range from \<open>2^1024\<close> on.\<close>

definition pow10 :: "int \<Rightarrow> rat" where
  "pow10 e = (if 0 \<le> e then 10 ^ nat e else 1 / 10 ^ nat (- e))"

definition float_lit :: "string \<Rightarrow> rat" where
  "float_lit lit =
     (let body = (if HasPrefix lit ''-'' then drop 1 lit else lit);
          ip = takeWhile is_digit_byte body;
          r = dropWhile is_digit_byte body;
          fp = (if HasPrefix r ''.'' then takeWhile is_digit_byte (drop 1 r) else []);
          e = (if HasPrefix r ''.'' then dropWhile is_digit_byte (drop 1 r) else r);
          ds = drop 1 e;
          ex = (if e = [] then 0
                else if HasPrefix ds ''-'' then - int (digits_val (drop 1 ds))
                else if HasPrefix ds ''+'' then int (digits_val (drop 1 ds))
                else int (digits_val ds));
          v = of_nat (digits_val (ip @ fp)) * pow10 (ex - int (length fp))
      in if HasPrefix lit ''-'' then - v else v)"

definition parse_float :: "string \<Rightarrow> float64 option" where
  "parse_float lit =
     (let x = float_lit lit;
          u = pow2 (max (ilog2 \<bar>x\<bar> - 52) (- 1074));
          y = (if x = 0 then 0 else of_int (round_half_even (x / u)) * u)
      in if \<bar>y\<bar> < pow2 1024 then Some y else None)"

definition set_float :: "(float64 \<Rightarrow> 'r \<Rightarrow> 'r) \<Rightarrow> 'r field_setter" where
  "set_float upd v r =
     (case v of JNum n \<Rightarrow> map_option (\<lambda>x. upd x r) (parse_float n) | JNull \<Rightarrow> Some r | _ \<Rightarrow> None)"

definition plain_float :: "float64 field_setter" where
  "plain_float = set_float (\<lambda>x _. x)"

definition set_uint :: "(int \<Rightarrow> 'r \<Rightarrow> 'r) \<Rightarrow> 'r field_setter" where
  "set_uint upd v r =
     (case v of
        JNum n \<Rightarrow> if n \<noteq> [] \<and> list_all is_digit_byte n \<and> digits_val n < 2 ^ 64
                   then Some (upd (int (digits_val n)) r) else None
      | JNull \<Rightarrow> Some r
      | _ \<Rightarrow> None)"

section \<open>The diagnosis and the series as JSON\<close>

definition source_fields :: "(string \<times> DiagSource field_setter) list" where
  "source_fields =
     [(''sha256'', set_string (\<lambda>x s. s\<lparr>ds_SHA256 := x\<rparr>)), (''generated_at'', set_string (\<lambda>x s. s\<lparr>ds_GeneratedAt := x\<rparr>)),
      (''mysql_version'', set_string (\<lambda>x s. s\<lparr>ds_MySQLVersion := x\<rparr>)),
      (''snapshot_digest'', set_string (\<lambda>x s. s\<lparr>ds_Snapshot := x\<rparr>))]"

definition fact_fields :: "(string \<times> Fact field_setter) list" where
  "fact_fields =
     [(''field'', set_string (\<lambda>x f. f\<lparr>fa_Field := x\<rparr>)), (''value'', set_string (\<lambda>x f. f\<lparr>fa_Value := x\<rparr>))]"

definition zero_fact :: Fact where
  "zero_fact = \<lparr>fa_Field = [], fa_Value = []\<rparr>"

definition hypothesis_fields :: "(string \<times> Hypothesis field_setter) list" where
  "hypothesis_fields =
     [(''code'', set_string (\<lambda>x h. h\<lparr>hy_Code := x\<rparr>)),
      (''evidence_level'', set_string (\<lambda>x h. h\<lparr>hy_EvidenceLevel := x\<rparr>)),
      (''statement'', set_string (\<lambda>x h. h\<lparr>hy_Statement := x\<rparr>)),
      (''facts'', set_slice (decode_struct fact_fields) zero_fact hy_Facts (\<lambda>x h. h\<lparr>hy_Facts := x\<rparr>)),
      (''required_verification'', set_strings hy_RequiredVerification (\<lambda>x h. h\<lparr>hy_RequiredVerification := x\<rparr>))]"

definition zero_hypothesis :: Hypothesis where
  "zero_hypothesis = \<lparr>hy_Code = [], hy_EvidenceLevel = [], hy_Statement = [], hy_Facts = [], hy_RequiredVerification = []\<rparr>"

definition diag_fields :: "(string \<times> DiagReport field_setter) list" where
  "diag_fields =
     [(''generated_at'', set_string (\<lambda>x d. d\<lparr>dg_GeneratedAt := x\<rparr>)),
      (''evidence_level'', set_string (\<lambda>x d. d\<lparr>dg_EvidenceLevel := x\<rparr>)),
      (''eligible_for_performance_claim'', set_bool (\<lambda>x d. d\<lparr>dg_Eligible := x\<rparr>)),
      (''source'', set_nested (decode_struct source_fields) dg_Source (\<lambda>x d. d\<lparr>dg_Source := x\<rparr>)),
      (''hypotheses'', set_slice (decode_struct hypothesis_fields) zero_hypothesis dg_Hypotheses (\<lambda>x d. d\<lparr>dg_Hypotheses := x\<rparr>)),
      (''unresolved'', set_strings dg_Unresolved (\<lambda>x d. d\<lparr>dg_Unresolved := x\<rparr>))]"

definition zero_diag :: DiagReport where
  "zero_diag = \<lparr>dg_GeneratedAt = [], dg_EvidenceLevel = [], dg_Eligible = False,
     dg_Source = \<lparr>ds_SHA256 = [], ds_GeneratedAt = [], ds_MySQLVersion = [], ds_Snapshot = []\<rparr>,
     dg_Hypotheses = [], dg_Unresolved = []\<rparr>"

definition series_reason_fields :: "(string \<times> SeriesReason field_setter) list" where
  "series_reason_fields =
     [(''code'', set_string (\<lambda>x r. r\<lparr>sr_Code := x\<rparr>)), (''source'', set_string (\<lambda>x r. r\<lparr>sr_Source := x\<rparr>))]"

definition series_fields :: "(string \<times> SeriesAdmission field_setter) list" where
  "series_fields =
     [(''calibration_files'', set_strings sa_CalibrationFiles (\<lambda>x s. s\<lparr>sa_CalibrationFiles := x\<rparr>)),
      (''measurement_file'', set_string (\<lambda>x s. s\<lparr>sa_MeasurementFile := x\<rparr>)),
      (''eligible_for_performance_claim'', set_bool (\<lambda>x s. s\<lparr>sa_Eligible := x\<rparr>)),
      (''evidence_level'', set_string (\<lambda>x s. s\<lparr>sa_EvidenceLevel := x\<rparr>)),
      (''rejection_reasons'', set_slice (decode_struct series_reason_fields) \<lparr>sr_Code = [], sr_Source = []\<rparr>
         sa_RejectionReasons (\<lambda>x s. s\<lparr>sa_RejectionReasons := x\<rparr>))]"

definition zero_series :: SeriesAdmission where
  "zero_series = \<lparr>sa_CalibrationFiles = [], sa_MeasurementFile = [], sa_Eligible = False, sa_EvidenceLevel = [],
     sa_RejectionReasons = []\<rparr>"

section \<open>The bench report as JSON\<close>

definition side_fields :: "(string \<times> ReportSide field_setter) list" where
  "side_fields =
     [(''name'', set_string (\<lambda>x s. s\<lparr>side_Name := x\<rparr>)), (''rounds'', set_int (\<lambda>x s. s\<lparr>side_Rounds := x\<rparr>)),
      (''raw_ms'', set_slice plain_float 0 side_RawMs (\<lambda>x s. s\<lparr>side_RawMs := x\<rparr>)),
      (''median_ms'', set_float (\<lambda>x s. s\<lparr>side_MedianMs := x\<rparr>)),
      (''scaled_mad_ms'', set_float (\<lambda>x s. s\<lparr>side_ScaledMADMs := x\<rparr>)),
      (''noise_ratio'', set_float (\<lambda>x s. s\<lparr>side_NoiseRatio := x\<rparr>))]"

definition phase_fields :: "(string \<times> Phase field_setter) list" where
  "phase_fields =
     [(''mode'', set_string (\<lambda>x p. p\<lparr>ph_Mode := x\<rparr>)),
      (''baseline'', set_nested (decode_struct side_fields) ph_Baseline (\<lambda>x p. p\<lparr>ph_Baseline := x\<rparr>)),
      (''candidate'', set_nested (decode_struct side_fields) ph_Candidate (\<lambda>x p. p\<lparr>ph_Candidate := x\<rparr>))]"

definition verdict_fields :: "(string \<times> ReportVerdict field_setter) list" where
  "verdict_fields =
     [(''max_noise_ratio'', set_float (\<lambda>x v. v\<lparr>rv_MaxNoiseRatio := x\<rparr>)),
      (''significance_multiplier'', set_float (\<lambda>x v. v\<lparr>rv_SignificanceMultiplier := x\<rparr>)),
      (''threshold_ratio'', set_float (\<lambda>x v. v\<lparr>rv_ThresholdRatio := x\<rparr>)),
      (''threshold_from'', set_string (\<lambda>x v. v\<lparr>rv_ThresholdFrom := x\<rparr>)),
      (''relative_delta'', set_float (\<lambda>x v. v\<lparr>rv_RelativeDelta := x\<rparr>)),
      (''verdict'', set_string (\<lambda>x v. v\<lparr>rv_Verdict := x\<rparr>))]"

definition admission_fields :: "(string \<times> ReportAdmission field_setter) list" where
  "admission_fields =
     [(''direction_verdict'', set_pointer plain_string [] ra_DirectionVerdict (\<lambda>x a. a\<lparr>ra_DirectionVerdict := x\<rparr>)),
      (''eligible_for_performance_claim'', set_bool (\<lambda>x a. a\<lparr>ra_Eligible := x\<rparr>)),
      (''evidence_level'', set_string (\<lambda>x a. a\<lparr>ra_EvidenceLevel := x\<rparr>)),
      (''rejection_reasons'',
        set_slice (decode_struct [(''code'', set_string (\<lambda>x r. r\<lparr>rr_Code := x\<rparr>)),
            (''description'', set_string (\<lambda>x r. r\<lparr>rr_Description := x\<rparr>))])
          \<lparr>rr_Code = [], rr_Description = []\<rparr> ra_RejectionReasons (\<lambda>x a. a\<lparr>ra_RejectionReasons := x\<rparr>)),
      (''admission_thresholds'',
        set_nested (decode_struct [(''noise_ratio_limit'', set_float (\<lambda>x t. t\<lparr>th_NoiseRatioLimit := x\<rparr>)),
            (''significance_multiplier'', set_float (\<lambda>x t. t\<lparr>th_SignificanceMultiplier := x\<rparr>))])
          ra_Thresholds (\<lambda>x a. a\<lparr>ra_Thresholds := x\<rparr>))]"

definition dataset_fields :: "(string \<times> DatasetInfo field_setter) list" where
  "dataset_fields =
     [(''seed'', set_uint (\<lambda>x d. d\<lparr>di_Seed := x\<rparr>)), (''rows'', set_int (\<lambda>x d. d\<lparr>di_Rows := x\<rparr>)),
      (''dataset_version'', set_string (\<lambda>x d. d\<lparr>di_DatasetVersion := x\<rparr>)),
      (''schema_version'', set_string (\<lambda>x d. d\<lparr>di_SchemaVersion := x\<rparr>)),
      (''generator_version'', set_string (\<lambda>x d. d\<lparr>di_GeneratorVersion := x\<rparr>)),
      (''distribution_version'', set_string (\<lambda>x d. d\<lparr>di_DistributionVersion := x\<rparr>))]"

definition zero_side :: ReportSide where
  "zero_side = \<lparr>side_Name = [], side_Rounds = 0, side_RawMs = [], side_MedianMs = 0, side_ScaledMADMs = 0, side_NoiseRatio = 0\<rparr>"

definition zero_phase :: Phase where
  "zero_phase = \<lparr>ph_Mode = [], ph_Baseline = zero_side, ph_Candidate = zero_side\<rparr>"

definition zero_verdict :: ReportVerdict where
  "zero_verdict = \<lparr>rv_MaxNoiseRatio = 0, rv_SignificanceMultiplier = 0, rv_ThresholdRatio = 0, rv_ThresholdFrom = [],
     rv_RelativeDelta = 0, rv_Verdict = []\<rparr>"

definition zero_bench :: BenchResult where
  "zero_bench =
     \<lparr>br_GeneratedAt = [], br_Env = \<lparr>env_OS = [], env_Arch = [], env_GoVersion = [], env_MySQL = []\<rparr>,
      br_Dataset = \<lparr>di_Seed = 0, di_Rows = 0, di_DatasetVersion = [], di_SchemaVersion = [], di_GeneratorVersion = [],
        di_DistributionVersion = []\<rparr>,
      br_Snapshot = \<lparr>si_Digest = [], si_Rows = 0, si_Match = False\<rparr>,
      br_Case = \<lparr>ca_Name = [], ca_SQL = [], ca_Args = []\<rparr>, br_CandidateIndex = [], br_ExecutionsPerRound = 0,
      br_Calibration = zero_phase, br_Measurement = None, br_Verdict = None,
      br_Admission = \<lparr>ra_DirectionVerdict = None, ra_Eligible = False, ra_EvidenceLevel = [], ra_RejectionReasons = [],
        ra_Thresholds = \<lparr>th_NoiseRatioLimit = 0, th_SignificanceMultiplier = 0\<rparr>\<rparr>\<rparr>"

definition bench_fields :: "(string \<times> BenchResult field_setter) list" where
  "bench_fields =
     [(''generated_at'', set_string (\<lambda>x r. r\<lparr>br_GeneratedAt := x\<rparr>)),
      (''env'', set_nested (decode_struct [(''os'', set_string (\<lambda>x e. e\<lparr>env_OS := x\<rparr>)),
          (''arch'', set_string (\<lambda>x e. e\<lparr>env_Arch := x\<rparr>)), (''go_version'', set_string (\<lambda>x e. e\<lparr>env_GoVersion := x\<rparr>)),
          (''mysql_version'', set_string (\<lambda>x e. e\<lparr>env_MySQL := x\<rparr>))]) br_Env (\<lambda>x r. r\<lparr>br_Env := x\<rparr>)),
      (''dataset'', set_nested (decode_struct dataset_fields) br_Dataset (\<lambda>x r. r\<lparr>br_Dataset := x\<rparr>)),
      (''snapshot'', set_nested (decode_struct [(''digest'', set_string (\<lambda>x s. s\<lparr>si_Digest := x\<rparr>)),
          (''rows'', set_int (\<lambda>x s. s\<lparr>si_Rows := x\<rparr>)), (''match'', set_bool (\<lambda>x s. s\<lparr>si_Match := x\<rparr>))])
         br_Snapshot (\<lambda>x r. r\<lparr>br_Snapshot := x\<rparr>)),
      (''case'', set_nested (decode_struct [(''name'', set_string (\<lambda>x c. c\<lparr>ca_Name := x\<rparr>)),
          (''sql'', set_string (\<lambda>x c. c\<lparr>ca_SQL := x\<rparr>)), (''args'', set_strings ca_Args (\<lambda>x c. c\<lparr>ca_Args := x\<rparr>))])
         br_Case (\<lambda>x r. r\<lparr>br_Case := x\<rparr>)),
      (''candidate_index'', set_string (\<lambda>x r. r\<lparr>br_CandidateIndex := x\<rparr>)),
      (''measurement_protocol'', set_nested (decode_struct [(''executions_per_round'', plain_int)])
         br_ExecutionsPerRound (\<lambda>x r. r\<lparr>br_ExecutionsPerRound := x\<rparr>)),
      (''calibration'', set_nested (decode_struct phase_fields) br_Calibration (\<lambda>x r. r\<lparr>br_Calibration := x\<rparr>)),
      (''measurement'', set_pointer (decode_struct phase_fields) zero_phase br_Measurement (\<lambda>x r. r\<lparr>br_Measurement := x\<rparr>)),
      (''verdict'', set_pointer (decode_struct verdict_fields) zero_verdict br_Verdict (\<lambda>x r. r\<lparr>br_Verdict := x\<rparr>)),
      (''admission'', set_nested (decode_struct admission_fields) br_Admission (\<lambda>x r. r\<lparr>br_Admission := x\<rparr>))]"

section \<open>The binding\<close>

text \<open>\<open>filepath.Base\<close> on a Unix path.\<close>

definition path_base :: "string \<Rightarrow> string" where
  "path_base path =
     (if path = [] then ''.''
      else let p = rev (dropWhile (\<lambda>c. c = CHR ''/'') (rev path))
           in if p = [] then ''/'' else rev (takeWhile (\<lambda>c. c \<noteq> CHR ''/'') (rev p)))"

record BindSource =
  bs_DiagnosisSHA256 :: string
  bs_ComparisonSHA256 :: string
  bs_SnapshotDigest :: string
  bs_MySQLVersion :: string
  bs_MeasurementFile :: string
  bs_CandidateIndex :: string

record HypothesisBinding =
  hb_Code :: string
  hb_Bound :: bool

record BindReport =
  bd_GeneratedAt :: string
  bd_EvidenceLevel :: string
  bd_Eligible :: bool
  bd_BindingComplete :: bool
  bd_Source :: BindSource
  bd_Hypotheses :: "HypothesisBinding list"
  bd_RejectionReasons :: "string list"

datatype bind_error =
    DiagnosisDecode | ComparisonDecode | MeasurementDecode | SeriesDecode
  | DiagnosisNotL1 | ComparisonNotL1 | NoHypotheses

definition identity_reasons ::
  "DiagReport \<Rightarrow> string \<Rightarrow> PlanReport \<Rightarrow> BenchResult \<Rightarrow> SeriesAdmission \<Rightarrow> string \<Rightarrow> string list" where
  "identity_reasons d comparisonDigest c m s measurementPath =
     (if ds_SHA256 (dg_Source d) \<noteq> comparisonDigest then [''diagnosis_source_sha_mismatch''] else [])
     @ (if ds_Snapshot (dg_Source d) \<noteq> ps_Digest (pc_Snapshot c) then [''diagnosis_snapshot_mismatch''] else [])
     @ (if ds_MySQLVersion (dg_Source d) \<noteq> pc_MySQLVersion c then [''diagnosis_mysql_version_mismatch''] else [])
     @ (if si_Digest (br_Snapshot m) \<noteq> ps_Digest (pc_Snapshot c) then [''measurement_snapshot_mismatch''] else [])
     @ (if env_MySQL (br_Env m) \<noteq> pc_MySQLVersion c then [''measurement_mysql_version_mismatch''] else [])
     @ (if ca_SQL (br_Case m) \<noteq> pq_SQL (pc_SQL c) then [''measurement_sql_mismatch''] else [])
     @ (if br_CandidateIndex m \<noteq> px_Name (pc_CandidateIndex c) then [''candidate_index_mismatch''] else [])
     @ (if path_base measurementPath \<noteq> path_base (sa_MeasurementFile s) then [''series_measurement_file_mismatch''] else [])"

definition Bind ::
  "(string \<Rightarrow> string) \<Rightarrow> string \<Rightarrow> DiagReport \<Rightarrow> string \<Rightarrow> PlanReport \<Rightarrow> string \<Rightarrow> BenchResult \<Rightarrow> SeriesAdmission \<Rightarrow> string
     \<Rightarrow> bind_error + BindReport" where
  "Bind sha256_hex now_text d diagnosisRaw c comparisonRaw m s measurementPath =
     (if dg_EvidenceLevel d \<noteq> ''L1'' \<or> dg_Eligible d then Inl DiagnosisNotL1
      else if pc_EvidenceLevel c \<noteq> ''L1'' \<or> pc_Eligible c then Inl ComparisonNotL1
      else if length (dg_Hypotheses d) = 0 then Inl NoHypotheses
      else
        let diagnosisDigest = sha256_hex diagnosisRaw;
            comparisonDigest = sha256_hex comparisonRaw;
            reasons = identity_reasons d comparisonDigest c m s measurementPath;
            identityComplete = (length reasons = 0);
            reasons = reasons @ (if \<not> sa_Eligible s then [''series_not_eligible''] else [])
              @ (if sa_EvidenceLevel s \<noteq> ''L2'' then [''series_evidence_level_not_l2''] else []);
            eligible = (identityComplete \<and> sa_Eligible s \<and> sa_EvidenceLevel s = ''L2'')
        in Inr \<lparr>bd_GeneratedAt = now_text, bd_EvidenceLevel = (if eligible then ''L2'' else ''L1''), bd_Eligible = eligible,
                bd_BindingComplete = identityComplete,
                bd_Source = \<lparr>bs_DiagnosisSHA256 = diagnosisDigest, bs_ComparisonSHA256 = comparisonDigest,
                  bs_SnapshotDigest = ps_Digest (pc_Snapshot c), bs_MySQLVersion = pc_MySQLVersion c,
                  bs_MeasurementFile = path_base measurementPath, bs_CandidateIndex = px_Name (pc_CandidateIndex c)\<rparr>,
                bd_Hypotheses = map (\<lambda>h. \<lparr>hb_Code = hy_Code h, hb_Bound = eligible\<rparr>) (dg_Hypotheses d),
                bd_RejectionReasons = reasons\<rparr>)"

definition bind_analyze ::
  "(string \<Rightarrow> string) \<Rightarrow> string \<Rightarrow> string \<Rightarrow> string \<Rightarrow> string \<Rightarrow> string \<Rightarrow> string \<Rightarrow> bind_error + BindReport" where
  "bind_analyze sha256_hex now_text diagnosisRaw comparisonRaw measurementRaw seriesRaw measurementPath =
     (case decode_strict diag_fields zero_diag diagnosisRaw of None \<Rightarrow> Inl DiagnosisDecode
      | Some d \<Rightarrow>
     (case decodeComparison comparisonRaw of None \<Rightarrow> Inl ComparisonDecode
      | Some c \<Rightarrow>
     (case decode_strict bench_fields zero_bench measurementRaw of None \<Rightarrow> Inl MeasurementDecode
      | Some m \<Rightarrow>
     (case decode_strict series_fields zero_series seriesRaw of None \<Rightarrow> Inl SeriesDecode
      | Some s \<Rightarrow> Bind sha256_hex now_text d diagnosisRaw c comparisonRaw m s measurementPath))))"

section \<open>What a bound claim rests on\<close>

definition matching_evidence ::
  "DiagReport \<Rightarrow> string \<Rightarrow> PlanReport \<Rightarrow> BenchResult \<Rightarrow> SeriesAdmission \<Rightarrow> string \<Rightarrow> bool" where
  "matching_evidence d comparisonDigest c m s path \<longleftrightarrow>
     ds_SHA256 (dg_Source d) = comparisonDigest
     \<and> (\<forall>x \<in> {ds_Snapshot (dg_Source d), si_Digest (br_Snapshot m)}. x = ps_Digest (pc_Snapshot c))
     \<and> (\<forall>x \<in> {ds_MySQLVersion (dg_Source d), env_MySQL (br_Env m)}. x = pc_MySQLVersion c)
     \<and> ca_SQL (br_Case m) = pq_SQL (pc_SQL c) \<and> br_CandidateIndex m = px_Name (pc_CandidateIndex c)
     \<and> path_base path = path_base (sa_MeasurementFile s)"

lemma identity_reasons_Nil: "identity_reasons d dig c m s path = [] \<longleftrightarrow> matching_evidence d dig c m s path"
  by (auto simp: identity_reasons_def matching_evidence_def)

lemma path_base_no_slash:
  assumes "CHR ''/'' \<in> set (path_base p)"
  shows "path_base p = ''/''"
proof -
  have "c \<noteq> CHR ''/''" if "c \<in> set (takeWhile (\<lambda>c. c \<noteq> CHR ''/'') xs)" for c xs
    using that by (auto dest: set_takeWhileD)
  then show ?thesis using assms by (auto simp: path_base_def Let_def split: if_splits)
qed

section \<open>Properties\<close>

lemma Bind_Inr:
  "Bind sha256_hex now_text d draw c craw m s path = Inr r \<longleftrightarrow>
     dg_EvidenceLevel d = ''L1'' \<and> \<not> dg_Eligible d \<and> pc_EvidenceLevel c = ''L1'' \<and> \<not> pc_Eligible c \<and> dg_Hypotheses d \<noteq> []
     \<and> (let eligible = matching_evidence d (sha256_hex craw) c m s path \<and> sa_Eligible s \<and> sa_EvidenceLevel s = ''L2''
        in r = \<lparr>bd_GeneratedAt = now_text, bd_EvidenceLevel = (if eligible then ''L2'' else ''L1''), bd_Eligible = eligible,
                bd_BindingComplete = matching_evidence d (sha256_hex craw) c m s path,
                bd_Source = \<lparr>bs_DiagnosisSHA256 = sha256_hex draw, bs_ComparisonSHA256 = sha256_hex craw,
                  bs_SnapshotDigest = ps_Digest (pc_Snapshot c), bs_MySQLVersion = pc_MySQLVersion c,
                  bs_MeasurementFile = path_base path, bs_CandidateIndex = px_Name (pc_CandidateIndex c)\<rparr>,
                bd_Hypotheses = map (\<lambda>h. \<lparr>hb_Code = hy_Code h, hb_Bound = eligible\<rparr>) (dg_Hypotheses d),
                bd_RejectionReasons = identity_reasons d (sha256_hex craw) c m s path
                  @ (if \<not> sa_Eligible s then [''series_not_eligible''] else [])
                  @ (if sa_EvidenceLevel s \<noteq> ''L2'' then [''series_evidence_level_not_l2''] else [])\<rparr>)"
  by (auto simp: Bind_def Let_def identity_reasons_Nil)

text \<open>
  C36: Evidence is bound exactly for an L1 diagnosis and an L1 comparison without a claim and with at
  least one hypothesis.  The result claims performance, and binds every hypothesis, exactly when the
  diagnosis was made from these comparison bytes, the data snapshot, server version, SQL text and
  candidate index agree in all three reports, the series is about this measurement file, and the
  series itself grants the claim at level L2; otherwise it is L1, binds nothing and gives a reason.
\<close>

theorem binding_inherits_only_matching_evidence:
  "((\<exists>r. Bind sha256_hex now_text d draw c craw m s path = Inr r) \<longleftrightarrow>
      dg_EvidenceLevel d = ''L1'' \<and> \<not> dg_Eligible d \<and> pc_EvidenceLevel c = ''L1'' \<and> \<not> pc_Eligible c \<and> dg_Hypotheses d \<noteq> [])
   \<and> (case Bind sha256_hex now_text d draw c craw m s path of
        Inl e \<Rightarrow> True
      | Inr r \<Rightarrow>
          (bd_Eligible r \<longleftrightarrow> matching_evidence d (sha256_hex craw) c m s path \<and> sa_Eligible s \<and> sa_EvidenceLevel s = ''L2'')
          \<and> (bd_EvidenceLevel r = ''L2'' \<longleftrightarrow> bd_Eligible r) \<and> (bd_RejectionReasons r = [] \<longleftrightarrow> bd_Eligible r)
          \<and> (bd_BindingComplete r \<longleftrightarrow> matching_evidence d (sha256_hex craw) c m s path)
          \<and> map hb_Code (bd_Hypotheses r) = map hy_Code (dg_Hypotheses d)
          \<and> map hb_Bound (bd_Hypotheses r) = replicate (length (dg_Hypotheses d)) (bd_Eligible r)
          \<and> bd_Source r = \<lparr>bs_DiagnosisSHA256 = sha256_hex draw, bs_ComparisonSHA256 = sha256_hex craw,
              bs_SnapshotDigest = ps_Digest (pc_Snapshot c), bs_MySQLVersion = pc_MySQLVersion c,
              bs_MeasurementFile = path_base path, bs_CandidateIndex = px_Name (pc_CandidateIndex c)\<rparr>)"
proof -
  have ex: "(\<exists>r. Bind sha256_hex now_text d draw c craw m s path = Inr r) \<longleftrightarrow>
      dg_EvidenceLevel d = ''L1'' \<and> \<not> dg_Eligible d \<and> pc_EvidenceLevel c = ''L1'' \<and> \<not> pc_Eligible c \<and> dg_Hypotheses d \<noteq> []"
    by (simp add: Bind_Inr Let_def)
  show ?thesis
  proof (cases "Bind sha256_hex now_text d draw c craw m s path")
    case (Inl e)
    then show ?thesis unfolding ex [symmetric] by simp
  next
    case (Inr r)
    then have r: "\<exists>r. Bind sha256_hex now_text d draw c craw m s path = Inr r" by blast
    note parts = Inr [unfolded Bind_Inr Let_def]
    show ?thesis
      unfolding ex [symmetric] Inr sum.case using r parts by (simp add: map_replicate_const identity_reasons_Nil o_def)
  qed
qed

end
