(* ===== verification/Table_Snapshot.thy ===== *)
theory Table_Snapshot
  imports GoStrings
begin

text \<open>
  \<open>internal/snapshot\<close>: the digest of the table \<open>orders\<close>, read in chunks by primary key, and the
  comparison of two digests.  The database is the function that answers the chunk query; SHA-256 in
  hexadecimal is a parameter.  A time is the number of microseconds since the year 1, the precision
  of the column.
\<close>

section \<open>Times\<close>

definition year_days :: "nat \<Rightarrow> nat" where
  "year_days y = (if y mod 4 = 0 \<and> (y mod 100 \<noteq> 0 \<or> y mod 400 = 0) then 366 else 365)"

definition month_days :: "nat \<Rightarrow> nat list" where
  "month_days y = [31, if year_days y = 366 then 29 else 28, 31, 30, 31, 30, 31, 31, 30, 31, 30, 31]"

text \<open>Splitting a count of days after the start of year \<open>y\<close> (of month \<open>m\<close>).\<close>

function split_years :: "nat \<Rightarrow> nat \<Rightarrow> nat \<times> nat" where
  "split_years y d = (if d < year_days y then (y, d) else split_years (Suc y) (d - year_days y))"
  by pat_completeness auto
termination by (relation "measure snd") (auto simp: year_days_def split: if_splits)

declare split_years.simps [simp del]

fun split_months :: "nat \<Rightarrow> nat list \<Rightarrow> nat \<Rightarrow> nat \<times> nat" where
  "split_months m [] d = (m, d)"
| "split_months m (l # ls) d = (if d < l then (m, d) else split_months (Suc m) ls (d - l))"

text \<open>\<open>AppendFormat\<close> with the layout \<open>2006-01-02T15:04:05.000000Z\<close>.\<close>

definition format_time :: "nat \<Rightarrow> string" where
  "format_time t =
     (let us = t mod 1000000; s = t div 1000000;
          (y, yd) = split_years 1 (s div 86400);
          (m, md) = split_months 1 (month_days y) yd;
          tod = s mod 86400
      in (if y < 10000 then padded 4 y else nat_dec y) @ ''-'' @ padded 2 m @ ''-'' @ padded 2 (md + 1) @ ''T'' @
         padded 2 (tod div 3600) @ '':'' @ padded 2 (tod div 60 mod 60) @ '':'' @ padded 2 (tod mod 60) @ ''.'' @
         padded 6 us @ ''Z'')"

section \<open>Rows and their bytes\<close>

record OrderRow =
  or_ID :: nat
  or_UserID :: nat
  or_Status :: string
  or_CreatedAt :: nat
  or_AmountCents :: int
  or_Note :: "string option"
  or_Payload :: string

definition fieldSep :: char where
  "fieldSep = CHR 0x1F"

definition rowSep :: char where
  "rowSep = CHR 0x1E"

definition normalize_row :: "OrderRow \<Rightarrow> string" where
  "normalize_row r =
     nat_dec (or_ID r) @ [fieldSep] @ nat_dec (or_UserID r) @ [fieldSep] @ or_Status r @ [fieldSep] @
     format_time (or_CreatedAt r) @ [fieldSep] @ int_dec (or_AmountCents r) @ [fieldSep] @
     (case or_Note r of Some note \<Rightarrow> CHR 0x01 # note | None \<Rightarrow> [CHR 0x00]) @ [fieldSep] @
     or_Payload r @ [rowSep]"

text \<open>The hasher: the bytes written so far and the number of rows.\<close>

record Hasher =
  hs_bytes :: string
  hs_rows :: int

definition NewHasher :: Hasher where
  "NewHasher = \<lparr>hs_bytes = [], hs_rows = 0\<rparr>"

definition hasher_Add :: "OrderRow \<Rightarrow> Hasher \<Rightarrow> Hasher" where
  "hasher_Add r h = \<lparr>hs_bytes = hs_bytes h @ normalize_row r, hs_rows = i64 (hs_rows h + 1)\<rparr>"

definition hasher_Sum :: "(string \<Rightarrow> string) \<Rightarrow> Hasher \<Rightarrow> string \<times> int" where
  "hasher_Sum sha256_hex h = (sha256_hex (hs_bytes h), hs_rows h)"

section \<open>Reading the table\<close>

text \<open>The answer to a chunk query: refused, or rows followed by success or by an error of a scan or of
  the result set.\<close>

record ChunkAnswer =
  ca_Rows :: "OrderRow list"
  ca_Done :: bool

type_synonym orders_db = "nat \<Rightarrow> int \<Rightarrow> ChunkAnswer option"

record SnapSide =
  sd_Name :: string
  sd_Digest :: string
  sd_Rows :: int

definition DefaultChunk :: int where
  "DefaultChunk = 5000"

fun scan_rows :: "OrderRow list \<Rightarrow> Hasher \<Rightarrow> nat \<Rightarrow> int \<Rightarrow> int \<times> nat \<times> Hasher" where
  "scan_rows [] h lastID n = (n, lastID, h)"
| "scan_rows (r # rs) h lastID n = scan_rows rs (hasher_Add r h) (or_ID r) (n + 1)"

definition scanChunk :: "orders_db \<Rightarrow> Hasher \<Rightarrow> nat \<Rightarrow> int \<Rightarrow> (int \<times> nat \<times> Hasher) option" where
  "scanChunk db h lastID chunk =
     (case db lastID chunk of
        None \<Rightarrow> None
      | Some a \<Rightarrow> if ca_Done a then Some (scan_rows (ca_Rows a) h lastID 0) else None)"

text \<open>The loop of \<open>Compute\<close>; the outer option is None where it does not end.\<close>

partial_function (option) chunk_loop :: "orders_db \<Rightarrow> int \<Rightarrow> Hasher \<Rightarrow> nat \<Rightarrow> Hasher option option" where
  "chunk_loop db chunk h lastID =
     (case scanChunk db h lastID chunk of
        None \<Rightarrow> Some None
      | Some (n, next', h') \<Rightarrow> if n < chunk then Some (Some h') else chunk_loop db chunk h' next')"

definition snap_Compute :: "(string \<Rightarrow> string) \<Rightarrow> orders_db \<Rightarrow> string \<Rightarrow> int \<Rightarrow> SnapSide option option" where
  "snap_Compute sha256_hex db name chunk0 =
     (let chunk = (if chunk0 \<le> 0 then DefaultChunk else chunk0)
      in map_option (map_option (\<lambda>h. let (digest, rows) = hasher_Sum sha256_hex h
                                     in \<lparr>sd_Name = name, sd_Digest = digest, sd_Rows = rows\<rparr>))
           (chunk_loop db chunk NewHasher 0))"

record SnapResult =
  sn_Baseline :: SnapSide
  sn_Candidate :: SnapSide
  sn_Match :: bool

definition snap_Compare :: "SnapSide \<Rightarrow> SnapSide \<Rightarrow> SnapResult" where
  "snap_Compare baseline candidate =
     \<lparr>sn_Baseline = baseline, sn_Candidate = candidate,
      sn_Match = (sd_Digest baseline = sd_Digest candidate \<and> sd_Rows baseline = sd_Rows candidate)\<rparr>"

section \<open>A stable table is read whole, whatever the chunk\<close>

text \<open>The answers of a server whose table does not change while it is read.\<close>

definition table_db :: "OrderRow list \<Rightarrow> orders_db" where
  "table_db T lastID chunk = Some \<lparr>ca_Rows = take (nat chunk) (filter (\<lambda>r. lastID < or_ID r) T), ca_Done = True\<rparr>"

definition keyed :: "OrderRow list \<Rightarrow> bool" where
  "keyed T \<longleftrightarrow> sorted_wrt (\<lambda>r s. or_ID r < or_ID s) T \<and> (\<forall>r \<in> set T. 0 < or_ID r) \<and> length T < 2 ^ 63"

definition hash_rows :: "OrderRow list \<Rightarrow> Hasher \<Rightarrow> Hasher" where
  "hash_rows rs h = foldl (\<lambda>h r. hasher_Add r h) h rs"

lemma scan_rows_eq:
  "scan_rows rs h l n = (n + int (length rs), if rs = [] then l else or_ID (last rs), hash_rows rs h)"
  by (induction rs arbitrary: h l n) (auto simp: hash_rows_def)

lemma hash_rows_parts:
  assumes "in_i64 (hs_rows h)" "0 \<le> hs_rows h" "hs_rows h + int (length rs) < 2 ^ 63"
  shows "hash_rows rs h = \<lparr>hs_bytes = hs_bytes h @ concat (map normalize_row rs), hs_rows = hs_rows h + int (length rs)\<rparr>"
  using assms
proof (induction rs arbitrary: h)
  case (Cons r rs)
  have i: "in_i64 (hs_rows h + 1)" using Cons.prems by (simp add: in_i64_def)
  then have "hash_rows rs (hasher_Add r h) = \<lparr>hs_bytes = hs_bytes (hasher_Add r h) @ concat (map normalize_row rs),
      hs_rows = hs_rows (hasher_Add r h) + int (length rs)\<rparr>"
    using Cons.prems by (intro Cons.IH) (simp_all add: hasher_Add_def i64_id)
  then show ?case using i by (simp add: hash_rows_def hasher_Add_def i64_id)
qed (simp add: hash_rows_def)

lemma filter_after_last:
  assumes "sorted_wrt (\<lambda>r s. or_ID r < or_ID s) xs" "xs = ys @ zs" "ys \<noteq> []"
  shows "filter (\<lambda>r. or_ID (last ys) < or_ID r) xs = zs"
proof -
  have z: "\<forall>r \<in> set zs. or_ID (last ys) < or_ID r"
    using assms by (auto simp: sorted_wrt_append)
  have "sorted_wrt (\<lambda>r s. or_ID r < or_ID s) (butlast ys @ [last ys])"
    using assms by (simp add: sorted_wrt_append)
  then have "\<forall>r \<in> set (butlast ys). or_ID r < or_ID (last ys)"
    by (simp add: sorted_wrt_append)
  then have "\<forall>r \<in> set (butlast ys @ [last ys]). \<not> or_ID (last ys) < or_ID r"
    by auto
  then have "\<forall>r \<in> set ys. \<not> or_ID (last ys) < or_ID r"
    using assms(3) by simp
  with z show ?thesis unfolding assms(2) by (simp add: filter_empty_conv)
qed

lemma chunk_loop_table:
  assumes "sorted_wrt (\<lambda>r s. or_ID r < or_ID s) T" "T = done' @ rest" "0 < chunk"
    and "\<forall>r \<in> set done'. or_ID r \<le> lastID" "\<forall>r \<in> set rest. lastID < or_ID r"
  shows "chunk_loop (table_db T) chunk h lastID = Some (Some (hash_rows rest h))"
  using assms(2-5)
proof (induction "length rest" arbitrary: done' rest h lastID rule: less_induct)
  case less
  have f: "filter (\<lambda>r. lastID < or_ID r) T = rest"
    using less.prems by (auto simp: filter_empty_conv filter_id_conv)
  show ?case
  proof (cases "length rest < nat chunk")
    case True
    then have "int (length rest) < chunk" by (simp add: zless_nat_eq_int_zless)
    then show ?thesis
      using True less.prems f
      by (subst chunk_loop.simps) (simp add: scanChunk_def table_db_def scan_rows_eq)
  next
    case False
    let ?a = "take (nat chunk) rest" and ?b = "drop (nat chunk) rest"
    have a: "?a \<noteq> []" using False less.prems(2) by auto
    have s: "sorted_wrt (\<lambda>r s. or_ID r < or_ID s) (?a @ ?b)"
      using assms(1) less.prems(1) by (simp add: sorted_wrt_append)
    have ids: "\<forall>r \<in> set ?b. or_ID (last ?a) < or_ID r"
      using s a by (metis last_in_set sorted_wrt_append)
    have le: "\<forall>r \<in> set (done' @ ?a). or_ID r \<le> or_ID (last ?a)"
    proof
      fix r assume "r \<in> set (done' @ ?a)"
      moreover have "lastID < or_ID (last ?a)"
        using a less.prems(4) by (meson in_set_takeD last_in_set)
      moreover have "or_ID r \<le> or_ID (last ?a)" if "r \<in> set ?a"
      proof -
        have "?a = butlast ?a @ [last ?a]" using a by simp
        then have "sorted_wrt (\<lambda>r s. or_ID r < or_ID s) (butlast ?a @ [last ?a])"
          using s by (metis sorted_wrt_append)
        then show ?thesis using that a
          by (metis (no_types, lifting) append_butlast_last_id in_set_conv_decomp less_imp_le_nat list.set_intros(1) order_refl
              rotate1.simps(2) set_ConsD set_rotate1 sorted_wrt_append)
      qed
      ultimately show "or_ID r \<le> or_ID (last ?a)" using less.prems(3) by force
    qed
    have "chunk_loop (table_db T) chunk (hash_rows ?a h) (or_ID (last ?a)) = Some (Some (hash_rows ?b (hash_rows ?a h)))"
      by (rule less.hyps [where done' = "done' @ ?a"]) (use False less.prems ids le in auto)
    moreover have "hash_rows ?b (hash_rows ?a h) = hash_rows rest h"
      unfolding hash_rows_def foldl_append [symmetric] by simp
    moreover have "int (length ?a) = chunk" using False less.prems(2) by simp
    ultimately show ?thesis
      using a f by (subst chunk_loop.simps) (simp add: scanChunk_def table_db_def scan_rows_eq)
  qed
qed

lemma snap_Compute_table:
  assumes "keyed T"
  shows "snap_Compute sha256_hex (table_db T) name chunk =
    Some (Some \<lparr>sd_Name = name, sd_Digest = sha256_hex (concat (map normalize_row T)), sd_Rows = int (length T)\<rparr>)"
proof -
  have "chunk_loop (table_db T) (if chunk \<le> 0 then DefaultChunk else chunk) NewHasher 0 = Some (Some (hash_rows T NewHasher))"
    by (rule chunk_loop_table [where done' = "[]"]) (use assms in \<open>auto simp: keyed_def DefaultChunk_def\<close>)
  moreover have "hash_rows T NewHasher = \<lparr>hs_bytes = concat (map normalize_row T), hs_rows = int (length T)\<rparr>"
  proof -
    have "int (length T) < 2 ^ 63" using assms by (simp add: keyed_def)
    then show ?thesis using hash_rows_parts [of NewHasher T] by (simp add: NewHasher_def in_i64_def)
  qed
  ultimately show ?thesis by (simp add: snap_Compute_def hasher_Sum_def Let_def)
qed

section \<open>The bytes determine the table\<close>

text \<open>Days back from a split.\<close>

lemma split_years_sum:
  "split_years y d = (Y, r) \<Longrightarrow> y \<le> Y \<and> d = r + (\<Sum>k = y..<Y. year_days k) \<and> r < year_days Y"
proof (induction y d rule: split_years.induct)
  case (1 y d)
  show ?case
  proof (cases "d < year_days y")
    case True
    then show ?thesis using "1.prems" by (simp add: split_years.simps [of y d])
  next
    case False
    then have "split_years (Suc y) (d - year_days y) = (Y, r)"
      using "1.prems" by (simp add: split_years.simps [of y d])
    with "1.IH" [OF False] have ih: "Suc y \<le> Y" "d - year_days y = r + (\<Sum>k = Suc y..<Y. year_days k)" "r < year_days Y"
      by auto
    then show ?thesis using False by (simp add: sum.atLeast_Suc_lessThan)
  qed
qed

lemma split_months_sum:
  "split_months m ls d = (M, r) \<Longrightarrow> m \<le> M \<and> M \<le> m + length ls \<and> d = r + sum_list (take (M - m) ls)
     \<and> (M < m + length ls \<longrightarrow> r < ls ! (M - m))"
proof (induction ls arbitrary: m d)
  case (Cons l ls)
  show ?case
  proof (cases "d < l")
    case True
    then show ?thesis using Cons.prems by simp
  next
    case False
    then have "split_months (Suc m) ls (d - l) = (M, r)" using Cons.prems by simp
    note ih = Cons.IH [OF this]
    then have "Suc m \<le> M" by simp
    then have "M - m = Suc (M - Suc m)" by arith
    moreover have "d = l + (d - l)" using False by simp
    ultimately show ?thesis using ih by auto
  qed
qed simp

lemma months_of_year: "sum_list (month_days y) = year_days y" "length (month_days y) = 12"
  "l \<in> set (month_days y) \<Longrightarrow> l \<le> 31"
  by (auto simp: month_days_def year_days_def)

lemma split_months_year:
  assumes "split_months 1 (month_days y) d = (M, r)" "d < year_days y"
  shows "M \<le> 12" "r < 31"
proof -
  note s = split_months_sum [OF assms(1), unfolded months_of_year(2)]
  have "M \<noteq> 13"
  proof
    assume "M = 13"
    then have "d = r + sum_list (take 12 (month_days y))" using s by simp
    then show False using assms(2) months_of_year(1,2) [of y] by simp
  qed
  then show m: "M \<le> 12" using s by simp
  then have "r < month_days y ! (M - 1)" "month_days y ! (M - 1) \<in> set (month_days y)"
    using s by (auto simp: months_of_year(2))
  then show "r < 31" using months_of_year(3) by fastforce
qed


lemma sep_split: "c \<notin> set a \<Longrightarrow> c \<notin> set a' \<Longrightarrow> a @ c # b = a' @ c # b' \<longleftrightarrow> a = a' \<and> b = b'"
proof (induction a arbitrary: a')
  case Nil
  then show ?case by (cases a') auto
next
  case (Cons x a)
  then show ?case by (cases a') auto
qed

definition year_text :: "nat \<Rightarrow> string" where
  "year_text y = (if y < 10000 then padded 4 y else nat_dec y)"

lemma year_text_inj: "year_text y = year_text z \<Longrightarrow> y = z"
proof -
  have "digits_val (year_text y) = y" for y
    using padded_val [of y 4] by (simp add: year_text_def digits_val_nat_dec)
  then show "year_text y = year_text z \<Longrightarrow> y = z" by metis
qed

lemma year_text_digits: "c \<in> set (year_text y) \<Longrightarrow> is_digit_byte c"
  by (auto simp: year_text_def dest: padded_digits nat_dec_digits split: if_splits)

lemma format_time_bytes: "c \<in> set (format_time t) \<Longrightarrow> is_digit_byte c \<or> c \<in> set ''-T:.Z''"
  unfolding format_time_def year_text_def [symmetric]
  by (auto simp: Let_def split: prod.splits dest: padded_digits year_text_digits)

lemma format_time_inj:
  assumes eq: "format_time t = format_time t'"
  shows "t = t'"
proof -
  obtain y yd where y: "split_years 1 (t div 1000000 div 86400) = (y, yd)" by fastforce
  obtain m md where m: "split_months 1 (month_days y) yd = (m, md)" by fastforce
  obtain y' yd' where y': "split_years 1 (t' div 1000000 div 86400) = (y', yd')" by fastforce
  obtain m' md' where m': "split_months 1 (month_days y') yd' = (m', md')" by fastforce
  note sy = split_years_sum [OF y] and sy' = split_years_sum [OF y']
  note sm = split_months_year [OF m] and sm' = split_months_year [OF m']
  note parts = eq [unfolded format_time_def Let_def y m y' m' prod.case year_text_def [symmetric]]
  let ?s = "t div 1000000 mod 86400" and ?s' = "t' div 1000000 mod 86400"
  have dash: "CHR ''-'' \<notin> set (year_text z)" for z
    using year_text_digits by (force simp: is_digit_byte_def ord_def)
  have seg: "year_text y = year_text y'" "padded 2 m = padded 2 m'" "padded 2 (md + 1) = padded 2 (md' + 1)"
    "padded 2 (?s div 3600) = padded 2 (?s' div 3600)" "padded 2 (?s div 60 mod 60) = padded 2 (?s' div 60 mod 60)"
    "padded 2 (?s mod 60) = padded 2 (?s' mod 60)" "padded 6 (t mod 1000000) = padded 6 (t' mod 1000000)"
    using parts by (simp_all add: sep_split [OF dash dash])
  then have Y: "y' = y" by (metis year_text_inj)
  have M: "m' = m" "md' = md"
    using seg(2,3) sm sm' sy sy' by (auto simp: padded_inj)
  have "yd' = yd"
    using split_months_sum [OF m] split_months_sum [OF m'] Y M by simp
  then have day: "t div 1000000 div 86400 = t' div 1000000 div 86400"
    using sy sy' Y by simp
  have m60: "(x :: nat) mod 60 < 10 ^ 2" for x
    using mod_less_divisor [of 60 x] by simp
  have h24: "(x :: nat) mod 86400 div 3600 < 10 ^ 2" for x
    using mod_less_divisor [of 86400 x] by (simp add: less_mult_imp_div_less)
  have "?s div 3600 = ?s' div 3600" "?s div 60 mod 60 = ?s' div 60 mod 60" "?s mod 60 = ?s' mod 60"
    using seg(4-6) by (simp_all only: padded_inj [OF m60 m60] padded_inj [OF h24 h24])
  moreover have "s = s div 3600 * 3600 + s div 60 mod 60 * 60 + s mod 60" for s :: nat
  proof -
    have "s div 60 div 60 = s div 3600" by (simp add: div_mult2_eq [symmetric])
    then show ?thesis using div_mult_mod_eq [of s 60] div_mult_mod_eq [of "s div 60" 60] by linarith
  qed
  ultimately have "?s = ?s'" by metis
  with day have "t div 1000000 = t' div 1000000" by (metis div_mult_mod_eq)
  moreover have "t mod 1000000 = t' mod 1000000"
    using seg(7) by (simp add: padded_inj)
  ultimately show ?thesis by (metis div_mult_mod_eq)
qed


text \<open>Rows whose text fields have no separator byte.\<close>

definition clean :: "string \<Rightarrow> bool" where
  "clean s \<longleftrightarrow> fieldSep \<notin> set s \<and> rowSep \<notin> set s"

definition clean_row :: "OrderRow \<Rightarrow> bool" where
  "clean_row r \<longleftrightarrow> clean (or_Status r) \<and> (case or_Note r of None \<Rightarrow> True | Some note \<Rightarrow> clean note) \<and> clean (or_Payload r)"

definition note_bytes :: "string option \<Rightarrow> string" where
  "note_bytes n = (case n of Some note \<Rightarrow> CHR 0x01 # note | None \<Rightarrow> [CHR 0x00])"

lemma note_bytes_inj: "note_bytes m = note_bytes n \<Longrightarrow> m = n"
  by (auto simp: note_bytes_def split: option.splits)

lemma digit_not_sep: "is_digit_byte c \<Longrightarrow> c \<noteq> fieldSep \<and> c \<noteq> rowSep"
  by (auto simp: is_digit_byte_def fieldSep_def rowSep_def ord_def)

lemma cleanI: "(\<And>c. c \<in> set s \<Longrightarrow> c \<noteq> fieldSep \<and> c \<noteq> rowSep) \<Longrightarrow> clean s"
  by (auto simp: clean_def)

lemma clean_fields: "clean (nat_dec n)" "clean (int_dec i)" "clean (format_time t)"
proof -
  have p: "c \<noteq> fieldSep \<and> c \<noteq> rowSep" if "c \<in> set ''-T:.Z''" for c
    using that by (auto simp: fieldSep_def rowSep_def)
  show "clean (nat_dec n)"
    by (rule cleanI) (blast dest: nat_dec_digits digit_not_sep)
  show "clean (int_dec i)"
  proof (rule cleanI)
    fix c assume "c \<in> set (int_dec i)"
    then have "c = CHR ''-'' \<or> is_digit_byte c" by (rule int_dec_bytes)
    then show "c \<noteq> fieldSep \<and> c \<noteq> rowSep" using p digit_not_sep by auto
  qed
  show "clean (format_time t)"
  proof (rule cleanI)
    fix c assume "c \<in> set (format_time t)"
    then have "is_digit_byte c \<or> c \<in> set ''-T:.Z''" by (rule format_time_bytes)
    then show "c \<noteq> fieldSep \<and> c \<noteq> rowSep" using p digit_not_sep by blast
  qed
qed

lemma clean_note: "clean_row r \<Longrightarrow> clean (note_bytes (or_Note r))"
  by (auto simp: clean_row_def note_bytes_def clean_def fieldSep_def rowSep_def split: option.splits)

lemma normalize_fields:
  "normalize_row r = nat_dec (or_ID r) @ fieldSep # nat_dec (or_UserID r) @ fieldSep # or_Status r @ fieldSep #
     format_time (or_CreatedAt r) @ fieldSep # int_dec (or_AmountCents r) @ fieldSep # note_bytes (or_Note r) @ fieldSep #
     or_Payload r @ [rowSep]"
  by (simp add: normalize_row_def note_bytes_def)

text \<open>The row without its final separator has no row separator; its fields can be read back.\<close>

definition row_body :: "OrderRow \<Rightarrow> string" where
  "row_body r = butlast (normalize_row r)"

lemma normalize_body: "normalize_row r = row_body r @ [rowSep]"
  by (simp add: row_body_def normalize_row_def butlast_append)

lemma row_body_clean: "clean_row r \<Longrightarrow> rowSep \<notin> set (row_body r)"
  using clean_fields clean_note [of r]
  by (simp add: row_body_def normalize_fields butlast_append clean_def clean_row_def) (simp add: fieldSep_def rowSep_def)

lemma row_body_inj:
  assumes "clean_row r" "clean_row s" "row_body r = row_body s"
  shows "r = s"
proof -
  have eq: "normalize_row r = normalize_row s" using assms(3) by (simp add: normalize_body)
  have no: "fieldSep \<notin> set x" if "clean x" for x using that by (simp add: clean_def)
  note f = clean_fields [THEN no]
  have st: "fieldSep \<notin> set (or_Status r)" "fieldSep \<notin> set (or_Status s)"
    using assms(1,2) by (simp_all add: clean_row_def clean_def)
  note n = clean_note [OF assms(1), THEN no] clean_note [OF assms(2), THEN no]
  have "nat_dec (or_ID r) = nat_dec (or_ID s) \<and> nat_dec (or_UserID r) = nat_dec (or_UserID s) \<and> or_Status r = or_Status s
    \<and> format_time (or_CreatedAt r) = format_time (or_CreatedAt s) \<and> int_dec (or_AmountCents r) = int_dec (or_AmountCents s)
    \<and> note_bytes (or_Note r) = note_bytes (or_Note s) \<and> or_Payload r = or_Payload s"
    using eq unfolding normalize_fields sep_split [OF f(1) f(1)] sep_split [OF st] sep_split [OF f(3) f(3)]
      sep_split [OF f(2) f(2)] sep_split [OF n]
    by simp
  then show ?thesis
    by (intro OrderRow.equality) (auto dest: format_time_inj note_bytes_inj)
qed

lemma rows_inj:
  assumes "\<forall>r \<in> set T \<union> set U. clean_row r" "concat (map normalize_row T) = concat (map normalize_row U)"
  shows "T = U"
  using assms
proof (induction T arbitrary: U)
  case Nil
  then show ?case by (cases U) (auto simp: normalize_body)
next
  case (Cons r T)
  then obtain s U' where U: "U = s # U'" by (cases U) (auto simp: normalize_body)
  have "row_body r @ rowSep # concat (map normalize_row T) = row_body s @ rowSep # concat (map normalize_row U')"
    using Cons.prems(2) unfolding U list.map concat.simps normalize_body [of r] normalize_body [of s] by simp
  then have "row_body r = row_body s" "concat (map normalize_row T) = concat (map normalize_row U')"
    using Cons.prems(1) U by (simp_all add: sep_split row_body_clean)
  then show ?case
    using Cons.IH [of U'] Cons.prems(1) U row_body_inj [of r s] by auto
qed

section \<open>Properties\<close>

text \<open>
  Two stable tables (ascending positive keys) read in chunks of any sizes, even different ones on
  the two sides: both reads end without error, and if the comparison says they match then the tables
  are equal, row by row and field by field, provided that no text field contains one of the two
  separator bytes and SHA-256 does not collide on the two encodings.
\<close>

theorem matching_snapshots_mean_equal_tables:
  assumes "keyed T" "keyed U" "\<forall>r \<in> set T \<union> set U. clean_row r"
    and "sha256_hex (concat (map normalize_row T)) = sha256_hex (concat (map normalize_row U)) \<longrightarrow>
      concat (map normalize_row T) = concat (map normalize_row U)"
  shows "\<exists>b c. snap_Compute sha256_hex (table_db T) n chunk = Some (Some b)
    \<and> snap_Compute sha256_hex (table_db U) n' chunk' = Some (Some c)
    \<and> (sn_Match (snap_Compare b c) \<longleftrightarrow> T = U)"
  using snap_Compute_table [OF assms(1), of sha256_hex n chunk] snap_Compute_table [OF assms(2), of sha256_hex n' chunk']
    rows_inj [OF assms(3)] assms(4)
  by (auto simp: snap_Compare_def)

definition an_order :: "nat \<Rightarrow> string \<Rightarrow> OrderRow" where
  "an_order i status = \<lparr>or_ID = i, or_UserID = 42, or_Status = status, or_CreatedAt = 5, or_AmountCents = 7, or_Note = None,
     or_Payload = ''p''\<rparr>"

theorem matching_snapshots_mean_equal_tables_witness:
  "\<exists>b c. snap_Compute (\<lambda>x. x) (table_db [an_order 1 ''paid'', an_order 2 ''paid'']) ''baseline'' 1 = Some (Some b)
    \<and> snap_Compute (\<lambda>x. x) (table_db [an_order 1 ''paid'', an_order 2 ''lost'']) ''candidate'' 0 = Some (Some c)
    \<and> \<not> sn_Match (snap_Compare b c)"
proof -
  have k: "keyed [an_order 1 s, an_order 2 s']" for s s' by (simp add: keyed_def an_order_def)
  have c: "\<forall>r \<in> set [an_order 1 ''paid'', an_order 2 ''paid''] \<union> set [an_order 1 ''paid'', an_order 2 ''lost'']. clean_row r"
    by (simp add: clean_row_def clean_def an_order_def fieldSep_def rowSep_def)
  have "[an_order 1 ''paid'', an_order 2 ''paid''] \<noteq> [an_order 1 ''paid'', an_order 2 ''lost'']"
    by (simp add: an_order_def)
  then show ?thesis
    using matching_snapshots_mean_equal_tables [OF k k c, of "\<lambda>x. x" "''baseline''" 1 "''candidate''" 0] by simp
qed

text \<open>
  The separators are not escaped: two different rows, one with a separator byte in its status,
  are written as the same bytes, so their snapshots match whatever the hash.
\<close>

theorem separators_forge_fields:
  "\<exists>r s. r \<noteq> s \<and> keyed [r] \<and> keyed [s] \<and> or_Status s = ''paid''
    \<and> (\<exists>b c. snap_Compute sha256_hex (table_db [r]) n chunk = Some (Some b)
        \<and> snap_Compute sha256_hex (table_db [s]) n' chunk' = Some (Some c) \<and> sn_Match (snap_Compare b c))"
proof -
  let ?r = "\<lparr>or_ID = 1, or_UserID = 2,
     or_Status = ''paid'' @ fieldSep # format_time 0 @ fieldSep # int_dec 7 @ fieldSep # note_bytes None @ fieldSep # ''p'',
     or_CreatedAt = 0, or_AmountCents = 8, or_Note = None, or_Payload = ''q''\<rparr>"
  let ?s = "\<lparr>or_ID = 1, or_UserID = 2, or_Status = ''paid'', or_CreatedAt = 0, or_AmountCents = 7, or_Note = None,
     or_Payload = ''p'' @ fieldSep # format_time 0 @ fieldSep # int_dec 8 @ fieldSep # note_bytes None @ fieldSep # ''q''\<rparr>"
  have k: "keyed [?r]" "keyed [?s]" by (simp_all add: keyed_def)
  have "normalize_row ?r = normalize_row ?s" by (simp add: normalize_fields)
  then have "\<exists>b c. snap_Compute sha256_hex (table_db [?r]) n chunk = Some (Some b)
      \<and> snap_Compute sha256_hex (table_db [?s]) n' chunk' = Some (Some c) \<and> sn_Match (snap_Compare b c)"
    using snap_Compute_table [OF k(1), of sha256_hex n chunk] snap_Compute_table [OF k(2), of sha256_hex n' chunk']
    by (auto simp: snap_Compare_def)
  moreover have "?r \<noteq> ?s" by simp
  ultimately show ?thesis using k by (metis OrderRow.select_convs(3))
qed

end
