(* ===== verification/Go_Encode.thy ===== *)
theory Go_Encode
  imports GoDecode GoFloat
begin

text \<open>
  What \<open>json.MarshalIndent\<close> writes: compact texts of values, \<open>json.RawMessage\<close> compacted and
  escaped, and the indentation of a compact text.
\<close>

definition enc_bool :: "bool \<Rightarrow> string" where
  "enc_bool b = (if b then ''true'' else ''false'')"

definition enc_list :: "string list \<Rightarrow> string" where
  "enc_list xs = ''['' @ Join xs '','' @ '']''"

definition enc_strings :: "string list \<Rightarrow> string" where
  "enc_strings xs = enc_list (map enc_string xs)"

text \<open>Fields: a string, and a string tagged \<open>omitempty\<close>.\<close>

definition f_str :: "string \<Rightarrow> string \<Rightarrow> (string \<times> string) list" where
  "f_str k v = [(k, enc_string v)]"

definition f_opt :: "string \<Rightarrow> string \<Rightarrow> (string \<times> string) list" where
  "f_opt k v = (if v = [] then [] else [(k, enc_string v)])"

section \<open>Raw messages\<close>

text \<open>\<open>appendCompact\<close> with escaping; the flag tells whether the position is inside a string.\<close>

fun compact_loop :: "bool \<Rightarrow> string \<Rightarrow> string" where
  "compact_loop instr [] = []"
| "compact_loop False (c # s) =
     (if is_json_ws c then compact_loop False s
      else c # compact_loop (c = quote) s)"
| "compact_loop True (c # s) =
     (if c = backslash then (case s of [] \<Rightarrow> [c] | e # t \<Rightarrow> c # e # compact_loop True t)
      else if c = CHR ''<'' \<or> c = CHR ''>'' \<or> c = CHR ''&'' then esc_byte c @ compact_loop True s
      else if c = CHR 0xE2 \<and> take 2 s = [CHR 0x80, CHR 0xA8] then backslash # ''u2028'' @ compact_loop True (drop 2 s)
      else if c = CHR 0xE2 \<and> take 2 s = [CHR 0x80, CHR 0xA9] then backslash # ''u2029'' @ compact_loop True (drop 2 s)
      else c # compact_loop (c \<noteq> quote) s)"

text \<open>A nil message is \<open>null\<close>; a message that is not one JSON value is the error of \<open>Marshal\<close>.\<close>

definition enc_raw :: "string \<Rightarrow> string option" where
  "enc_raw raw = (if raw = [] then Some ''null'' else if json_valid raw then Some (compact_loop False raw) else None)"

section \<open>Indentation\<close>

definition json_newline :: "nat \<Rightarrow> string" where
  "json_newline d = CHR 0x0A # concat (replicate d ''  '')"

text \<open>\<open>appendIndent\<close> with the empty prefix and two spaces; \<open>need\<close> delays the line break after an
  opening bracket, so that empty objects and arrays stay on one line.\<close>

fun indent_loop :: "nat \<Rightarrow> bool \<Rightarrow> bool \<Rightarrow> string \<Rightarrow> string" where
  "indent_loop d need instr [] = []"
| "indent_loop d need True (c # s) =
     (if c = backslash then (case s of [] \<Rightarrow> [c] | e # t \<Rightarrow> c # e # indent_loop d need True t)
      else c # indent_loop d need (c \<noteq> quote) s)"
| "indent_loop d need False (c # s) =
     (let closing = (c = CHR ''}'' \<or> c = CHR '']'');
          opened = (need \<and> \<not> closing);
          d1 = (if opened then Suc d else d)
      in (if opened then json_newline d1 else []) @
         (if c = CHR ''{'' \<or> c = CHR ''['' then c # indent_loop d1 True False s
          else if c = CHR '','' then c # json_newline d1 @ indent_loop d1 False False s
          else if c = CHR '':'' then c # CHR '' '' # indent_loop d1 False False s
          else if closing then
            (if need then c # indent_loop d1 False False s
             else json_newline (d1 - 1) @ c # indent_loop (d1 - 1) False False s)
          else c # indent_loop d1 False (c = quote) s))"

definition marshal_indent :: "string \<Rightarrow> string" where
  "marshal_indent v = indent_loop 0 False False v"

section \<open>Floats\<close>

text \<open>
  The shortest decimal \<open>q * 10^s\<close> that reads back as \<open>x\<close>, searched by its number \<open>n\<close> of digits, and
  its text without exponent, which is the form \<open>encoding/json\<close> uses for zero and from \<open>10^-6\<close> up to
  \<open>10^21\<close>; the durations printed here lie in that range.
\<close>

definition ilog10 :: "float64 \<Rightarrow> int" where
  "ilog10 x =
     (if 1 \<le> x then int (length (nat_dec (nat \<lfloor>x\<rfloor>))) - 1
      else (case find (\<lambda>k. 1 \<le> x * 10 ^ k) [1, 2, 3, 4, 5, 6] of Some k \<Rightarrow> - int k | None \<Rightarrow> - 7))"

definition ten_pow :: "int \<Rightarrow> rat" where
  "ten_pow e = (if 0 \<le> e then 10 ^ nat e else 1 / 10 ^ nat (- e))"

definition decimal_of :: "float64 \<Rightarrow> nat \<Rightarrow> nat \<times> int" where
  "decimal_of x n =
     (let s = ilog10 x - int n + 1; q = nat (round_half_even (x / ten_pow s))
      in if q = 10 ^ n then (10 ^ (n - 1), s + 1) else (q, s))"

definition shortest_decimal :: "float64 \<Rightarrow> nat \<times> int" where
  "shortest_decimal x =
     (case find (\<lambda>(q, s). fl (of_nat q * ten_pow s) = x) (map (decimal_of x) [1 ..< 17]) of
        Some r \<Rightarrow> r
      | None \<Rightarrow> decimal_of x 17)"

definition enc_float :: "float64 \<Rightarrow> string" where
  "enc_float x =
     (if x = 0 then ''0''
      else let (q, s) = shortest_decimal x
           in if 0 \<le> s then nat_dec (q * 10 ^ nat s)
              else nat_dec (q div 10 ^ nat (- s)) @ ''.'' @ padded (nat (- s)) (q mod 10 ^ nat (- s)))"

end
