(* ===== verification/Pipeline.thy ===== *)
theory Pipeline
  imports Go_Encode Shadow_Gate Diagnosis Report_Series
begin

text \<open>
  \<open>internal/pipeline/pipeline.go\<close> and the runner of \<open>cmd/sentinel/pipeline.go\<close>: admission, candidate
  EXPLAIN, comparison and diagnosis, each written as an artifact before the next one starts.

  The output directory is the list of the files written to it, newest last; \<open>wr\<close> says which names
  \<open>os.WriteFile\<close> can write, a failed write leaves the list as it was.  The EXPLAIN runner acts on a
  state \<open>'s\<close>.  SHA-256 in hexadecimal, the clock and the visiting order of object members are
  parameters.
\<close>

section \<open>Data\<close>

record Artifact =
  ar_Step :: string
  ar_File :: string
  ar_SHA256 :: string
  ar_DigestScope :: string

record StepDuration =
  du_Step :: string
  du_WallClockMS :: float64

record PipeReport =
  pp_EvidenceLevel :: string
  pp_Eligible :: bool
  pp_CompletedSteps :: "string list"
  pp_StoppedStep :: string
  pp_RejectionReasons :: "string list"
  pp_Artifacts :: "Artifact list"
  pp_StepDurations :: "StepDuration list"

definition StepSQLAdmit :: string where "StepSQLAdmit = ''sql_admit''"
definition StepCandidateExplain :: string where "StepCandidateExplain = ''candidate_explain''"
definition StepPlanCompare :: string where "StepPlanCompare = ''plan_compare''"
definition StepDiagnosis :: string where "StepDiagnosis = ''diagnosis''"
definition AdmissionFile :: string where "AdmissionFile = ''sql_admission.json''"
definition CandidateFile :: string where "CandidateFile = ''candidate_explain_report.json''"
definition ComparisonFile :: string where "ComparisonFile = ''explain_comparison_report.json''"
definition DiagnosisFile :: string where "DiagnosisFile = ''diagnostic_hypotheses.json''"
definition SummaryFile :: string where "SummaryFile = ''pipeline_report.json''"
definition SummaryStep :: string where "SummaryStep = ''pipeline_summary''"

lemmas step_names = StepSQLAdmit_def StepCandidateExplain_def StepPlanCompare_def StepDiagnosis_def SummaryStep_def
lemmas file_names = AdmissionFile_def CandidateFile_def ComparisonFile_def DiagnosisFile_def SummaryFile_def

section \<open>The artifacts as JSON\<close>

definition admission_json :: "Result \<Rightarrow> string" where
  "admission_json r =
     enc_object ([(''accepted'', enc_bool (ad_Accepted r))] @ f_str ''evidence_level'' (ad_EvidenceLevel r) @
       f_opt ''reason_code'' (ad_ReasonCode r) @ [(''signals'', enc_strings (ad_Signals r))] @
       f_opt ''input_sha256'' (ad_InputSHA256 r))"

definition digest_rows_json :: "string \<Rightarrow> int \<Rightarrow> string" where
  "digest_rows_json digest rows = enc_object (f_str ''digest'' digest @ [(''rows'', int_dec rows)])"

definition sql_input_json :: "string \<Rightarrow> string list \<Rightarrow> string" where
  "sql_input_json sql signals = enc_object (f_str ''sql'' sql @ [(''signals'', enc_strings signals)])"

definition index_json :: "string \<Rightarrow> string \<Rightarrow> string \<Rightarrow> bool \<Rightarrow> string" where
  "index_json table name ddl created =
     enc_object (f_str ''table'' table @ f_str ''name'' name @ f_str ''ddl'' ddl @ [(''created'', enc_bool created)])"

text \<open>The report of the gate with the two digests that \<open>Run\<close> sets.\<close>

definition candidate_json :: "Report \<Rightarrow> string \<Rightarrow> string \<Rightarrow> string option" where
  "candidate_json r sqlSHA specSHA =
     map_option (\<lambda>raw.
       enc_object (f_str ''generated_at'' (rp_GeneratedAt r) @ f_str ''evidence_level'' (rp_EvidenceLevel r) @
         [(''eligible_for_performance_claim'', enc_bool (rp_EligibleForPerformanceClaim r))] @
         f_str ''mysql_version'' (rp_MySQLVersion r) @
         [(''snapshot'', digest_rows_json (Snapshot.sn_Digest (rp_Snapshot r)) (Snapshot.sn_Rows (rp_Snapshot r))),
          (''sql_input'', sql_input_json (rp_SQL r) (rp_Signals r)),
          (''candidate_index'', index_json (ci_Table (rp_Candidate r)) (ci_Name (rp_Candidate r))
             (ci_DDL (rp_Candidate r)) (ci_Created (rp_Candidate r))),
          (''explain_json'', raw)] @
         f_opt ''input_sql_sha256'' sqlSHA @ f_opt ''input_candidate_spec_sha256'' specSHA))
       (enc_raw (rp_ExplainJSON r))"

definition table_json :: "TableAccess \<Rightarrow> string" where
  "table_json t =
     enc_object (f_str ''table_name'' (ta_TableName t) @ f_opt ''access_type'' (ta_AccessType t) @
       (if ta_PossibleKeys t = [] then [] else [(''possible_keys'', enc_strings (ta_PossibleKeys t))]) @
       f_opt ''key'' (ta_Key t) @
       (case ta_RowsExaminedPerScan t of None \<Rightarrow> [] | Some n \<Rightarrow> [(''rows_examined_per_scan'', int_dec n)]) @
       [(''using_index'', enc_bool (ta_UsingIndex t))])"

definition plan_json :: "Plan \<Rightarrow> string option" where
  "plan_json p =
     map_option (\<lambda>raw.
       enc_object [(''raw'', raw),
         (''summary'', enc_object [(''tables'', enc_list (map table_json (su_Tables (pl_Summary p)))),
            (''uses_filesort'', enc_bool (su_UsesFilesort (pl_Summary p)))])])
       (enc_raw (pl_Raw p))"

definition difference_json :: "Difference \<Rightarrow> string" where
  "difference_json d =
     enc_object [(''baseline_uses_filesort'', enc_bool (df_BaselineUsesFilesort d)),
       (''candidate_uses_filesort'', enc_bool (df_CandidateUsesFilesort d)),
       (''filesort_changed'', enc_bool (df_FilesortChanged d)),
       (''baseline_keys'', enc_strings (df_BaselineKeys d)), (''candidate_keys'', enc_strings (df_CandidateKeys d)),
       (''candidate_only_keys'', enc_strings (df_CandidateOnlyKeys d))]"

definition comparison_json :: "PlanReport \<Rightarrow> string option" where
  "comparison_json r =
     (case plan_json (pc_Baseline r) of
        None \<Rightarrow> None
      | Some b \<Rightarrow>
          (case plan_json (pc_Candidate r) of
             None \<Rightarrow> None
           | Some c \<Rightarrow>
               Some (enc_object (f_str ''generated_at'' (pc_GeneratedAt r) @ f_str ''evidence_level'' (pc_EvidenceLevel r) @
                 [(''eligible_for_performance_claim'', enc_bool (pc_Eligible r))] @
                 f_str ''mysql_version'' (pc_MySQLVersion r) @
                 [(''snapshot'', digest_rows_json (ps_Digest (pc_Snapshot r)) (ps_Rows (pc_Snapshot r))),
                  (''sql_input'', sql_input_json (pq_SQL (pc_SQL r)) (pq_Signals (pc_SQL r))),
                  (''candidate_index'', index_json (px_Table (pc_CandidateIndex r)) (px_Name (pc_CandidateIndex r))
                     (px_DDL (pc_CandidateIndex r)) (px_Created (pc_CandidateIndex r))),
                  (''baseline'', b), (''candidate'', c), (''difference'', difference_json (pc_Difference r))] @
                 f_opt ''input_candidate_explain_sha256'' (pc_InputCandidateExplainSHA256 r) @
                 f_opt ''input_baseline_explain_sha256'' (pc_InputBaselineExplainSHA256 r)))))"

definition hypothesis_json :: "Hypothesis \<Rightarrow> string" where
  "hypothesis_json h =
     enc_object (f_str ''code'' (hy_Code h) @ f_str ''evidence_level'' (hy_EvidenceLevel h) @
       f_str ''statement'' (hy_Statement h) @
       [(''facts'', enc_list (map (\<lambda>f. enc_object (f_str ''field'' (fa_Field f) @ f_str ''value'' (fa_Value f))) (hy_Facts h))),
        (''required_verification'', enc_strings (hy_RequiredVerification h))])"

definition diagnosis_json :: "DiagReport \<Rightarrow> string" where
  "diagnosis_json d =
     enc_object (f_str ''generated_at'' (dg_GeneratedAt d) @ f_str ''evidence_level'' (dg_EvidenceLevel d) @
       [(''eligible_for_performance_claim'', enc_bool (dg_Eligible d)),
        (''source'', enc_object (f_str ''sha256'' (ds_SHA256 (dg_Source d)) @ f_str ''generated_at'' (ds_GeneratedAt (dg_Source d)) @
           f_str ''mysql_version'' (ds_MySQLVersion (dg_Source d)) @ f_str ''snapshot_digest'' (ds_Snapshot (dg_Source d)))),
        (''hypotheses'', enc_list (map hypothesis_json (dg_Hypotheses d))),
        (''unresolved'', enc_strings (dg_Unresolved d))])"

definition artifact_json :: "Artifact \<Rightarrow> string" where
  "artifact_json a =
     enc_object (f_str ''step'' (ar_Step a) @ f_str ''file'' (ar_File a) @ f_str ''sha256'' (ar_SHA256 a) @
       f_opt ''digest_scope'' (ar_DigestScope a))"

definition pipe_json :: "PipeReport \<Rightarrow> string" where
  "pipe_json r =
     enc_object (f_str ''evidence_level'' (pp_EvidenceLevel r) @
       [(''eligible_for_performance_claim'', enc_bool (pp_Eligible r)),
        (''completed_steps'', enc_strings (pp_CompletedSteps r))] @
       f_opt ''stopped_step'' (pp_StoppedStep r) @
       [(''rejection_reasons'', enc_list (map (\<lambda>c. enc_object (f_str ''code'' c)) (pp_RejectionReasons r))),
        (''artifacts'', enc_list (map artifact_json (pp_Artifacts r))),
        (''step_durations_ms'', enc_list (map (\<lambda>d. enc_object (f_str ''step'' (du_Step d) @
            [(''wall_clock_ms'', enc_float (du_WallClockMS d))])) (pp_StepDurations r)))])"

section \<open>Writing\<close>

type_synonym disk = "(string \<times> string) list"

definition writeJSON :: "(string \<Rightarrow> bool) \<Rightarrow> string \<Rightarrow> string option \<Rightarrow> disk \<Rightarrow> string option \<times> disk" where
  "writeJSON wr file v disk =
     (case v of
        None \<Rightarrow> (None, disk)
      | Some v \<Rightarrow>
          let data = marshal_indent v @ [CHR 0x0A]
          in if wr file then (Some data, disk @ [(file, data)]) else (None, disk))"

definition writeStage ::
  "(string \<Rightarrow> string) \<Rightarrow> (string \<Rightarrow> bool) \<Rightarrow> string \<Rightarrow> string option \<Rightarrow> string \<Rightarrow> PipeReport \<times> disk
     \<Rightarrow> string option \<times> PipeReport \<times> disk" where
  "writeStage sha wr file v step rd =
     (case writeJSON wr file v (snd rd) of
        (None, disk) \<Rightarrow> (None, fst rd, disk)
      | (Some bytes, disk) \<Rightarrow>
          (Some bytes,
           (fst rd)\<lparr>pp_CompletedSteps := pp_CompletedSteps (fst rd) @ [step],
                    pp_Artifacts := pp_Artifacts (fst rd) @
                      [\<lparr>ar_Step = step, ar_File = file, ar_SHA256 = sha bytes, ar_DigestScope = []\<rparr>]\<rparr>,
           disk))"

definition recordDuration :: "(string \<Rightarrow> duration) \<Rightarrow> string \<Rightarrow> PipeReport \<Rightarrow> PipeReport" where
  "recordDuration since step r =
     r\<lparr>pp_StepDurations := pp_StepDurations r @ [\<lparr>du_Step = step, du_WallClockMS = toMs (since step)\<rparr>]\<rparr>"

definition canonicalSummary :: "PipeReport \<Rightarrow> string" where
  "canonicalSummary r =
     marshal_indent (pipe_json (r\<lparr>pp_Artifacts :=
       map (\<lambda>a. if ar_Step a = SummaryStep then a\<lparr>ar_SHA256 := []\<rparr> else a) (pp_Artifacts r)\<rparr>)) @ [CHR 0x0A]"

datatype pipe_error =
    SQLInputRequired | SpecInputRequired | RunnerRequired | OutputDirError
  | WriteError string | StepRejected string string | StepFailed string | SummaryWriteError

definition finish ::
  "(string \<Rightarrow> string) \<Rightarrow> (string \<Rightarrow> bool) \<Rightarrow> PipeReport \<times> disk \<Rightarrow> (PipeReport \<times> pipe_error option) \<times> disk" where
  "finish sha wr rd =
     (let summary = \<lparr>ar_Step = SummaryStep, ar_File = SummaryFile, ar_SHA256 = [],
            ar_DigestScope = ''pipeline_report_with_own_sha256_blank''\<rparr>;
          r1 = (fst rd)\<lparr>pp_Artifacts := pp_Artifacts (fst rd) @ [summary]\<rparr>;
          r2 = (fst rd)\<lparr>pp_Artifacts := pp_Artifacts (fst rd) @ [summary\<lparr>ar_SHA256 := sha (canonicalSummary r1)\<rparr>]\<rparr>
      in case writeJSON wr SummaryFile (Some (pipe_json r2)) (snd rd) of
           (None, disk) \<Rightarrow> ((r2, Some SummaryWriteError), disk)
         | (Some _, disk) \<Rightarrow> ((r2, None), disk))"

text \<open>\<open>stop\<close>; \<open>caused\<close> tells whether an error is the cause.\<close>

definition stop ::
  "(string \<Rightarrow> string) \<Rightarrow> (string \<Rightarrow> bool) \<Rightarrow> string \<Rightarrow> string \<Rightarrow> bool \<Rightarrow> PipeReport \<times> disk
     \<Rightarrow> (PipeReport \<times> pipe_error option) \<times> disk" where
  "stop sha wr step code caused rd =
     (case finish sha wr ((fst rd)\<lparr>pp_StoppedStep := step, pp_RejectionReasons := pp_RejectionReasons (fst rd) @ [code]\<rparr>, snd rd) of
        ((r, Some e), disk) \<Rightarrow> ((r, Some e), disk)
      | ((r, None), disk) \<Rightarrow> ((r, Some (if caused then StepFailed step else StepRejected step code)), disk))"

section \<open>The output directory\<close>

text \<open>What \<open>os.Stat\<close>, \<open>os.MkdirAll\<close> and \<open>os.ReadDir\<close> answer for the path.\<close>

datatype dir_state = DirMissing bool | StatFailed | NotADirectory | ReadDirFailed | DirEntries nat

fun prepareOutputDir :: "string \<Rightarrow> dir_state \<Rightarrow> bool" where
  "prepareOutputDir dir (DirMissing created) = (dir \<noteq> [] \<and> created)"
| "prepareOutputDir dir StatFailed = False"
| "prepareOutputDir dir NotADirectory = False"
| "prepareOutputDir dir ReadDirFailed = False"
| "prepareOutputDir dir (DirEntries n) = (dir \<noteq> [] \<and> n = 0)"

section \<open>Run\<close>

type_synonym 's explain_runner = "string \<Rightarrow> string \<Rightarrow> 's \<Rightarrow> (Report \<times> string) option \<times> 's"

record 's PipeInput =
  pi_SQL :: string
  pi_CandidateSpec :: string
  pi_OutputDir :: string
  pi_RunExplain :: "'s explain_runner option"

text \<open>What the environment supplies.\<close>

record PipeEnv =
  env_sha :: "string \<Rightarrow> string"
  env_wr :: "string \<Rightarrow> bool"
  env_dir :: dir_state
  env_since :: "string \<Rightarrow> duration"
  env_now :: string
  env_order :: "json \<Rightarrow> json"

definition empty_pipe_report :: PipeReport where
  "empty_pipe_report = \<lparr>pp_EvidenceLevel = [], pp_Eligible = False, pp_CompletedSteps = [], pp_StoppedStep = [],
     pp_RejectionReasons = [], pp_Artifacts = [], pp_StepDurations = []\<rparr>"

definition comparison_meta :: "Report \<Rightarrow> Metadata" where
  "comparison_meta r =
     \<lparr>md_GeneratedAt = rp_GeneratedAt r, md_MySQLVersion = rp_MySQLVersion r,
      md_Snapshot = \<lparr>ps_Digest = Snapshot.sn_Digest (rp_Snapshot r), ps_Rows = Snapshot.sn_Rows (rp_Snapshot r)\<rparr>,
      md_SQL = \<lparr>pq_SQL = rp_SQL r, pq_Signals = rp_Signals r\<rparr>,
      md_CandidateIndex = \<lparr>px_Table = ci_Table (rp_Candidate r), px_Name = ci_Name (rp_Candidate r),
        px_DDL = ci_DDL (rp_Candidate r), px_Created = ci_Created (rp_Candidate r)\<rparr>\<rparr>"

text \<open>The stages from the last to the first; each one continues with the next.\<close>

definition diagnosis_stage ::
  "PipeEnv \<Rightarrow> string \<Rightarrow> PipeReport \<times> disk \<Rightarrow> (PipeReport \<times> pipe_error option) \<times> disk" where
  "diagnosis_stage env comparisonBytes rd =
     (case diagnose (env_sha env) (env_now env) comparisonBytes of
        Inl e \<Rightarrow> stop (env_sha env) (env_wr env) StepDiagnosis ''diagnosis_rejected'' True
                   (recordDuration (env_since env) StepDiagnosis (fst rd), snd rd)
      | Inr d \<Rightarrow>
          (case writeStage (env_sha env) (env_wr env) DiagnosisFile (Some (diagnosis_json d)) StepDiagnosis rd of
             (None, r, disk) \<Rightarrow> ((r, Some (WriteError StepDiagnosis)), disk)
           | (Some _, r, disk) \<Rightarrow> finish (env_sha env) (env_wr env) (recordDuration (env_since env) StepDiagnosis r, disk)))"

definition comparison_stage ::
  "PipeEnv \<Rightarrow> Report \<Rightarrow> string \<Rightarrow> string \<Rightarrow> PipeReport \<times> disk \<Rightarrow> (PipeReport \<times> pipe_error option) \<times> disk" where
  "comparison_stage env candidateReport candidateBytes baselineRaw rd =
     (case BuildReport (env_order env) (env_now env) (comparison_meta candidateReport) baselineRaw (rp_ExplainJSON candidateReport) of
        Inl e \<Rightarrow> stop (env_sha env) (env_wr env) StepPlanCompare ''plan_compare_rejected'' True
                   (recordDuration (env_since env) StepPlanCompare (fst rd), snd rd)
      | Inr c \<Rightarrow>
          (let comparison = c\<lparr>pc_InputCandidateExplainSHA256 := env_sha env candidateBytes,
                              pc_InputBaselineExplainSHA256 := env_sha env baselineRaw\<rparr>
           in case writeStage (env_sha env) (env_wr env) ComparisonFile (comparison_json comparison) StepPlanCompare rd of
                (None, r, disk) \<Rightarrow> ((r, Some (WriteError StepPlanCompare)), disk)
              | (Some bytes, r, disk) \<Rightarrow>
                  diagnosis_stage env bytes (recordDuration (env_since env) StepPlanCompare r, disk)))"

definition explain_stage ::
  "PipeEnv \<Rightarrow> 's explain_runner \<Rightarrow> string \<Rightarrow> string \<Rightarrow> 's \<Rightarrow> PipeReport \<times> disk
     \<Rightarrow> ((PipeReport \<times> pipe_error option) \<times> disk) \<times> 's" where
  "explain_stage env runExplain sql spec s rd =
     (case runExplain sql spec s of
        (None, s') \<Rightarrow>
          (stop (env_sha env) (env_wr env) StepCandidateExplain ''candidate_explain_rejected'' True
             (recordDuration (env_since env) StepCandidateExplain (fst rd), snd rd), s')
      | (Some (candidateReport, baselineRaw), s') \<Rightarrow>
          (case writeStage (env_sha env) (env_wr env) CandidateFile
                  (candidate_json candidateReport (env_sha env sql) (env_sha env spec)) StepCandidateExplain rd of
             (None, r, disk) \<Rightarrow> (((r, Some (WriteError StepCandidateExplain)), disk), s')
           | (Some bytes, r, disk) \<Rightarrow>
               (comparison_stage env candidateReport bytes baselineRaw
                  (recordDuration (env_since env) StepCandidateExplain r, disk), s')))"

definition pipe_Run ::
  "unicode_tables \<Rightarrow> sql_parser \<Rightarrow> PipeEnv \<Rightarrow> 's PipeInput \<Rightarrow> 's
     \<Rightarrow> ((PipeReport \<times> pipe_error option) \<times> disk) \<times> 's" where
  "pipe_Run U P env input s =
     (if length (pi_SQL input) = 0 then (((empty_pipe_report, Some SQLInputRequired), []), s)
      else if length (pi_CandidateSpec input) = 0 then (((empty_pipe_report, Some SpecInputRequired), []), s)
      else case pi_RunExplain input of
        None \<Rightarrow> (((empty_pipe_report, Some RunnerRequired), []), s)
      | Some runExplain \<Rightarrow>
          if \<not> prepareOutputDir (pi_OutputDir input) (env_dir env) then (((empty_pipe_report, Some OutputDirError), []), s)
          else
            let report = empty_pipe_report\<lparr>pp_EvidenceLevel := ''L1''\<rparr>;
                admission = (Sql_Admit.Admit U P (pi_SQL input))\<lparr>ad_InputSHA256 := env_sha env (pi_SQL input)\<rparr>
            in case writeStage (env_sha env) (env_wr env) AdmissionFile (Some (admission_json admission)) StepSQLAdmit (report, []) of
                 (None, r, disk) \<Rightarrow> (((r, Some (WriteError StepSQLAdmit)), disk), s)
               | (Some _, r, disk) \<Rightarrow>
                   let r1 = recordDuration (env_since env) StepSQLAdmit r
                   in if \<not> ad_Accepted admission
                      then (stop (env_sha env) (env_wr env) StepSQLAdmit (ad_ReasonCode admission) False (r1, disk), s)
                      else explain_stage env runExplain (pi_SQL input) (pi_CandidateSpec input) s (r1, disk))"

section \<open>The runner on the shadow databases\<close>

text \<open>\<open>pipelineExplainRunner\<close>: both databases must open; the baseline is only read.\<close>

definition pipelineExplainRunner ::
  "unicode_tables \<Rightarrow> sql_parser \<Rightarrow> (string \<Rightarrow> string) \<Rightarrow> string \<Rightarrow> bool \<Rightarrow> 'b ShadowDB \<Rightarrow> 'c ShadowDB \<Rightarrow> ('b \<times> 'c) explain_runner" where
  "pipelineExplainRunner U P H now_text opened B C sql rawSpec s =
     (case DecodeStrict rawSpec of
        Inl e \<Rightarrow> (None, s)
      | Inr spec \<Rightarrow>
          (case Prepare U P sql spec of
             Inl e \<Rightarrow> (None, s)
           | Inr prepared \<Rightarrow>
               if \<not> opened then (None, s)
               else
                 (case GateRun U P H now_text \<lparr>g_Baseline = Some B, g_Candidate = Some C, g_AllowedTables = None\<rparr>
                         prepared (fst s) (snd s) of
                    (Inl e, c) \<Rightarrow> (None, (fst s, c))
                  | (Inr r, c) \<Rightarrow>
                      (case db_explain B (fst s) (explain_statement (pr_SQL prepared)) of
                         None \<Rightarrow> (None, (fst s, c))
                       | Some baselineExplain \<Rightarrow> (Some (r, baselineExplain), (fst s, c))))))"

section \<open>What a run records\<close>

definition pipeline_steps :: "string list" where
  "pipeline_steps = [StepSQLAdmit, StepCandidateExplain, StepPlanCompare, StepDiagnosis]"

definition pipeline_files :: "string list" where
  "pipeline_files = [AdmissionFile, CandidateFile, ComparisonFile, DiagnosisFile]"

definition stage_artifact :: "(string \<Rightarrow> string) \<Rightarrow> string \<Rightarrow> string \<times> string \<Rightarrow> Artifact" where
  "stage_artifact sha step f = \<lparr>ar_Step = step, ar_File = fst f, ar_SHA256 = sha (snd f), ar_DigestScope = []\<rparr>"

text \<open>The report \<open>r\<close> lists the files of the stages so far, in order, each with the digest of its bytes.\<close>

definition progress :: "(string \<Rightarrow> string) \<Rightarrow> PipeReport \<Rightarrow> disk \<Rightarrow> bool" where
  "progress sha r files \<longleftrightarrow>
     map fst files = take (length files) pipeline_files \<and> pp_CompletedSteps r = take (length files) pipeline_steps
     \<and> pp_Artifacts r = map2 (stage_artifact sha) pipeline_steps files
     \<and> pp_EvidenceLevel r = ''L1'' \<and> \<not> pp_Eligible r"

definition running :: "PipeReport \<Rightarrow> bool" where
  "running r \<longleftrightarrow> pp_StoppedStep r = [] \<and> pp_RejectionReasons r = []"

definition summary_artifact :: "(string \<Rightarrow> string) \<Rightarrow> PipeReport \<Rightarrow> Artifact" where
  "summary_artifact sha r =
     \<lparr>ar_Step = SummaryStep, ar_File = SummaryFile, ar_SHA256 = sha (canonicalSummary r),
      ar_DigestScope = ''pipeline_report_with_own_sha256_blank''\<rparr>"

text \<open>How a started run ends: \<open>files\<close> are the artifacts of the completed steps.\<close>

definition run_outcome :: "(string \<Rightarrow> string) \<Rightarrow> PipeReport \<Rightarrow> pipe_error option \<Rightarrow> disk \<Rightarrow> bool" where
  "run_outcome sha r e disk \<longleftrightarrow>
     (\<exists>files. let stages = map2 (stage_artifact sha) pipeline_steps files;
                  full = (pp_Artifacts r = stages @ [summary_artifact sha r]);
                  with_summary = (disk = files @ [(SummaryFile, marshal_indent (pipe_json r) @ [CHR 0x0A])])
              in map fst files = take (length files) pipeline_files
                 \<and> pp_CompletedSteps r = take (length files) pipeline_steps
                 \<and> pp_EvidenceLevel r = ''L1'' \<and> \<not> pp_Eligible r
                 \<and> (case e of
                      None \<Rightarrow> length files = 4 \<and> full \<and> with_summary \<and> running r
                    | Some (StepFailed step) \<Rightarrow> full \<and> with_summary \<and> pp_StoppedStep r = step \<and> length (pp_RejectionReasons r) = 1
                    | Some (StepRejected step code) \<Rightarrow> full \<and> with_summary \<and> pp_StoppedStep r = step \<and> pp_RejectionReasons r = [code]
                    | Some SummaryWriteError \<Rightarrow> full \<and> disk = files
                    | Some (WriteError step) \<Rightarrow> length files < 4 \<and> step = pipeline_steps ! length files
                        \<and> pp_Artifacts r = stages \<and> disk = files \<and> running r
                    | _ \<Rightarrow> False))"

lemma progress_duration [simp]:
  "progress sha (recordDuration since step r) files = progress sha r files"
  "running (recordDuration since step r) = running r"
  by (simp_all add: progress_def running_def recordDuration_def)

lemma progress_length: "progress sha r files \<Longrightarrow> length files \<le> 4"
  by (drule conjunct1 [OF progress_def [THEN iffD1]], drule arg_cong [where f = length]) (simp add: pipeline_files_def)

lemma take_nth: "n < length xs \<Longrightarrow> take (Suc n) xs = take n xs @ [xs ! n]"
  by (rule take_Suc_conv_app_nth)

lemma map2_snoc: "length ys < length xs \<Longrightarrow> map2 f xs (ys @ [y]) = map2 f xs ys @ [f (xs ! length ys) y]"
proof (induction ys arbitrary: xs)
  case Nil
  then show ?case by (cases xs) auto
next
  case (Cons z ys)
  then show ?case by (cases xs) auto
qed

lemma writeStage_progress:
  assumes "progress sha r files" "running r" "length files < 4"
    and "file = pipeline_files ! length files" "step = pipeline_steps ! length files"
  shows "writeStage sha wr file v step (r, files) = (None, r, files)
    \<or> (\<exists>bytes r'. writeStage sha wr file v step (r, files) = (Some bytes, r', files @ [(file, bytes)])
          \<and> progress sha r' (files @ [(file, bytes)]) \<and> running r')"
proof -
  have l: "length files < length pipeline_files" "length files < length pipeline_steps"
    using assms(3) by (simp_all add: pipeline_files_def pipeline_steps_def)
  have "writeStage sha wr file v step (r, files) = (None, r, files)
      \<or> (\<exists>bytes. writeStage sha wr file v step (r, files) = (Some bytes,
           r\<lparr>pp_CompletedSteps := pp_CompletedSteps r @ [step],
             pp_Artifacts := pp_Artifacts r @ [stage_artifact sha step (file, bytes)]\<rparr>, files @ [(file, bytes)]))"
    by (cases v) (auto simp: writeStage_def writeJSON_def Let_def stage_artifact_def)
  moreover have "progress sha (r\<lparr>pp_CompletedSteps := pp_CompletedSteps r @ [step],
      pp_Artifacts := pp_Artifacts r @ [stage_artifact sha step (file, bytes)]\<rparr>) (files @ [(file, bytes)])" for bytes
    using assms(1,4,5) l by (simp add: progress_def take_nth map2_snoc)
  ultimately show ?thesis using assms(2) by (auto simp: running_def)
qed

lemma canonical_own_digest:
  "canonicalSummary (r\<lparr>pp_Artifacts := as @ [a]\<rparr>) = canonicalSummary (r\<lparr>pp_Artifacts := as @ [a\<lparr>ar_SHA256 := x\<rparr>]\<rparr>)"
  if "ar_Step a = SummaryStep"
  using that by (simp add: canonicalSummary_def)

lemma finish_outcome:
  assumes "progress sha r files"
  obtains r' where "finish sha wr (r, files) = ((r', None), files @ [(SummaryFile, marshal_indent (pipe_json r') @ [CHR 0x0A])])
      \<or> finish sha wr (r, files) = ((r', Some SummaryWriteError), files)"
    and "pp_Artifacts r' = map2 (stage_artifact sha) pipeline_steps files @ [summary_artifact sha r']"
    "pp_CompletedSteps r' = pp_CompletedSteps r" "pp_EvidenceLevel r' = ''L1''" "\<not> pp_Eligible r'"
    "pp_StoppedStep r' = pp_StoppedStep r" "pp_RejectionReasons r' = pp_RejectionReasons r"
proof -
  let ?s = "\<lparr>ar_Step = SummaryStep, ar_File = SummaryFile, ar_SHA256 = [],
      ar_DigestScope = ''pipeline_report_with_own_sha256_blank''\<rparr>"
  let ?d = "sha (canonicalSummary (r\<lparr>pp_Artifacts := pp_Artifacts r @ [?s]\<rparr>))"
  let ?r = "r\<lparr>pp_Artifacts := pp_Artifacts r @ [?s\<lparr>ar_SHA256 := ?d\<rparr>]\<rparr>"
  define R where "R = ?r"
  have "?s\<lparr>ar_SHA256 := ?d\<rparr> = summary_artifact sha R"
    using canonical_own_digest [where a = ?s and r = r and as = "pp_Artifacts r" and x = ?d]
    by (simp add: summary_artifact_def R_def)
  then have art: "pp_Artifacts R = map2 (stage_artifact sha) pipeline_steps files @ [summary_artifact sha R]"
    using assms by (simp add: progress_def R_def)
  have fin: "finish sha wr (r, files) = ((R, None), files @ [(SummaryFile, marshal_indent (pipe_json R) @ [CHR 0x0A])])
      \<or> finish sha wr (r, files) = ((R, Some SummaryWriteError), files)"
    by (simp add: finish_def writeJSON_def Let_def R_def)
  have "pp_CompletedSteps R = pp_CompletedSteps r" "pp_EvidenceLevel R = ''L1''" "\<not> pp_Eligible R"
    "pp_StoppedStep R = pp_StoppedStep r" "pp_RejectionReasons R = pp_RejectionReasons r"
    using assms by (simp_all add: R_def progress_def)
  then show thesis by (rule that [OF fin art])
qed

lemma finish_run_outcome:
  assumes "progress sha r files" "length files = 4" "running r"
  shows "case finish sha wr (r, files) of ((r', e), disk) \<Rightarrow> run_outcome sha r' e disk"
proof -
  from assms(1) have "map fst files = take (length files) pipeline_files" "pp_CompletedSteps r = take (length files) pipeline_steps"
    by (simp_all add: progress_def)
  then show ?thesis
    using assms(2,3) by (rule_tac finish_outcome [OF assms(1), of wr])
      (auto simp: run_outcome_def running_def Let_def intro!: exI [of _ files])
qed

lemma stop_run_outcome:
  assumes "progress sha r files" "running r"
  shows "case stop sha wr step code caused (r, files) of ((r', e), disk) \<Rightarrow> run_outcome sha r' e disk"
proof -
  let ?r = "r\<lparr>pp_StoppedStep := step, pp_RejectionReasons := pp_RejectionReasons r @ [code]\<rparr>"
  have p: "progress sha ?r files" using assms(1) by (simp add: progress_def)
  then have "map fst files = take (length files) pipeline_files" "pp_CompletedSteps ?r = take (length files) pipeline_steps"
    by (simp_all add: progress_def)
  then show ?thesis
    using assms(2) by (rule_tac finish_outcome [OF p, of wr])
      (auto simp: run_outcome_def running_def Let_def stop_def intro!: exI [of _ files])
qed

lemma write_error_outcome:
  assumes "progress sha r files" "running r" "length files < 4" "step = pipeline_steps ! length files"
  shows "run_outcome sha r (Some (WriteError step)) files"
  using assms by (auto simp: run_outcome_def progress_def Let_def intro!: exI [of _ files])

lemma stage_nth:
  "pipeline_steps ! 0 = StepSQLAdmit" "pipeline_steps ! Suc 0 = StepCandidateExplain"
  "pipeline_steps ! 2 = StepPlanCompare" "pipeline_steps ! 3 = StepDiagnosis"
  "pipeline_files ! 0 = AdmissionFile" "pipeline_files ! Suc 0 = CandidateFile"
  "pipeline_files ! 2 = ComparisonFile" "pipeline_files ! 3 = DiagnosisFile"
  by (simp_all add: pipeline_steps_def pipeline_files_def numeral_2_eq_2 numeral_3_eq_3)

text \<open>A stage that writes its artifact and goes on with \<open>K\<close>.\<close>

definition ends_well :: "(string \<Rightarrow> string) \<Rightarrow> (PipeReport \<times> pipe_error option) \<times> disk \<Rightarrow> bool" where
  "ends_well sha x \<longleftrightarrow> run_outcome sha (fst (fst x)) (snd (fst x)) (snd x)"

lemmas ends_well_stop = stop_run_outcome [unfolded case_prod_beta, folded ends_well_def]
lemmas ends_well_finish = finish_run_outcome [unfolded case_prod_beta, folded ends_well_def]

lemma write_then:
  assumes "progress sha r files" "running r" "length files < 4"
    and "file = pipeline_files ! length files" "step = pipeline_steps ! length files"
    and "\<And>b r'. progress sha r' (files @ [(file, b)]) \<Longrightarrow> running r' \<Longrightarrow> ends_well sha (K b r' (files @ [(file, b)]))"
  shows "ends_well sha (case writeStage sha wr file v step (r, files) of
      (None, r, disk) \<Rightarrow> ((r, Some (WriteError step)), disk) | (Some b, r, disk) \<Rightarrow> K b r disk)"
  using writeStage_progress [OF assms(1-5), of wr v] write_error_outcome [OF assms(1-3,5)] assms(6)
  by (auto simp: ends_well_def)

lemma diagnosis_stage_outcome:
  assumes "progress (env_sha env) r files" "running r" "length files = 3"
  shows "ends_well (env_sha env) (diagnosis_stage env bytes (r, files))"
proof (cases "diagnose (env_sha env) (env_now env) bytes")
  case (Inl e)
  then show ?thesis using assms by (simp add: diagnosis_stage_def ends_well_stop)
next
  case (Inr d)
  then show ?thesis
    unfolding diagnosis_stage_def Inr sum.case
    by (rule_tac write_then [OF assms(1,2)]) (use assms(3) in \<open>simp_all add: stage_nth ends_well_finish\<close>)
qed

lemma comparison_stage_outcome:
  assumes "progress (env_sha env) r files" "running r" "length files = 2"
  shows "ends_well (env_sha env) (comparison_stage env rep bytes baselineRaw (r, files))"
proof (cases "BuildReport (env_order env) (env_now env) (comparison_meta rep) baselineRaw (rp_ExplainJSON rep)")
  case (Inl e)
  then show ?thesis using assms by (simp add: comparison_stage_def ends_well_stop)
next
  case (Inr c)
  show ?thesis
    unfolding comparison_stage_def Inr sum.case Let_def
    by (rule write_then [OF assms(1,2)]) (use assms(3) in \<open>simp_all add: stage_nth diagnosis_stage_outcome\<close>)
qed

lemma explain_stage_outcome:
  assumes "progress (env_sha env) r files" "running r" "length files = 1"
  shows "ends_well (env_sha env) (fst (explain_stage env run sql spec s (r, files)))
    \<and> snd (explain_stage env run sql spec s (r, files)) = snd (run sql spec s)"
proof (cases "run sql spec s")
  case (Pair res s')
  show ?thesis
  proof (cases res)
    case None
    then show ?thesis using assms Pair by (simp add: explain_stage_def ends_well_stop)
  next
    case (Some x)
    obtain rep base where x: "x = (rep, base)" by fastforce
    have "ends_well (env_sha env) (case writeStage (env_sha env) (env_wr env) CandidateFile
        (candidate_json rep (env_sha env sql) (env_sha env spec)) StepCandidateExplain (r, files) of
          (None, r, disk) \<Rightarrow> ((r, Some (WriteError StepCandidateExplain)), disk)
        | (Some b, r, disk) \<Rightarrow> comparison_stage env rep b base (recordDuration (env_since env) StepCandidateExplain r, disk))"
      by (rule write_then [OF assms(1,2)]) (use assms(3) in \<open>simp_all add: stage_nth comparison_stage_outcome\<close>)
    moreover have "explain_stage env run sql spec s (r, files) =
        ((case writeStage (env_sha env) (env_wr env) CandidateFile
        (candidate_json rep (env_sha env sql) (env_sha env spec)) StepCandidateExplain (r, files) of
          (None, r, disk) \<Rightarrow> ((r, Some (WriteError StepCandidateExplain)), disk)
        | (Some b, r, disk) \<Rightarrow> comparison_stage env rep b base (recordDuration (env_since env) StepCandidateExplain r, disk)), s')"
      using Pair Some x by (auto simp: explain_stage_def split: option.splits prod.splits)
    ultimately show ?thesis using Pair by simp
  qed
qed

definition started :: "'s PipeInput \<Rightarrow> PipeEnv \<Rightarrow> bool" where
  "started input env \<longleftrightarrow> pi_SQL input \<noteq> [] \<and> pi_CandidateSpec input \<noteq> [] \<and> pi_RunExplain input \<noteq> None
     \<and> prepareOutputDir (pi_OutputDir input) (env_dir env)"

lemma progress_start:
  "progress sha (empty_pipe_report\<lparr>pp_EvidenceLevel := ''L1''\<rparr>) []" "running (empty_pipe_report\<lparr>pp_EvidenceLevel := ''L1''\<rparr>)"
  by (simp_all add: progress_def running_def empty_pipe_report_def)

lemma pipe_Run_not_started:
  "\<not> started input env \<Longrightarrow> \<exists>e \<in> {SQLInputRequired, SpecInputRequired, RunnerRequired, OutputDirError}.
     pipe_Run U P env input s = (((empty_pipe_report, Some e), []), s)"
  by (auto simp: pipe_Run_def started_def split: option.splits)

text \<open>A started run: the admission stage, then the runner only for an accepted statement.\<close>

lemma pipe_Run_started:
  assumes "started input env"
  obtains run where "pi_RunExplain input = Some run"
    and "ends_well (env_sha env) (fst (pipe_Run U P env input s))"
    and "snd (pipe_Run U P env input s) = s
      \<or> ad_Accepted (Sql_Admit.Admit U P (pi_SQL input)) \<and> snd (pipe_Run U P env input s) = snd (run (pi_SQL input) (pi_CandidateSpec input) s)"
proof -
  obtain run where run: "pi_RunExplain input = Some run" using assms by (auto simp: started_def)
  let ?r = "empty_pipe_report\<lparr>pp_EvidenceLevel := ''L1''\<rparr>"
  let ?a = "(Sql_Admit.Admit U P (pi_SQL input))\<lparr>ad_InputSHA256 := env_sha env (pi_SQL input)\<rparr>"
  let ?w = "writeStage (env_sha env) (env_wr env) AdmissionFile (Some (admission_json ?a)) StepSQLAdmit (?r, [])"
  have eq: "pipe_Run U P env input s = (case ?w of (None, r, disk) \<Rightarrow> (((r, Some (WriteError StepSQLAdmit)), disk), s)
      | (Some _, r, disk) \<Rightarrow>
          let r1 = recordDuration (env_since env) StepSQLAdmit r
          in if \<not> ad_Accepted ?a then (stop (env_sha env) (env_wr env) StepSQLAdmit (ad_ReasonCode ?a) False (r1, disk), s)
             else explain_stage env run (pi_SQL input) (pi_CandidateSpec input) s (r1, disk))"
    using assms run by (simp add: pipe_Run_def started_def Let_def)
  from writeStage_progress [OF progress_start, of AdmissionFile StepSQLAdmit "env_sha env" "env_wr env" "Some (admission_json ?a)"]
  consider "?w = (None, ?r, [])"
    | b r' where "?w = (Some b, r', [(AdmissionFile, b)])" "progress (env_sha env) r' [(AdmissionFile, b)]" "running r'"
    by (auto simp: stage_nth)
  then show thesis
  proof cases
    case 1
    have "run_outcome (env_sha env) ?r (Some (WriteError StepSQLAdmit)) []"
      using write_error_outcome [OF progress_start, of StepSQLAdmit "env_sha env"] by (simp add: stage_nth)
    then show thesis
      using that [OF run] unfolding eq 1 by (simp add: ends_well_def)
  next
    case 2
    show thesis
      using that [OF run] 2 explain_stage_outcome [of env "recordDuration (env_since env) StepSQLAdmit r'" "[(AdmissionFile, b)]"
          run "pi_SQL input" "pi_CandidateSpec input" s]
      unfolding eq by (simp add: Let_def ends_well_stop split: if_splits)
  qed
qed


lemma runner_effect:
  "snd (pipelineExplainRunner U P H now_text opened B C sql rawSpec (b, c)) = (b', c') \<Longrightarrow>
     b' = b \<and> (c' = c \<or> (\<exists>spec p. DecodeStrict rawSpec = Inr spec \<and> Prepare U P sql spec = Inr p \<and> statements_only C p c c'))"
proof -
  have gate: "statements_only C p c c1"
    if "GateRun U P H now_text \<lparr>g_Baseline = Some B, g_Candidate = Some C, g_AllowedTables = None\<rparr> p b c = (x, c1)" for p x b c c1
    using that
    by (auto simp: GateRun_def statements_only_def Let_def split: sum.splits prod.splits bool.splits
        dest!: ensureCandidateIndex_cases refresh_cases)
  assume "snd (pipelineExplainRunner U P H now_text opened B C sql rawSpec (b, c)) = (b', c')"
  then show ?thesis
    by (auto simp: pipelineExplainRunner_def split: sum.splits option.splits prod.splits if_splits dest!: gate)
qed

section \<open>Properties\<close>


text \<open>
  Run on the two shadow databases, the pipeline leaves the baseline as it was and changes the
  candidate by the prepared CREATE INDEX and ANALYZE alone, and only when the specification decodes
  and the statement is admitted and prepared for it.
\<close>

theorem pipeline_changes_only_the_index:
  "case pipe_Run U P env \<lparr>pi_SQL = sql, pi_CandidateSpec = rawSpec, pi_OutputDir = dir,
          pi_RunExplain = Some (pipelineExplainRunner U P H now_text opened B C)\<rparr> (b, c) of (_, (b', c')) \<Rightarrow>
     b' = b \<and> (c' = c \<or> (\<exists>spec p. DecodeStrict rawSpec = Inr spec \<and> Prepare U P sql spec = Inr p \<and> statements_only C p c c'))"
proof -
  let ?in = "\<lparr>pi_SQL = sql, pi_CandidateSpec = rawSpec, pi_OutputDir = dir,
      pi_RunExplain = Some (pipelineExplainRunner U P H now_text opened B C)\<rparr>"
  have "snd (pipe_Run U P env ?in (b, c)) \<in> {(b, c), snd (pipelineExplainRunner U P H now_text opened B C sql rawSpec (b, c))}"
  proof (cases "started ?in env")
    case True
    then show ?thesis by (rule pipe_Run_started [where U = U and P = P and s = "(b, c)"]) auto
  next
    case False
    from pipe_Run_not_started [OF this, of U P "(b, c)"] show ?thesis by auto
  qed
  moreover obtain b' c' where out: "snd (pipelineExplainRunner U P H now_text opened B C sql rawSpec (b, c)) = (b', c')"
    by fastforce
  ultimately show ?thesis
    using runner_effect [OF out] by (auto simp: case_prod_beta)
qed

section \<open>A plan with bytes after it\<close>

definition any_report :: Report where
  "any_report = \<lparr>rp_GeneratedAt = ''now'', rp_EvidenceLevel = ''L1'', rp_EligibleForPerformanceClaim = False, rp_MySQLVersion = ''8'',
     rp_Snapshot = \<lparr>Snapshot.sn_Digest = ''d'', Snapshot.sn_Rows = 1\<rparr>, rp_SQL = plain_read, rp_Signals = [],
     rp_Candidate = \<lparr>ci_Table = ''t'', ci_Name = ''i'', ci_DDL = [], ci_Created = True\<rparr>, rp_ExplainJSON = ''{}''\<rparr>"

text \<open>
  \<open>Parse\<close> accepts a baseline plan followed by bytes that are no JSON value, \<open>MarshalIndent\<close> does not:
  the run then ends without naming a stopped step and without a summary, although every write would
  have succeeded.
\<close>

theorem trailing_bytes_lose_the_summary:
  "\<exists>(env :: PipeEnv) (input :: unit PipeInput) r disk. started input env \<and> (\<forall>file. env_wr env file)
     \<and> pipe_Run ascii_tables (\<lambda>_. Some [plain_tree]) env input () = (((r, Some (WriteError StepPlanCompare)), disk), ())
     \<and> pp_StoppedStep r = [] \<and> SummaryFile \<notin> fst ` set disk"
proof -
  let ?env = "\<lparr>env_sha = \<lambda>x. ''h'', env_wr = \<lambda>_. True, env_dir = DirEntries 0, env_since = \<lambda>_. 0, env_now = ''now'',
      env_order = \<lambda>j. j\<rparr>"
  let ?in = "\<lparr>pi_SQL = plain_read, pi_CandidateSpec = ''{}'', pi_OutputDir = ''out'',
      pi_RunExplain = Some (\<lambda>_ _ s. (Some (any_report, ''{}x''), s))\<rparr> :: unit PipeInput"
  have dec: "json_decode ''{}'' = Some (JObj [], [])" "json_decode ''{}x'' = Some (JObj [], ''x'')" "json_decode ''x'' = None"
    "json_decode [] = None" "json_at_eof [] = True" "json_at_eof ''x'' = False"
    by code_simp+
  have adm: "ad_Accepted (Sql_Admit.Admit ascii_tables (\<lambda>_. Some [plain_tree]) plain_read)"
    by (rule plain_read_admitted)
  have ne: "plain_read \<noteq> []" by (simp add: plain_read_def)
  have "comparison_json c = None" if "pl_Raw (pc_Baseline c) = ''{}x''" for c
    using that by (simp add: comparison_json_def plan_json_def enc_raw_def json_valid_def dec)
  then show ?thesis
    using adm ne
    by (intro exI [of _ ?env] exI [of _ ?in])
       (auto simp: started_def pipe_Run_def writeStage_def writeJSON_def Let_def explain_stage_def
         candidate_json_def any_report_def enc_raw_def json_valid_def dec comparison_stage_def BuildReport_def Parse_def
         recordDuration_def empty_pipe_report_def file_names comparison_meta_def)
qed

end
