(* ===== verification/Evaluation.thy ===== *)
theory Evaluation
  imports Evidence_Bind Pipeline
begin

text \<open>
  \<open>internal/evaluation/evaluation.go\<close>: the acceptance report built from a manifest of SQL samples, one
  measured report and one pipeline report.  The files are parameters: the content of the manifest and
  of the reports, and of the SQL file of a given name beside the manifest, where they can be read.
\<close>

section \<open>Data\<close>

record EvalCase =
  ec_ID :: string
  ec_SQLFile :: string
  ec_ExpectSignal :: string
  ec_ExpectRejection :: string

record Manifest =
  mf_DatasetVersion :: string
  mf_Cases :: "EvalCase list"

record StaticCaseResult =
  sc_ID :: string
  sc_Detected :: bool
  sc_Signal :: string
  sc_Rejection :: string

record StaticRules =
  sr_Status :: string
  sr_DatasetVersion :: string
  sr_ManifestSHA256 :: string
  sr_Detected :: int
  sr_Total :: int
  sr_Recall :: float64
  sr_Cases :: "StaticCaseResult list"
  sr_Scope :: string

record Validation =
  vl_Status :: string
  vl_SourceSHA256 :: string
  vl_Rows :: int
  vl_DatasetVersion :: string
  vl_CaseName :: string
  vl_DirectionVerdict :: string
  vl_CandidateCalibrationNoiseRatio :: float64
  vl_EvidenceLevel :: string
  vl_Eligible :: bool
  vl_Limitation :: string

record Waiver =
  wv_Dimension :: string
  wv_Status :: string
  wv_Reason :: string

record SecurityCheck =
  sk_Name :: string
  sk_Package :: string
  sk_Status :: string

record Security =
  se_Status :: string
  se_Checks :: "SecurityCheck list"

record PipelineTiming =
  pt_Status :: string
  pt_SourceSHA256 :: string
  pt_Steps :: "StepDuration list"
  pt_Artifacts :: "Artifact list"

record Cost =
  co_Status :: string
  co_LLMAttempts :: int
  co_TokenUsage :: Waiver
  co_PipelineTiming :: PipelineTiming

record Environment =
  en_GitCommit :: string
  en_EvaluatedAt :: string
  en_WorkingTreeDirty :: bool
  en_SampleDatasetVersion :: string
  en_SampleManifestSHA256 :: string

record EvalReport =
  ev_EvidenceLevel :: string
  ev_Eligible :: bool
  ev_StaticRules :: StaticRules
  ev_Validation :: Validation
  ev_Security :: Security
  ev_Cost :: Cost
  ev_Waivers :: "Waiver list"
  ev_Environment :: Environment

definition EvidenceLevelL1 :: string where "EvidenceLevelL1 = ''L1''"
definition StatusMeasured :: string where "StatusMeasured = ''measured''"
definition StatusWaived :: string where "StatusWaived = ''waived''"
definition StatusOutOfScope :: string where "StatusOutOfScope = ''out_of_scope''"
definition StatusNotRun :: string where "StatusNotRun = ''not_run''"

definition SetEnvironment :: "EvalReport \<Rightarrow> string \<Rightarrow> string \<Rightarrow> bool \<Rightarrow> EvalReport" where
  "SetEnvironment r gitCommit evaluatedAt dirty =
     r\<lparr>ev_Environment := \<lparr>en_GitCommit = gitCommit, en_EvaluatedAt = evaluatedAt, en_WorkingTreeDirty = dirty,
        en_SampleDatasetVersion = sr_DatasetVersion (ev_StaticRules r),
        en_SampleManifestSHA256 = sr_ManifestSHA256 (ev_StaticRules r)\<rparr>\<rparr>"

datatype eval_error =
    ManifestUnreadable | ManifestDecode | ManifestIncomplete | InvalidCase string | DuplicateCase string | SQLUnreadable string
  | ValidationUnreadable | ValidationDecode | ValidationIncomplete
  | TimingUnreadable | TimingDecode | TimingNotL1

section \<open>Static rules\<close>

definition safeBaseName :: "string \<Rightarrow> bool" where
  "safeBaseName name \<longleftrightarrow> name \<noteq> [] \<and> path_base name = name \<and> name \<noteq> ''.'' \<and> name \<noteq> ''..''"

definition case_result :: "EvalCase \<Rightarrow> Result \<Rightarrow> StaticCaseResult" where
  "case_result c admission =
     (let signal = foldl (\<lambda>found signal. if signal = ec_ExpectSignal c then signal else found) [] (ad_Signals admission)
      in \<lparr>sc_ID = ec_ID c, sc_Detected = (signal \<noteq> [] \<or> ad_ReasonCode admission = ec_ExpectRejection c),
          sc_Signal = signal, sc_Rejection = ad_ReasonCode admission\<rparr>)"

fun eval_cases ::
  "(string \<Rightarrow> Result) \<Rightarrow> (string \<Rightarrow> string option) \<Rightarrow> string list \<Rightarrow> EvalCase list \<Rightarrow> int \<times> StaticCaseResult list
     \<Rightarrow> eval_error + int \<times> StaticCaseResult list" where
  "eval_cases admit sql_file seen [] acc = Inr acc"
| "eval_cases admit sql_file seen (c # cs) acc =
     (if ec_ID c = [] \<or> \<not> safeBaseName (ec_SQLFile c) \<or> (ec_ExpectSignal c = []) = (ec_ExpectRejection c = [])
      then Inl (InvalidCase (ec_ID c))
      else if ec_ID c \<in> set seen then Inl (DuplicateCase (ec_ID c))
      else case sql_file (ec_SQLFile c) of
        None \<Rightarrow> Inl (SQLUnreadable (ec_ID c))
      | Some sql \<Rightarrow>
          let res = case_result c (admit sql)
          in eval_cases admit sql_file (ec_ID c # seen) cs
               (if sc_Detected res then fst acc + 1 else fst acc, snd acc @ [res]))"

definition evaluateStatic ::
  "(string \<Rightarrow> Result) \<Rightarrow> (string \<Rightarrow> string option) \<Rightarrow> Manifest \<Rightarrow> string \<Rightarrow> eval_error + StaticRules" where
  "evaluateStatic admit sql_file manifest manifestSHA =
     (if TrimSpace (mf_DatasetVersion manifest) = [] \<or> length (mf_Cases manifest) = 0 then Inl ManifestIncomplete
      else case eval_cases admit sql_file [] (mf_Cases manifest) (0, []) of
        Inl e \<Rightarrow> Inl e
      | Inr (detected, cases) \<Rightarrow>
          Inr \<lparr>sr_Status = StatusMeasured, sr_DatasetVersion = mf_DatasetVersion manifest, sr_ManifestSHA256 = manifestSHA,
               sr_Detected = detected, sr_Total = int (length cases),
               sr_Recall = fl (f64_of_int detected / f64_of_int (int (length cases))), sr_Cases = cases,
               sr_Scope = ''curated known-smell SQL samples only; not a production SQL corpus''\<rparr>)"

section \<open>Validation, timing, security\<close>

definition readValidation :: "(string \<Rightarrow> string) \<Rightarrow> string option \<Rightarrow> eval_error + Validation" where
  "readValidation sha256_hex file =
     (case file of
        None \<Rightarrow> Inl ValidationUnreadable
      | Some raw \<Rightarrow>
          (case decode_strict bench_fields zero_bench raw of
             None \<Rightarrow> Inl ValidationDecode
           | Some m \<Rightarrow>
               (case (br_Verdict m, br_Measurement m) of
                  (Some v, Some p) \<Rightarrow>
                    if di_Rows (br_Dataset m) \<le> 0 then Inl ValidationIncomplete
                    else Inr \<lparr>vl_Status = StatusMeasured, vl_SourceSHA256 = sha256_hex raw, vl_Rows = di_Rows (br_Dataset m),
                              vl_DatasetVersion = di_DatasetVersion (br_Dataset m), vl_CaseName = ca_Name (br_Case m),
                              vl_DirectionVerdict = rv_Verdict v,
                              vl_CandidateCalibrationNoiseRatio = side_NoiseRatio (ph_Candidate (br_Calibration m)),
                              vl_EvidenceLevel = EvidenceLevelL1, vl_Eligible = False,
                              vl_Limitation = ''one historical query case; candidate calibration noise exceeds the 10% admission limit, so no performance claim is eligible''\<rparr>
                | _ \<Rightarrow> Inl ValidationIncomplete)))"

definition securityChecklist :: "string \<Rightarrow> SecurityCheck list" where
  "securityChecklist status =
     map (\<lambda>(n, p). \<lparr>sk_Name = n, sk_Package = p, sk_Status = status\<rparr>)
       [(''candidate_spec_strict_decode'', ''./internal/candidate/...''),
        (''agent_prompt_injection'', ''./internal/agentgraph/...''),
        (''readonly_sql_locking_read'', ''./internal/sqladmit/...''),
        (''webhook_signature_queue_and_degrade'', ''./internal/webhook/...''),
        (''pipeline_stop_and_partial_evidence'', ''./internal/pipeline/...'')]"

definition DefaultSecurityChecklist :: Security where
  "DefaultSecurityChecklist = \<lparr>se_Status = StatusNotRun, se_Checks = securityChecklist StatusNotRun\<rparr>"

fun run_checks :: "(string \<Rightarrow> bool) \<Rightarrow> SecurityCheck list \<Rightarrow> bool \<Rightarrow> SecurityCheck list \<times> bool" where
  "run_checks run [] allPassed = ([], allPassed)"
| "run_checks run (c # cs) allPassed =
     (if \<not> run (sk_Package c)
      then (case run_checks run cs False of (cs', b) \<Rightarrow> (c\<lparr>sk_Status := ''failed''\<rparr> # cs', b))
      else (case run_checks run cs allPassed of (cs', b) \<Rightarrow> (c\<lparr>sk_Status := ''passed''\<rparr> # cs', b)))"

definition RunSecurityChecks :: "(string \<Rightarrow> bool) \<Rightarrow> Security" where
  "RunSecurityChecks run =
     (case run_checks run (securityChecklist StatusNotRun) True of
        (checks, allPassed) \<Rightarrow> \<lparr>se_Status = (if \<not> allPassed then ''failed'' else ''passed''), se_Checks = checks\<rparr>)"

section \<open>The report\<close>

definition case_fields :: "(string \<times> EvalCase field_setter) list" where
  "case_fields =
     [(''id'', set_string (\<lambda>x c. c\<lparr>ec_ID := x\<rparr>)), (''sql_file'', set_string (\<lambda>x c. c\<lparr>ec_SQLFile := x\<rparr>)),
      (''expect_signal'', set_string (\<lambda>x c. c\<lparr>ec_ExpectSignal := x\<rparr>)),
      (''expect_rejection'', set_string (\<lambda>x c. c\<lparr>ec_ExpectRejection := x\<rparr>))]"

definition manifest_fields :: "(string \<times> Manifest field_setter) list" where
  "manifest_fields =
     [(''dataset_version'', set_string (\<lambda>x m. m\<lparr>mf_DatasetVersion := x\<rparr>)),
      (''cases'', set_slice (decode_struct case_fields)
         \<lparr>ec_ID = [], ec_SQLFile = [], ec_ExpectSignal = [], ec_ExpectRejection = []\<rparr> mf_Cases (\<lambda>x m. m\<lparr>mf_Cases := x\<rparr>))]"

definition Build ::
  "(string \<Rightarrow> Result) \<Rightarrow> (string \<Rightarrow> string) \<Rightarrow> string option \<Rightarrow> (string \<Rightarrow> string option) \<Rightarrow> string option
     \<Rightarrow> eval_error + EvalReport" where
  "Build admit sha256_hex manifest_file sql_file validation_file =
     (case manifest_file of
        None \<Rightarrow> Inl ManifestUnreadable
      | Some manifestRaw \<Rightarrow>
          (case decode_strict manifest_fields \<lparr>mf_DatasetVersion = [], mf_Cases = []\<rparr> manifestRaw of
             None \<Rightarrow> Inl ManifestDecode
           | Some manifest \<Rightarrow>
               (case evaluateStatic admit sql_file manifest (sha256_hex manifestRaw) of
                  Inl e \<Rightarrow> Inl e
                | Inr static \<Rightarrow>
                    (case readValidation sha256_hex validation_file of
                       Inl e \<Rightarrow> Inl e
                     | Inr validation \<Rightarrow>
                         Inr \<lparr>ev_EvidenceLevel = EvidenceLevelL1, ev_Eligible = False, ev_StaticRules = static,
                              ev_Validation = validation, ev_Security = DefaultSecurityChecklist,
                              ev_Cost = \<lparr>co_Status = ''partially_measured'', co_LLMAttempts = 0,
                                co_TokenUsage = \<lparr>wv_Dimension = ''token_usage'', wv_Status = StatusWaived,
                                  wv_Reason = ''token usage is not instrumented''\<rparr>,
                                co_PipelineTiming = \<lparr>pt_Status = StatusNotRun, pt_SourceSHA256 = [], pt_Steps = [], pt_Artifacts = []\<rparr>\<rparr>,
                              ev_Waivers =
                                [\<lparr>wv_Dimension = ''optimality_proximity'', wv_Status = StatusWaived,
                                  wv_Reason = ''no proposal-to-A/B feedback iteration exists''\<rparr>,
                                 \<lparr>wv_Dimension = ''result_equivalence'', wv_Status = StatusOutOfScope,
                                  wv_Reason = ''this project has no SQL rewrite capability''\<rparr>],
                              ev_Environment = \<lparr>en_GitCommit = [], en_EvaluatedAt = [], en_WorkingTreeDirty = False,
                                en_SampleDatasetVersion = [], en_SampleManifestSHA256 = []\<rparr>\<rparr>))))"

definition artifact_fields :: "(string \<times> Artifact field_setter) list" where
  "artifact_fields =
     [(''step'', set_string (\<lambda>x a. a\<lparr>ar_Step := x\<rparr>)), (''file'', set_string (\<lambda>x a. a\<lparr>ar_File := x\<rparr>)),
      (''sha256'', set_string (\<lambda>x a. a\<lparr>ar_SHA256 := x\<rparr>)), (''digest_scope'', set_string (\<lambda>x a. a\<lparr>ar_DigestScope := x\<rparr>))]"

definition duration_fields :: "(string \<times> StepDuration field_setter) list" where
  "duration_fields =
     [(''step'', set_string (\<lambda>x d. d\<lparr>du_Step := x\<rparr>)), (''wall_clock_ms'', set_float (\<lambda>x d. d\<lparr>du_WallClockMS := x\<rparr>))]"

definition pipe_fields :: "(string \<times> PipeReport field_setter) list" where
  "pipe_fields =
     [(''evidence_level'', set_string (\<lambda>x r. r\<lparr>pp_EvidenceLevel := x\<rparr>)),
      (''eligible_for_performance_claim'', set_bool (\<lambda>x r. r\<lparr>pp_Eligible := x\<rparr>)),
      (''completed_steps'', set_strings pp_CompletedSteps (\<lambda>x r. r\<lparr>pp_CompletedSteps := x\<rparr>)),
      (''stopped_step'', set_string (\<lambda>x r. r\<lparr>pp_StoppedStep := x\<rparr>)),
      (''rejection_reasons'', set_slice (decode_struct [(''code'', plain_string)]) [] pp_RejectionReasons
         (\<lambda>x r. r\<lparr>pp_RejectionReasons := x\<rparr>)),
      (''artifacts'', set_slice (decode_struct artifact_fields)
         \<lparr>ar_Step = [], ar_File = [], ar_SHA256 = [], ar_DigestScope = []\<rparr> pp_Artifacts (\<lambda>x r. r\<lparr>pp_Artifacts := x\<rparr>)),
      (''step_durations_ms'', set_slice (decode_struct duration_fields) \<lparr>du_Step = [], du_WallClockMS = 0\<rparr> pp_StepDurations
         (\<lambda>x r. r\<lparr>pp_StepDurations := x\<rparr>))]"

definition AttachPipelineTiming ::
  "(string \<Rightarrow> string) \<Rightarrow> string option \<Rightarrow> EvalReport \<Rightarrow> eval_error option \<times> EvalReport" where
  "AttachPipelineTiming sha256_hex file r =
     (case file of
        None \<Rightarrow> (Some TimingUnreadable, r)
      | Some raw \<Rightarrow>
          (case decode_strict pipe_fields empty_pipe_report raw of
             None \<Rightarrow> (Some TimingDecode, r)
           | Some p \<Rightarrow>
               if pp_EvidenceLevel p \<noteq> EvidenceLevelL1 \<or> pp_Eligible p \<or> length (pp_StepDurations p) = 0
               then (Some TimingNotL1, r)
               else (None, r\<lparr>ev_Cost := (ev_Cost r)\<lparr>co_PipelineTiming :=
                      \<lparr>pt_Status = StatusMeasured, pt_SourceSHA256 = sha256_hex raw, pt_Steps = pp_StepDurations p,
                       pt_Artifacts = pp_Artifacts p\<rparr>\<rparr>\<rparr>)))"

section \<open>Counting\<close>

lemma found_signal: "foldl (\<lambda>found signal. if signal = x then signal else found) f ss = (if x \<in> set ss then x else f)"
  by (induction ss arbitrary: f) auto

definition valid_case :: "(string \<Rightarrow> string option) \<Rightarrow> EvalCase \<Rightarrow> bool" where
  "valid_case sql_file c \<longleftrightarrow> ec_ID c \<noteq> [] \<and> safeBaseName (ec_SQLFile c)
     \<and> (ec_ExpectSignal c = []) \<noteq> (ec_ExpectRejection c = []) \<and> sql_file (ec_SQLFile c) \<noteq> None"

definition result_of :: "(string \<Rightarrow> Result) \<Rightarrow> (string \<Rightarrow> string option) \<Rightarrow> EvalCase \<Rightarrow> StaticCaseResult" where
  "result_of admit sql_file c = case_result c (admit (the (sql_file (ec_SQLFile c))))"

lemma eval_cases_Inr:
  "eval_cases admit sql_file seen cs (n, rs) = Inr x \<longleftrightarrow>
     (\<forall>c \<in> set cs. valid_case sql_file c) \<and> distinct (map ec_ID cs) \<and> set (map ec_ID cs) \<inter> set seen = {}
     \<and> x = (n + int (length (filter sc_Detected (map (result_of admit sql_file) cs))), rs @ map (result_of admit sql_file) cs)"
proof (induction cs arbitrary: seen n rs)
  case (Cons c cs)
  show ?case
  proof (cases "valid_case sql_file c \<and> ec_ID c \<notin> set seen")
    case True
    then obtain sql where sql: "sql_file (ec_SQLFile c) = Some sql" by (auto simp: valid_case_def)
    then have "eval_cases admit sql_file seen (c # cs) (n, rs) = eval_cases admit sql_file (ec_ID c # seen) cs
        (if sc_Detected (result_of admit sql_file c) then n + 1 else n, rs @ [result_of admit sql_file c])"
      using True by (simp add: valid_case_def result_of_def Let_def)
    then show ?thesis
      using True by (cases "sc_Detected (result_of admit sql_file c)") (auto simp: Cons.IH)
  next
    case False
    then have "\<exists>e. eval_cases admit sql_file seen (c # cs) (n, rs) = Inl e"
      by (cases "sql_file (ec_SQLFile c)") (auto simp: valid_case_def)
    with False show ?thesis by auto
  qed
qed auto

lemma case_result_detected:
  assumes "(ec_ExpectSignal c = []) \<noteq> (ec_ExpectRejection c = [])"
  shows "sc_Detected (case_result c a) \<longleftrightarrow>
    (if ec_ExpectSignal c \<noteq> [] then ec_ExpectSignal c \<in> set (ad_Signals a) \<or> ad_ReasonCode a = []
     else ad_ReasonCode a = ec_ExpectRejection c)"
  using assms by (auto simp: case_result_def found_signal)

section \<open>Properties\<close>

text \<open>
  An acceptance report is built only from a manifest that reads back strictly, with a data set
  version, at least one case, distinct identifiers, exactly one expectation and a plain readable file
  name for each case, and from a report with a completed measurement.  It is L1 and never claims
  performance.  The total is the number of cases, the detected ones are counted exactly, the recall is
  their quotient; a case that expects a rejection is detected when that code was returned, a case
  that expects a signal when the signal was reported or when the statement was accepted at all.
\<close>

theorem acceptance_report_counts_its_cases:
  "case Build admit sha256_hex manifest_file sql_file validation_file of
     Inl e \<Rightarrow> True
   | Inr r \<Rightarrow>
       ev_EvidenceLevel r = ''L1'' \<and> \<not> ev_Eligible r \<and> vl_EvidenceLevel (ev_Validation r) = ''L1'' \<and> \<not> vl_Eligible (ev_Validation r)
       \<and> (\<exists>raw m. manifest_file = Some raw \<and> decode_strict manifest_fields \<lparr>mf_DatasetVersion = [], mf_Cases = []\<rparr> raw = Some m
           \<and> mf_Cases m \<noteq> [] \<and> distinct (map ec_ID (mf_Cases m)) \<and> (\<forall>c \<in> set (mf_Cases m). valid_case sql_file c)
           \<and> sr_Cases (ev_StaticRules r) = map (result_of admit sql_file) (mf_Cases m)
           \<and> sr_Total (ev_StaticRules r) = int (length (mf_Cases m))
           \<and> sr_Detected (ev_StaticRules r) = int (length (filter sc_Detected (sr_Cases (ev_StaticRules r))))
           \<and> sr_Recall (ev_StaticRules r) =
               fl (f64_of_int (sr_Detected (ev_StaticRules r)) / f64_of_int (sr_Total (ev_StaticRules r)))
           \<and> (\<forall>c \<in> set (mf_Cases m). \<exists>sql. sql_file (ec_SQLFile c) = Some sql \<and>
               (sc_Detected (result_of admit sql_file c) \<longleftrightarrow>
                  (if ec_ExpectSignal c \<noteq> [] then ec_ExpectSignal c \<in> set (ad_Signals (admit sql)) \<or> ad_ReasonCode (admit sql) = []
                   else ad_ReasonCode (admit sql) = ec_ExpectRejection c))))"
proof (cases "Build admit sha256_hex manifest_file sql_file validation_file")
  case (Inl e)
  then show ?thesis by simp
next
  case (Inr r)
  then obtain raw m v static where raw: "manifest_file = Some raw"
    "decode_strict manifest_fields \<lparr>mf_DatasetVersion = [], mf_Cases = []\<rparr> raw = Some m"
    and st: "evaluateStatic admit sql_file m (sha256_hex raw) = Inr static" and sr: "ev_StaticRules r = static"
    and v: "readValidation sha256_hex validation_file = Inr v" "ev_Validation r = v"
    and l1: "ev_EvidenceLevel r = ''L1''" "\<not> ev_Eligible r"
    by (auto simp: Build_def EvidenceLevelL1_def split: option.splits sum.splits)
  have "vl_EvidenceLevel v = ''L1''" "\<not> vl_Eligible v"
    using v(1) by (auto simp: readValidation_def EvidenceLevelL1_def split: option.splits if_splits)
  moreover obtain n cases where run: "eval_cases admit sql_file [] (mf_Cases m) (0, []) = Inr (n, cases)"
    and ne: "mf_Cases m \<noteq> []"
    and parts: "sr_Cases static = cases" "sr_Total static = int (length cases)" "sr_Detected static = n"
      "sr_Recall static = fl (f64_of_int n / f64_of_int (int (length cases)))"
    using st by (auto simp: evaluateStatic_def split: if_splits sum.splits prod.splits)
  note cs = run [unfolded eval_cases_Inr]
  have "\<exists>sql. sql_file (ec_SQLFile c) = Some sql \<and>
       (sc_Detected (result_of admit sql_file c) \<longleftrightarrow>
          (if ec_ExpectSignal c \<noteq> [] then ec_ExpectSignal c \<in> set (ad_Signals (admit sql)) \<or> ad_ReasonCode (admit sql) = []
           else ad_ReasonCode (admit sql) = ec_ExpectRejection c))" if "c \<in> set (mf_Cases m)" for c
  proof -
    have vc: "valid_case sql_file c" using cs that by blast
    then obtain sql where sql: "sql_file (ec_SQLFile c) = Some sql" by (auto simp: valid_case_def)
    have e: "(ec_ExpectSignal c = []) \<noteq> (ec_ExpectRejection c = [])" using vc by (simp add: valid_case_def)
    show ?thesis using case_result_detected [OF e, of "admit sql"] sql by (simp add: result_of_def)
  qed
  ultimately show ?thesis
    using Inr raw l1 v(2) ne parts cs sr by auto
qed

text \<open>
  A missed signal counts as detected: for a manifest whose one case expects a signal on a
  statement that the admission accepts without any signal, the detected count is one and the recall
  is 1.
\<close>

theorem missed_signal_counts_as_detected:
  "\<exists>m c r. mf_Cases m = [c] \<and> ec_ExpectSignal c = ''select_star''
     \<and> ad_Signals (Sql_Admit.Admit ascii_tables (\<lambda>_. Some [plain_tree]) plain_read) = []
     \<and> evaluateStatic (Sql_Admit.Admit ascii_tables (\<lambda>_. Some [plain_tree])) (\<lambda>_. Some plain_read) m h = Inr r
     \<and> sr_Detected r = 1 \<and> sr_Total r = 1 \<and> sr_Recall r = 1"
proof -
  let ?c = "\<lparr>ec_ID = ''a'', ec_SQLFile = ''a.sql'', ec_ExpectSignal = ''select_star'', ec_ExpectRejection = []\<rparr>"
  let ?m = "\<lparr>mf_DatasetVersion = ''v'', mf_Cases = [?c]\<rparr>"
  have adm: "Sql_Admit.Admit ascii_tables (\<lambda>_. Some [plain_tree]) plain_read =
      \<lparr>ad_Accepted = True, ad_EvidenceLevel = ''L0'', ad_ReasonCode = [], ad_Signals = [], ad_InputSHA256 = []\<rparr>"
    by (simp add: Sql_Admit.Admit_def Inspect_def plain_read_scan plain_read_analysis code_tokens_def spaced_def HasPrefix_def
        quote_char_def forbidden_def hasFunctionOnColumn_def)
  have "TrimSpace ''v'' \<noteq> []" "safeBaseName ''a.sql''" by code_simp+
  moreover have "fl (f64_of_int 1 / f64_of_int 1) = 1" by code_simp
  ultimately show ?thesis
    by (intro exI [of _ ?m] exI [of _ ?c]) (simp add: evaluateStatic_def case_result_def adm)
qed

definition sample_manifest :: string where
  "sample_manifest =
     ''{\"dataset_version\":\"v\",\"cases\":[{\"id\":\"a\",\"sql_file\":\"a.sql\",\"expect_signal\":\"s\"}]}''"

definition sample_validation :: string where
  "sample_validation = ''{\"dataset\":{\"rows\":1},\"measurement\":{},\"verdict\":{}}''"

lemma sample_manifest_decoded:
  "decode_strict manifest_fields \<lparr>mf_DatasetVersion = [], mf_Cases = []\<rparr> sample_manifest =
     Some \<lparr>mf_DatasetVersion = ''v'', mf_Cases =
       [\<lparr>ec_ID = ''a'', ec_SQLFile = ''a.sql'', ec_ExpectSignal = ''s'', ec_ExpectRejection = []\<rparr>]\<rparr>"
  by code_simp

lemma sample_validation_read:
  "case readValidation (\<lambda>x. ''h'') (Some sample_validation) of Inl e \<Rightarrow> False | Inr v \<Rightarrow> vl_Rows v = 1"
  by code_simp

theorem acceptance_report_counts_its_cases_witness:
  "\<exists>r. Build (\<lambda>_. reject ''empty_sql'') (\<lambda>x. ''h'') (Some sample_manifest) (\<lambda>_. Some []) (Some sample_validation) = Inr r
     \<and> sr_Total (ev_StaticRules r) = 1 \<and> sr_Detected (ev_StaticRules r) = 0 \<and> \<not> ev_Eligible r"
proof -
  let ?c = "\<lparr>ec_ID = ''a'', ec_SQLFile = ''a.sql'', ec_ExpectSignal = ''s'', ec_ExpectRejection = []\<rparr>"
  obtain v where v: "readValidation (\<lambda>x. ''h'') (Some sample_validation) = Inr v"
    using sample_validation_read by (auto split: sum.splits)
  have plain: "TrimSpace ''v'' \<noteq> []" "safeBaseName ''a.sql''" by code_simp+
  obtain r where r: "Build (\<lambda>_. reject ''empty_sql'') (\<lambda>x. ''h'') (Some sample_manifest) (\<lambda>_. Some []) (Some sample_validation) = Inr r"
    using v plain by (simp add: Build_def sample_manifest_decoded evaluateStatic_def Let_def)
  have res: "result_of (\<lambda>_. reject ''empty_sql'') (\<lambda>_. Some []) ?c = case_result ?c (reject ''empty_sql'')"
    by (simp add: result_of_def)
  have "\<not> sc_Detected (case_result ?c (reject ''empty_sql''))"
    by (simp add: case_result_def reject_def)
  then show ?thesis
    using acceptance_report_counts_its_cases [where admit = "\<lambda>_. reject ''empty_sql''" and sha256_hex = "\<lambda>x. ''h''"
        and manifest_file = "Some sample_manifest" and sql_file = "\<lambda>_. Some []" and validation_file = "Some sample_validation"] r res
    by (auto simp: sample_manifest_decoded)
qed

end
