(* ===== verification/Webhook.thy ===== *)
theory Webhook
  imports Pipeline Kafka_Memory
begin

text \<open>
  \<open>internal/webhook/webhook.go\<close>: the signed entry point for pull-request diffs.  HMAC-SHA256 is the
  parameter \<open>hmac\<close>; the pipeline and the durable queue are the injected functions of the
  configuration, acting on a state \<open>'s\<close>; the delivery directories below the output root are named by
  the delivery, with the file system's other answers as parameters.
\<close>

section \<open>Data\<close>

definition MaxBodyBytes :: int where
  "MaxBodyBytes = 1048576"

record WebEvent =
  we_DeliveryID :: string
  we_PRNumber :: int
  we_Diff :: string

record DeliveryReport =
  dr_DeliveryID :: string
  dr_PRNumber :: int
  dr_JobID :: string
  dr_Duplicate :: bool
  dr_VerificationStatus :: string
  dr_EvidenceLevel :: string
  dr_Eligible :: bool
  dr_Admissions :: "Result list"
  dr_CompletedSteps :: "string list"
  dr_RejectionReasons :: "string list"
  dr_Artifacts :: "Artifact list"

text \<open>The pipeline answers a report and whether it returned an error.\<close>

type_synonym 's pipeline_runner = "string \<Rightarrow> string \<Rightarrow> 's \<Rightarrow> (PipeReport \<times> bool) \<times> 's"
type_synonym 's enqueuer = "ReceiveInput \<Rightarrow> 's \<Rightarrow> ReceiveResult option \<times> 's"

record 's WebConfig =
  wc_Secret :: string
  wc_OutputRoot :: string
  wc_MaxConcurrent :: int
  wc_RunPipeline :: "'s pipeline_runner option"
  wc_CandidateSpec :: string
  wc_AsyncEnqueue :: "'s enqueuer option"

record 's Server =
  sv_secret :: string
  sv_outputRoot :: string
  sv_runPipeline :: "'s pipeline_runner option"
  sv_candidateSpec :: string
  sv_asyncEnqueue :: "'s enqueuer option"
  sv_capacity :: nat

datatype config_error =
    SecretRequired | OutputRootRequired | ConcurrencyOutOfRange | NoRunner | CandidateSpecRequired | OutputRootFailed

definition New :: "bool \<Rightarrow> 's WebConfig \<Rightarrow> config_error + 's Server" where
  "New root_created c =
     (if length (wc_Secret c) = 0 then Inl SecretRequired
      else if wc_OutputRoot c = [] then Inl OutputRootRequired
      else if wc_MaxConcurrent c < 1 \<or> wc_MaxConcurrent c > 4 then Inl ConcurrencyOutOfRange
      else if wc_RunPipeline c = None \<and> wc_AsyncEnqueue c = None then Inl NoRunner
      else if wc_AsyncEnqueue c \<noteq> None \<and> length (wc_CandidateSpec c) = 0 then Inl CandidateSpecRequired
      else if \<not> root_created then Inl OutputRootFailed
      else Inr \<lparr>sv_secret = wc_Secret c, sv_outputRoot = wc_OutputRoot c, sv_runPipeline = wc_RunPipeline c,
                sv_candidateSpec = wc_CandidateSpec c, sv_asyncEnqueue = wc_AsyncEnqueue c,
                sv_capacity = nat (wc_MaxConcurrent c)\<rparr>)"

section \<open>SQL added by a diff\<close>

text \<open>\<open>strings.Fields\<close>: the words between runs of white space.\<close>

function fields_loop :: "string \<Rightarrow> string \<Rightarrow> string list" where
  "fields_loop cur s =
     (case s of
        [] \<Rightarrow> if cur = [] then [] else [cur]
      | c # t \<Rightarrow>
          (case find (\<lambda>w. w \<noteq> [] \<and> HasPrefix s w) space_seqs of
             Some w \<Rightarrow> (if cur = [] then [] else [cur]) @ fields_loop [] (drop (length w) s)
           | None \<Rightarrow> fields_loop (cur @ [c]) t))"
  by pat_completeness auto
termination
  by (relation "measure (\<lambda>(cur, s). length s)") (auto simp: find_Some_iff)

declare fields_loop.simps [simp del]

definition Fields :: "string \<Rightarrow> string list" where
  "Fields s = fields_loop [] s"

definition diff_header :: "string \<Rightarrow> bool" where
  "diff_header line \<longleftrightarrow> HasPrefix line ''diff --git ''"

definition sql_header :: "unicode_tables \<Rightarrow> string \<Rightarrow> bool" where
  "sql_header U line \<longleftrightarrow> (let parts = Fields line in length parts = 4 \<and> HasSuffix (ToLower U (parts ! 3)) ''.sql'')"

definition added_line :: "string \<Rightarrow> bool" where
  "added_line line \<longleftrightarrow> HasPrefix line ''+'' \<and> \<not> HasPrefix line ''+++''"

definition flush_sql :: "string \<Rightarrow> string list \<Rightarrow> string list" where
  "flush_sql current sqls = (let sql = TrimSpace current in if sql \<noteq> [] then sqls @ [sql] else sqls)"

fun extract_loop :: "unicode_tables \<Rightarrow> bool \<Rightarrow> string \<Rightarrow> string list \<Rightarrow> string list \<Rightarrow> string list" where
  "extract_loop U inSQLFile current [] sqls = flush_sql current sqls"
| "extract_loop U inSQLFile current (line # lines) sqls =
     (if diff_header line then extract_loop U (sql_header U line) [] lines (flush_sql current sqls)
      else if inSQLFile \<and> added_line line
      then extract_loop U inSQLFile (current @ TrimPrefix line ''+'' @ [CHR 0x0A]) lines sqls
      else extract_loop U inSQLFile current lines sqls)"

definition ExtractAddedSQL :: "unicode_tables \<Rightarrow> string \<Rightarrow> string list" where
  "ExtractAddedSQL U diff = extract_loop U False [] (Split1 (CHR 0x0A) diff) []"

section \<open>What is written for a delivery\<close>

definition code_line :: "string \<Rightarrow> string \<Rightarrow> string" where
  "code_line label v = label @ '': `'' @ v @ ''`'' @ [CHR 0x0A, CHR 0x0A]"

definition item_line :: "string \<Rightarrow> string" where
  "item_line v = ''- `'' @ v @ ''`'' @ [CHR 0x0A]"

definition renderComment :: "DeliveryReport \<Rightarrow> string" where
  "renderComment r =
     ''# SQL Sentinel verification'' @ [CHR 0x0A, CHR 0x0A] @
     code_line ''status'' (dr_VerificationStatus r) @
     code_line ''evidence_level'' (if dr_EvidenceLevel r = [] then ''none'' else dr_EvidenceLevel r) @
     code_line ''eligible_for_performance_claim'' (enc_bool (dr_Eligible r)) @
     (if length (dr_CompletedSteps r) \<noteq> 0
      then ''completed_steps:'' @ [CHR 0x0A] @ concat (map item_line (dr_CompletedSteps r)) else []) @
     (if length (dr_RejectionReasons r) \<noteq> 0
      then ''rejection_reasons:'' @ [CHR 0x0A] @ concat (map item_line (dr_RejectionReasons r)) else []) @
     (if length (dr_Artifacts r) \<noteq> 0
      then [CHR 0x0A] @ ''artifacts:'' @ [CHR 0x0A] @
        concat (map (\<lambda>a. ''- `'' @ ar_File a @ ''`: `'' @ ar_SHA256 a @ ''`'' @ [CHR 0x0A]) (dr_Artifacts r))
      else [])"

definition delivery_json :: "DeliveryReport \<Rightarrow> string" where
  "delivery_json r =
     enc_object (f_str ''delivery_id'' (dr_DeliveryID r) @ [(''pr_number'', int_dec (dr_PRNumber r))] @
       f_opt ''job_id'' (dr_JobID r) @ (if dr_Duplicate r then [(''duplicate'', enc_bool True)] else []) @
       f_str ''verification_status'' (dr_VerificationStatus r) @ f_str ''evidence_level'' (dr_EvidenceLevel r) @
       [(''eligible_for_performance_claim'', enc_bool (dr_Eligible r)),
        (''sql_admissions'', enc_list (map admission_json (dr_Admissions r))),
        (''completed_steps'', enc_strings (dr_CompletedSteps r)),
        (''rejection_reasons'', enc_list (map (\<lambda>c. enc_object (f_str ''code'' c)) (dr_RejectionReasons r))),
        (''artifacts'', enc_list (map artifact_json (dr_Artifacts r)))])"

text \<open>The delivery directories and the files in them; \<open>mkdir_ok\<close> and \<open>file_ok\<close> are the answers of the
  file system other than a directory that exists.\<close>

record WebDisk =
  wd_dirs :: "string list"
  wd_files :: "((string \<times> string) \<times> string) list"

record WebFS =
  fs_mkdir_ok :: "string \<Rightarrow> bool"
  fs_file_ok :: "string \<Rightarrow> string \<Rightarrow> bool"

datatype delivery_error = DeliveryOutputExists | DeliveryOutputWrite | EnqueueFailed

definition createDeliveryDir :: "WebFS \<Rightarrow> string \<Rightarrow> WebDisk \<Rightarrow> delivery_error option \<times> WebDisk" where
  "createDeliveryDir fs i d =
     (if i \<in> set (wd_dirs d) then (Some DeliveryOutputExists, d)
      else if \<not> fs_mkdir_ok fs i then (Some DeliveryOutputWrite, d)
      else (None, d\<lparr>wd_dirs := wd_dirs d @ [i]\<rparr>))"

definition write_file :: "WebFS \<Rightarrow> string \<Rightarrow> string \<Rightarrow> string \<Rightarrow> WebDisk \<Rightarrow> bool \<times> WebDisk" where
  "write_file fs dir file data d =
     (if fs_file_ok fs dir file then (True, d\<lparr>wd_files := wd_files d @ [((dir, file), data)]\<rparr>) else (False, d))"

definition writeDelivery :: "WebFS \<Rightarrow> string \<Rightarrow> DeliveryReport \<Rightarrow> WebDisk \<Rightarrow> delivery_error option \<times> WebDisk" where
  "writeDelivery fs dir r d =
     (case write_file fs dir ''webhook_report.json'' (marshal_indent (delivery_json r) @ [CHR 0x0A]) d of
        (False, d1) \<Rightarrow> (Some DeliveryOutputWrite, d1)
      | (True, d1) \<Rightarrow>
          (case write_file fs dir ''comment.md'' (renderComment r) d1 of
             (False, d2) \<Rightarrow> (Some DeliveryOutputWrite, d2)
           | (True, d2) \<Rightarrow> (None, d2)))"

definition persist :: "WebFS \<Rightarrow> DeliveryReport \<Rightarrow> WebDisk \<Rightarrow> (delivery_error + DeliveryReport) \<times> WebDisk" where
  "persist fs r d =
     (case createDeliveryDir fs (dr_DeliveryID r) d of
        (Some e, d1) \<Rightarrow> (Inl e, d1)
      | (None, d1) \<Rightarrow>
          (case writeDelivery fs (dr_DeliveryID r) r d1 of
             (Some e, d2) \<Rightarrow> (Inl e, d2)
           | (None, d2) \<Rightarrow> (Inr r, d2)))"

section \<open>Processing\<close>

definition delivery_report :: "WebEvent \<Rightarrow> Result list \<Rightarrow> DeliveryReport" where
  "delivery_report ev admissions =
     \<lparr>dr_DeliveryID = we_DeliveryID ev, dr_PRNumber = we_PRNumber ev, dr_JobID = [], dr_Duplicate = False,
      dr_VerificationStatus = ''verification_unavailable'', dr_EvidenceLevel = [], dr_Eligible = False,
      dr_Admissions = admissions, dr_CompletedSteps = [], dr_RejectionReasons = [], dr_Artifacts = []\<rparr>"

definition refused_codes :: "Result list \<Rightarrow> string list" where
  "refused_codes admissions =
     concat (map (\<lambda>a. if \<not> ad_Accepted a then [''sql_admission_rejected'', ad_ReasonCode a] else []) admissions)"

definition enqueue_input :: "'s Server \<Rightarrow> WebEvent \<Rightarrow> string \<Rightarrow> ReceiveInput" where
  "enqueue_input sv ev sql =
     \<lparr>in_Options = zero_options, in_DeliveryID = we_DeliveryID ev, in_PRNumber = we_PRNumber ev,
      in_SQL = sql, in_CandidateSpec = sv_candidateSpec sv, in_SourceJSON = []\<rparr>"

definition enqueue_delivery ::
  "'s Server \<Rightarrow> 's enqueuer \<Rightarrow> WebEvent \<Rightarrow> DeliveryReport \<Rightarrow> string \<Rightarrow> WebDisk \<Rightarrow> 's
     \<Rightarrow> (delivery_error + DeliveryReport) \<times> WebDisk \<times> 's" where
  "enqueue_delivery sv enqueue ev report sql d s =
     (case enqueue (enqueue_input sv ev sql) s of
        (None, s1) \<Rightarrow> (Inl EnqueueFailed, d, s1)
      | (Some result, s1) \<Rightarrow>
          (Inr (report\<lparr>dr_JobID := j_ID (res_Job result), dr_Duplicate := res_Duplicate result,
                       dr_VerificationStatus := ''queued''\<rparr>), d, s1))"

definition run_delivery ::
  "WebFS \<Rightarrow> 's Server \<Rightarrow> WebEvent \<Rightarrow> DeliveryReport \<Rightarrow> string \<Rightarrow> WebDisk \<Rightarrow> 's
     \<Rightarrow> (delivery_error + DeliveryReport) \<times> WebDisk \<times> 's" where
  "run_delivery fs sv ev report sql d s =
     (case createDeliveryDir fs (we_DeliveryID ev) d of
        (Some e, d1) \<Rightarrow> (Inl e, d1, s)
      | (None, d1) \<Rightarrow>
          (case the (sv_runPipeline sv) sql (we_DeliveryID ev @ ''/artifacts'') s of
             ((p, runErr), s1) \<Rightarrow>
               (let r = report\<lparr>dr_EvidenceLevel := pp_EvidenceLevel p, dr_Eligible := pp_Eligible p,
                      dr_CompletedSteps := pp_CompletedSteps p, dr_Artifacts := pp_Artifacts p,
                      dr_RejectionReasons := pp_RejectionReasons p @ (if runErr then [''pipeline_unavailable''] else []),
                      dr_VerificationStatus := (if \<not> runErr \<and> pp_StoppedStep p = [] then ''verification_completed''
                                                else ''verification_unavailable'')\<rparr>
                in case writeDelivery fs (we_DeliveryID ev) r d1 of
                     (Some e, d2) \<Rightarrow> (Inl e, d2, s1)
                   | (None, d2) \<Rightarrow> (Inr r, d2, s1))))"

definition web_process ::
  "unicode_tables \<Rightarrow> sql_parser \<Rightarrow> WebFS \<Rightarrow> 's Server \<Rightarrow> WebEvent \<Rightarrow> WebDisk \<Rightarrow> 's
     \<Rightarrow> (delivery_error + DeliveryReport) \<times> WebDisk \<times> 's" where
  "web_process U P fs sv ev d s =
     (let sqls = ExtractAddedSQL U (we_Diff ev);
          admissions = map (Sql_Admit.Admit U P) sqls;
          report = delivery_report ev admissions;
          kept = (\<lambda>codes. case persist fs (report\<lparr>dr_RejectionReasons := codes\<rparr>) d of (res, d1) \<Rightarrow> (res, d1, s))
      in if length sqls = 0 then kept [''no_sql_candidates'']
         else if length (refused_codes admissions) \<noteq> 0 then kept (refused_codes admissions)
         else if length sqls \<noteq> 1 then kept [''multiple_sql_candidates'']
         else case sv_asyncEnqueue sv of
           Some enqueue \<Rightarrow> enqueue_delivery sv enqueue ev report (hd sqls) d s
         | None \<Rightarrow> run_delivery fs sv ev report (hd sqls) d s)"

text \<open>The three ways a delivery can go.\<close>

lemma web_process_cases:
  obtains (kept) r where "dr_DeliveryID r = we_DeliveryID ev" "dr_VerificationStatus r = ''verification_unavailable''"
      "web_process U P fs sv ev d s = (fst (persist fs r d), snd (persist fs r d), s)"
  | (enqueued) sql enqueue where "ExtractAddedSQL U (we_Diff ev) = [sql]" "ad_Accepted (Sql_Admit.Admit U P sql)"
      "sv_asyncEnqueue sv = Some enqueue"
      "web_process U P fs sv ev d s = enqueue_delivery sv enqueue ev (delivery_report ev [Sql_Admit.Admit U P sql]) sql d s"
  | (ran) sql where "ExtractAddedSQL U (we_Diff ev) = [sql]" "ad_Accepted (Sql_Admit.Admit U P sql)"
      "sv_asyncEnqueue sv = None"
      "web_process U P fs sv ev d s = run_delivery fs sv ev (delivery_report ev [Sql_Admit.Admit U P sql]) sql d s"
proof -
  let ?sqls = "ExtractAddedSQL U (we_Diff ev)"
  let ?adm = "map (Sql_Admit.Admit U P) ?sqls"
  let ?r = "\<lambda>codes. (delivery_report ev ?adm)\<lparr>dr_RejectionReasons := codes\<rparr>"
  have kept: thesis if "web_process U P fs sv ev d s = (case persist fs (?r codes) d of (res, d1) \<Rightarrow> (res, d1, s))" for codes
    using kept [of "?r codes"] that by (simp add: delivery_report_def case_prod_beta)
  note unfold = web_process_def Let_def
  show thesis
  proof (cases "length ?sqls = 0 \<or> refused_codes ?adm \<noteq> [] \<or> length ?sqls \<noteq> 1")
    case True
    then show ?thesis
      by (intro kept [where codes = "if ?sqls = [] then [''no_sql_candidates'']
            else if refused_codes ?adm \<noteq> [] then refused_codes ?adm else [''multiple_sql_candidates'']"])
        (auto simp: unfold)
  next
    case False
    then obtain sql where sql: "?sqls = [sql]" "refused_codes [Sql_Admit.Admit U P sql] = []"
      by (cases ?sqls) auto
    then have "ad_Accepted (Sql_Admit.Admit U P sql)" by (simp add: refused_codes_def split: if_splits)
    then show ?thesis using sql enqueued [of sql] ran [of sql]
      by (cases "sv_asyncEnqueue sv") (simp_all add: unfold)
  qed
qed

section \<open>Requests\<close>

text \<open>A request: the method, the signature header, and the body as the reader delivers it (the bytes
  there are, or an error before the limit is reached).\<close>

record Request =
  rq_Method :: string
  rq_Signature :: string
  rq_Body :: "string option"

record Response =
  rs_Status :: int
  rs_Body :: string

definition web_json :: "int \<Rightarrow> (string \<times> string) list \<Rightarrow> Response" where
  "web_json status kvs = \<lparr>rs_Status = status, rs_Body = enc_object kvs @ [CHR 0x0A]\<rparr>"

definition writeRejection :: "int \<Rightarrow> string \<Rightarrow> Response" where
  "writeRejection status code = web_json status (f_str ''rejection_code'' code)"

text \<open>\<open>hex.DecodeString\<close>.\<close>

fun hex_decode :: "string \<Rightarrow> string option" where
  "hex_decode [] = Some []"
| "hex_decode [c] = None"
| "hex_decode (a # b # s) =
     (case (hex_val a, hex_val b, hex_decode s) of
        (Some x, Some y, Some t) \<Rightarrow> Some (chr (16 * x + y) # t)
      | _ \<Rightarrow> None)"

definition parseSignature :: "string \<Rightarrow> string option" where
  "parseSignature header =
     (if \<not> HasPrefix header ''sha256='' then None
      else case hex_decode (TrimPrefix header ''sha256='') of
        None \<Rightarrow> None
      | Some provided \<Rightarrow> if length provided \<noteq> 32 then None else Some provided)"

text \<open>\<open>readBody\<close>: at most one byte past the limit is read.\<close>

definition readBody :: "string option \<Rightarrow> (string \<times> bool) option" where
  "readBody body = map_option (\<lambda>b. let data = take (nat (MaxBodyBytes + 1)) b in (data, int (length data) > MaxBodyBytes)) body"

definition web_event_fields :: "(string \<times> WebEvent field_setter) list" where
  "web_event_fields =
     [(''delivery_id'', set_string (\<lambda>x e. e\<lparr>we_DeliveryID := x\<rparr>)), (''pr_number'', set_int (\<lambda>x e. e\<lparr>we_PRNumber := x\<rparr>)),
      (''diff'', set_string (\<lambda>x e. e\<lparr>we_Diff := x\<rparr>))]"

definition decodeEvent :: "string \<Rightarrow> WebEvent option" where
  "decodeEvent body = decode_strict web_event_fields \<lparr>we_DeliveryID = [], we_PRNumber = 0, we_Diff = []\<rparr> body"

text \<open>\<open>^[A-Za-z0-9][A-Za-z0-9_-]{0,63}$\<close>\<close>

definition is_alnum :: "char \<Rightarrow> bool" where
  "is_alnum c \<longleftrightarrow> is_digit_byte c \<or> (65 \<le> ord c \<and> ord c \<le> 90) \<or> (97 \<le> ord c \<and> ord c \<le> 122)"

definition is_deliveryID :: "string \<Rightarrow> bool" where
  "is_deliveryID s \<longleftrightarrow> s \<noteq> [] \<and> is_alnum (hd s) \<and> list_all (\<lambda>c. is_alnum c \<or> c = CHR ''_'' \<or> c = CHR ''-'') (tl s) \<and> length s \<le> 64"

definition deliveryErrorCode :: "delivery_error \<Rightarrow> string" where
  "deliveryErrorCode e = (if e = DeliveryOutputExists then ''delivery_output_exists'' else ''delivery_output_write_failed'')"

text \<open>\<open>ServeHTTP\<close> up to the semaphore: a rejection, or the body whose signature is right.\<close>

definition authenticate :: "(string \<Rightarrow> string \<Rightarrow> string) \<Rightarrow> 's Server \<Rightarrow> Request \<Rightarrow> Response + string" where
  "authenticate hmac sv r =
     (if rq_Method r \<noteq> ''POST'' then Inl (writeRejection 405 ''method_not_allowed'')
      else case parseSignature (rq_Signature r) of
        None \<Rightarrow> Inl (writeRejection 401 ''signature_missing'')
      | Some provided \<Rightarrow>
          (case readBody (rq_Body r) of
             None \<Rightarrow> Inl (writeRejection 400 ''invalid_event'')
           | Some (body, tooLarge) \<Rightarrow>
               if tooLarge then Inl (writeRejection 413 ''body_too_large'')
               else if hmac (sv_secret sv) body \<noteq> provided then Inl (writeRejection 401 ''invalid_signature'')
               else Inr body))"

text \<open>The rest, while the request holds a slot of the semaphore.\<close>

definition web_handle ::
  "unicode_tables \<Rightarrow> sql_parser \<Rightarrow> WebFS \<Rightarrow> 's Server \<Rightarrow> string \<Rightarrow> WebDisk \<Rightarrow> 's \<Rightarrow> Response \<times> WebDisk \<times> 's" where
  "web_handle U P fs sv body d s =
     (case decodeEvent body of
        None \<Rightarrow> (writeRejection 400 ''invalid_event'', d, s)
      | Some ev \<Rightarrow>
          if \<not> is_deliveryID (we_DeliveryID ev) \<or> we_PRNumber ev < 1 then (writeRejection 400 ''invalid_delivery_id'', d, s)
          else (case web_process U P fs sv ev d s of
              (Inl e, d1, s1) \<Rightarrow> (writeRejection 409 (deliveryErrorCode e), d1, s1)
            | (Inr r, d1, s1) \<Rightarrow>
                (web_json 202 (f_str ''delivery_id'' (we_DeliveryID ev) @ [(''duplicate'', enc_bool (dr_Duplicate r))] @
                   f_str ''job_id'' (dr_JobID r) @ f_str ''verification_status'' (dr_VerificationStatus r)), d1, s1)))"

text \<open>The server while requests come and go: a request that passes takes a free slot (\<open>select\<close> with
  \<open>default\<close>), is handled, and gives the slot back.  What happened is recorded as a list of labels.\<close>

record 's WebState =
  ws_slots :: "string list"
  ws_disk :: WebDisk
  ws_env :: 's

datatype web_label = Arrive Request "Response option" | Answer string Response

inductive web_step ::
  "unicode_tables \<Rightarrow> sql_parser \<Rightarrow> WebFS \<Rightarrow> (string \<Rightarrow> string \<Rightarrow> string) \<Rightarrow> 's Server
     \<Rightarrow> 's WebState \<Rightarrow> web_label \<Rightarrow> 's WebState \<Rightarrow> bool"
  for U P fs hmac sv where
  reject_step: "authenticate hmac sv r = Inl resp \<Longrightarrow> web_step U P fs hmac sv st (Arrive r (Some resp)) st"
| full_step: "authenticate hmac sv r = Inr body \<Longrightarrow> \<not> length (ws_slots st) < sv_capacity sv \<Longrightarrow>
    web_step U P fs hmac sv st (Arrive r (Some (writeRejection 429 ''queue_full''))) st"
| enter_step: "authenticate hmac sv r = Inr body \<Longrightarrow> length (ws_slots st) < sv_capacity sv \<Longrightarrow>
    web_step U P fs hmac sv st (Arrive r None) (st\<lparr>ws_slots := ws_slots st @ [body]\<rparr>)"
| handle_step: "ws_slots st = before @ body # after \<Longrightarrow> web_handle U P fs sv body (ws_disk st) (ws_env st) = (resp, d, s) \<Longrightarrow>
    web_step U P fs hmac sv st (Answer body resp) (st\<lparr>ws_slots := before @ after, ws_disk := d, ws_env := s\<rparr>)"

definition web_start :: "'s \<Rightarrow> 's WebState" where
  "web_start s = \<lparr>ws_slots = [], ws_disk = \<lparr>wd_dirs = [], wd_files = []\<rparr>, ws_env = s\<rparr>"

inductive web_run ::
  "unicode_tables \<Rightarrow> sql_parser \<Rightarrow> WebFS \<Rightarrow> (string \<Rightarrow> string \<Rightarrow> string) \<Rightarrow> 's Server \<Rightarrow> 's
     \<Rightarrow> web_label list \<Rightarrow> 's WebState \<Rightarrow> bool"
  for U P fs hmac sv s0 where
  web_init: "web_run U P fs hmac sv s0 [] (web_start s0)"
| web_more: "web_run U P fs hmac sv s0 tr st \<Longrightarrow> web_step U P fs hmac sv st lab st' \<Longrightarrow>
    web_run U P fs hmac sv s0 (tr @ [lab]) st'"

section \<open>Only signed deliveries get through\<close>

text \<open>The body of a request of the trace, of a legal length, with the right signature.\<close>

definition signed_in :: "(string \<Rightarrow> string \<Rightarrow> string) \<Rightarrow> string \<Rightarrow> web_label list \<Rightarrow> string \<Rightarrow> bool" where
  "signed_in hmac secret tr body \<longleftrightarrow>
     (\<exists>r. Arrive r None \<in> set tr \<and> rq_Method r = ''POST'' \<and> rq_Body r = Some body \<and> int (length body) \<le> MaxBodyBytes
        \<and> parseSignature (rq_Signature r) = Some (hmac secret body))"

text \<open>What may be on the disk when the delivery names of \<open>ok\<close> are the accepted ones.\<close>

definition tidy_disk :: "(string \<Rightarrow> bool) \<Rightarrow> WebDisk \<Rightarrow> bool" where
  "tidy_disk ok d \<longleftrightarrow> distinct (wd_dirs d) \<and> list_all ok (wd_dirs d) \<and> distinct (map fst (wd_files d))
     \<and> list_all (\<lambda>x. fst (fst x) \<in> set (wd_dirs d) \<and> snd (fst x) \<in> {''webhook_report.json'', ''comment.md''}) (wd_files d)"

lemma authenticate_Inr:
  "authenticate hmac sv r = Inr body \<longleftrightarrow>
     rq_Method r = ''POST'' \<and> rq_Body r = Some body \<and> int (length body) \<le> MaxBodyBytes
       \<and> parseSignature (rq_Signature r) = Some (hmac (sv_secret sv) body)"
proof -
  have "take (nat (MaxBodyBytes + 1)) b = b \<or> int (length (take (nat (MaxBodyBytes + 1)) b)) > MaxBodyBytes" for b :: string
    by (auto simp: min_def)
  moreover have "int (length b) \<le> MaxBodyBytes \<Longrightarrow> take (nat (MaxBodyBytes + 1)) b = b" for b :: string by simp
  ultimately show ?thesis
    by (auto simp: authenticate_def readBody_def Let_def split: option.splits if_splits)
qed

lemma createDeliveryDir_cases:
  obtains e where "createDeliveryDir fs i d = (Some e, d)"
  | "createDeliveryDir fs i d = (None, d\<lparr>wd_dirs := wd_dirs d @ [i]\<rparr>)" "i \<notin> set (wd_dirs d)"
  by (cases "i \<in> set (wd_dirs d)"; cases "fs_mkdir_ok fs i") (auto simp: createDeliveryDir_def)

lemma writeDelivery_tidy:
  assumes "tidy_disk ok d" "i \<in> set (wd_dirs d)" "i \<notin> fst ` fst ` set (wd_files d)"
  shows "tidy_disk ok (snd (writeDelivery fs i r d)) \<and> wd_dirs (snd (writeDelivery fs i r d)) = wd_dirs d"
  using assms
  by (auto simp: writeDelivery_def write_file_def tidy_disk_def image_iff split: prod.splits bool.splits if_splits)

lemma new_dir_tidy:
  assumes "tidy_disk ok d" "ok i" "i \<notin> set (wd_dirs d)"
  shows "tidy_disk ok (snd (writeDelivery fs i r (d\<lparr>wd_dirs := wd_dirs d @ [i]\<rparr>)))"
proof -
  let ?d = "d\<lparr>wd_dirs := wd_dirs d @ [i]\<rparr>"
  have "tidy_disk ok ?d" "i \<in> set (wd_dirs ?d)" "i \<notin> fst ` fst ` set (wd_files ?d)"
    using assms by (force simp: tidy_disk_def list_all_iff)+
  then show ?thesis using writeDelivery_tidy by blast
qed

lemma persist_tidy:
  assumes "tidy_disk ok d" "ok (dr_DeliveryID r)"
  shows "tidy_disk ok (snd (persist fs r d))"
  using assms new_dir_tidy [OF assms, of fs r]
  by (cases fs "dr_DeliveryID r" d rule: createDeliveryDir_cases)
    (auto simp: persist_def split: prod.splits option.splits)

lemma web_process_tidy:
  assumes "tidy_disk ok d" "ok (we_DeliveryID ev)"
  shows "tidy_disk ok (fst (snd (web_process U P fs sv ev d s)))"
proof (cases rule: web_process_cases [where U = U and P = P and fs = fs and sv = sv and ev = ev and d = d and s = s])
  case (kept r)
  then show ?thesis using persist_tidy [OF assms(1), of r fs] assms(2) by simp
next
  case (enqueued sql enqueue)
  then show ?thesis using assms(1) by (simp add: enqueue_delivery_def case_prod_beta split: option.splits)
next
  case (ran sql)
  show ?thesis
  proof (cases fs "we_DeliveryID ev" d rule: createDeliveryDir_cases)
    case (1 e)
    then show ?thesis using ran assms(1) by (simp add: run_delivery_def)
  next
    case 2
    then show ?thesis using ran new_dir_tidy [where ok = ok, OF assms 2(2)]
      by (simp add: run_delivery_def Let_def case_prod_beta split: option.splits)
  qed
qed

lemma web_handle_tidy:
  assumes "tidy_disk ok d"
    and "\<And>ev. decodeEvent body = Some ev \<Longrightarrow> is_deliveryID (we_DeliveryID ev) \<Longrightarrow> ok (we_DeliveryID ev)"
  shows "tidy_disk ok (fst (snd (web_handle U P fs sv body d s)))"
  using assms web_process_tidy [OF assms(1), of _ U P fs sv s]
  by (auto simp: web_handle_def case_prod_beta split: option.splits sum.splits)

lemma web_run_sound:
  assumes "web_run U P fs hmac sv s0 tr st"
  shows "length (ws_slots st) \<le> sv_capacity sv \<and> list_all (signed_in hmac (sv_secret sv) tr) (ws_slots st)
    \<and> tidy_disk (\<lambda>i. is_deliveryID i \<and> (\<exists>body ev. signed_in hmac (sv_secret sv) tr body \<and> decodeEvent body = Some ev
          \<and> we_DeliveryID ev = i)) (ws_disk st)"
  using assms
proof induction
  case web_init
  then show ?case by (simp add: web_start_def tidy_disk_def)
next
  case (web_more tr st lab st')
  let ?signed = "signed_in hmac (sv_secret sv)"
  let ?ok = "\<lambda>tr i. is_deliveryID i \<and> (\<exists>body ev. ?signed tr body \<and> decodeEvent body = Some ev \<and> we_DeliveryID ev = i)"
  have later: "?signed tr body \<Longrightarrow> ?signed (tr @ [lab]) body" for body by (auto simp: signed_in_def)
  have slots: "length (ws_slots st) \<le> sv_capacity sv" "list_all (?signed (tr @ [lab])) (ws_slots st)"
    using web_more.IH by (auto simp: list_all_iff later)
  have disk: "tidy_disk (?ok (tr @ [lab])) (ws_disk st)"
    using web_more.IH later by (fastforce simp: tidy_disk_def list_all_iff)
  show ?case using web_more.hyps(2)
  proof cases
    case (enter_step r body)
    have "?signed (tr @ [lab]) body" using enter_step by (auto simp: signed_in_def authenticate_Inr)
    then show ?thesis using enter_step slots disk by simp
  next
    case (handle_step before body after resp d s)
    have "?signed (tr @ [lab]) body" using handle_step slots by simp
    then have "tidy_disk (?ok (tr @ [lab])) (fst (snd (web_handle U P fs sv body (ws_disk st) (ws_env st))))"
      by (intro web_handle_tidy [OF disk]) auto
    then show ?thesis using handle_step slots by simp
  qed (use slots disk in auto)
qed

text \<open>
  C22: Only signed deliveries leave a trace: whatever requests arrive and in whatever order they are handled,
  no more are handled at a time than the capacity allows, each of them signed with the secret and of a legal
  length, and every directory on the disk is named after a delivery of such a body, exists once, has a name
  that cannot leave the output root, and each of its two files was written at most once.
\<close>

theorem only_signed_deliveries_leave_traces:
  assumes "web_run U P fs hmac sv s0 tr st"
  shows "length (ws_slots st) \<le> sv_capacity sv \<and> list_all (signed_in hmac (sv_secret sv) tr) (ws_slots st)
    \<and> distinct (wd_dirs (ws_disk st)) \<and> distinct (map fst (wd_files (ws_disk st)))
    \<and> (\<forall>i \<in> set (wd_dirs (ws_disk st)). CHR ''/'' \<notin> set i \<and> CHR ''.'' \<notin> set i \<and> i \<noteq> []
        \<and> (\<exists>body ev. signed_in hmac (sv_secret sv) tr body \<and> decodeEvent body = Some ev \<and> we_DeliveryID ev = i))
    \<and> (\<forall>((i, file), data) \<in> set (wd_files (ws_disk st)).
        i \<in> set (wd_dirs (ws_disk st)) \<and> file \<in> {''webhook_report.json'', ''comment.md''})"
proof -
  have safe: "CHR ''/'' \<notin> set i \<and> CHR ''.'' \<notin> set i \<and> i \<noteq> []" if "is_deliveryID i" for i
    using that by (cases i) (auto simp: is_deliveryID_def list_all_iff is_alnum_def is_digit_byte_def ord_def)
  show ?thesis using web_run_sound [OF assms] safe
    by (auto simp: tidy_disk_def list_all_iff)
qed

definition sample_server :: "'s Server" where
  "sample_server = \<lparr>sv_secret = ''k'', sv_outputRoot = ''out'', sv_runPipeline = None, sv_candidateSpec = ''{}'',
     sv_asyncEnqueue = None, sv_capacity = 1\<rparr>"

definition sample_body :: string where
  "sample_body = ''{\"delivery_id\":\"d1\",\"pr_number\":7,\"diff\":\"\"}''"

definition sample_mac :: "string \<Rightarrow> string \<Rightarrow> string" where
  "sample_mac secret body = replicate 32 (if secret = ''k'' then CHR 0xAA else CHR 0x00)"

definition sample_request :: Request where
  "sample_request = \<lparr>rq_Method = ''POST'', rq_Signature = ''sha256='' @ replicate 64 CHR ''a'', rq_Body = Some sample_body\<rparr>"

definition sample_fs :: WebFS where
  "sample_fs = \<lparr>fs_mkdir_ok = (\<lambda>i. True), fs_file_ok = (\<lambda>i f. True)\<rparr>"

lemma sample_event: "decodeEvent sample_body = Some \<lparr>we_DeliveryID = ''d1'', we_PRNumber = 7, we_Diff = []\<rparr>"
  by code_simp

lemma sample_authentic: "authenticate sample_mac sample_server sample_request = Inr sample_body"
proof -
  have "length sample_body \<le> 100" "rq_Method sample_request = ''POST''" "rq_Body sample_request = Some sample_body"
    by (simp_all add: sample_body_def sample_request_def)
  moreover have "parseSignature (rq_Signature sample_request) = Some (sample_mac ''k'' [])" by code_simp
  ultimately show ?thesis by (simp add: authenticate_Inr MaxBodyBytes_def sample_server_def sample_mac_def)
qed

lemma sample_handled:
  "\<exists>resp d. web_handle U P sample_fs sample_server sample_body \<lparr>wd_dirs = [], wd_files = []\<rparr> s = (resp, d, s)
     \<and> wd_dirs d = [''d1'']"
proof -
  have "TrimSpace [] = []" "\<not> HasPrefix [] ''diff --git ''" by code_simp+
  then have "ExtractAddedSQL U [] = []" by (simp add: ExtractAddedSQL_def diff_header_def flush_sql_def)
  moreover have "is_deliveryID ''d1''" by code_simp
  ultimately show ?thesis
    by (simp add: web_handle_def sample_event web_process_def persist_def delivery_report_def Let_def
        createDeliveryDir_def writeDelivery_def write_file_def sample_fs_def)
qed

theorem only_signed_deliveries_leave_traces_witness:
  "\<exists>tr st. web_run ascii_tables (\<lambda>_. None) sample_fs sample_mac sample_server () tr st \<and> wd_dirs (ws_disk st) = [''d1'']
     \<and> (\<exists>body ev. signed_in sample_mac ''k'' tr body \<and> decodeEvent body = Some ev \<and> we_DeliveryID ev = ''d1'')"
proof -
  let ?run = "web_run ascii_tables (\<lambda>_. None) sample_fs sample_mac sample_server ()"
  obtain resp d where h: "web_handle ascii_tables (\<lambda>_. None) sample_fs sample_server sample_body \<lparr>wd_dirs = [], wd_files = []\<rparr> () = (resp, d, ())"
    "wd_dirs d = [''d1'']" using sample_handled [of ascii_tables "\<lambda>_. None" "()"] by blast
  have "?run ([] @ [Arrive sample_request None]) ((web_start ())\<lparr>ws_slots := ws_slots (web_start ()) @ [sample_body]\<rparr>)"
    by (intro web_more [OF web_init] enter_step sample_authentic) (simp add: web_start_def sample_server_def)
  from web_more [OF this handle_step [where before = "[]" and after = "[]" and body = sample_body and resp = resp and d = d and s = "()"]]
  obtain tr st where run: "?run tr st" "wd_dirs (ws_disk st) = [''d1'']"
    using h by (fastforce simp: web_start_def)
  have "''d1'' \<in> set (wd_dirs (ws_disk st))" using run(2) by simp
  then show ?thesis using run only_signed_deliveries_leave_traces [OF run(1)] by (auto simp: sample_server_def)
qed

section \<open>A webhook in front of the job store\<close>

text \<open>\<open>AsyncEnqueue\<close> given by the store's \<open>Receive\<close>, called at the time \<open>now\<close>.\<close>

definition receive_with :: "hash \<Rightarrow> time \<Rightarrow> MemoryStore enqueuer" where
  "receive_with H now inp s =
     (case mem_Receive H now inp s of (Inl e, s1) \<Rightarrow> (None, s1) | (Inr v, s1) \<Rightarrow> (Some v, s1))"

lemma mem_Receive_again:
  assumes "mem_sound H s" "mem_Receive H now inp s = (Inr v, s1)"
  obtains j where "ms_jobs s1 (j_ID (res_Job v)) = Some j" "j_SQLSHA256 j = digest H (in_SQL inp)"
    "j_PRNumber j = in_PRNumber inp"
    "\<And>later. mem_Receive H later inp s1 = (Inr \<lparr>res_Job = j, res_Duplicate = True\<rparr>, s1)" "j_ID j = j_ID (res_Job v)"
proof (cases rule: mem_Receive_cases [where H = H and now = now and inp = inp and s = s])
  case (duplicate jid)
  note job = mem_sound_byDeliv [OF assms(1) duplicate(2)]
  show ?thesis using duplicate assms(2) job
    by (intro that [of "job_at (ms_jobs s) jid"]) (auto simp: sameDelivery_def mem_Receive_def)
next
  case (created s')
  let ?id = "mem_new_id H now s"
  let ?j = "queued_job H ?id now inp"
  have same: "sameDelivery H ?j inp" by (simp add: sameDelivery_def queued_job_def received_job_def)
  have "v = \<lparr>res_Job = ?j, res_Duplicate = False\<rparr>" "s1 = s'" using created(3) assms(2) by simp_all
  then show ?thesis using created same
    by (intro that [of ?j]) (auto simp: mem_Receive_def job_at_def queued_job_def received_job_def)
qed (use assms(2) in auto)

text \<open>
  C23: A delivery is queued once: when a server whose queue is the job store answers that a delivery is
  queued, its diff adds exactly one statement, that statement was admitted, nothing was written to the
  disk, and the store holds a job with the digest of that statement; delivering the same event again, at
  whatever later time, changes nothing and answers the same job as a duplicate.
\<close>

theorem delivery_is_queued_once:
  assumes "mem_sound H s" "sv_asyncEnqueue sv = Some (receive_with H now)"
    and "web_process U P fs sv ev d s = (Inr r, d1, s1)" "dr_VerificationStatus r = ''queued''"
  shows "\<exists>sql j r'. ExtractAddedSQL U (we_Diff ev) = [sql] \<and> ad_Accepted (Sql_Admit.Admit U P sql) \<and> d1 = d
    \<and> ms_jobs s1 (dr_JobID r) = Some j \<and> j_SQLSHA256 j = digest H sql \<and> j_PRNumber j = we_PRNumber ev
    \<and> web_process U P fs (sv\<lparr>sv_asyncEnqueue := Some (receive_with H later)\<rparr>) ev d s1 = (Inr r', d, s1)
    \<and> dr_Duplicate r' \<and> dr_JobID r' = dr_JobID r \<and> dr_VerificationStatus r' = ''queued''"
proof (cases rule: web_process_cases [where U = U and P = P and fs = fs and sv = sv and ev = ev and d = d and s = s])
  case (kept r0)
  then have "r = r0" using assms(3) by (auto simp: persist_def split: prod.splits option.splits)
  then show ?thesis using kept assms(4) by simp
next
  case (ran sql)
  then show ?thesis using assms(2) by simp
next
  case (enqueued sql enqueue)
  let ?inp = "enqueue_input sv ev sql"
  have "enqueue_delivery sv (receive_with H now) ev (delivery_report ev [Sql_Admit.Admit U P sql]) sql d s = (Inr r, d1, s1)"
    using enqueued assms(2,3) by simp
  then obtain v where v: "mem_Receive H now ?inp s = (Inr v, s1)" "dr_JobID r = j_ID (res_Job v)" "d1 = d"
    by (auto simp: enqueue_delivery_def receive_with_def split: prod.splits sum.splits option.splits)
  obtain j where j: "ms_jobs s1 (j_ID (res_Job v)) = Some j" "j_SQLSHA256 j = digest H (in_SQL ?inp)"
    "j_PRNumber j = in_PRNumber ?inp"
    "mem_Receive H later ?inp s1 = (Inr \<lparr>res_Job = j, res_Duplicate = True\<rparr>, s1)" "j_ID j = j_ID (res_Job v)"
    using mem_Receive_again [OF assms(1) v(1)] by metis
  let ?sv = "sv\<lparr>sv_asyncEnqueue := Some (receive_with H later)\<rparr>"
  have "refused_codes [Sql_Admit.Admit U P sql] = []" using enqueued by (simp add: refused_codes_def)
  then have "web_process U P fs ?sv ev d s1 =
      enqueue_delivery ?sv (receive_with H later) ev (delivery_report ev [Sql_Admit.Admit U P sql]) sql d s1"
    using enqueued by (simp add: web_process_def Let_def)
  moreover have "enqueue_input ?sv ev sql = ?inp" by (simp add: enqueue_input_def)
  ultimately have "\<exists>r'. web_process U P fs ?sv ev d s1 = (Inr r', d, s1) \<and> dr_Duplicate r' \<and> dr_JobID r' = j_ID (res_Job v)
      \<and> dr_VerificationStatus r' = ''queued''"
    using j by (simp add: enqueue_delivery_def receive_with_def)
  then show ?thesis using enqueued(1,2) v j by (fastforce simp: enqueue_input_def)
qed

definition signed_change :: WebEvent where
  "signed_change = \<lparr>we_DeliveryID = ''d1'', we_PRNumber = 7,
     we_Diff = ''diff --git a/q.sql b/q.SQL'' @ [CHR 0x0A] @ ''+++ b/q.SQL'' @ [CHR 0x0A] @ ''+'' @ plain_read @ [CHR 0x0A]\<rparr>"

lemma signed_change_lines:
  "Split1 (CHR 0x0A) (we_Diff signed_change) =
     [''diff --git a/q.sql b/q.SQL'', ''+++ b/q.SQL'', CHR ''+'' # plain_read, []]"
  by code_simp

lemma space_seqs_heads: "list_all (\<lambda>w. w \<noteq> [] \<and> (ord (hd w) \<le> 32 \<or> 128 \<le> ord (hd w))) space_seqs"
  by code_simp

lemma find_no_space:
  assumes "32 < ord c" "ord c < 128"
  shows "find (\<lambda>w. w \<noteq> [] \<and> HasPrefix (c # t) w) space_seqs = None"
proof -
  have "\<not> HasPrefix (c # t) w" if "w \<in> set space_seqs" for w
    using space_seqs_heads that assms by (cases w) (auto simp: list_all_iff HasPrefix_def)
  then show ?thesis by (auto simp: find_None_iff)
qed

lemma find_blank: "find (\<lambda>w. w \<noteq> [] \<and> HasPrefix (CHR '' '' # t) w) space_seqs = Some '' ''"
proof -
  have "map (\<lambda>b. [chr b]) [9, 10, 11, 12, 13, 32] = [[CHR 0x09], [CHR 0x0A], [CHR 0x0B], [CHR 0x0C], [CHR 0x0D], '' '']"
    by code_simp
  then show ?thesis by (simp add: space_seqs_def HasPrefix_def)
qed

lemma fields_loop_word:
  "32 < ord c \<Longrightarrow> ord c < 128 \<Longrightarrow> fields_loop cur (c # t) = fields_loop (cur @ [c]) t"
  by (simp add: fields_loop.simps [of cur "c # t"] find_no_space)

lemma fields_loop_blank:
  "fields_loop cur (CHR '' '' # t) = (if cur = [] then [] else [cur]) @ fields_loop [] t"
  by (simp add: fields_loop.simps [of cur "CHR '' '' # t"] find_blank)

lemma signed_change_header:
  "Fields ''diff --git a/q.sql b/q.SQL'' = [''diff'', ''--git'', ''a/q.sql'', ''b/q.SQL'']"
  by (simp add: Fields_def fields_loop_word fields_loop_blank fields_loop.simps [of _ "[]"] ord_def)

lemma signed_change_trim:
  "TrimSpace (plain_read @ [CHR 0x0A]) = plain_read" "TrimSpace [] = []" "plain_read \<noteq> []" "take 2 plain_read = ''SE''"
  by code_simp+

lemma signed_change_sql: "ExtractAddedSQL ascii_tables (we_Diff signed_change) = [plain_read]"
proof -
  have "sql_header ascii_tables ''diff --git a/q.sql b/q.SQL''"
    unfolding sql_header_def signed_change_header Let_def by code_simp
  then show ?thesis
    by (simp add: ExtractAddedSQL_def signed_change_lines signed_change_trim numeral_2_eq_2 [symmetric] diff_header_def HasPrefix_def added_line_def flush_sql_def
        TrimPrefix_def plain_read_def [symmetric])
qed

definition sample_sha :: hash where
  "sample_sha x = replicate 64 CHR ''a''"

definition empty_disk :: WebDisk where
  "empty_disk = \<lparr>wd_dirs = [], wd_files = []\<rparr>"

theorem delivery_is_queued_once_witness:
  "\<exists>r s1 j. web_process ascii_tables (\<lambda>_. Some [plain_tree]) sample_fs
       (sample_server\<lparr>sv_asyncEnqueue := Some (receive_with sample_sha 5)\<rparr>) signed_change empty_disk NewMemoryStore = (Inr r, empty_disk, s1)
     \<and> ms_jobs s1 (dr_JobID r) = Some j \<and> j_SQLSHA256 j = digest sample_sha plain_read"
proof -
  let ?P = "\<lambda>_. Some [plain_tree]"
  let ?sv = "(sample_server :: MemoryStore Server)\<lparr>sv_asyncEnqueue := Some (receive_with sample_sha 5)\<rparr>"
  let ?res = "web_process ascii_tables ?P sample_fs ?sv signed_change empty_disk NewMemoryStore"
  have "\<not> invalid_input (enqueue_input ?sv signed_change plain_read)"
    by (simp add: invalid_input_def enqueue_input_def signed_change_def sample_server_def plain_read_def)
  then obtain v s1 where v: "mem_Receive sample_sha 5 (enqueue_input ?sv signed_change plain_read) NewMemoryStore = (Inr v, s1)"
    by (cases rule: mem_Receive_cases [where H = sample_sha and now = 5 and s = NewMemoryStore
          and inp = "enqueue_input ?sv signed_change plain_read"]) (auto simp: NewMemoryStore_def)
  have "refused_codes [Sql_Admit.Admit ascii_tables ?P plain_read] = []"
    using plain_read_admitted by (simp add: refused_codes_def)
  then have "?res = enqueue_delivery ?sv (receive_with sample_sha 5) signed_change
      (delivery_report signed_change [Sql_Admit.Admit ascii_tables ?P plain_read]) plain_read empty_disk NewMemoryStore"
    by (simp add: web_process_def signed_change_sql Let_def)
  then obtain r where r: "?res = (Inr r, empty_disk, s1)" "dr_VerificationStatus r = ''queued''"
    by (simp add: enqueue_delivery_def receive_with_def v)
  have "sv_asyncEnqueue ?sv = Some (receive_with sample_sha 5)" by simp
  from delivery_is_queued_once [OF mem_sound_new this r] show ?thesis
    using r(1) by (auto simp: signed_change_sql)
qed

end
