(* ===== verification/Identity.thy ===== *)
theory Identity
  imports GoDecode
begin

text \<open>
  \<open>internal/identity/identity.go\<close>: who a request comes from and what that role may do.  The tables of
  the service that are not the job store (sessions, approvals, reports, audit) are lists of rows; the
  statements on them fail when an oracle says so.  JSON Web Tokens are third-party code and enter as
  parameters: \<open>ae_jwt key token\<close> is the answer of \<open>ParseWithClaims\<close> with the options the source sets,
  \<open>ae_sign\<close> that of \<open>SignedString\<close>, \<open>ae_numeric\<close> the precision of \<open>NewNumericDate\<close>.
\<close>

section \<open>The tables of the service\<close>

record SessionRow =
  se_token_id :: string
  se_subject_id :: string
  se_tenant_id :: string
  se_project_id :: string
  se_role_name :: string
  se_expires_at :: time
  se_revoked_at :: "time option"

record ApprovalRow =
  ap_job_id :: string
  ap_report_sha256 :: string
  ap_candidate_sha256 :: string
  ap_sql_sha256 :: string
  ap_decision :: string
  ap_actor :: string
  ap_reason :: string

record ActionRow =
  ac_tenant_id :: string
  ac_project_id :: string
  ac_actor :: string
  ac_action :: string
  ac_resource_id :: string
  ac_metadata :: "(string \<times> string) list"

record ServiceTables =
  tb_sessions :: "SessionRow list"
  tb_approvals :: "ApprovalRow list"
  tb_reports :: "(string \<times> bytes) list"
  tb_audit :: "ActionRow list"

record 'j ServiceDB =
  sd_tables :: ServiceTables
  sd_jobs :: 'j
  sd_fail :: "nat \<Rightarrow> bool"
  sd_stmt :: nat

text \<open>One statement; \<open>None\<close> is an error of the database.\<close>

definition sd_exec :: "(ServiceTables \<Rightarrow> ('a \<times> ServiceTables) option) \<Rightarrow> 'j ServiceDB \<Rightarrow> 'a option \<times> 'j ServiceDB" where
  "sd_exec f s =
     (let s1 = s\<lparr>sd_stmt := sd_stmt s + 1\<rparr>
      in if sd_fail s (sd_stmt s) then (None, s1)
         else case f (sd_tables s) of
                None \<Rightarrow> (None, s1)
              | Some (v, t) \<Rightarrow> (Some v, s1\<lparr>sd_tables := t\<rparr>))"

definition sd_query :: "(ServiceTables \<Rightarrow> 'a) \<Rightarrow> 'j ServiceDB \<Rightarrow> 'a option \<times> 'j ServiceDB" where
  "sd_query f = sd_exec (\<lambda>t. Some (f t, t))"

text \<open>\<open>BeginTx\<close>, statements, \<open>Commit\<close>: with an error on the way the tables are as before.\<close>

definition sd_bind :: "('j ServiceDB \<Rightarrow> 'a option \<times> 'j ServiceDB) \<Rightarrow> ('a \<Rightarrow> 'j ServiceDB \<Rightarrow> 'b option \<times> 'j ServiceDB)
    \<Rightarrow> 'j ServiceDB \<Rightarrow> 'b option \<times> 'j ServiceDB" where
  "sd_bind m f s = (case m s of (None, s1) \<Rightarrow> (None, s1) | (Some v, s1) \<Rightarrow> f v s1)"

definition sd_return :: "'a \<Rightarrow> 'j ServiceDB \<Rightarrow> 'a option \<times> 'j ServiceDB" where
  "sd_return v s = (Some v, s)"

definition sd_transact :: "('j ServiceDB \<Rightarrow> 'a option \<times> 'j ServiceDB) \<Rightarrow> 'j ServiceDB \<Rightarrow> 'a option \<times> 'j ServiceDB" where
  "sd_transact m s =
     (case sd_bind (sd_query (\<lambda>t. ())) (\<lambda>_. sd_bind m (\<lambda>v. sd_bind (sd_query (\<lambda>t. ())) (\<lambda>_. sd_return v))) s of
        (None, s1) \<Rightarrow> (None, s1\<lparr>sd_tables := sd_tables s\<rparr>)
      | (Some v, s1) \<Rightarrow> (Some v, s1))"

section \<open>Principals\<close>

record Principal =
  pn_Subject :: string
  pn_Role :: string
  pn_Tenant :: string
  pn_Project :: string
  pn_Tables :: "string list"

definition zero_principal :: Principal where
  "zero_principal = \<lparr>pn_Subject = [], pn_Role = [], pn_Tenant = [], pn_Project = [], pn_Tables = []\<rparr>"

text \<open>The principal of the bootstrap credential and of the static token.\<close>

definition operator :: Principal where
  "operator = \<lparr>pn_Subject = ''operator'', pn_Role = ''admin'', pn_Tenant = ''operator'', pn_Project = ''default'',
     pn_Tables = [''*'']\<rparr>"

record Claims =
  cl_Principal :: Principal
  cl_IssuedAt :: "time option"
  cl_ExpiresAt :: time
  cl_ID :: string

text \<open>\<open>^[A-Za-z0-9_-]{1,64}$\<close>\<close>

definition name_byte :: "char \<Rightarrow> bool" where
  "name_byte c \<longleftrightarrow> is_upper_byte c \<or> is_lower_byte c \<or> is_digit_byte c \<or> c = CHR ''_'' \<or> c = CHR ''-''"

definition is_name :: "string \<Rightarrow> bool" where
  "is_name s \<longleftrightarrow> s \<noteq> [] \<and> length s \<le> 64 \<and> list_all name_byte s"

definition valid_principal :: "Principal \<Rightarrow> bool" where
  "valid_principal p \<longleftrightarrow>
     \<not> length (pn_Tables p) > 16 \<and> list_all is_name (pn_Tables p)
     \<and> is_name (pn_Subject p) \<and> is_name (pn_Tenant p) \<and> is_name (pn_Project p)
     \<and> (pn_Role p = ''admin'' \<or> pn_Role p = ''writer'' \<or> pn_Role p = ''reader'' \<or> pn_Role p = ''reviewer'')"

section \<open>Roles\<close>

record Auth =
  at_Key :: bytes
  at_Bootstrap :: string
  at_Policy :: "(string \<times> string) list"

definition policies :: "(string \<times> string) list" where
  "policies =
     [(''admin'', ''*''), (''reader'', ''job.read''), (''reader'', ''rag.query''),
      (''writer'', ''job.read''), (''writer'', ''job.create''), (''writer'', ''rag.query''), (''writer'', ''rag.write''),
      (''reviewer'', ''job.read''), (''reviewer'', ''approval.decide''), (''reviewer'', ''benchmark.create''),
      (''reviewer'', ''audit.read''), (''reviewer'', ''rag.query'')]"

definition New_auth :: "bytes \<Rightarrow> string \<Rightarrow> Auth option" where
  "New_auth key bootstrap =
     (if length key < 32 \<or> length bootstrap < 32 then None
      else Some \<lparr>at_Key = key, at_Bootstrap = bootstrap, at_Policy = policies\<rparr>)"

text \<open>The matcher of the policy model: \<open>r.role == p.role && (p.action == "*" || r.action == p.action)\<close>,
  with the effect that some rule allows.\<close>

definition Allowed :: "Auth \<Rightarrow> Principal \<Rightarrow> string \<Rightarrow> bool" where
  "Allowed a p action \<longleftrightarrow>
     list_ex (\<lambda>(role, act). pn_Role p = role \<and> (act = ''*'' \<or> action = act)) (at_Policy a)"

section \<open>Sessions\<close>

record AuthEnv =
  ae_sha :: "string \<Rightarrow> string"
  ae_jwt :: "bytes \<Rightarrow> string \<Rightarrow> Claims option"
  ae_sign :: "bytes \<Rightarrow> Claims \<Rightarrow> string option"
  ae_numeric :: "time \<Rightarrow> time"
  ae_column :: "time \<Rightarrow> time"

definition hour :: duration where
  "hour = 3600000000000"

datatype auth_error = Unauthorized | IdentityUnavailable

definition session_live :: "Claims \<Rightarrow> time \<Rightarrow> SessionRow \<Rightarrow> bool" where
  "session_live c now r \<longleftrightarrow>
     se_token_id r = cl_ID c \<and> se_subject_id r = pn_Subject (cl_Principal c)
     \<and> se_tenant_id r = pn_Tenant (cl_Principal c) \<and> se_project_id r = pn_Project (cl_Principal c)
     \<and> se_role_name r = pn_Role (cl_Principal c) \<and> se_revoked_at r = None \<and> se_expires_at r > now"

definition bearer :: "string \<Rightarrow> string option" where
  "bearer header = (if HasPrefix header ''Bearer '' then Some (TrimPrefix header ''Bearer '') else None)"

definition claims_ok :: "Claims \<Rightarrow> bool" where
  "claims_ok c \<longleftrightarrow>
     (case cl_IssuedAt c of None \<Rightarrow> False | Some iat \<Rightarrow> \<not> cl_ExpiresAt c - iat > hour)
     \<and> cl_ID c \<noteq> [] \<and> valid_principal (cl_Principal c)"

definition Authenticate ::
  "AuthEnv \<Rightarrow> Auth \<Rightarrow> time \<Rightarrow> string \<Rightarrow> 'j ServiceDB \<Rightarrow> (auth_error + Principal) \<times> 'j ServiceDB" where
  "Authenticate env a now header s =
     (case bearer header of
        None \<Rightarrow> (Inl Unauthorized, s)
      | Some token \<Rightarrow>
          if length token > 4096 then (Inl Unauthorized, s)
          else if ae_sha env (at_Bootstrap a) = ae_sha env token then (Inr operator, s)
          else (case ae_jwt env (at_Key a) token of
              None \<Rightarrow> (Inl Unauthorized, s)
            | Some c \<Rightarrow>
                if \<not> claims_ok c then (Inl Unauthorized, s)
                else (case sd_query (\<lambda>t. length (filter (session_live c (ae_column env now)) (tb_sessions t))) s of
                    (None, s1) \<Rightarrow> (Inl IdentityUnavailable, s1)
                  | (Some count, s1) \<Rightarrow>
                      if count \<noteq> 1 then (Inl Unauthorized, s1) else (Inr (cl_Principal c), s1))))"

definition hex_bytes :: "bytes \<Rightarrow> string" where
  "hex_bytes b = concat (map (\<lambda>c. [hex_digit (ord c div 16), hex_digit (ord c mod 16)]) b)"

definition ins_session :: "SessionRow \<Rightarrow> ServiceTables \<Rightarrow> (unit \<times> ServiceTables) option" where
  "ins_session r t =
     (if se_token_id r \<in> se_token_id ` set (tb_sessions t) then None
      else Some ((), t\<lparr>tb_sessions := tb_sessions t @ [r]\<rparr>))"

definition ins_action :: "ActionRow \<Rightarrow> ServiceTables \<Rightarrow> (unit \<times> ServiceTables) option" where
  "ins_action r t = Some ((), t\<lparr>tb_audit := tb_audit t @ [r]\<rparr>)"

text \<open>\<open>Issue\<close>: \<open>random\<close> is the answer of the random source, \<open>issuer\<close> the principal of the context.\<close>

definition Issue ::
  "AuthEnv \<Rightarrow> Auth \<Rightarrow> time \<Rightarrow> bytes option \<Rightarrow> Principal \<Rightarrow> Principal \<Rightarrow> 'j ServiceDB \<Rightarrow> (string \<times> string) option \<times> 'j ServiceDB" where
  "Issue env a now random issuer p s =
     (if \<not> valid_principal p then (None, s)
      else case random of
        None \<Rightarrow> (None, s)
      | Some raw \<Rightarrow>
          (let tid = hex_bytes raw;
               until = now + hour;
               c = \<lparr>cl_Principal = p, cl_IssuedAt = Some (ae_numeric env now), cl_ExpiresAt = ae_numeric env until, cl_ID = tid\<rparr>;
               row = \<lparr>se_token_id = tid, se_subject_id = pn_Subject p, se_tenant_id = pn_Tenant p,
                 se_project_id = pn_Project p, se_role_name = pn_Role p, se_expires_at = ae_column env until,
                 se_revoked_at = None\<rparr>;
               act = \<lparr>ac_tenant_id = pn_Tenant p, ac_project_id = pn_Project p, ac_actor = pn_Subject issuer,
                 ac_action = ''token.issued'', ac_resource_id = tid,
                 ac_metadata = [(''role'', pn_Role p), (''subject'', pn_Subject p)]\<rparr>
           in case ae_sign env (at_Key a) c of
                None \<Rightarrow> (None, s)
              | Some token \<Rightarrow>
                  sd_bind (sd_transact (sd_bind (sd_exec (ins_session row)) (\<lambda>_. sd_exec (ins_action act))))
                    (\<lambda>_. sd_return (token, tid)) s))"

section \<open>What statements change\<close>

lemma sd_query_keeps:
  "sd_tables (snd (sd_query f s)) = sd_tables s" "sd_jobs (snd (sd_query f s)) = sd_jobs s"
  by (simp_all add: sd_query_def sd_exec_def Let_def)

lemma sd_query_answer: "fst (sd_query f s) = None \<or> fst (sd_query f s) = Some (f (sd_tables s))"
  by (simp add: sd_query_def sd_exec_def Let_def)

lemma sd_query_cases:
  obtains (fail) s1 where "sd_query f s = (None, s1)" "sd_tables s1 = sd_tables s" "sd_jobs s1 = sd_jobs s"
  | (ok) s1 where "sd_query f s = (Some (f (sd_tables s)), s1)" "sd_tables s1 = sd_tables s" "sd_jobs s1 = sd_jobs s"
  by (cases "sd_fail s (sd_stmt s)") (auto simp: sd_query_def sd_exec_def Let_def)

lemma sd_exec_cases:
  obtains (fail) s1 where "sd_exec f s = (None, s1)" "sd_tables s1 = sd_tables s" "sd_jobs s1 = sd_jobs s"
  | (ok) v t s1 where "sd_exec f s = (Some v, s1)" "f (sd_tables s) = Some (v, t)" "sd_tables s1 = t" "sd_jobs s1 = sd_jobs s"
  by (cases "sd_fail s (sd_stmt s)"; cases "f (sd_tables s)") (auto simp: sd_exec_def Let_def)

text \<open>A transaction of two statements.\<close>

lemma sd_transact2_cases:
  obtains (fail) s1 where "sd_transact (sd_bind (sd_exec f) (\<lambda>_. sd_exec g)) s = (None, s1)"
      "sd_tables s1 = sd_tables s" "sd_jobs s1 = sd_jobs s"
  | (ok) u t v w s2 where "sd_transact (sd_bind (sd_exec f) (\<lambda>_. sd_exec g)) s = (Some w, s2)"
      "f (sd_tables s) = Some (u, t)" "g t = Some (w, v)" "sd_tables s2 = v" "sd_jobs s2 = sd_jobs s"
proof -
  let ?m = "sd_bind (sd_query (\<lambda>t. ())) (\<lambda>_. sd_bind (sd_bind (sd_exec f) (\<lambda>_. sd_exec g))
      (\<lambda>v. sd_bind (sd_query (\<lambda>t. ())) (\<lambda>_. sd_return v)))"
  have jobs: "sd_jobs (snd (?m s)) = sd_jobs s"
    by (auto simp: sd_bind_def sd_query_def sd_exec_def sd_return_def Let_def split: option.splits prod.splits if_splits)
  have "fst (?m s) = None \<or> (\<exists>u t v w. fst (?m s) = Some w \<and> f (sd_tables s) = Some (u, t) \<and> g t = Some (w, v)
      \<and> sd_tables (snd (?m s)) = v)"
    by (auto simp: sd_bind_def sd_query_def sd_exec_def sd_return_def Let_def split: option.splits prod.splits if_splits)
  then show thesis
  proof
    assume "fst (?m s) = None"
    then show thesis using jobs by (intro fail [of "(snd (?m s))\<lparr>sd_tables := sd_tables s\<rparr>"]) (auto simp: sd_transact_def split: prod.splits option.splits)
  next
    assume "\<exists>u t v w. fst (?m s) = Some w \<and> f (sd_tables s) = Some (u, t) \<and> g t = Some (w, v)
      \<and> sd_tables (snd (?m s)) = v"
    then obtain u t v w where "fst (?m s) = Some w" "f (sd_tables s) = Some (u, t)" "g t = Some (w, v)"
      "sd_tables (snd (?m s)) = v" by blast
    then show thesis using jobs
      by (intro ok [of w "snd (?m s)" u t v])
        (auto simp: sd_transact_def split: prod.splits option.splits)
  qed
qed

section \<open>Who a request can come from\<close>

definition session_of :: "AuthEnv \<Rightarrow> Auth \<Rightarrow> time \<Rightarrow> string \<Rightarrow> ServiceTables \<Rightarrow> Principal \<Rightarrow> bool" where
  "session_of env a now token t p \<longleftrightarrow>
     (\<exists>c r. ae_jwt env (at_Key a) token = Some c \<and> cl_Principal c = p \<and> claims_ok c
        \<and> filter (session_live c (ae_column env now)) (tb_sessions t) = [r])"

lemma Authenticate_Inr:
  assumes "Authenticate env a now header s = (Inr p, s1)"
  obtains token where "bearer header = Some token" "sd_tables s1 = sd_tables s" "sd_jobs s1 = sd_jobs s"
    "ae_sha env (at_Bootstrap a) = ae_sha env token \<and> p = operator \<or> session_of env a now token (sd_tables s) p"
proof -
  obtain token where token: "bearer header = Some token" using assms by (auto simp: Authenticate_def split: option.splits)
  show thesis
  proof (cases "ae_sha env (at_Bootstrap a) = ae_sha env token")
    case True
    then show ?thesis using assms token by (intro that [of token]) (auto simp: Authenticate_def split: if_splits)
  next
    case False
    let ?f = "\<lambda>c t. length (filter (session_live c (ae_column env now)) (tb_sessions t))"
    obtain c where c: "ae_jwt env (at_Key a) token = Some c" "claims_ok c"
      using assms token False by (auto simp: Authenticate_def split: option.splits if_splits)
    show ?thesis
    proof (cases rule: sd_query_cases [where f = "?f c" and s = s])
      case (fail s2)
      then show ?thesis using assms token False c by (auto simp: Authenticate_def split: if_splits)
    next
      case (ok s2)
      then have "?f c (sd_tables s) = 1" "p = cl_Principal c" "s1 = s2"
        using assms token False c by (auto simp: Authenticate_def split: if_splits)
      then show ?thesis using ok token c
        by (intro that [of token]) (auto simp: session_of_def length_Suc_conv)
    qed
  qed
qed

lemma Authenticate_keeps:
  "sd_tables (snd (Authenticate env a now header s)) = sd_tables s \<and> sd_jobs (snd (Authenticate env a now header s)) = sd_jobs s"
  by (simp add: Authenticate_def sd_query_keeps case_prod_beta split: option.splits)

lemma name_star: "\<not> is_name ''*''"
  by (simp add: is_name_def name_byte_def is_upper_byte_def is_lower_byte_def is_digit_byte_def ord_def)

lemma session_of_valid: "session_of env a now token t p \<Longrightarrow> valid_principal p \<and> ''*'' \<notin> set (pn_Tables p)"
  using name_star by (auto simp: session_of_def claims_ok_def valid_principal_def list_all_iff)

lemma session_of_row:
  assumes "session_of env a now token t p"
  obtains r where "r \<in> set (tb_sessions t)" "se_revoked_at r = None" "se_expires_at r > ae_column env now"
    "se_tenant_id r = pn_Tenant p" "se_project_id r = pn_Project p" "se_role_name r = pn_Role p" "se_subject_id r = pn_Subject p"
proof -
  obtain c r where "cl_Principal c = p" "filter (session_live c (ae_column env now)) (tb_sessions t) = [r]"
    using assms by (auto simp: session_of_def)
  moreover from this(2) have "r \<in> set (filter (session_live c (ae_column env now)) (tb_sessions t))" by simp
  then have "r \<in> set (tb_sessions t)" "session_live c (ae_column env now) r" by simp_all
  ultimately show thesis by (intro that [of r]) (simp_all add: session_live_def)
qed

lemma Issue_cases:
  obtains (unchanged) "sd_tables (snd (Issue env a now random issuer p s)) = sd_tables s"
      "fst (Issue env a now random issuer p s) = None" "sd_jobs (snd (Issue env a now random issuer p s)) = sd_jobs s"
  | (issued) row act where "valid_principal p"
      "sd_tables (snd (Issue env a now random issuer p s)) =
         (sd_tables s)\<lparr>tb_sessions := tb_sessions (sd_tables s) @ [row], tb_audit := tb_audit (sd_tables s) @ [act]\<rparr>"
      "se_tenant_id row = pn_Tenant p" "se_project_id row = pn_Project p" "se_role_name row = pn_Role p"
      "se_subject_id row = pn_Subject p" "se_token_id row \<notin> se_token_id ` set (tb_sessions (sd_tables s))"
      "ac_action act = ''token.issued''" "ac_actor act = pn_Subject issuer" "ac_resource_id act = se_token_id row"
      "sd_jobs (snd (Issue env a now random issuer p s)) = sd_jobs s"
proof (cases "valid_principal p \<and> random \<noteq> None
    \<and> ae_sign env (at_Key a) \<lparr>cl_Principal = p, cl_IssuedAt = Some (ae_numeric env now),
        cl_ExpiresAt = ae_numeric env (now + hour), cl_ID = hex_bytes (the random)\<rparr> \<noteq> None")
  case False
  then show ?thesis by (intro unchanged) (auto simp: Issue_def Let_def split: option.splits)
next
  case True
  then obtain raw token where raw: "valid_principal p" "random = Some raw"
    "ae_sign env (at_Key a) \<lparr>cl_Principal = p, cl_IssuedAt = Some (ae_numeric env now),
        cl_ExpiresAt = ae_numeric env (now + hour), cl_ID = hex_bytes raw\<rparr> = Some token" by auto
  let ?row = "\<lparr>se_token_id = hex_bytes raw, se_subject_id = pn_Subject p, se_tenant_id = pn_Tenant p,
                 se_project_id = pn_Project p, se_role_name = pn_Role p, se_expires_at = ae_column env (now + hour),
                 se_revoked_at = None\<rparr>"
  let ?act = "\<lparr>ac_tenant_id = pn_Tenant p, ac_project_id = pn_Project p, ac_actor = pn_Subject issuer,
                 ac_action = ''token.issued'', ac_resource_id = hex_bytes raw,
                 ac_metadata = [(''role'', pn_Role p), (''subject'', pn_Subject p)]\<rparr>"
  have eq: "Issue env a now (Some raw) issuer p s =
      sd_bind (sd_transact (sd_bind (sd_exec (ins_session ?row)) (\<lambda>_. sd_exec (ins_action ?act)))) (\<lambda>_. sd_return (token, hex_bytes raw)) s"
    using raw by (simp add: Issue_def Let_def)
  show ?thesis
  proof (cases rule: sd_transact2_cases [where f = "ins_session ?row" and g = "ins_action ?act" and s = s])
    case (fail s1)
    then show ?thesis by (intro unchanged) (simp_all add: raw(2) eq sd_bind_def [of "sd_transact _"])
  next
    case (ok u t v w s1)
    then show ?thesis using raw
      by (intro issued [where row = ?row and act = ?act])
        (auto simp: eq sd_bind_def [of "sd_transact _"] sd_return_def ins_session_def ins_action_def split: if_splits)
  qed
qed

end
