(* ===== verification/Job_Api.thy ===== *)
theory Job_Api
  imports Identity Webhook Kafka_MySQL Kafka_Worker Shadow_Gate
begin

text \<open>
  \<open>internal/service\<close>: the HTTP API in front of the durable job store (\<open>server.go\<close>, \<open>extension.go\<close>,
  \<open>lists.go\<close>, \<open>proposal.go\<close>).  A request is handled by one function of the service database, which holds
  the job store of \<open>Kafka_MySQL\<close> and the tables of \<open>Identity\<close>.
\<close>

section \<open>Raw members\<close>

text \<open>A \<open>json.RawMessage\<close> field keeps the bytes of its value: the members of the object at the front of the
  input, each with the bytes of its value.\<close>

fun raw_loop :: "nat \<Rightarrow> string \<Rightarrow> (string \<times> string) list" where
  "raw_loop 0 s = []"
| "raw_loop (Suc n) s =
     (case skip_ws s of
        [] \<Rightarrow> []
      | c # t \<Rightarrow>
          (case scan_str t of
             None \<Rightarrow> []
           | Some (k, r) \<Rightarrow>
               let v = skip_ws (drop 1 (skip_ws r))
               in case p_value (2 * length v + 1) 1 v of
                    None \<Rightarrow> []
                  | Some (x, rest) \<Rightarrow> (k, take (length v - length rest) v) # raw_loop n (drop 1 (skip_ws rest))))"

definition raw_members :: "string \<Rightarrow> (string \<times> string) list" where
  "raw_members s = (case skip_ws s of c # t \<Rightarrow> if c = CHR ''{'' then raw_loop (length t) t else [] | [] \<Rightarrow> [])"

text \<open>The value that the field \<open>k\<close> of a struct with the fields \<open>ks\<close> keeps: that of the last member decoded into it.\<close>

definition raw_field :: "string list \<Rightarrow> string \<Rightarrow> string \<Rightarrow> string" where
  "raw_field ks k s =
     (case filter (\<lambda>(name, v). find_field (map (\<lambda>x. (x, x)) ks) name = Some k) (raw_members s) of
        [] \<Rightarrow> []
      | ms \<Rightarrow> snd (last ms))"

section \<open>Requests and replies\<close>

record ApiRequest =
  aq_Method :: string
  aq_Path :: string
  aq_Authorization :: string
  aq_Query :: "string \<Rightarrow> string"
  aq_Body :: "string option"

text \<open>\<open>io.ReadAll\<close> of the \<open>MaxBytesReader\<close>.\<close>

definition body_limit :: nat where
  "body_limit = 131072"

definition read_limited :: "string option \<Rightarrow> string option" where
  "read_limited body = (case body of None \<Rightarrow> None | Some b \<Rightarrow> if length b > body_limit then None else Some b)"

record JobLine =
  jl_delivery :: string
  jl_status :: JobStatus
  jl_attempts :: int
  jl_updated :: time

datatype reply =
    Code int string
  | Fields_of int "(string \<times> string) list"
  | RawReply string
  | ApprovalReply ApprovalRow
  | ReportReply bytes string
  | StatusReply status_reply
  | JobsReply "JobLine list" string
  | SessionsReply "SessionRow list" string
  | OtherReply

definition enc_code :: "string \<Rightarrow> (string \<times> string) list" where
  "enc_code c = f_str ''code'' c"

definition respond :: "reply \<Rightarrow> Response option" where
  "respond r =
     (case r of
        Code status c \<Rightarrow> Some (web_json status (enc_code c))
      | Fields_of status kvs \<Rightarrow> Some (web_json status kvs)
      | RawReply v \<Rightarrow> Some \<lparr>rs_Status = 200, rs_Body = v @ [CHR 0x0A]\<rparr>
      | _ \<Rightarrow> None)"

text \<open>What a request needs of its surroundings: parser and tables, digests, the database, and for this
  request the time, the random bytes and the trace context.\<close>

record ApiEnv =
  en_U :: unicode_tables
  en_P :: sql_parser
  en_H :: hash
  en_db :: Database
  en_auth :: AuthEnv

record Moment =
  mo_now :: time
  mo_random :: "bytes option"
  mo_carrier :: "string \<times> string"

record ApiServer =
  as_Token :: string
  as_Auth :: "Auth option"
  as_AllowedTables :: "(string \<Rightarrow> bool) option"
  as_RAG :: bool
  as_History :: bool
  as_GitHub :: bool

type_synonym api_db = "MySQL ServiceDB"

section \<open>Scope\<close>

definition tablesAllowed :: "ApiEnv \<Rightarrow> ApiServer \<Rightarrow> Principal \<Rightarrow> string \<Rightarrow> bool" where
  "tablesAllowed env sv p query =
     (case Inspect (en_U env) (en_P env) query of
        Inl e \<Rightarrow> False
      | Inr tables \<Rightarrow>
          list_all (\<lambda>table. (case as_AllowedTables sv of None \<Rightarrow> True | Some S \<Rightarrow> S table)
             \<and> list_ex (\<lambda>allowed. allowed = ''*'' \<or> EqualFold (en_U env) allowed table) (pn_Tables p)) tables
          \<and> length tables > 0)"

text \<open>A read of the job store.\<close>

definition with_jobs :: "(MySQL \<Rightarrow> 'a \<times> MySQL) \<Rightarrow> api_db \<Rightarrow> 'a \<times> api_db" where
  "with_jobs f s = (case f (sd_jobs s) of (x, j) \<Rightarrow> (x, s\<lparr>sd_jobs := j\<rparr>))"

definition scopedJob :: "ApiEnv \<Rightarrow> ApiServer \<Rightarrow> Principal \<Rightarrow> string \<Rightarrow> api_db \<Rightarrow> (workflow_error + Job) \<times> api_db" where
  "scopedJob env sv p i s =
     (case with_jobs (my_Get i) s of
        (Inl e, s1) \<Rightarrow> (Inl e, s1)
      | (Inr j, s1) \<Rightarrow>
          if o_TenantID (j_Options j) \<noteq> pn_Tenant p \<or> o_ProjectID (j_Options j) \<noteq> pn_Project p \<or> \<not> tablesAllowed env sv p (j_SQL j)
          then (Inl ErrNotFound, s1) else (Inr j, s1))"

definition jobError :: "workflow_error \<Rightarrow> reply" where
  "jobError e = (if e = ErrNotFound then Code 404 ''job_not_found'' else Code 503 ''store_unavailable'')"

definition action :: "ApiRequest \<Rightarrow> string" where
  "action r =
     (if HasPrefix (aq_Path r) ''/auth/'' then ''token.issue''
      else if aq_Path r = ''/audit'' then ''audit.read''
      else if HasPrefix (aq_Path r) ''/rag/documents'' \<and> aq_Method r \<noteq> ''GET'' then ''rag.write''
      else if HasPrefix (aq_Path r) ''/rag/'' then ''rag.query''
      else if HasSuffix (aq_Path r) ''/approval'' \<and> aq_Method r = ''POST'' then ''approval.decide''
      else if HasSuffix (aq_Path r) ''/benchmark'' then ''benchmark.create''
      else if aq_Method r = ''POST'' \<and> aq_Path r = ''/jobs'' then ''job.create''
      else ''job.read'')"

section \<open>Proposals\<close>

definition column_json :: "Column \<Rightarrow> string" where
  "column_json c = enc_object (f_str ''name'' (col_Name c) @ f_opt ''direction'' (col_Direction c))"

definition spec_json :: "Spec \<Rightarrow> string" where
  "spec_json s =
     enc_object (f_str ''table'' (sp_Table s) @ f_str ''index_name'' (sp_IndexName s) @
       [(''columns'', enc_list (map column_json (sp_Columns s)))])"

definition rewrite_json :: "Rewrite \<Rightarrow> string" where
  "rewrite_json r = enc_object (f_str ''kind'' (rw_Kind r) @ f_str ''sql'' (rw_SQL r))"

definition validateProposal :: "ApiEnv \<Rightarrow> string \<Rightarrow> string \<Rightarrow> string option" where
  "validateProposal env raw original =
     (if Is raw then map_option rewrite_json (Decode (en_U env) (en_P env) raw original)
      else case DecodeStrict raw of
        Inl e \<Rightarrow> None
      | Inr spec \<Rightarrow>
          (case Prepare (en_U env) (en_P env) original spec of Inl e \<Rightarrow> None | Inr p \<Rightarrow> Some (spec_json spec)))"

section \<open>Receiving and listing jobs\<close>

definition status_text :: "JobStatus \<Rightarrow> string" where
  "status_text st =
     (case st of Received \<Rightarrow> ''RECEIVED'' | Queued \<Rightarrow> ''QUEUED'' | Running \<Rightarrow> ''RUNNING'' | Completed \<Rightarrow> ''COMPLETED''
      | Rejected \<Rightarrow> ''REJECTED'' | Retrying \<Rightarrow> ''RETRYING'' | DeadLetter \<Rightarrow> ''DEAD_LETTER'')"

text \<open>\<open>deliveryPattern\<close> is the pattern of the names of \<open>Identity\<close>.\<close>

definition is_delivery :: "string \<Rightarrow> bool" where
  "is_delivery s \<longleftrightarrow> s \<noteq> [] \<and> length s \<le> 64 \<and> list_all name_byte s"

text \<open>\<open>strconv.Atoi\<close>.\<close>

definition atoi :: "string \<Rightarrow> int option" where
  "atoi s = (if HasPrefix s ''+'' then (if HasPrefix (drop 1 s) ''-'' then None else parse_int (drop 1 s)) else parse_int s)"

definition listPage :: "ApiRequest \<Rightarrow> (string \<times> nat) option" where
  "listPage r =
     (let after = aq_Query r ''after'';
          raw = aq_Query r ''limit'';
          limit = (if raw = [] then Some 50
                   else case atoi raw of None \<Rightarrow> None | Some n \<Rightarrow> if n < 1 \<or> n > 100 then None else Some (nat n))
      in case limit of None \<Rightarrow> None | Some n \<Rightarrow> if after = [] \<or> is_delivery after then Some (after, n) else None)"

text \<open>The rows of \<open>listJobs\<close>: the jobs of the project behind the cursor in the order of their deliveries.\<close>

definition in_project :: "Principal \<Rightarrow> Tables \<Rightarrow> JobRow \<Rightarrow> bool" where
  "in_project p t r \<longleftrightarrow>
     (case map_of (t_options t) (r_job_id r) of
        None \<Rightarrow> False
      | Some opt \<Rightarrow> o_TenantID opt = pn_Tenant p \<and> o_ProjectID opt = pn_Project p)"

definition select_jobs :: "Principal \<Rightarrow> string \<Rightarrow> string \<Rightarrow> nat \<Rightarrow> Tables \<Rightarrow> JobRow list" where
  "select_jobs p after status limit t =
     take limit (sort_key r_delivery_id
       (filter (\<lambda>r. in_project p t r \<and> r_delivery_id r > after \<and> (status = [] \<or> status_text (r_status r) = status)) (t_jobs t)))"

definition job_line :: "JobRow \<Rightarrow> JobLine" where
  "job_line r = \<lparr>jl_delivery = r_delivery_id r, jl_status = r_status r, jl_attempts = r_attempts r, jl_updated = r_updated_at r\<rparr>"

definition list_page :: "ApiEnv \<Rightarrow> ApiServer \<Rightarrow> Principal \<Rightarrow> string \<Rightarrow> string \<Rightarrow> nat \<Rightarrow> Tables \<Rightarrow> JobLine list \<times> string" where
  "list_page env sv p after status limit t =
     (let rows = select_jobs p after status limit t
      in (map job_line (filter (\<lambda>r. tablesAllowed env sv p (r_sql_text r)) rows),
          if length rows = limit then (if rows = [] then [] else r_delivery_id (last rows)) else []))"

definition known_statuses :: "string list" where
  "known_statuses = [[], ''RECEIVED'', ''QUEUED'', ''RUNNING'', ''RETRYING'', ''COMPLETED'', ''REJECTED'', ''DEAD_LETTER'']"

definition listJobs :: "ApiEnv \<Rightarrow> ApiServer \<Rightarrow> Principal \<Rightarrow> ApiRequest \<Rightarrow> api_db \<Rightarrow> (reply + JobLine list \<times> string) \<times> api_db" where
  "listJobs env sv p r s =
     (case listPage r of
        None \<Rightarrow> (Inl (Code 400 ''invalid_cursor''), s)
      | Some (after, limit) \<Rightarrow>
          if aq_Query r ''status'' \<notin> set known_statuses then (Inl (Code 400 ''invalid_status''), s)
          else (case with_jobs (db_query (list_page env sv p after (aq_Query r ''status'') limit)) s of
              (Inl e, s1) \<Rightarrow> (Inl (Code 503 ''store_unavailable''), s1)
            | (Inr page, s1) \<Rightarrow> (Inr page, s1)))"

record JobInput =
  ji_DeliveryID :: string
  ji_PRNumber :: int
  ji_SQL :: string

definition job_input_fields :: "(string \<times> JobInput field_setter) list" where
  "job_input_fields =
     [(''delivery_id'', set_string (\<lambda>x i. i\<lparr>ji_DeliveryID := x\<rparr>)), (''pr_number'', set_int (\<lambda>x i. i\<lparr>ji_PRNumber := x\<rparr>)),
      (''sql'', set_string (\<lambda>x i. i\<lparr>ji_SQL := x\<rparr>)), (''candidate_spec'', raw_message)]"

definition receive_error :: "workflow_error \<Rightarrow> reply" where
  "receive_error e =
     (if e = ErrDeliveryConflict then Code 409 ''delivery_conflict''
      else if e = ErrBacklogFull then Code 429 ''job_backlog_full'' else Code 503 ''store_unavailable'')"

definition receive_jobs :: "ApiEnv \<Rightarrow> ApiServer \<Rightarrow> Moment \<Rightarrow> Principal \<Rightarrow> ApiRequest \<Rightarrow> api_db \<Rightarrow> reply \<times> api_db" where
  "receive_jobs env sv mo p r s =
     (case read_limited (aq_Body r) of
        None \<Rightarrow> (Code 413 ''body_too_large'', s)
      | Some raw \<Rightarrow>
          (case decode_strict job_input_fields \<lparr>ji_DeliveryID = [], ji_PRNumber = 0, ji_SQL = []\<rparr> raw of
             None \<Rightarrow> (Code 400 ''input_rejected'', s)
           | Some i \<Rightarrow>
               if \<not> is_delivery (ji_DeliveryID i) \<or> ji_PRNumber i < 1 \<or> length (ji_SQL i) > 65536
                  \<or> \<not> ad_Accepted (Sql_Admit.Admit (en_U env) (en_P env) (ji_SQL i))
               then (Code 400 ''input_rejected'', s)
               else
                 let given = raw_field (map fst job_input_fields) ''candidate_spec'' raw;
                     spec = (if length given = 0 then ''{}'' else given)
                 in if length given \<noteq> 0 \<and> validateProposal env given (ji_SQL i) = None
                    then (Code 400 ''candidate_rejected'', s)
                    else if \<not> tablesAllowed env sv p (ji_SQL i) then (Code 403 ''table_not_allowed'', s)
                    else (case with_jobs (my_Receive (en_H env) (en_db env) (mo_carrier mo) (mo_now mo)
                            \<lparr>in_Options = zero_options\<lparr>o_TenantID := pn_Tenant p, o_ProjectID := pn_Project p, o_Actor := pn_Subject p\<rparr>,
                             in_DeliveryID = ji_DeliveryID i, in_PRNumber = ji_PRNumber i, in_SQL = ji_SQL i,
                             in_CandidateSpec = spec, in_SourceJSON = []\<rparr>) s of
                        (Inl e, s1) \<Rightarrow> (receive_error e, s1)
                      | (Inr v, s1) \<Rightarrow>
                          (Fields_of 202 (f_str ''delivery_id'' (j_DeliveryID (res_Job v)) @ [(''duplicate'', enc_bool (res_Duplicate v))] @
                             f_str ''job_id'' (j_ID (res_Job v)) @ f_str ''status'' (status_text (j_Status (res_Job v)))), s1))))"

section \<open>Reports, approvals and benchmarks\<close>

definition TrimSuffix_of :: "string \<Rightarrow> string \<Rightarrow> string" where
  "TrimSuffix_of s suf = (if HasSuffix s suf then take (length s - length suf) s else s)"

record ActionInput =
  ai_ReportSHA :: string
  ai_Decision :: string
  ai_Reason :: string
  ai_DeliveryID :: string

definition action_input_fields :: "(string \<times> ActionInput field_setter) list" where
  "action_input_fields =
     [(''report_sha256'', set_string (\<lambda>x i. i\<lparr>ai_ReportSHA := x\<rparr>)), (''decision'', set_string (\<lambda>x i. i\<lparr>ai_Decision := x\<rparr>)),
      (''reason'', set_string (\<lambda>x i. i\<lparr>ai_Reason := x\<rparr>)), (''delivery_id'', set_string (\<lambda>x i. i\<lparr>ai_DeliveryID := x\<rparr>))]"

definition decode_action :: "string option \<Rightarrow> ActionInput option" where
  "decode_action body =
     (case read_limited body of
        None \<Rightarrow> None
      | Some raw \<Rightarrow> decode_strict action_input_fields \<lparr>ai_ReportSHA = [], ai_Decision = [], ai_Reason = [], ai_DeliveryID = []\<rparr> raw)"

text \<open>What \<open>jobAction\<close> reads of a stored report: the rewrite verdict, if there is one, and the raw candidate.\<close>

definition decode_report :: "string \<Rightarrow> (bool option \<times> string) option" where
  "decode_report raw =
     map_option (\<lambda>rw. (rw, raw_field [''candidate_spec'', ''rewrite''] ''candidate_spec'' raw))
       (unmarshal (\<lambda>v. decode_struct_lax
          [(''candidate_spec'', raw_message),
           (''rewrite'', set_pointer (decode_struct_lax [(''result_equivalent'', set_bool (\<lambda>x _. x))]) False (\<lambda>r. r) (\<lambda>x r. x))] v None) raw)"

definition find_approval :: "string \<Rightarrow> ServiceTables \<Rightarrow> ApprovalRow option" where
  "find_approval jid t = find (\<lambda>a. ap_job_id a = jid) (tb_approvals t)"

definition ins_approval :: "ApprovalRow \<Rightarrow> ServiceTables \<Rightarrow> (unit \<times> ServiceTables) option" where
  "ins_approval a t =
     (if ap_job_id a \<in> ap_job_id ` set (tb_approvals t) then None
      else Some ((), t\<lparr>tb_approvals := tb_approvals t @ [a]\<rparr>))"

definition approval_row :: "ApiEnv \<Rightarrow> Principal \<Rightarrow> Job \<Rightarrow> ActionInput \<Rightarrow> string \<Rightarrow> ApprovalRow" where
  "approval_row env p job i specRaw =
     \<lparr>ap_job_id = j_ID job, ap_report_sha256 = ai_ReportSHA i, ap_candidate_sha256 = digest (en_H env) specRaw,
      ap_sql_sha256 = j_SQLSHA256 job, ap_decision = ai_Decision i, ap_actor = pn_Subject p, ap_reason = ai_Reason i\<rparr>"

definition self_approval :: "Principal \<Rightarrow> Job \<Rightarrow> bool" where
  "self_approval p job \<longleftrightarrow> pn_Role p = ''admin'' \<and> pn_Subject p = o_Actor (j_Options job)"

definition approval_action :: "ApiEnv \<Rightarrow> Principal \<Rightarrow> Job \<Rightarrow> ActionInput \<Rightarrow> string \<Rightarrow> ActionRow" where
  "approval_action env p job i specRaw =
     \<lparr>ac_tenant_id = pn_Tenant p, ac_project_id = pn_Project p, ac_actor = pn_Subject p,
      ac_action = ''candidate.'' @ ai_Decision i, ac_resource_id = j_ID job,
      ac_metadata = [(''report_sha256'', ai_ReportSHA i), (''candidate_sha256'', digest (en_H env) specRaw),
        (''reason'', ai_Reason i), (''admin_self_approval'', enc_bool (self_approval p job))]\<rparr>"

text \<open>The decision: one transaction for the approval and its audit record.  When the insert fails, the same
  decision made before is confirmed.\<close>

definition decide_job :: "ApiEnv \<Rightarrow> Principal \<Rightarrow> Job \<Rightarrow> ActionInput \<Rightarrow> string \<Rightarrow> api_db \<Rightarrow> reply \<times> api_db" where
  "decide_job env p job i specRaw s =
     (if (ai_Decision i \<noteq> ''approved'' \<and> ai_Decision i \<noteq> ''rejected'') \<or> TrimSpace (ai_Reason i) = []
      then (Code 400 ''decision_and_reason_required'', s)
      else if pn_Role p \<noteq> ''admin'' \<and> pn_Subject p = o_Actor (j_Options job) then (Code 403 ''self_approval_forbidden'', s)
      else case sd_query (\<lambda>t. ()) s of
        (None, s1) \<Rightarrow> (Code 503 ''store_unavailable'', s1)
      | (Some _, s1) \<Rightarrow>
          (case sd_exec (ins_approval (approval_row env p job i specRaw)) s1 of
             (None, s2) \<Rightarrow>
               (case sd_query (find_approval (j_ID job)) s2 of
                  (Some (Some old), s3) \<Rightarrow>
                    if ap_decision old = ai_Decision i \<and> ap_report_sha256 old = ai_ReportSHA i
                       \<and> ap_actor old = pn_Subject p \<and> ap_reason old = ai_Reason i
                    then (Fields_of 200 (f_str ''decision'' (ap_decision old)), s3)
                    else (Code 409 ''approval_conflict'', s3)
                | (_, s3) \<Rightarrow> (Code 409 ''approval_conflict'', s3))
           | (Some _, s2) \<Rightarrow>
               (case sd_bind (sd_exec (ins_action (approval_action env p job i specRaw))) (\<lambda>_. sd_query (\<lambda>t. ())) s2 of
                  (None, s3) \<Rightarrow> (Code 503 ''store_unavailable'', s3\<lparr>sd_tables := sd_tables s1\<rparr>)
                | (Some _, s3) \<Rightarrow> (Fields_of 201 (f_str ''decision'' (ai_Decision i)), s3))))"

definition benchmark_input :: "Principal \<Rightarrow> Job \<Rightarrow> ActionInput \<Rightarrow> string \<Rightarrow> ReceiveInput" where
  "benchmark_input p job i specRaw =
     \<lparr>in_Options = zero_options\<lparr>o_TenantID := pn_Tenant p, o_ProjectID := pn_Project p, o_Actor := pn_Subject p,
        o_Benchmark := True, o_ApprovedJobID := j_ID job, o_ApprovalReportSHA := ai_ReportSHA i\<rparr>,
      in_DeliveryID = ai_DeliveryID i, in_PRNumber = j_PRNumber job, in_SQL = j_SQL job,
      in_CandidateSpec = specRaw, in_SourceJSON = []\<rparr>"

definition benchmark_job :: "ApiEnv \<Rightarrow> Moment \<Rightarrow> Principal \<Rightarrow> Job \<Rightarrow> ActionInput \<Rightarrow> string \<Rightarrow> api_db \<Rightarrow> reply \<times> api_db" where
  "benchmark_job env mo p job i specRaw s =
     (if \<not> is_delivery (ai_DeliveryID i) then (Code 400 ''invalid_delivery'', s)
      else case sd_query (find_approval (j_ID job)) s of
        (Some (Some a), s1) \<Rightarrow>
          if ap_decision a \<noteq> ''approved'' \<or> ap_report_sha256 a \<noteq> ai_ReportSHA i
             \<or> ap_candidate_sha256 a \<noteq> digest (en_H env) specRaw
          then (Code 409 ''approval_required'', s1)
          else (case with_jobs (my_Receive (en_H env) (en_db env) (mo_carrier mo) (mo_now mo) (benchmark_input p job i specRaw)) s1 of
              (Inl e, s2) \<Rightarrow> (receive_error e, s2)
            | (Inr v, s2) \<Rightarrow>
                (Fields_of 202 (f_str ''delivery_id'' (j_DeliveryID (res_Job v)) @ [(''duplicate'', enc_bool (res_Duplicate v))] @
                   f_str ''job_id'' (j_ID (res_Job v))), s2))
      | (_, s1) \<Rightarrow> (Code 409 ''approval_required'', s1))"

definition post_action :: "ApiEnv \<Rightarrow> Moment \<Rightarrow> bool \<Rightarrow> Principal \<Rightarrow> Job \<Rightarrow> ApiRequest \<Rightarrow> api_db \<Rightarrow> reply \<times> api_db" where
  "post_action env mo isBenchmark p job r s =
     (case decode_action (aq_Body r) of
        None \<Rightarrow> (Code 400 ''invalid_input'', s)
      | Some i \<Rightarrow>
          if length (ai_ReportSHA i) \<noteq> 64 \<or> length (ai_Reason i) > 512 then (Code 400 ''invalid_input'', s)
          else case sd_query (\<lambda>t. map_of (tb_reports t) (j_ID job)) s of
            (Some (Some raw), s1) \<Rightarrow>
              if j_Status job \<noteq> Completed then (Code 409 ''report_not_complete'', s1)
              else if ai_ReportSHA i \<noteq> digest (en_H env) raw then (Code 409 ''stale_report'', s1)
              else (case decode_report raw of
                  None \<Rightarrow> (Code 409 ''candidate_not_ready'', s1)
                | Some (equivalent, spec) \<Rightarrow>
                    (case validateProposal env spec (j_SQL job) of
                       None \<Rightarrow> (Code 409 ''candidate_not_ready'', s1)
                     | Some specRaw \<Rightarrow>
                         if equivalent = Some False then (Code 409 ''candidate_not_ready'', s1)
                         else if isBenchmark then benchmark_job env mo p job i specRaw s1
                         else decide_job env p job i specRaw s1))
          | (_, s1) \<Rightarrow> (Code 409 ''report_not_complete'', s1))"

definition jobAction :: "ApiEnv \<Rightarrow> ApiServer \<Rightarrow> Moment \<Rightarrow> Principal \<Rightarrow> ApiRequest \<Rightarrow> api_db \<Rightarrow> reply \<times> api_db" where
  "jobAction env sv mo p r s =
     (let isBenchmark = HasSuffix (aq_Path r) ''/benchmark'';
          i = TrimSuffix_of (TrimPrefix (aq_Path r) ''/jobs/'') (if isBenchmark then ''/benchmark'' else ''/approval'')
      in if \<not> is_delivery i then (Code 400 ''invalid_id'', s)
         else case scopedJob env sv p i s of
           (Inl e, s1) \<Rightarrow> (jobError e, s1)
         | (Inr job, s1) \<Rightarrow>
             if aq_Method r = ''GET'' \<and> \<not> isBenchmark
             then (case sd_query (find_approval (j_ID job)) s1 of
                 (None, s2) \<Rightarrow> (Code 503 ''store_unavailable'', s2)
               | (Some None, s2) \<Rightarrow> (Fields_of 200 (f_str ''decision'' ''pending''), s2)
               | (Some (Some a), s2) \<Rightarrow> (ApprovalReply a, s2))
             else if aq_Method r \<noteq> ''POST'' then (Code 405 ''method_not_allowed'', s1)
             else post_action env mo isBenchmark p job r s1)"

definition terminal_row :: "JobRow \<Rightarrow> bool" where
  "terminal_row r \<longleftrightarrow> r_status r \<in> {Completed, Rejected, DeadLetter}"

text \<open>The report of a job that has ended, by its delivery.\<close>

definition ended_report :: "string \<Rightarrow> api_db \<Rightarrow> ServiceTables \<Rightarrow> bytes option" where
  "ended_report did s t =
     (case find_delivery did (my_tables (sd_jobs s)) of
        None \<Rightarrow> None
      | Some row \<Rightarrow> if terminal_row row then map_of (tb_reports t) (r_job_id row) else None)"

definition get_job :: "ApiEnv \<Rightarrow> ApiServer \<Rightarrow> Moment \<Rightarrow> Principal \<Rightarrow> ApiRequest \<Rightarrow> api_db \<Rightarrow> reply \<times> api_db" where
  "get_job env sv mo p r s =
     (if HasSuffix (aq_Path r) ''/approval'' \<or> HasSuffix (aq_Path r) ''/benchmark'' then jobAction env sv mo p r s
      else if aq_Method r \<noteq> ''GET'' then (Code 405 ''method_not_allowed'', s)
      else
        let path = TrimPrefix (aq_Path r) ''/jobs/'';
            i = TrimSuffix_of path ''/report''
        in if \<not> is_delivery i then (Code 400 ''invalid_id'', s)
           else case scopedJob env sv p i s of
             (Inl e, s1) \<Rightarrow> (jobError e, s1)
           | (Inr job, s1) \<Rightarrow>
               if \<not> HasSuffix path ''/report''
               then (case with_jobs (StatusHandler (mysql_store (en_H env) (en_db env) (\<lambda>e. []) (mo_carrier mo)) (aq_Method r) (aq_Path r)) s1 of
                   (x, s2) \<Rightarrow> (StatusReply x, s2))
               else (case sd_query (ended_report i s1) s1 of
                   (None, s2) \<Rightarrow> (Code 503 ''store_unavailable'', s2)
                 | (Some None, s2) \<Rightarrow> (Code 404 ''report_not_ready'', s2)
                 | (Some (Some raw), s2) \<Rightarrow> (ReportReply raw (digest (en_H env) raw), s2)))"

section \<open>Sessions\<close>

definition principal_fields :: "(string \<times> Principal field_setter) list" where
  "principal_fields =
     [(''subject'', set_string (\<lambda>x p. p\<lparr>pn_Subject := x\<rparr>)), (''role'', set_string (\<lambda>x p. p\<lparr>pn_Role := x\<rparr>)),
      (''tenant_id'', set_string (\<lambda>x p. p\<lparr>pn_Tenant := x\<rparr>)), (''project_id'', set_string (\<lambda>x p. p\<lparr>pn_Project := x\<rparr>)),
      (''tables'', set_strings pn_Tables (\<lambda>x p. p\<lparr>pn_Tables := x\<rparr>))]"

definition unscoped :: "Principal \<Rightarrow> bool" where
  "unscoped p \<longleftrightarrow> pn_Subject p = ''operator'' \<and> pn_Tables p = [''*'']"

definition table_grantable :: "ApiServer \<Rightarrow> Principal \<Rightarrow> string \<Rightarrow> bool" where
  "table_grantable sv p table \<longleftrightarrow>
     (case as_AllowedTables sv of None \<Rightarrow> True | Some S \<Rightarrow> S table)
     \<and> list_ex (\<lambda>a. a = ''*'' \<or> a = table) (pn_Tables p)"

definition issue_token :: "ApiEnv \<Rightarrow> ApiServer \<Rightarrow> Moment \<Rightarrow> Principal \<Rightarrow> ApiRequest \<Rightarrow> api_db \<Rightarrow> reply \<times> api_db" where
  "issue_token env sv mo p r s =
     (case as_Auth sv of
        None \<Rightarrow> (Code 503 ''identity_not_configured'', s)
      | Some a \<Rightarrow>
          (case (case read_limited (aq_Body r) of None \<Rightarrow> None | Some raw \<Rightarrow> decode_strict principal_fields zero_principal raw) of
             None \<Rightarrow> (Code 400 ''invalid_input'', s)
           | Some target \<Rightarrow>
               if \<not> unscoped p \<and> (pn_Tenant target \<noteq> pn_Tenant p \<or> pn_Project target \<noteq> pn_Project p)
               then (Code 403 ''scope_forbidden'', s)
               else if \<not> list_all (table_grantable sv p) (pn_Tables target) then (Code 403 ''table_not_allowed'', s)
               else (case Issue (en_auth env) a (mo_now mo) (mo_random mo) p target s of
                   (None, s1) \<Rightarrow> (Code 400 ''token_issue_failed'', s1)
                 | (Some (token, tid), s1) \<Rightarrow>
                     (Fields_of 201 ([(''expires_in'', int_dec 3600)] @ f_str ''token'' token @ f_str ''token_id'' tid), s1))))"

definition revoke_sessions :: "(SessionRow \<Rightarrow> bool) \<Rightarrow> time \<Rightarrow> ServiceTables \<Rightarrow> (nat \<times> ServiceTables) option" where
  "revoke_sessions P tm t =
     Some (length (filter (\<lambda>r. P r \<and> r\<lparr>se_revoked_at := Some tm\<rparr> \<noteq> r) (tb_sessions t)),
           t\<lparr>tb_sessions := map (\<lambda>r. if P r then r\<lparr>se_revoked_at := Some tm\<rparr> else r) (tb_sessions t)\<rparr>)"

definition token_id_fields :: "(string \<times> string field_setter) list" where
  "token_id_fields = [(''token_id'', set_string (\<lambda>x i. x))]"

definition revoke_token :: "ApiEnv \<Rightarrow> Moment \<Rightarrow> Principal \<Rightarrow> ApiRequest \<Rightarrow> api_db \<Rightarrow> reply \<times> api_db" where
  "revoke_token env mo p r s =
     (case (case read_limited (aq_Body r) of None \<Rightarrow> None | Some raw \<Rightarrow> decode_strict token_id_fields [] raw) of
        None \<Rightarrow> (Code 400 ''invalid_input'', s)
      | Some tid \<Rightarrow>
          if length tid \<noteq> 32 then (Code 400 ''invalid_input'', s)
          else
            let P = (\<lambda>x. se_token_id x = tid \<and> (unscoped p \<or> se_tenant_id x = pn_Tenant p \<and> se_project_id x = pn_Project p));
                act = \<lparr>ac_tenant_id = pn_Tenant p, ac_project_id = pn_Project p, ac_actor = pn_Subject p,
                  ac_action = ''token.revoked'', ac_resource_id = tid, ac_metadata = []\<rparr>
            in case sd_transact (sd_bind (sd_exec (revoke_sessions P (ae_column (en_auth env) (mo_now mo))))
                      (\<lambda>n. sd_bind (sd_exec (ins_action act)) (\<lambda>_. sd_return n))) s of
                 (None, s1) \<Rightarrow> (Code 503 ''store_unavailable'', s1)
               | (Some n, s1) \<Rightarrow> (Fields_of 200 [(''revoked'', enc_bool (n > 0))], s1))"

definition list_sessions :: "Principal \<Rightarrow> string \<Rightarrow> ServiceTables \<Rightarrow> SessionRow list" where
  "list_sessions p after t =
     take 50 (sort_key se_token_id
       (filter (\<lambda>r. se_tenant_id r = pn_Tenant p \<and> se_project_id r = pn_Project p \<and> se_token_id r > after) (tb_sessions t)))"

definition listSessions :: "Principal \<Rightarrow> ApiRequest \<Rightarrow> api_db \<Rightarrow> (reply + SessionRow list \<times> string) \<times> api_db" where
  "listSessions p r s =
     (let after = aq_Query r ''after''
      in if after \<noteq> [] \<and> \<not> is_delivery after then (Inl (Code 400 ''invalid_cursor''), s)
         else case sd_query (list_sessions p after) s of
           (None, s1) \<Rightarrow> (Inl (Code 503 ''store_unavailable''), s1)
         | (Some rows, s1) \<Rightarrow> (Inr (rows, if length rows = 50 then se_token_id (last rows) else []), s1))"

definition connections :: "ApiServer \<Rightarrow> Principal \<Rightarrow> reply" where
  "connections sv p =
     Fields_of 200 [(''allowed_tables'', enc_strings (pn_Tables p)), (''github_configured'', enc_bool (as_GitHub sv)),
       (''history_configured'', enc_bool (as_History sv)), (''rag_configured'', enc_bool (as_RAG sv))]"

text \<open>\<open>extension\<close>; the retrieval endpoints and the audit listing are read paths of their own (\<open>OtherReply\<close>).\<close>

definition extension :: "ApiEnv \<Rightarrow> ApiServer \<Rightarrow> Moment \<Rightarrow> Principal \<Rightarrow> ApiRequest \<Rightarrow> api_db \<Rightarrow> reply \<times> api_db" where
  "extension env sv mo p r s =
     (if aq_Path r = ''/connections''
      then (if aq_Method r \<noteq> ''GET'' then (Code 405 ''method_not_allowed'', s) else (connections sv p, s))
      else if aq_Path r = ''/auth/sessions''
      then (if aq_Method r \<noteq> ''GET'' then (Code 405 ''method_not_allowed'', s)
            else (case listSessions p r s of (Inl e, s1) \<Rightarrow> (e, s1) | (Inr (rows, after), s1) \<Rightarrow> (SessionsReply rows after, s1)))
      else if aq_Path r = ''/auth/tokens''
      then (if aq_Method r \<noteq> ''POST'' then (Code 405 ''method_not_allowed'', s) else issue_token env sv mo p r s)
      else if aq_Path r = ''/auth/revoke''
      then (if aq_Method r \<noteq> ''POST'' then (Code 405 ''method_not_allowed'', s) else revoke_token env mo p r s)
      else if aq_Path r = ''/audit''
      then (if aq_Method r \<noteq> ''GET'' then (Code 405 ''method_not_allowed'', s) else (OtherReply, s))
      else if \<not> as_RAG sv then (Code 503 ''rag_not_configured'', s)
      else (OtherReply, s))"

section \<open>The handler\<close>

definition api_authorize :: "ApiEnv \<Rightarrow> ApiServer \<Rightarrow> Moment \<Rightarrow> ApiRequest \<Rightarrow> api_db \<Rightarrow> (reply + Principal) \<times> api_db" where
  "api_authorize env sv mo r s =
     (case as_Auth sv of
        Some a \<Rightarrow>
          (case Authenticate (en_auth env) a (mo_now mo) (aq_Authorization r) s of
             (Inl Unauthorized, s1) \<Rightarrow> (Inl (Code 401 ''unauthorized''), s1)
           | (Inl IdentityUnavailable, s1) \<Rightarrow> (Inl (Code 503 ''identity_unavailable''), s1)
           | (Inr p, s1) \<Rightarrow> if \<not> Allowed a p (action r) then (Inl (Code 403 ''forbidden''), s1) else (Inr p, s1))
      | None \<Rightarrow>
          (case bearer (aq_Authorization r) of
             None \<Rightarrow> (Inl (Code 401 ''unauthorized''), s)
           | Some token \<Rightarrow>
               if as_Token sv = [] \<or> ae_sha (en_auth env) (as_Token sv) \<noteq> ae_sha (en_auth env) token
               then (Inl (Code 401 ''unauthorized''), s) else (Inr operator, s)))"

definition extension_paths :: "string list" where
  "extension_paths =
     [''/connections'', ''/auth/sessions'', ''/auth/tokens'', ''/auth/revoke'', ''/audit'', ''/rag/documents'', ''/rag/query'', ''/rag/answer'']"

definition api_receive :: "ApiEnv \<Rightarrow> ApiServer \<Rightarrow> Moment \<Rightarrow> Principal \<Rightarrow> ApiRequest \<Rightarrow> api_db \<Rightarrow> reply \<times> api_db" where
  "api_receive env sv mo p r s =
     (if aq_Method r = ''GET''
      then (case listJobs env sv p r s of (Inl e, s1) \<Rightarrow> (e, s1) | (Inr (lines, after), s1) \<Rightarrow> (JobsReply lines after, s1))
      else if aq_Method r \<noteq> ''POST'' then (Code 405 ''method_not_allowed'', s)
      else receive_jobs env sv mo p r s)"

text \<open>A route with the method \<open>GET\<close> also serves \<open>HEAD\<close>.\<close>

definition gets :: "ApiRequest \<Rightarrow> bool" where
  "gets r \<longleftrightarrow> aq_Method r = ''GET'' \<or> aq_Method r = ''HEAD''"

definition authorized_path :: "ApiRequest \<Rightarrow> bool" where
  "authorized_path r \<longleftrightarrow>
     aq_Path r = ''/jobs'' \<or> HasPrefix (aq_Path r) ''/jobs/'' \<or> aq_Path r = ''/history/search'' \<and> gets r
     \<or> aq_Path r \<in> set extension_paths \<or> HasPrefix (aq_Path r) ''/rag/documents/''"

text \<open>The paths are those that the multiplexer passes on (it redirects others to their clean form).  \<open>OtherReply\<close>
  stands for the handlers of other files, which the rest of the database answers: the history search, retrieval, and
  the GitHub webhook, which receives jobs of its own.\<close>

definition api_Handler :: "ApiEnv \<Rightarrow> ApiServer \<Rightarrow> Moment \<Rightarrow> bool \<Rightarrow> ApiRequest \<Rightarrow> api_db \<Rightarrow> reply \<times> api_db" where
  "api_Handler env sv mo slot_free r s =
     (if \<not> slot_free then (Code 429 ''busy'', s)
      else if aq_Path r = ''/healthz'' \<and> gets r then (Fields_of 200 (f_str ''status'' ''ok''), s)
      else if aq_Path r = ''/readyz'' \<and> gets r
      then (case sd_query (\<lambda>t. ()) s of
          (None, s1) \<Rightarrow> (Fields_of 503 (f_str ''status'' ''unavailable''), s1)
        | (Some _, s1) \<Rightarrow> (Fields_of 200 (f_str ''status'' ''ready''), s1))
      else if authorized_path r
      then (case api_authorize env sv mo r s of
          (Inl e, s1) \<Rightarrow> (e, s1)
        | (Inr p, s1) \<Rightarrow>
            if aq_Path r = ''/jobs'' then api_receive env sv mo p r s1
            else if HasPrefix (aq_Path r) ''/jobs/'' then get_job env sv mo p r s1
            else if aq_Path r = ''/history/search'' then (OtherReply, s1)
            else extension env sv mo p r s1)
      else (OtherReply, s))"

section \<open>The check of the runner\<close>

text \<open>\<open>Runner.Run\<close> looks an approval up again before it runs a benchmark job.\<close>

definition approval_check :: "Job \<Rightarrow> ServiceTables \<Rightarrow> bool" where
  "approval_check job t \<longleftrightarrow>
     (o_Benchmark (j_Options job) \<longrightarrow>
       (case find_approval (o_ApprovedJobID (j_Options job)) t of
          None \<Rightarrow> False
        | Some a \<Rightarrow>
            ap_decision a = ''approved'' \<and> ap_report_sha256 a = o_ApprovalReportSHA (j_Options job)
            \<and> ap_candidate_sha256 a = j_CandidateSpecSHA256 job \<and> ap_sql_sha256 a = j_SQLSHA256 job))"

end
