(* ===== verification/Api_Safety.thy ===== *)
theory Api_Safety
  imports Job_Api
begin

text \<open>
  What requests to the API of \<open>Job_Api\<close> change in the job store and in the tables of the service, operation by
  operation, and what the principal of such a request was allowed.
\<close>

section \<open>Effects\<close>

definition job_tables :: "api_db \<Rightarrow> Tables" where
  "job_tables s = my_tables (sd_jobs s)"

definition same_data :: "api_db \<Rightarrow> api_db \<Rightarrow> bool" where
  "same_data s s' \<longleftrightarrow> sd_tables s' = sd_tables s \<and> job_tables s' = job_tables s"

text \<open>The inputs with which \<open>Receive\<close> is called for a principal.\<close>

definition plain_input :: "Principal \<Rightarrow> ReceiveInput \<Rightarrow> bool" where
  "plain_input p inp \<longleftrightarrow>
     in_Options inp = zero_options\<lparr>o_TenantID := pn_Tenant p, o_ProjectID := pn_Project p, o_Actor := pn_Subject p\<rparr>"

definition covered_input :: "ApiEnv \<Rightarrow> Principal \<Rightarrow> api_db \<Rightarrow> ReceiveInput \<Rightarrow> bool" where
  "covered_input env p s inp \<longleftrightarrow>
     (\<exists>row i specRaw a. row \<in> set (t_jobs (job_tables s)) \<and> inp = benchmark_input p (scan_job (job_tables s) row) i specRaw
        \<and> a \<in> set (tb_approvals (sd_tables s)) \<and> ap_job_id a = r_job_id row \<and> ap_decision a = ''approved''
        \<and> ap_report_sha256 a = ai_ReportSHA i \<and> ap_candidate_sha256 a = digest (en_H env) specRaw)"

text \<open>An approval that \<open>decide_job\<close> records.\<close>

definition fit_approval :: "Principal \<Rightarrow> Tables \<Rightarrow> ApprovalRow \<Rightarrow> ActionRow \<Rightarrow> bool" where
  "fit_approval p t a act \<longleftrightarrow>
     (\<exists>row. row \<in> set (t_jobs t) \<and> ap_job_id a = r_job_id row \<and> ap_sql_sha256 a = r_sql_sha256 row
        \<and> r_status row = Completed
        \<and> ap_decision a \<in> {''approved'', ''rejected''} \<and> ap_actor a = pn_Subject p
        \<and> ac_actor act = ap_actor a \<and> ac_action act = ''candidate.'' @ ap_decision a \<and> ac_resource_id act = ap_job_id a
        \<and> (o_Actor (j_Options (scan_job t row)) = ap_actor a \<longrightarrow>
             pn_Role p = ''admin'' \<and> (''admin_self_approval'', ''true'') \<in> set (ac_metadata act)))"

inductive api_effect :: "ApiEnv \<Rightarrow> Principal \<Rightarrow> string \<Rightarrow> api_db \<Rightarrow> api_db \<Rightarrow> bool" for env p where
  no_effect: "same_data s s' \<Longrightarrow> api_effect env p act s s'"
| job_effect: "sd_tables s' = sd_tables s \<Longrightarrow>
    inserted_post (en_H env) (en_db env) now (traced carrier inp) jobID (job_tables s) (job_tables s') \<Longrightarrow>
    plain_input p inp \<and> act = ''job.create'' \<or> covered_input env p s inp \<and> act = ''benchmark.create'' \<Longrightarrow>
    api_effect env p act s s'"
| approval_effect: "job_tables s' = job_tables s \<Longrightarrow> fit_approval p (job_tables s) a row \<Longrightarrow>
    ap_job_id a \<notin> ap_job_id ` set (tb_approvals (sd_tables s)) \<Longrightarrow>
    sd_tables s' = (sd_tables s)\<lparr>tb_approvals := tb_approvals (sd_tables s) @ [a], tb_audit := tb_audit (sd_tables s) @ [row]\<rparr> \<Longrightarrow>
    act = ''approval.decide'' \<Longrightarrow> api_effect env p act s s'"
| token_effect: "job_tables s' = job_tables s \<Longrightarrow>
    unscoped p \<or> se_tenant_id x = pn_Tenant p \<and> se_project_id x = pn_Project p \<Longrightarrow>
    se_token_id x \<notin> se_token_id ` set (tb_sessions (sd_tables s)) \<Longrightarrow>
    ac_action row = ''token.issued'' \<Longrightarrow> ac_actor row = pn_Subject p \<Longrightarrow> ac_resource_id row = se_token_id x \<Longrightarrow>
    sd_tables s' = (sd_tables s)\<lparr>tb_sessions := tb_sessions (sd_tables s) @ [x], tb_audit := tb_audit (sd_tables s) @ [row]\<rparr> \<Longrightarrow>
    act = ''token.issue'' \<Longrightarrow> api_effect env p act s s'"
| revoke_effect: "job_tables s' = job_tables s \<Longrightarrow>
    (\<And>x. P x \<Longrightarrow> unscoped p \<or> se_tenant_id x = pn_Tenant p \<and> se_project_id x = pn_Project p) \<Longrightarrow>
    ac_action row = ''token.revoked'' \<Longrightarrow> ac_actor row = pn_Subject p \<Longrightarrow>
    sd_tables s' = (sd_tables s)\<lparr>
      tb_sessions := map (\<lambda>x. if P x then x\<lparr>se_revoked_at := Some tm\<rparr> else x) (tb_sessions (sd_tables s)),
      tb_audit := tb_audit (sd_tables s) @ [row]\<rparr> \<Longrightarrow>
    act = ''token.issue'' \<Longrightarrow> api_effect env p act s s'"

lemma same_data_refl [simp]: "same_data s s"
  by (simp add: same_data_def)

lemma same_data_trans: "same_data s s1 \<Longrightarrow> same_data s1 s2 \<Longrightarrow> same_data s s2"
  by (simp add: same_data_def)

lemma effect_after:
  assumes "same_data s s1" "api_effect env p act s1 s2"
  shows "api_effect env p act s s2"
proof -
  have eq: "sd_tables s1 = sd_tables s" "job_tables s1 = job_tables s" using assms(1) by (simp_all add: same_data_def)
  show ?thesis using assms(2)
  proof cases
    case no_effect
    then show ?thesis using assms(1) by (blast intro: api_effect.no_effect same_data_trans)
  next
    case (job_effect now carrier inp jobID)
    then show ?thesis using eq by (intro api_effect.job_effect [of s2 s]) (auto simp: covered_input_def)
  next
    case (approval_effect a row)
    then show ?thesis using eq by (intro api_effect.approval_effect [of s2 s]) auto
  next
    case (token_effect x row)
    then show ?thesis using eq by (intro api_effect.token_effect [of s2 s]) auto
  next
    case (revoke_effect P row tm)
    then show ?thesis using eq by (intro api_effect.revoke_effect [of s2 s P]) auto
  qed
qed

lemma query_same: "sd_query f s = (v, s1) \<Longrightarrow> same_data s s1"
  using sd_query_keeps [of f s] by (simp add: same_data_def job_tables_def)

lemma with_jobs_tables: "with_jobs f s = (v, s1) \<Longrightarrow> sd_tables s1 = sd_tables s \<and> sd_jobs s1 = snd (f (sd_jobs s))"
  by (auto simp: with_jobs_def split: prod.splits)

lemma with_get_same: "with_jobs (my_Get i) s = (v, s1) \<Longrightarrow> same_data s s1"
  using with_jobs_tables [of "my_Get i" s v s1]
  by (cases rule: my_Get_cases [of i "sd_jobs s"]) (auto simp: same_data_def job_tables_def)

lemma scopedJob_cases:
  obtains (refused) e s1 where "scopedJob env sv p i s = (Inl e, s1)" "same_data s s1" "e \<noteq> ErrNotFound \<Longrightarrow> e = StoreFailed"
  | (found) row s1 where "scopedJob env sv p i s = (Inr (scan_job (job_tables s) row), s1)" "same_data s s1"
      "find_delivery i (job_tables s) = Some row"
      "o_TenantID (j_Options (scan_job (job_tables s) row)) = pn_Tenant p"
      "o_ProjectID (j_Options (scan_job (job_tables s) row)) = pn_Project p" "tablesAllowed env sv p (r_sql_text row)"
proof -
  have sql: "j_SQL (scan_job t row) = r_sql_text row" for t row by (simp add: scan_job_def)
  show thesis
  proof (cases rule: my_Get_cases [of i "sd_jobs s"])
    case (fail e s1)
    then show ?thesis
      by (intro refused [of e "s\<lparr>sd_jobs := s1\<rparr>"]) (auto simp: scopedJob_def with_jobs_def same_data_def job_tables_def)
  next
    case (ok row s1)
    let ?j = "scan_job (my_tables (sd_jobs s)) row"
    show ?thesis
    proof (cases "o_TenantID (j_Options ?j) = pn_Tenant p \<and> o_ProjectID (j_Options ?j) = pn_Project p \<and> tablesAllowed env sv p (j_SQL ?j)")
      case True
      then show ?thesis using ok
        by (intro found [of row "s\<lparr>sd_jobs := s1\<rparr>"]) (simp_all add: scopedJob_def with_jobs_def same_data_def job_tables_def sql)
    next
      case False
      then show ?thesis using ok
        by (intro refused [of ErrNotFound "s\<lparr>sd_jobs := s1\<rparr>"]) (auto simp: scopedJob_def with_jobs_def same_data_def job_tables_def)
    qed
  qed
qed

section \<open>The effect of each operation\<close>

lemma Receive_effect:
  assumes "with_jobs (my_Receive (en_H env) (en_db env) carrier now inp) s = (r, s1)"
    and "plain_input p inp \<and> act = ''job.create'' \<or> covered_input env p s inp \<and> act = ''benchmark.create''"
  shows "api_effect env p act s s1"
proof -
  have jobs: "sd_tables s1 = sd_tables s" "sd_jobs s1 = snd (my_Receive (en_H env) (en_db env) carrier now inp (sd_jobs s))"
    using with_jobs_tables [OF assms(1)] by auto
  obtain r' j where recv: "my_Receive (en_H env) (en_db env) carrier now inp (sd_jobs s) = (r', j)" by fastforce
  then have "job_tables s1 = job_tables s
      \<or> (\<exists>jobID. inserted_post (en_H env) (en_db env) now (traced carrier inp) jobID (job_tables s) (job_tables s1))"
    using my_Receive_post [OF recv] jobs by (auto simp: my_receive_post_def job_tables_def split: sum.splits)
  then show ?thesis
  proof
    assume "job_tables s1 = job_tables s"
    then show ?thesis using jobs(1) by (intro no_effect) (simp add: same_data_def)
  next
    assume "\<exists>jobID. inserted_post (en_H env) (en_db env) now (traced carrier inp) jobID (job_tables s) (job_tables s1)"
    then show ?thesis using job_effect [OF jobs(1) _ assms(2)] by blast
  qed
qed

lemma receive_jobs_effect: "api_effect env p ''job.create'' s (snd (receive_jobs env sv mo p r s))"
proof -
  have "api_effect env p ''job.create'' s (snd (with_jobs (my_Receive (en_H env) (en_db env) c now
      \<lparr>in_Options = zero_options\<lparr>o_TenantID := pn_Tenant p, o_ProjectID := pn_Project p, o_Actor := pn_Subject p\<rparr>,
       in_DeliveryID = d, in_PRNumber = n, in_SQL = q, in_CandidateSpec = x, in_SourceJSON = y\<rparr>) s))" for c now d n q x y
    by (rule Receive_effect [OF prod.collapse [symmetric]]) (simp add: plain_input_def)
  then show ?thesis
    by (auto simp: receive_jobs_def Let_def no_effect case_prod_beta split: option.splits sum.splits)
qed

lemma listJobs_same: "same_data s (snd (listJobs env sv p r s))"
proof -
  have "same_data s (snd (with_jobs (db_query f) s))" for f :: "Tables \<Rightarrow> JobLine list \<times> string"
    by (cases rule: db_query_cases [of f "sd_jobs s"]) (simp_all add: with_jobs_def same_data_def job_tables_def)
  then show ?thesis by (simp add: listJobs_def case_prod_beta split: option.splits sum.splits)
qed

lemma decide_job_effect:
  assumes "row \<in> set (t_jobs (job_tables s))" "j_Status (scan_job (job_tables s) row) = Completed"
  shows "api_effect env p ''approval.decide'' s (snd (decide_job env p (scan_job (job_tables s) row) i specRaw s))"
proof -
  let ?j = "scan_job (job_tables s) row"
  let ?a = "approval_row env p ?j i specRaw" and ?x = "approval_action env p ?j i specRaw"
  consider (early) "(ai_Decision i \<noteq> ''approved'' \<and> ai_Decision i \<noteq> ''rejected'') \<or> TrimSpace (ai_Reason i) = []
        \<or> pn_Role p \<noteq> ''admin'' \<and> pn_Subject p = o_Actor (j_Options ?j)"
    | (go) "ai_Decision i \<in> {''approved'', ''rejected''}" "pn_Role p = ''admin'' \<or> pn_Subject p \<noteq> o_Actor (j_Options ?j)"
      "\<not> ((ai_Decision i \<noteq> ''approved'' \<and> ai_Decision i \<noteq> ''rejected'') \<or> TrimSpace (ai_Reason i) = [])"
      "\<not> (pn_Role p \<noteq> ''admin'' \<and> pn_Subject p = o_Actor (j_Options ?j))"
    by blast
  then show ?thesis
  proof cases
    case early
    then have "snd (decide_job env p ?j i specRaw s) = s" by (auto simp: decide_job_def)
    then show ?thesis by (simp add: no_effect)
  next
    case go
    note unfold = decide_job_def if_not_P [OF go(3)] if_not_P [OF go(4)]
    obtain u s1 where q: "sd_query (\<lambda>t. ()) s = (u, s1)" by fastforce
    note s1 = query_same [OF q]
    show ?thesis
    proof (cases u)
      case None
      then show ?thesis using s1 unfolding unfold by (simp add: q no_effect)
    next
      case (Some v)
      show ?thesis
      proof (cases rule: sd_exec_cases [of "ins_approval ?a" s1])
        case (fail s2)
        have "snd (decide_job env p ?j i specRaw s) = snd (sd_query (find_approval (j_ID ?j)) s2)"
          unfolding unfold by (auto simp: q Some fail(1) split: prod.splits option.splits)
        moreover have "same_data s s2" using fail s1 by (simp add: same_data_def job_tables_def)
        ultimately show ?thesis
          using query_same [where f = "find_approval (j_ID ?j)" and s = s2, OF prod.collapse [symmetric]]
          by (auto intro!: no_effect intro: same_data_trans)
      next
        case (ok w t s2)
        obtain y s3 where y: "sd_bind (sd_exec (ins_action ?x)) (\<lambda>_. sd_query (\<lambda>t. ())) s2 = (y, s3)" by fastforce
        have jobs: "sd_jobs s3 = sd_jobs s2"
          using y by (auto simp: sd_bind_def sd_exec_def sd_query_def Let_def ins_action_def split: if_splits)
        show ?thesis
        proof (cases y)
          case None
          then have "snd (decide_job env p ?j i specRaw s) = s3\<lparr>sd_tables := sd_tables s1\<rparr>"
            unfolding unfold using \<open>u = Some v\<close> by (simp add: q ok(1) y)
          moreover have "same_data s (s3\<lparr>sd_tables := sd_tables s1\<rparr>)"
            using s1 ok(4) jobs by (simp add: same_data_def job_tables_def)
          ultimately show ?thesis by (simp add: no_effect)
        next
          case (Some z)
          then have audit: "sd_tables s3 = (sd_tables s2)\<lparr>tb_audit := tb_audit (sd_tables s2) @ [?x]\<rparr>"
            using y by (auto simp: sd_bind_def sd_exec_def sd_query_def Let_def ins_action_def split: if_splits)
          have eq: "snd (decide_job env p ?j i specRaw s) = s3"
            unfolding unfold using Some \<open>u = Some v\<close> by (simp add: q ok(1) y)
          have t: "t = (sd_tables s)\<lparr>tb_approvals := tb_approvals (sd_tables s) @ [?a]\<rparr>"
            and fresh: "ap_job_id ?a \<notin> ap_job_id ` set (tb_approvals (sd_tables s))"
            using ok(2) s1 by (auto simp: same_data_def ins_approval_def split: if_splits)
          have fit: "fit_approval p (job_tables s) ?a ?x"
            using assms go by (auto simp: fit_approval_def approval_row_def approval_action_def scan_job_def self_approval_def enc_bool_def)
          have "job_tables s3 = job_tables s" using s1 ok(4) jobs by (simp add: same_data_def job_tables_def)
          then show ?thesis unfolding eq
            by (rule approval_effect [OF _ fit fresh]) (simp_all add: audit ok(3) t)
        qed
      qed
    qed
  qed
qed

lemma benchmark_job_effect:
  assumes "row \<in> set (t_jobs (job_tables s))"
  shows "api_effect env p ''benchmark.create'' s (snd (benchmark_job env mo p (scan_job (job_tables s) row) i specRaw s))"
proof -
  let ?j = "scan_job (job_tables s) row"
  have jid: "j_ID ?j = r_job_id row" by (simp add: scan_job_def)
  obtain x s1 where q: "sd_query (find_approval (r_job_id row)) s = (x, s1)" by fastforce
  note s1 = query_same [OF q]
  show ?thesis
  proof (cases "is_delivery (ai_DeliveryID i) \<and> (\<exists>a. x = Some (Some a) \<and> ap_decision a = ''approved''
      \<and> ap_report_sha256 a = ai_ReportSHA i \<and> ap_candidate_sha256 a = digest (en_H env) specRaw)")
    case False
    then have "snd (benchmark_job env mo p ?j i specRaw s) \<in> {s, s1}"
      by (auto simp: benchmark_job_def jid q split: option.splits)
    then show ?thesis using s1 by (auto intro: no_effect)
  next
    case True
    then obtain a where a: "x = Some (Some a)" "ap_decision a = ''approved''" "ap_report_sha256 a = ai_ReportSHA i"
      "ap_candidate_sha256 a = digest (en_H env) specRaw" by blast
    have "find_approval (r_job_id row) (sd_tables s) = Some a"
      using sd_query_answer [of "find_approval (r_job_id row)" s] q a(1) by simp
    then have mem: "a \<in> set (tb_approvals (sd_tables s))" "ap_job_id a = r_job_id row"
      by (auto simp: find_approval_def find_Some_iff)
    obtain v s2 where r: "with_jobs (my_Receive (en_H env) (en_db env) (mo_carrier mo) (mo_now mo) (benchmark_input p ?j i specRaw)) s1 = (v, s2)"
      by fastforce
    have "covered_input env p s1 (benchmark_input p ?j i specRaw)"
      using assms a mem s1 unfolding covered_input_def same_data_def by metis
    then have "api_effect env p ''benchmark.create'' s1 s2" by (intro Receive_effect [OF r]) simp
    moreover have "snd (benchmark_job env mo p ?j i specRaw s) = s2"
      using True a by (simp add: benchmark_job_def jid q r split: sum.splits)
    ultimately show ?thesis using effect_after [OF s1] by simp
  qed
qed

lemma post_action_effect:
  assumes "row \<in> set (t_jobs (job_tables s))"
  shows "api_effect env p (if isBenchmark then ''benchmark.create'' else ''approval.decide'') s
    (snd (post_action env mo isBenchmark p (scan_job (job_tables s) row) r s))"
proof -
  let ?j = "scan_job (job_tables s) row"
  let ?act = "if isBenchmark then ''benchmark.create'' else ''approval.decide''"
  obtain x s1 where q: "sd_query (\<lambda>t. map_of (tb_reports t) (r_job_id row)) s = (x, s1)" by fastforce
  note s1 = query_same [OF q]
  have row: "row \<in> set (t_jobs (job_tables s1))" and j: "scan_job (job_tables s1) row = ?j"
    using assms s1 by (simp_all add: same_data_def)
  have b: "api_effect env p ''benchmark.create'' s (snd (benchmark_job env mo p ?j i specRaw s1))" for i specRaw
    using effect_after [OF s1 benchmark_job_effect [OF row]] j by simp
  have d: "api_effect env p ''approval.decide'' s (snd (decide_job env p ?j i specRaw s1))"
    if "j_Status ?j = Completed" for i specRaw
    using effect_after [OF s1 decide_job_effect [OF row]] j that by simp
  have n: "api_effect env p ?act s s" "api_effect env p ?act s s1" using s1 by (auto intro: no_effect)
  then show ?thesis using b d
    by (auto simp: post_action_def q split: option.splits)
qed

lemma jobAction_effect:
  "api_effect env p (if HasSuffix (aq_Path r) ''/benchmark'' then ''benchmark.create'' else ''approval.decide'') s
     (snd (jobAction env sv mo p r s))
   \<and> (aq_Method r = ''POST'' \<or> same_data s (snd (jobAction env sv mo p r s)))"
proof -
  let ?b = "HasSuffix (aq_Path r) ''/benchmark''"
  let ?act = "if ?b then ''benchmark.create'' else ''approval.decide''"
  let ?i = "TrimSuffix_of (TrimPrefix (aq_Path r) ''/jobs/'') (if ?b then ''/benchmark'' else ''/approval'')"
  show ?thesis
  proof (cases "is_delivery ?i")
    case False
    then show ?thesis by (simp add: jobAction_def Let_def no_effect)
  next
    case True
    show ?thesis
    proof (cases rule: scopedJob_cases [of env sv p ?i s])
      case (refused e s1)
      then show ?thesis using True by (simp add: jobAction_def Let_def no_effect)
    next
      case (found row s1)
      let ?j = "scan_job (job_tables s) row"
      have row: "row \<in> set (t_jobs (job_tables s1))" and j: "scan_job (job_tables s1) row = ?j"
        using find_deliveryD [OF found(3)] found(2) by (simp_all add: same_data_def)
      have q: "same_data s (snd (sd_query f s1))" for f :: "ServiceTables \<Rightarrow> ApprovalRow option"
        using query_same [where f = f and s = s1, OF prod.collapse [symmetric]] found(2) by (rule same_data_trans [rotated])
      have post: "api_effect env p ?act s (snd (post_action env mo ?b p ?j r s1))"
        using effect_after [OF found(2) post_action_effect [OF row]] j by simp
      have "snd (jobAction env sv mo p r s) =
          (if aq_Method r = ''GET'' \<and> \<not> ?b then snd (sd_query (find_approval (j_ID ?j)) s1)
           else if aq_Method r \<noteq> ''POST'' then s1 else snd (post_action env mo ?b p ?j r s1))"
        using True found(1) by (auto simp: jobAction_def Let_def split: option.splits prod.splits)
      then show ?thesis using post q found(2) by (auto intro: no_effect)
    qed
  qed
qed

lemma issue_token_effect: "api_effect env p ''token.issue'' s (snd (issue_token env sv mo p r s))"
proof -
  have issue: "api_effect env p ''token.issue'' s (snd (Issue (en_auth env) a (mo_now mo) (mo_random mo) p target s))"
    if "unscoped p \<or> pn_Tenant target = pn_Tenant p \<and> pn_Project target = pn_Project p" for a target
  proof (cases rule: Issue_cases [of "en_auth env" a "mo_now mo" "mo_random mo" p target s])
    case unchanged
    then show ?thesis by (intro no_effect) (simp add: same_data_def job_tables_def)
  next
    case (issued row act)
    then show ?thesis using that by (intro token_effect [where x = row and row = act]) (auto simp: job_tables_def)
  qed
  then show ?thesis
    by (auto simp: issue_token_def no_effect case_prod_beta split: option.splits)
qed

lemma revoke_token_effect: "api_effect env p ''token.issue'' s (snd (revoke_token env mo p r s))"
proof -
  have revoke: "api_effect env p ''token.issue'' s (snd (sd_transact (sd_bind (sd_exec (revoke_sessions P tm))
      (\<lambda>n. sd_bind (sd_exec (ins_action act)) (\<lambda>_. sd_return n))) s))"
    if "\<And>x. P x \<Longrightarrow> unscoped p \<or> se_tenant_id x = pn_Tenant p \<and> se_project_id x = pn_Project p"
      "ac_action act = ''token.revoked''" "ac_actor act = pn_Subject p" for P tm act
  proof -
    let ?m = "sd_transact (sd_bind (sd_exec (revoke_sessions P tm)) (\<lambda>n. sd_bind (sd_exec (ins_action act)) (\<lambda>_. sd_return n)))"
    have "job_tables (snd (?m s)) = job_tables s"
      by (auto simp: job_tables_def sd_transact_def sd_bind_def sd_query_def sd_exec_def sd_return_def Let_def revoke_sessions_def ins_action_def
          split: option.splits prod.splits if_splits)
    moreover have "sd_tables (snd (?m s)) = sd_tables s \<or> sd_tables (snd (?m s)) = (sd_tables s)\<lparr>
        tb_sessions := map (\<lambda>x. if P x then x\<lparr>se_revoked_at := Some tm\<rparr> else x) (tb_sessions (sd_tables s)),
        tb_audit := tb_audit (sd_tables s) @ [act]\<rparr>"
      by (auto simp: sd_transact_def sd_bind_def sd_query_def sd_exec_def sd_return_def Let_def revoke_sessions_def ins_action_def
          split: option.splits prod.splits if_splits)
    ultimately show ?thesis using that
      by (auto intro: revoke_effect no_effect simp: same_data_def)
  qed
  show ?thesis
    unfolding revoke_token_def Let_def
    by (auto simp: no_effect case_prod_beta split: option.splits intro!: revoke)
qed

lemma listSessions_same: "same_data s (snd (listSessions p r s))"
proof -
  have "same_data s (snd (sd_query f s))" for f :: "ServiceTables \<Rightarrow> SessionRow list"
    by (rule query_same [OF prod.collapse [symmetric]])
  then show ?thesis by (simp add: listSessions_def Let_def case_prod_beta split: option.splits)
qed

lemma extension_effect:
  "same_data s (snd (extension env sv mo p r s))
   \<or> api_effect env p ''token.issue'' s (snd (extension env sv mo p r s)) \<and> HasPrefix (aq_Path r) ''/auth/''"
  using issue_token_effect [of env p s sv mo r] revoke_token_effect [of env p s mo r] listSessions_same [of s p r]
  by (auto simp: extension_def case_prod_beta HasPrefix_def split: sum.splits)

lemma get_job_effect:
  "same_data s (snd (get_job env sv mo p r s))
   \<or> aq_Method r = ''POST'' \<and> api_effect env p (if HasSuffix (aq_Path r) ''/benchmark'' then ''benchmark.create'' else ''approval.decide'') s
        (snd (get_job env sv mo p r s)) \<and> (HasSuffix (aq_Path r) ''/approval'' \<or> HasSuffix (aq_Path r) ''/benchmark'')"
proof (cases "HasSuffix (aq_Path r) ''/approval'' \<or> HasSuffix (aq_Path r) ''/benchmark''")
  case True
  then show ?thesis using jobAction_effect [of env p r s sv mo] by (auto simp: get_job_def)
next
  case False
  let ?i = "TrimSuffix_of (TrimPrefix (aq_Path r) ''/jobs/'') ''/report''"
  have status: "same_data s2 (snd (with_jobs (StatusHandler (mysql_store (en_H env) (en_db env) err_text c) m path) s2))" for s2 err_text c m path
    by (cases rule: my_Get_cases [of "TrimPrefix path ''/jobs/''" "sd_jobs s2"])
      (auto simp: with_jobs_def StatusHandler_def Let_def mysql_store_def same_data_def job_tables_def split: workflow_error.splits)
  have report: "same_data s2 (snd (sd_query f s2))" for s2 and f :: "ServiceTables \<Rightarrow> bytes option"
    by (rule query_same [OF prod.collapse [symmetric]])
  show ?thesis
  proof (cases rule: scopedJob_cases [of env sv p ?i s])
    case (refused e s1)
    then show ?thesis using False by (simp add: get_job_def Let_def)
  next
    case (found row s1)
    from found have "snd (get_job env sv mo p r s) \<in> {s, snd (with_jobs (StatusHandler (mysql_store (en_H env) (en_db env) (\<lambda>e. []) (mo_carrier mo))
          (aq_Method r) (aq_Path r)) s1), snd (sd_query (ended_report ?i s1) s1)}"
      using False by (auto simp: get_job_def Let_def case_prod_beta split: option.splits)
    moreover have "\<forall>s' \<in> {s, snd (with_jobs (StatusHandler (mysql_store (en_H env) (en_db env) (\<lambda>e. []) (mo_carrier mo))
          (aq_Method r) (aq_Path r)) s1), snd (sd_query (ended_report ?i s1) s1)}. same_data s s'"
      by (simp add: same_data_trans [OF found(2) status] same_data_trans [OF found(2) report])
    ultimately show ?thesis by blast
  qed
qed

section \<open>Who may change what\<close>

lemma HasPrefixE: "HasPrefix s a \<Longrightarrow> (\<And>t. s = a @ t \<Longrightarrow> P) \<Longrightarrow> P"
  by (metis HasPrefix_def append_take_drop_id)

lemma jobs_path_action:
  assumes "HasPrefix path ''/jobs/''"
  shows "\<not> HasPrefix path ''/auth/''" "path \<noteq> ''/audit''" "\<not> HasPrefix path ''/rag/documents''" "\<not> HasPrefix path ''/rag/''"
    "path \<noteq> ''/jobs''"
  by (rule HasPrefixE [OF assms], simp add: HasPrefix_def)+

lemma approval_not_benchmark: "HasSuffix path ''/benchmark'' \<Longrightarrow> \<not> HasSuffix path ''/approval''"
  unfolding HasSuffix_def by (elim HasPrefixE) (simp add: HasPrefix_def)

text \<open>A request changes nothing, or its principal is authenticated, allowed the action of the request, and the
  change is the one of that action.\<close>

lemma api_authorize_same: "same_data s (snd (api_authorize env sv mo r s))"
  using Authenticate_keeps [of "en_auth env" _ "mo_now mo" "aq_Authorization r" s]
  by (auto simp: api_authorize_def same_data_def job_tables_def case_prod_beta split: option.splits sum.splits auth_error.splits)

lemma api_Handler_effect:
  "same_data s (snd (api_Handler env sv mo free r s))
   \<or> (\<exists>p s1. api_authorize env sv mo r s = (Inr p, s1) \<and> api_effect env p (action r) s (snd (api_Handler env sv mo free r s)))"
proof (cases "free \<and> authorized_path r")
  case False
  have "same_data s (snd (sd_query f s))" for f :: "ServiceTables \<Rightarrow> unit"
    by (rule query_same [OF prod.collapse [symmetric]])
  then show ?thesis using False by (auto simp: api_Handler_def case_prod_beta split: option.splits)
next
  case path: True
  then have other: "\<not> (aq_Path r = ''/healthz'' \<and> gets r)" "\<not> (aq_Path r = ''/readyz'' \<and> gets r)"
    by (auto simp: authorized_path_def extension_paths_def HasPrefix_def)
  obtain x s1 where auth: "api_authorize env sv mo r s = (x, s1)" by fastforce
  have s1: "same_data s s1" using api_authorize_same [of s env sv mo r] auth by simp
  show ?thesis
  proof (cases x)
    case (Inl e)
    then show ?thesis using s1 path other auth by (auto simp: api_Handler_def)
  next
    case (Inr p)
    have eq: "snd (api_Handler env sv mo free r s) = snd (if aq_Path r = ''/jobs'' then api_receive env sv mo p r s1
        else if HasPrefix (aq_Path r) ''/jobs/'' then get_job env sv mo p r s1
        else if aq_Path r = ''/history/search'' then (OtherReply, s1) else extension env sv mo p r s1)"
      using path other auth Inr by (auto simp: api_Handler_def)
    consider (jobs) "aq_Path r = ''/jobs''" "snd (api_Handler env sv mo free r s) = snd (api_receive env sv mo p r s1)"
      | (job) "HasPrefix (aq_Path r) ''/jobs/''" "snd (api_Handler env sv mo free r s) = snd (get_job env sv mo p r s1)"
      | (history) "snd (api_Handler env sv mo free r s) = s1"
      | (ext) "snd (api_Handler env sv mo free r s) = snd (extension env sv mo p r s1)"
      using eq by (cases "aq_Path r = ''/jobs''"; cases "HasPrefix (aq_Path r) ''/jobs/''"; cases "aq_Path r = ''/history/search''") simp_all
    then have "same_data s1 (snd (api_Handler env sv mo free r s)) \<or> api_effect env p (action r) s1 (snd (api_Handler env sv mo free r s))"
    proof cases
      case jobs
      show ?thesis
      proof (cases "aq_Method r = ''POST''")
        case True
        then have "action r = ''job.create''" using jobs(1) by (simp add: action_def HasPrefix_def HasSuffix_def)
        then show ?thesis using jobs True receive_jobs_effect [of env p s1 sv mo r] by (simp add: api_receive_def)
      next
        case False
        then show ?thesis using jobs listJobs_same [of s1 env sv p r]
          by (auto simp: api_receive_def case_prod_beta split: sum.splits)
      qed
    next
      case job
      note jobs_path_action [OF job(1)]
      then show ?thesis using job get_job_effect [of s1 env sv mo p r] approval_not_benchmark
        by (auto simp: action_def)
    next
      case history
      then show ?thesis by simp
    next
      case ext
      then show ?thesis using extension_effect [of s1 env sv mo p r] by (auto simp: action_def)
    qed
    then show ?thesis using s1 auth Inr by (blast intro: same_data_trans effect_after)
  qed
qed

end
