(* ===== verification/Api_Sample.thy ===== *)
theory Api_Sample
  imports Job_Api Kafka_System
begin

text \<open>
  A run of the API of \<open>Job_Api\<close> on concrete data: the job \<open>d1\<close> of \<open>alice\<close> is completed, its candidate is approved
  by the operator and a benchmark of it is started.  The properties of the API are applied to these states.
\<close>

definition t_report :: string where
  "t_report = ''{\"candidate_spec\":{\"table\":\"t\",\"index_name\":\"idx_cand_a\",\"columns\":[{\"name\":\"id\"}]}}''"
definition t_spec_raw :: string where
  "t_spec_raw = ''{\"table\":\"t\",\"index_name\":\"idx_cand_a\",\"columns\":[{\"name\":\"id\"}]}''"

definition t_body :: "string" where
  "t_body = ''{\"report_sha256\":\"aaaaaaaaaaaaaaaaaaaaaaaaaaaaaaaaaaaaaaaaaaaaaaaaaaaaaaaaaaaaaaaa\",\"decision\":\"approved\",\"reason\":\"r\",\"delivery_id\":\"b1\"}''"


definition t_input :: ActionInput where
  "t_input = \<lparr>ai_ReportSHA = ''aaaaaaaaaaaaaaaaaaaaaaaaaaaaaaaaaaaaaaaaaaaaaaaaaaaaaaaaaaaaaaaa'', ai_Decision=''approved'', ai_Reason=''r'', ai_DeliveryID=''b1''\<rparr>"

definition t_env :: ApiEnv where
  "t_env = \<lparr>en_U = ascii_tables, en_P = t_parser, en_H = sample_hash, en_db = sample_db,
     en_auth = \<lparr>ae_sha = (\<lambda>x. x), ae_jwt = (\<lambda>key token. None), ae_sign = (\<lambda>key c. None), ae_numeric = (\<lambda>t. t), ae_column = (\<lambda>t. t)\<rparr>\<rparr>"

definition t_key :: string where
  "t_key = ''kkkkkkkkkkkkkkkkkkkkkkkkkkkkkkkk''"

definition t_server :: ApiServer where
  "t_server = \<lparr>as_Token = [], as_Auth = New_auth t_key t_key, as_AllowedTables = None, as_RAG = False, as_History = False, as_GitHub = False\<rparr>"

definition t_moment :: Moment where
  "t_moment = \<lparr>mo_now = 5, mo_random = None, mo_carrier = ([], [])\<rparr>"

definition t_request :: "string \<Rightarrow> ApiRequest" where
  "t_request path = \<lparr>aq_Method = ''POST'', aq_Path = path, aq_Authorization = ''Bearer '' @ t_key, aq_Query = (\<lambda>k. []), aq_Body = Some t_body\<rparr>"

definition t_row :: JobRow where
  "t_row = \<lparr>r_job_id = ''j1'', r_delivery_id = ''d1'', r_pr_number = 1, r_sql_text = plain_read, r_candidate_spec = ''{}'',
      r_sql_sha256 = sample_hash plain_read, r_candidate_spec_sha256 = sample_hash ''{}'', r_status = Completed, r_attempts = 1,
      r_next_attempt_at = 0, r_lease_owner = [], r_lease_until = None, r_last_error = [], r_created_at = 0, r_updated_at = 0, r_completed_at = Some 0\<rparr>"

definition t_options1 :: JobOptions where
  "t_options1 = zero_options\<lparr>o_TenantID := ''operator'', o_ProjectID := ''default'', o_Actor := ''alice''\<rparr>"

definition t_state :: "ApprovalRow list \<Rightarrow> ActionRow list \<Rightarrow> nat \<Rightarrow> MySQL \<Rightarrow> api_db" where
  "t_state approvals audit k j = \<lparr>sd_tables = \<lparr>tb_sessions = [], tb_approvals = approvals, tb_reports = [(''j1'', t_report)], tb_audit = audit\<rparr>,
     sd_jobs = j, sd_fail = (\<lambda>k. False), sd_stmt = k\<rparr>"

definition t_jobs1 :: MySQL where
  "t_jobs1 = (sample_mysql [t_row])\<lparr>my_tables := (my_tables (sample_mysql [t_row]))\<lparr>t_options := [(''j1'', t_options1)]\<rparr>\<rparr>"

lemma t_decode_report: "decode_report t_report = Some (None, t_spec_raw)"
  by code_simp
lemma t_not_rewrite: "\<not> Is t_spec_raw"
  by code_simp
lemma t_decode_spec: "DecodeStrict t_spec_raw = Inr t_spec"
  by code_simp
lemma t_decode_action:
  "decode_strict action_input_fields \<lparr>ai_ReportSHA = [], ai_Decision = [], ai_Reason = [], ai_DeliveryID = []\<rparr> t_body = Some t_input"
  by code_simp
lemma t_spec_json: "spec_json t_spec = t_spec_raw"
  by code_simp
lemma t_query: "sd_query f (t_state x y k j) = (Some (f (sd_tables (t_state x y k j))), t_state x y (k + 1) j)"
  by (simp add: sd_query_def sd_exec_def t_state_def)

lemma t_key_auth: "New_auth t_key t_key = Some \<lparr>at_Key = t_key, at_Bootstrap = t_key, at_Policy = policies\<rparr>"
  by (simp add: New_auth_def t_key_def)

lemma t_auth_any:
  assumes "aq_Authorization r = ''Bearer '' @ t_key"
  shows "api_authorize t_env t_server t_moment r (t_state x y k j) = (Inr operator, t_state x y k j)"
proof -
  have "bearer (''Bearer '' @ t_key) = Some t_key" "length t_key = 32"
    by (simp_all add: bearer_def HasPrefix_def TrimPrefix_def t_key_def)
  moreover have "Allowed \<lparr>at_Key = t_key, at_Bootstrap = t_key, at_Policy = policies\<rparr> operator act" for act
    by (simp add: Allowed_def policies_def operator_def)
  ultimately show ?thesis
    by (simp add: api_authorize_def t_server_def t_key_auth Authenticate_def assms t_env_def)
qed

lemma t_auth: "api_authorize t_env t_server t_moment (t_request path) (t_state x y k j) = (Inr operator, t_state x y k j)"
  by (rule t_auth_any) (simp add: t_request_def)

lemma t_proposal: "validateProposal t_env t_spec_raw plain_read = Some t_spec_raw"
  by (simp add: validateProposal_def t_not_rewrite t_decode_spec t_env_def t_prepare t_spec_json)

lemma t_act: "decode_action (Some t_body) = Some t_input"
  by (simp add: decode_action_def read_limited_def body_limit_def t_decode_action) (simp add: t_body_def)

lemma t_get: "my_Get ''d1'' (t_jobs1\<lparr>my_stmt := n\<rparr>) = (Inr (scan_job (my_tables t_jobs1) t_row), t_jobs1\<lparr>my_stmt := n + 1\<rparr>)"
  by (simp add: my_Get_def my_get_def db_eval t_jobs1_def sample_mysql_def find_delivery_def t_row_def)

lemma t_grants: "tablesAllowed t_env t_server operator plain_read"
  by (simp add: tablesAllowed_def t_env_def t_inspect t_server_def operator_def)

definition t_job :: Job where
  "t_job = scan_job (my_tables t_jobs1) t_row"

lemma t_job_fields [simp]: "j_ID t_job = ''j1''" "j_Options t_job = t_options1" "j_SQL t_job = plain_read" "j_Status t_job = Completed"
   "j_SQLSHA256 t_job = sample_hash plain_read" "j_PRNumber t_job = 1"
  by (simp_all add: t_job_def scan_job_def t_jobs1_def t_row_def)

lemma t_scoped: "scopedJob t_env t_server operator ''d1'' (t_state x y k (t_jobs1\<lparr>my_stmt := n\<rparr>)) = (Inr t_job, t_state x y k (t_jobs1\<lparr>my_stmt := n + 1\<rparr>))"
  using t_grants by (simp add: scopedJob_def with_jobs_def t_state_def t_get t_job_def [symmetric] t_options1_def operator_def)


lemma t_inputs: "length (ai_ReportSHA t_input) = 64" "ai_ReportSHA t_input = digest (en_H t_env) raw" "ai_Decision t_input = ''approved''"
  "ai_Reason t_input = ''r''" "ai_DeliveryID t_input = ''b1''"
  by (simp_all add: t_input_def t_env_def sample_hash_def digest_def numeral_eq_Suc)

lemma t_tables_of: "tb_reports (sd_tables (t_state x y k j)) = [(''j1'', t_report)]" "tb_approvals (sd_tables (t_state x y k j)) = x"
  by (simp_all add: t_state_def)

lemma t_post: "post_action t_env t_moment bench operator t_job (t_request path) (t_state x y k j) =
   (if bench then benchmark_job t_env t_moment operator t_job t_input t_spec_raw (t_state x y (k + 1) j)
    else decide_job t_env operator t_job t_input t_spec_raw (t_state x y (k + 1) j))"
proof -
  have body: "aq_Body (t_request path) = Some t_body" by (simp add: t_request_def)
  show ?thesis unfolding post_action_def body t_act t_query
    by (simp add: t_inputs(1) t_inputs(2) [of t_report, symmetric] t_inputs(4) t_tables_of t_decode_report t_proposal)
qed

definition t_approval :: ApprovalRow where
  "t_approval = approval_row t_env operator t_job t_input t_spec_raw"

definition t_action :: ActionRow where
  "t_action = approval_action t_env operator t_job t_input t_spec_raw"

lemma t_decide: "decide_job t_env operator t_job t_input t_spec_raw (t_state [] [] k j) =
    (Fields_of 201 (f_str ''decision'' ''approved''), t_state [t_approval] [t_action] (k + 4) j)"
proof -
  have "TrimSpace ''r'' \<noteq> []" by code_simp
  then show ?thesis
    unfolding decide_job_def t_query
    by (simp add: t_inputs operator_def [THEN arg_cong [where f = pn_Role]] t_approval_def [symmetric] t_action_def [symmetric])
      (simp add: sd_exec_def sd_bind_def sd_query_def t_state_def ins_approval_def ins_action_def t_inputs t_action_def)
qed

lemma t_handler: 
  assumes "path = ''/jobs/d1/approval'' \<or> path = ''/jobs/d1/benchmark''"
  shows "api_Handler t_env t_server t_moment True (t_request path) (t_state x y k (t_jobs1\<lparr>my_stmt := n\<rparr>)) =
    (if path = ''/jobs/d1/benchmark'' then benchmark_job t_env t_moment operator t_job t_input t_spec_raw (t_state x y (k + 1) (t_jobs1\<lparr>my_stmt := n + 1\<rparr>))
     else decide_job t_env operator t_job t_input t_spec_raw (t_state x y (k + 1) (t_jobs1\<lparr>my_stmt := n + 1\<rparr>)))"
proof -
  have req: "aq_Method (t_request q) = ''POST''" "aq_Path (t_request q) = q" for q by (simp_all add: t_request_def)
  have paths: "HasPrefix ''/jobs/d1/approval'' ''/jobs/''" "HasPrefix ''/jobs/d1/benchmark'' ''/jobs/''" "is_delivery ''d1''"
    "HasSuffix ''/jobs/d1/approval'' ''/approval''" "HasSuffix ''/jobs/d1/benchmark'' ''/benchmark''" "\<not> HasSuffix ''/jobs/d1/approval'' ''/benchmark''"
    "TrimSuffix_of (TrimPrefix ''/jobs/d1/approval'' ''/jobs/'') ''/approval'' = ''d1''" 
    "TrimSuffix_of (TrimPrefix ''/jobs/d1/benchmark'' ''/jobs/'') ''/benchmark'' = ''d1''" by code_simp+
  show ?thesis using assms
    by (elim disjE) (simp_all add: api_Handler_def authorized_path_def req t_auth get_job_def jobAction_def paths t_scoped t_post Let_def)
qed

definition t_result :: "(workflow_error + ReceiveResult) \<times> MySQL" where
  "t_result =
    my_Receive sample_hash sample_db ([], []) 5 (benchmark_input operator t_job t_input t_spec_raw) (t_jobs1\<lparr>my_stmt := 2\<rparr>)"

lemma t_not_empty: "plain_read \<noteq> []" "t_spec_raw \<noteq> []" "replicate 32 CHR ''a'' \<noteq> ''j1''"
  by (simp_all add: plain_read_def t_spec_raw_def numeral_eq_Suc)

lemma t_receive:
  "\<exists>v j row. t_result = (Inr v, j) \<and> t_jobs (my_tables j) = [t_row, row] \<and> o_Benchmark (j_Options (scan_job (my_tables j) row))"
  by (simp add: t_result_def my_Receive_def receive_body_def receive_inserts_def db_eval sample_mysql_def benchmark_input_def t_jobs1_def
      invalid_input_def find_delivery_def pending_count_def ins_job_def new_row_def ins_history_def ins_keyed_def
      ins_outbox_def MarshalSafe_def Validate_def job_event_def newID_def sample_hash_def upd_job_def my_Get_def
      my_get_def scan_job_def t_inputs t_row_def normalized_def t_not_empty t_not_empty(3) [symmetric])

text \<open>The three states of the run.\<close>

definition t_completed :: api_db where
  "t_completed = t_state [] [] 0 (t_jobs1\<lparr>my_stmt := 0\<rparr>)"

definition t_approved :: api_db where
  "t_approved = t_state [t_approval] [t_action] 5 (t_jobs1\<lparr>my_stmt := 1\<rparr>)"

definition t_benchmarked :: api_db where
  "t_benchmarked = snd (api_Handler t_env t_server t_moment True (t_request ''/jobs/d1/benchmark'') t_approved)"

lemma t_approves: "api_Handler t_env t_server t_moment True (t_request ''/jobs/d1/approval'') t_completed =
    (Fields_of 201 (f_str ''decision'' ''approved''), t_approved)"
  by (simp add: t_completed_def t_approved_def t_handler t_decide)

lemma t_with_jobs: "with_jobs f (t_state x y k j) = (fst (f j), t_state x y k (snd (f j)))" "sd_jobs (t_state x y k j) = j"
  by (simp_all add: with_jobs_def t_state_def case_prod_beta)

lemma t_starts_benchmark:
  "\<exists>row. t_jobs (my_tables (sd_jobs t_benchmarked)) = [t_row, row] \<and> o_Benchmark (j_Options (scan_job (my_tables (sd_jobs t_benchmarked)) row))"
proof -
  obtain v j row where r: "t_result = (Inr v, j)" "t_jobs (my_tables j) = [t_row, row]" "o_Benchmark (j_Options (scan_job (my_tables j) row))"
    using t_receive by blast
  have env: "en_H t_env = sample_hash" "en_db t_env = sample_db" "mo_carrier t_moment = ([], [])" "mo_now t_moment = 5"
    by (simp_all add: t_env_def t_moment_def)
  have "is_delivery ''b1''" by code_simp
  moreover have "find_approval ''j1'' (sd_tables (t_state [t_approval] [t_action] k j)) = Some t_approval" for k j
    by (simp add: find_approval_def t_tables_of t_approval_def approval_row_def)
  moreover have "ap_decision t_approval = ''approved''" "ap_report_sha256 t_approval = ai_ReportSHA t_input"
    "ap_candidate_sha256 t_approval = digest (en_H t_env) t_spec_raw"
    by (simp_all add: t_approval_def approval_row_def t_inputs)
  ultimately have "sd_jobs t_benchmarked = snd t_result"
    unfolding t_benchmarked_def t_approved_def t_handler [OF disjI2 [OF refl]]
    by (simp add: benchmark_job_def t_query t_inputs(5) t_with_jobs env t_result_def case_prod_beta numeral_2_eq_2 split: sum.splits)
  then have "sd_jobs t_benchmarked = j" by (metis r(1) snd_conv)
  then show ?thesis using r(2,3) by (intro exI [of _ row]) simp
qed

end
