(* ===== verification/Api_Reach.thy ===== *)
theory Api_Reach
  imports Api_Safety Api_Sample
begin

text \<open>
  The states that requests to the API of \<open>Job_Api\<close>, workers and the database reach together, and what holds in all
  of them: benchmarks run approved candidates, approvals are recorded, changes are authorised.
\<close>

section \<open>Reachable states\<close>

definition options_of :: "Tables \<Rightarrow> JobRow \<Rightarrow> JobOptions" where
  "options_of t row = j_Options (scan_job t row)"

definition same_input :: "JobRow \<Rightarrow> JobRow \<Rightarrow> bool" where
  "same_input r r' \<longleftrightarrow>
     r_job_id r' = r_job_id r \<and> r_delivery_id r' = r_delivery_id r \<and> r_sql_text r' = r_sql_text r
     \<and> r_candidate_spec r' = r_candidate_spec r \<and> r_sql_sha256 r' = r_sql_sha256 r
     \<and> r_candidate_spec_sha256 r' = r_candidate_spec_sha256 r"

definition rows_ok :: "hash \<Rightarrow> Tables \<Rightarrow> bool" where
  "rows_ok H t \<longleftrightarrow>
     distinct (map r_job_id (t_jobs t)) \<and> distinct (map r_delivery_id (t_jobs t)) \<and> fst ` set (t_options t) \<subseteq> r_job_id ` set (t_jobs t)
     \<and> (\<forall>r \<in> set (t_jobs t). r_sql_sha256 r = digest H (r_sql_text r) \<and> r_candidate_spec_sha256 r = digest H (r_candidate_spec r))"

text \<open>What workers, relays and the other entry points do to the job store: they keep the inputs and options
  of the jobs that exist and add jobs that are not benchmarks.\<close>

definition other_change :: "hash \<Rightarrow> Tables \<Rightarrow> Tables \<Rightarrow> bool" where
  "other_change H t u \<longleftrightarrow>
     rows_ok H u \<and> (\<forall>r \<in> set (t_jobs t). \<exists>r' \<in> set (t_jobs u). same_input r r')
     \<and> (\<forall>r' \<in> set (t_jobs u). (\<exists>r \<in> set (t_jobs t). same_input r r' \<and> options_of u r' = options_of t r)
          \<or> r_job_id r' \<notin> r_job_id ` set (t_jobs t) \<and> \<not> o_Benchmark (options_of u r'))"

inductive api_reach :: "ApiEnv \<Rightarrow> api_db \<Rightarrow> bool" for env where
  api_start: "t_jobs (job_tables s) = [] \<Longrightarrow> t_options (job_tables s) = [] \<Longrightarrow> tb_approvals (sd_tables s) = [] \<Longrightarrow>
    tb_sessions (sd_tables s) = [] \<Longrightarrow> api_reach env s"
| api_request: "api_reach env s \<Longrightarrow> api_reach env (snd (api_Handler env sv mo free r s))"
| api_others: "api_reach env s \<Longrightarrow> other_change (en_H env) (job_tables s) (job_tables s') \<Longrightarrow>
    tb_approvals (sd_tables s') = tb_approvals (sd_tables s) \<Longrightarrow> tb_sessions (sd_tables s') = tb_sessions (sd_tables s) \<Longrightarrow>
    set (tb_audit (sd_tables s)) \<subseteq> set (tb_audit (sd_tables s')) \<Longrightarrow> api_reach env s'"

section \<open>Approvals\<close>

definition covers :: "ApprovalRow \<Rightarrow> JobOptions \<Rightarrow> JobRow \<Rightarrow> bool" where
  "covers a opt row \<longleftrightarrow>
     ap_job_id a = o_ApprovedJobID opt \<and> ap_decision a = ''approved'' \<and> ap_report_sha256 a = o_ApprovalReportSHA opt
     \<and> ap_candidate_sha256 a = r_candidate_spec_sha256 row \<and> ap_sql_sha256 a = r_sql_sha256 row"

definition four_eyes :: "Tables \<Rightarrow> ServiceTables \<Rightarrow> ApprovalRow \<Rightarrow> bool" where
  "four_eyes t b a \<longleftrightarrow>
     (\<exists>act \<in> set (tb_audit b). ac_actor act = ap_actor a \<and> ac_action act = ''candidate.'' @ ap_decision a
        \<and> ac_resource_id act = ap_job_id a
        \<and> (\<forall>row \<in> set (t_jobs t). r_job_id row = ap_job_id a \<and> o_Actor (options_of t row) = ap_actor a \<longrightarrow>
             (''admin_self_approval'', ''true'') \<in> set (ac_metadata act)))"

definition approved_row :: "Tables \<Rightarrow> ApprovalRow \<Rightarrow> bool" where
  "approved_row t a \<longleftrightarrow> (\<exists>row \<in> set (t_jobs t). r_job_id row = ap_job_id a \<and> ap_sql_sha256 a = r_sql_sha256 row)"

definition api_inv :: "ApiEnv \<Rightarrow> api_db \<Rightarrow> bool" where
  "api_inv env s \<longleftrightarrow>
     rows_ok (en_H env) (job_tables s) \<and> distinct (map ap_job_id (tb_approvals (sd_tables s)))
     \<and> (\<forall>a \<in> set (tb_approvals (sd_tables s)). approved_row (job_tables s) a \<and> four_eyes (job_tables s) (sd_tables s) a)
     \<and> (\<forall>row \<in> set (t_jobs (job_tables s)). o_Benchmark (options_of (job_tables s) row) \<longrightarrow>
          (\<exists>a \<in> set (tb_approvals (sd_tables s)). covers a (options_of (job_tables s) row) row))"

lemma normalized_keeps:
  "o_Benchmark (normalized opt) = o_Benchmark opt" "o_ApprovedJobID (normalized opt) = o_ApprovedJobID opt"
  "o_ApprovalReportSHA (normalized opt) = o_ApprovalReportSHA opt"
  by (simp_all add: normalized_def Let_def)

lemma traced_keeps:
  "o_Benchmark (in_Options (traced c inp)) = o_Benchmark (in_Options inp)"
  "o_ApprovedJobID (in_Options (traced c inp)) = o_ApprovedJobID (in_Options inp)"
  "o_ApprovalReportSHA (in_Options (traced c inp)) = o_ApprovalReportSHA (in_Options inp)"
  by (simp_all add: traced_def)

lemma options_of_eq: "options_of t row = (case map_of (t_options t) (r_job_id row) of None \<Rightarrow> default_options | Some opt \<Rightarrow> opt)"
  by (simp add: options_of_def scan_job_def)

lemma inserted_options:
  assumes "inserted_post H q now inp jobID t u" "row \<in> set (t_jobs t)"
  shows "options_of u row = options_of t row"
proof -
  have "jobID \<notin> r_job_id ` set (t_jobs t)" "t_options u = t_options t @ [(jobID, normalized (in_Options inp))]"
    using assms(1) by (simp_all add: inserted_post_def)
  moreover from this(1) assms(2) have "r_job_id row \<noteq> jobID" by (metis imageI)
  ultimately show ?thesis by (simp add: options_of_eq map_add_def split: option.splits)
qed

lemma inserted_new_options:
  assumes "inserted_post H q now inp jobID t u"
  shows "options_of u (queued_row H q jobID now inp) = normalized (in_Options inp)"
proof -
  have "map_of (t_options t) jobID = None" using assms by (simp add: inserted_post_def map_of_eq_None_iff)
  then show ?thesis using assms by (simp add: options_of_eq inserted_post_def queued_row_def new_row_def map_add_def)
qed

lemma rows_unique: "rows_ok H t \<Longrightarrow> r \<in> set (t_jobs t) \<Longrightarrow> r' \<in> set (t_jobs t) \<Longrightarrow> r_job_id r = r_job_id r' \<Longrightarrow> r = r'"
  by (auto simp: rows_ok_def distinct_map dest: inj_onD)

lemma inserted_rows_ok:
  assumes "inserted_post H q now inp jobID t u" "rows_ok H t"
  shows "rows_ok H u"
  using assms by (auto simp: inserted_post_def rows_ok_def queued_row_def new_row_def)

lemma inserted_is_other:
  assumes "inserted_post H q now inp jobID t u" "rows_ok H t" "\<not> o_Benchmark (in_Options inp)"
  shows "other_change H t u"
proof -
  let ?n = "queued_row H q jobID now inp"
  have rows: "set (t_jobs u) = insert ?n (set (t_jobs t))" and new: "r_job_id ?n \<notin> r_job_id ` set (t_jobs t)"
    using assms(1) by (auto simp: inserted_post_def queued_row_def new_row_def)
  have same: "same_input r r" for r by (simp add: same_input_def)
  have opts: "\<not> o_Benchmark (options_of u ?n)"
    using assms(3) by (simp add: inserted_new_options [OF assms(1)] normalized_keeps)
  show ?thesis
    unfolding other_change_def rows
    using inserted_rows_ok [OF assms(1,2)] same new opts inserted_options [OF assms(1)] by blast
qed

lemma approved_row_other:
  "other_change H t u \<Longrightarrow> approved_row t a \<Longrightarrow> approved_row u a"
  unfolding other_change_def approved_row_def same_input_def by metis

lemma four_eyes_other:
  assumes "other_change H t u" "approved_row t a" "four_eyes t b a" "set (tb_audit b) \<subseteq> set (tb_audit b')"
  shows "four_eyes u b' a"
proof -
  obtain act where act: "act \<in> set (tb_audit b)" "ac_actor act = ap_actor a" "ac_action act = ''candidate.'' @ ap_decision a"
    "ac_resource_id act = ap_job_id a"
    and self: "\<And>row. row \<in> set (t_jobs t) \<Longrightarrow> r_job_id row = ap_job_id a \<Longrightarrow> o_Actor (options_of t row) = ap_actor a \<Longrightarrow>
      (''admin_self_approval'', ''true'') \<in> set (ac_metadata act)"
    using assms(3) unfolding four_eyes_def by blast
  have "(''admin_self_approval'', ''true'') \<in> set (ac_metadata act)"
    if row: "row \<in> set (t_jobs u)" "r_job_id row = ap_job_id a" "o_Actor (options_of u row) = ap_actor a" for row
  proof -
    have "r_job_id row \<in> r_job_id ` set (t_jobs t)" using assms(2) row(2) unfolding approved_row_def by (metis imageI)
    then obtain r where "r \<in> set (t_jobs t)" "same_input r row" "options_of u row = options_of t r"
      using assms(1) row(1) unfolding other_change_def by metis
    then show ?thesis using self [of r] row by (simp add: same_input_def)
  qed
  then show ?thesis using act assms(4) unfolding four_eyes_def by blast
qed

lemma api_inv_other:
  assumes "api_inv env s" "other_change (en_H env) (job_tables s) (job_tables s')"
    and "tb_approvals (sd_tables s') = tb_approvals (sd_tables s)" "set (tb_audit (sd_tables s)) \<subseteq> set (tb_audit (sd_tables s'))"
  shows "api_inv env s'"
proof -
  have "\<exists>a \<in> set (tb_approvals (sd_tables s)). covers a (options_of (job_tables s') row) row"
    if row: "row \<in> set (t_jobs (job_tables s'))" "o_Benchmark (options_of (job_tables s') row)" for row
  proof -
    obtain r where r: "r \<in> set (t_jobs (job_tables s))" "same_input r row"
      "options_of (job_tables s') row = options_of (job_tables s) r"
      using assms(2) row unfolding other_change_def by blast
    then obtain a where "a \<in> set (tb_approvals (sd_tables s))" "covers a (options_of (job_tables s) r) r"
      using assms(1) row(2) unfolding api_inv_def by auto
    then show ?thesis using r by (auto simp: covers_def same_input_def)
  qed
  then show ?thesis
    using assms approved_row_other four_eyes_other unfolding api_inv_def other_change_def by (smt (verit))
qed

lemma same_is_other: "rows_ok H t \<Longrightarrow> other_change H t t"
  by (auto simp: other_change_def same_input_def)

lemma traced_input: "in_SQL (traced c inp) = in_SQL inp" "in_CandidateSpec (traced c inp) = in_CandidateSpec inp"
  by (simp_all add: traced_def)

lemma covered_is_covered:
  assumes "inserted_post (en_H env) q now (traced c inp) jobID (job_tables s) u" "covered_input env p s inp" "api_inv env s"
  shows "\<exists>a \<in> set (tb_approvals (sd_tables s)).
    covers a (options_of u (queued_row (en_H env) q jobID now (traced c inp))) (queued_row (en_H env) q jobID now (traced c inp))"
proof -
  obtain row i specRaw a where inp: "row \<in> set (t_jobs (job_tables s))"
    "inp = benchmark_input p (scan_job (job_tables s) row) i specRaw"
    and a: "a \<in> set (tb_approvals (sd_tables s))" "ap_job_id a = r_job_id row" "ap_decision a = ''approved''"
      "ap_report_sha256 a = ai_ReportSHA i" "ap_candidate_sha256 a = digest (en_H env) specRaw"
    using assms(2) unfolding covered_input_def by blast
  have ok: "rows_ok (en_H env) (job_tables s)" using assms(3) by (simp add: api_inv_def)
  have "approved_row (job_tables s) a" using assms(3) a(1) by (simp add: api_inv_def)
  then have "ap_sql_sha256 a = r_sql_sha256 row"
    using rows_unique [OF ok _ inp(1)] a(2) unfolding approved_row_def by metis
  also have "\<dots> = digest (en_H env) (r_sql_text row)" using ok inp(1) by (simp add: rows_ok_def)
  finally have "covers a (normalized (in_Options (traced c inp))) (queued_row (en_H env) q jobID now (traced c inp))"
    using a by (simp add: covers_def normalized_keeps traced_keeps traced_input inp(2) benchmark_input_def
        queued_row_def new_row_def scan_job_def)
  then show ?thesis using a(1) inserted_new_options [OF assms(1)] by auto
qed

lemma api_inv_covered:
  assumes "api_inv env s" "inserted_post (en_H env) q now (traced c inp) jobID (job_tables s) (job_tables s')"
    "covered_input env p s inp" "sd_tables s' = sd_tables s"
  shows "api_inv env s'"
proof -
  let ?n = "queued_row (en_H env) q jobID now (traced c inp)" and ?t = "job_tables s" and ?u = "job_tables s'"
  have ok: "rows_ok (en_H env) ?t" using assms(1) by (simp add: api_inv_def)
  have rows: "set (t_jobs ?u) = insert ?n (set (t_jobs ?t))" and new: "r_job_id ?n \<notin> r_job_id ` set (t_jobs ?t)"
    using assms(2) by (auto simp: inserted_post_def queued_row_def new_row_def)
  note opts = inserted_options [OF assms(2)]
  have approved: "approved_row ?u a" if "approved_row ?t a" for a using that rows by (auto simp: approved_row_def)
  have eyes: "four_eyes ?u b a" if "approved_row ?t a" "four_eyes ?t b a" for b a
  proof -
    have "r_job_id ?n \<noteq> ap_job_id a" using that(1) new unfolding approved_row_def by (metis imageI)
    then show ?thesis using that(2) rows opts unfolding four_eyes_def by (metis insertE)
  qed
  have "\<exists>a \<in> set (tb_approvals (sd_tables s)). covers a (options_of ?u row) row"
    if "row \<in> set (t_jobs ?u)" "o_Benchmark (options_of ?u row)" for row
  proof (cases "row = ?n")
    case True
    then show ?thesis using covered_is_covered [OF assms(2,3,1)] by simp
  next
    case False
    then have "row \<in> set (t_jobs ?t)" using that rows by simp
    then show ?thesis using that opts assms(1) by (simp add: api_inv_def)
  qed
  then show ?thesis
    using inserted_rows_ok [OF assms(2) ok] approved eyes assms(1,4) by (simp add: api_inv_def)
qed

lemma api_inv_approval:
  assumes "api_inv env s" "job_tables s' = job_tables s" "fit_approval p (job_tables s) a row"
    "ap_job_id a \<notin> ap_job_id ` set (tb_approvals (sd_tables s))"
    "sd_tables s' = (sd_tables s)\<lparr>tb_approvals := tb_approvals (sd_tables s) @ [a], tb_audit := tb_audit (sd_tables s) @ [row]\<rparr>"
  shows "api_inv env s'"
proof -
  obtain r where r: "r \<in> set (t_jobs (job_tables s))" "ap_job_id a = r_job_id r" "ap_sql_sha256 a = r_sql_sha256 r"
    and act: "ac_actor row = ap_actor a" "ac_action row = ''candidate.'' @ ap_decision a" "ac_resource_id row = ap_job_id a"
    and self: "options_of (job_tables s) r = opt \<Longrightarrow> o_Actor opt = ap_actor a \<Longrightarrow> (''admin_self_approval'', ''true'') \<in> set (ac_metadata row)" for opt
    using assms(3) unfolding fit_approval_def options_of_def by blast
  have ok: "rows_ok (en_H env) (job_tables s)" using assms(1) by (simp add: api_inv_def)
  have new: "four_eyes (job_tables s) (sd_tables s') a"
    using act self rows_unique [OF ok _ r(1)] r(2) unfolding four_eyes_def assms(5) by (intro bexI [of _ row]) auto
  have old: "four_eyes (job_tables s) (sd_tables s') b" if "four_eyes (job_tables s) (sd_tables s) b" for b
    using that unfolding four_eyes_def assms(5) by auto
  have "approved_row (job_tables s) a" using r unfolding approved_row_def by metis
  then show ?thesis using assms(1,2,4) new old by (auto simp: api_inv_def assms(5))
qed

lemma api_effect_inv:
  assumes "api_effect env p act s s'" "api_inv env s"
  shows "api_inv env s'"
proof -
  have ok: "rows_ok (en_H env) (job_tables s)" using assms(2) by (simp add: api_inv_def)
  note still = api_inv_other [OF assms(2)] same_is_other [OF ok]
  from assms(1) show ?thesis
  proof cases
    case no_effect
    then show ?thesis using still by (simp add: same_data_def)
  next
    case (job_effect now carrier inp jobID)
    consider "plain_input p inp" | "covered_input env p s inp" using job_effect(3) by blast
    then show ?thesis
    proof cases
      case 1
      then have "\<not> o_Benchmark (in_Options (traced carrier inp))" by (simp add: plain_input_def traced_keeps zero_options_def)
      then show ?thesis using job_effect still(1) inserted_is_other [OF job_effect(2) ok] by simp
    next
      case 2
      then show ?thesis by (rule api_inv_covered [OF assms(2) job_effect(2) _ job_effect(1)])
    qed
  next
    case (approval_effect a row)
    then show ?thesis by (intro api_inv_approval [OF assms(2)])
  next
    case (token_effect x row)
    then show ?thesis using still(2) by (intro still(1)) auto
  next
    case (revoke_effect P row tm)
    then show ?thesis using still(2) by (intro still(1)) auto
  qed
qed

lemma api_reach_inv: "api_reach env s \<Longrightarrow> api_inv env s"
proof (induction rule: api_reach.induct)
  case (api_start s)
  then show ?case by (simp add: api_inv_def rows_ok_def)
next
  case (api_request s sv mo free r)
  then have "rows_ok (en_H env) (job_tables s)" by (simp add: api_inv_def)
  then have "api_inv env s'" if "same_data s s'" for s'
    using that api_inv_other [OF api_request.IH] same_is_other by (simp add: same_data_def)
  then show ?case using api_Handler_effect [of s env sv mo free r] api_effect_inv api_request.IH by blast
next
  case (api_others s s')
  then show ?case by (blast intro: api_inv_other)
qed

lemma find_approval_unique:
  "distinct (map ap_job_id (tb_approvals b)) \<Longrightarrow> a \<in> set (tb_approvals b) \<Longrightarrow> find_approval (ap_job_id a) b = Some a"
  unfolding find_approval_def by (rule find_unique) auto

lemma covers_check:
  assumes "find_approval (ap_job_id a) b = Some a" "covers a (options_of t row) row"
  shows "approval_check (scan_job t row) b"
proof -
  have "find_approval (o_ApprovedJobID (options_of t row)) b = Some a" using assms by (simp add: covers_def)
  moreover have "j_CandidateSpecSHA256 (scan_job t row) = r_candidate_spec_sha256 row" "j_SQLSHA256 (scan_job t row) = r_sql_sha256 row"
    by (simp_all add: scan_job_def)
  ultimately show ?thesis using assms(2) by (simp add: approval_check_def covers_def options_of_def)
qed

lemma no_benchmark_check: "\<not> o_Benchmark (options_of t row) \<Longrightarrow> approval_check (scan_job t row) b"
  by (simp add: approval_check_def options_of_def)

text \<open>The states of the sample run are reachable, and so is a store with a job of other owners.\<close>

lemma t_reach_one:
  assumes "\<not> o_Benchmark opt"
  shows "api_reach t_env (t_state [] [] 0 (t_jobs1\<lparr>my_stmt := 0, my_tables := (my_tables t_jobs1)\<lparr>t_options := [(''j1'', opt)]\<rparr>\<rparr>))"
proof -
  let ?s = "t_state [] [] 0 (sample_mysql [])"
    and ?u = "t_state [] [] 0 (t_jobs1\<lparr>my_stmt := 0, my_tables := (my_tables t_jobs1)\<lparr>t_options := [(''j1'', opt)]\<rparr>\<rparr>)"
  have start: "api_reach t_env ?s"
    by (rule api_start) (simp_all add: t_state_def job_tables_def sample_mysql_def)
  have tables: "t_jobs (job_tables ?s) = []" "t_jobs (job_tables ?u) = [t_row]" "t_options (job_tables ?u) = [(''j1'', opt)]"
    by (simp_all add: t_jobs1_def t_state_def job_tables_def sample_mysql_def)
  then have "other_change (en_H t_env) (job_tables ?s) (job_tables ?u)"
    using assms by (simp add: other_change_def rows_ok_def options_of_eq t_env_def t_row_def digest_def)
  then show ?thesis by (rule api_others [OF start]) (simp_all add: t_state_def)
qed

lemma t_reach: "api_reach t_env t_completed" "api_reach t_env t_approved" "api_reach t_env t_benchmarked"
proof -
  have "t_jobs1\<lparr>my_stmt := 0, my_tables := (my_tables t_jobs1)\<lparr>t_options := [(''j1'', t_options1)]\<rparr>\<rparr> = t_jobs1\<lparr>my_stmt := 0\<rparr>"
    by (simp add: t_jobs1_def sample_mysql_def)
  then show completed: "api_reach t_env t_completed"
    using t_reach_one [of t_options1] by (simp add: t_completed_def t_options1_def zero_options_def)
  from api_request [OF this] show approved: "api_reach t_env t_approved" using t_approves by (metis snd_conv)
  from api_request [OF this] show "api_reach t_env t_benchmarked" unfolding t_benchmarked_def .
qed

section \<open>Properties\<close>

text \<open>
  C12: in every state that requests to the API, workers and the other entry points reach, every benchmark job in
  the store has an approval that covers it: the recorded decision on its source job is \<open>approved\<close>, for the
  report it names, for its candidate and for its statement; the check that \<open>Runner.Run\<close> repeats succeeds.
\<close>

theorem benchmarks_are_approved:
  assumes "api_reach env s" "row \<in> set (t_jobs (job_tables s))"
  shows "approval_check (scan_job (job_tables s) row) (sd_tables s)"
proof (cases "o_Benchmark (options_of (job_tables s) row)")
  case True
  then obtain a where "a \<in> set (tb_approvals (sd_tables s))" "covers a (options_of (job_tables s) row) row"
    using api_reach_inv [OF assms(1)] assms(2) unfolding api_inv_def by blast
  then show ?thesis using api_reach_inv [OF assms(1)] unfolding api_inv_def
    by (blast intro: covers_check find_approval_unique)
next
  case False
  then show ?thesis by (rule no_benchmark_check)
qed

theorem benchmarks_are_approved_witness:
  "\<exists>row \<in> set (t_jobs (job_tables t_benchmarked)). o_Benchmark (j_Options (scan_job (job_tables t_benchmarked) row))
     \<and> approval_check (scan_job (job_tables t_benchmarked) row) (sd_tables t_benchmarked)"
proof -
  obtain row where "t_jobs (job_tables t_benchmarked) = [t_row, row]" "o_Benchmark (j_Options (scan_job (job_tables t_benchmarked) row))"
    using t_starts_benchmark unfolding job_tables_def by blast
  then show ?thesis using benchmarks_are_approved [OF t_reach(3), of row] by auto
qed

text \<open>
  C13: every approval in a reachable state has an audit record of its decision by its actor on its job, and when
  that actor is also the one who submitted the job, the record says that an administrator approved their own job.
\<close>

theorem approvals_need_other_eyes:
  assumes "api_reach env s" "a \<in> set (tb_approvals (sd_tables s))"
  shows "\<exists>act \<in> set (tb_audit (sd_tables s)). ac_actor act = ap_actor a \<and> ac_action act = ''candidate.'' @ ap_decision a
    \<and> ac_resource_id act = ap_job_id a
    \<and> (\<forall>row \<in> set (t_jobs (job_tables s)).
         r_job_id row = ap_job_id a \<and> o_Actor (j_Options (scan_job (job_tables s) row)) = ap_actor a \<longrightarrow>
         (''admin_self_approval'', ''true'') \<in> set (ac_metadata act))"
  using api_reach_inv [OF assms(1)] assms(2) unfolding api_inv_def four_eyes_def options_of_def by blast

theorem approvals_need_other_eyes_witness:
  "t_approval \<in> set (tb_approvals (sd_tables t_approved)) \<and> (\<exists>act \<in> set (tb_audit (sd_tables t_approved)).
     ac_actor act = ''operator'' \<and> ac_action act = ''candidate.approved'')"
proof -
  have mem: "t_approval \<in> set (tb_approvals (sd_tables t_approved))" by (simp add: t_approved_def t_state_def)
  have "ap_actor t_approval = ''operator''" "ap_decision t_approval = ''approved''"
    by (simp_all add: t_approval_def approval_row_def operator_def t_inputs)
  then show ?thesis using approvals_need_other_eyes [OF t_reach(2) mem] mem by auto
qed

text \<open>What the policy grants.\<close>

lemma Allowed_policy:
  assumes "New_auth key bootstrap = Some a"
  shows "Allowed a p ''token.issue'' \<Longrightarrow> pn_Role p = ''admin''"
    "Allowed a p ''approval.decide'' \<Longrightarrow> pn_Role p \<in> {''admin'', ''reviewer''}"
    "Allowed a p ''job.create'' \<Longrightarrow> pn_Role p \<in> {''admin'', ''writer''}"
    "Allowed a p ''benchmark.create'' \<Longrightarrow> pn_Role p \<in> {''admin'', ''reviewer''}"
  using assms by (auto simp: New_auth_def Allowed_def policies_def split: if_splits)

lemma api_authorize_Inr:
  assumes "as_Auth sv = Some a" "api_authorize env sv mo r s = (Inr p, s1)"
  obtains token where "bearer (aq_Authorization r) = Some token" "Allowed a p (action r)"
    "ae_sha (en_auth env) (at_Bootstrap a) = ae_sha (en_auth env) token \<and> p = operator
     \<or> session_of (en_auth env) a (mo_now mo) token (sd_tables s) p"
proof -
  have auth: "Authenticate (en_auth env) a (mo_now mo) (aq_Authorization r) s = (Inr p, s1)" and allowed: "Allowed a p (action r)"
    using assms by (auto simp: api_authorize_def split: prod.splits sum.splits auth_error.splits if_splits)
  from auth obtain token where "bearer (aq_Authorization r) = Some token"
    "ae_sha (en_auth env) (at_Bootstrap a) = ae_sha (en_auth env) token \<and> p = operator
     \<or> session_of (en_auth env) a (mo_now mo) token (sd_tables s) p" by (rule Authenticate_Inr)
  then show thesis using that allowed by blast
qed

lemma effect_needs_role:
  assumes "api_effect env p act s s'" "Allowed a p act" "New_auth key bootstrap = Some a"
  shows "tb_sessions (sd_tables s') \<noteq> tb_sessions (sd_tables s) \<Longrightarrow> pn_Role p = ''admin''"
    and "tb_approvals (sd_tables s') \<noteq> tb_approvals (sd_tables s) \<Longrightarrow> pn_Role p \<in> {''admin'', ''reviewer''}"
    and "job_tables s' \<noteq> job_tables s \<Longrightarrow> pn_Role p \<in> {''admin'', ''writer''}
      \<or> pn_Role p = ''reviewer'' \<and> (\<exists>row \<in> set (t_jobs (job_tables s')). row \<notin> set (t_jobs (job_tables s)) \<and> o_Benchmark (options_of (job_tables s') row))"
proof -
  note policy = Allowed_policy [OF assms(3), of p]
  from assms(1) show "pn_Role p = ''admin''" if "tb_sessions (sd_tables s') \<noteq> tb_sessions (sd_tables s)"
    using that policy assms(2) by cases (auto simp: same_data_def)
  from assms(1) show "pn_Role p \<in> {''admin'', ''reviewer''}" if "tb_approvals (sd_tables s') \<noteq> tb_approvals (sd_tables s)"
    using that policy assms(2) by cases (auto simp: same_data_def)
  from assms(1) show "pn_Role p \<in> {''admin'', ''writer''}
      \<or> pn_Role p = ''reviewer'' \<and> (\<exists>row \<in> set (t_jobs (job_tables s')). row \<notin> set (t_jobs (job_tables s)) \<and> o_Benchmark (options_of (job_tables s') row))"
    if "job_tables s' \<noteq> job_tables s"
  proof cases
    case (job_effect now carrier inp jobID)
    let ?n = "queued_row (en_H env) (en_db env) jobID now (traced carrier inp)"
    have "?n \<in> set (t_jobs (job_tables s'))" "r_job_id ?n \<notin> r_job_id ` set (t_jobs (job_tables s))"
      using job_effect(2) by (simp_all add: inserted_post_def queued_row_def new_row_def)
    then have n: "?n \<in> set (t_jobs (job_tables s'))" "?n \<notin> set (t_jobs (job_tables s))" by (metis imageI)+
    show ?thesis
    proof (cases "act = ''job.create''")
      case True
      then show ?thesis using policy assms(2) by auto
    next
      case False
      then have "o_Benchmark (options_of (job_tables s') ?n)"
        using job_effect(3) inserted_new_options [OF job_effect(2)]
        by (auto simp: normalized_keeps traced_keeps covered_input_def benchmark_input_def)
      then show ?thesis using n policy assms(2) False job_effect(3) by auto
    qed
  qed (use that in \<open>simp_all add: same_data_def\<close>)
qed

text \<open>
  C14: a request that changes the sessions, the approvals or the jobs carries the bootstrap credential or the token
  of a live session; sessions are only changed for administrators, approvals only for administrators and
  reviewers, and jobs only for administrators and writers, or by a reviewer who starts an approved benchmark.
\<close>

theorem every_change_is_authorised:
  assumes "as_Auth sv = Some a" "New_auth key bootstrap = Some a" "snd (api_Handler env sv mo free r s) = s'"
    and "sd_tables s' \<noteq> sd_tables s \<or> job_tables s' \<noteq> job_tables s"
  shows "\<exists>p token. bearer (aq_Authorization r) = Some token
    \<and> (ae_sha (en_auth env) bootstrap = ae_sha (en_auth env) token \<and> p = operator
       \<or> session_of (en_auth env) a (mo_now mo) token (sd_tables s) p)
    \<and> (tb_sessions (sd_tables s') \<noteq> tb_sessions (sd_tables s) \<longrightarrow> pn_Role p = ''admin'')
    \<and> (tb_approvals (sd_tables s') \<noteq> tb_approvals (sd_tables s) \<longrightarrow> pn_Role p \<in> {''admin'', ''reviewer''})
    \<and> (job_tables s' \<noteq> job_tables s \<longrightarrow> pn_Role p \<in> {''admin'', ''writer''} \<or> pn_Role p = ''reviewer''
         \<and> (\<exists>row \<in> set (t_jobs (job_tables s')). row \<notin> set (t_jobs (job_tables s))
              \<and> o_Benchmark (j_Options (scan_job (job_tables s') row))))"
proof -
  have "\<not> same_data s s'" using assms(4) by (simp add: same_data_def)
  then obtain p s1 where p: "api_authorize env sv mo r s = (Inr p, s1)" "api_effect env p (action r) s s'"
    using api_Handler_effect [of s env sv mo free r] assms(3) by blast
  obtain token where token: "bearer (aq_Authorization r) = Some token" "Allowed a p (action r)"
    "ae_sha (en_auth env) (at_Bootstrap a) = ae_sha (en_auth env) token \<and> p = operator
     \<or> session_of (en_auth env) a (mo_now mo) token (sd_tables s) p"
    by (rule api_authorize_Inr [OF assms(1) p(1)])
  have "at_Bootstrap a = bootstrap" using assms(2) by (auto simp: New_auth_def split: if_splits)
  then show ?thesis
    using token effect_needs_role [OF p(2) token(2) assms(2)] unfolding options_of_def by blast
qed

theorem every_change_is_authorised_witness:
  "tb_approvals (sd_tables t_approved) \<noteq> tb_approvals (sd_tables t_completed)
   \<and> bearer (''Bearer '' @ t_key) = Some t_key"
proof -
  have change: "tb_approvals (sd_tables t_approved) \<noteq> tb_approvals (sd_tables t_completed)"
    by (simp add: t_approved_def t_completed_def t_state_def)
  have sv: "as_Auth t_server = Some \<lparr>at_Key = t_key, at_Bootstrap = t_key, at_Policy = policies\<rparr>"
    by (simp add: t_server_def t_key_auth)
  have run: "snd (api_Handler t_env t_server t_moment True (t_request ''/jobs/d1/approval'') t_completed) = t_approved"
    by (simp add: t_approves)
  have differ: "sd_tables t_approved \<noteq> sd_tables t_completed \<or> job_tables t_approved \<noteq> job_tables t_completed"
    using change by auto
  obtain token where token: "bearer (''Bearer '' @ t_key) = Some token" "t_key = token"
    using every_change_is_authorised [OF sv t_key_auth run differ]
    by (auto simp: t_request_def t_env_def session_of_def)
  then show ?thesis using change by blast
qed

end
