(* ===== verification/Api_Scope.thy ===== *)
theory Api_Scope
  imports Api_Reach
begin

text \<open>
  What one project sees of the jobs of the others through the API of \<open>Job_Api\<close>, and what a client gets that
  follows the pages of a listing.
\<close>

section \<open>The jobs of one project\<close>

definition belongs :: "Principal \<Rightarrow> Tables \<Rightarrow> JobRow \<Rightarrow> bool" where
  "belongs p t row \<longleftrightarrow>
     o_TenantID (j_Options (scan_job t row)) = pn_Tenant p \<and> o_ProjectID (j_Options (scan_job t row)) = pn_Project p"

definition own :: "Principal \<Rightarrow> Tables \<Rightarrow> Tables" where
  "own p t = t\<lparr>t_jobs := filter (belongs p t) (t_jobs t)\<rparr>"

definition own_jobs :: "Principal \<Rightarrow> MySQL \<Rightarrow> MySQL" where
  "own_jobs p j = j\<lparr>my_tables := own p (my_tables j)\<rparr>"

definition only_own :: "Principal \<Rightarrow> api_db \<Rightarrow> api_db" where
  "only_own p s = s\<lparr>sd_jobs := own_jobs p (sd_jobs s)\<rparr>"

lemma own_scan [simp]: "scan_job (own p t) row = scan_job t row"
  by (simp add: scan_job_def own_def)

lemma own_belongs [simp]: "belongs p (own p t) = belongs p t"
  by (simp add: fun_eq_iff belongs_def)

lemma own_find:
  assumes "distinct (map r_delivery_id (t_jobs t))"
  shows "find_delivery d (own p t) = (case find_delivery d t of None \<Rightarrow> None | Some row \<Rightarrow> if belongs p t row then Some row else None)"
proof (cases "find_delivery d t")
  case None
  then have "find_delivery d (own p t) = None" by (auto simp: find_delivery_def own_def find_None_iff)
  then show ?thesis using None by simp
next
  case (Some row)
  then have row: "row \<in> set (t_jobs t)" "r_delivery_id row = d" by (auto dest: find_deliveryD)
  have one: "r = row" if "r \<in> set (t_jobs t)" "r_delivery_id r = d" for r
    using assms row that by (auto simp: distinct_map dest: inj_onD)
  have dist: "distinct (map r_delivery_id (t_jobs (own p t)))"
    using assms by (simp add: own_def distinct_map_filter)
  show ?thesis
  proof (cases "belongs p t row")
    case True
    then have "row \<in> set (t_jobs (own p t))" using row by (simp add: own_def)
    from find_unique [OF dist this] have "find_delivery d (own p t) = Some row" by (simp add: find_delivery_def row(2))
    then show ?thesis using Some True by simp
  next
    case False
    then have "find_delivery d (own p t) = None" using one by (auto simp: find_delivery_def own_def find_None_iff)
    then show ?thesis using Some False by simp
  qed
qed

text \<open>A query of the job store.\<close>

lemma own_query:
  "db_query f (own_jobs p j) = (map_sum id (\<lambda>_. f (own p (my_tables j))) (fst (db_query f j)), own_jobs p (snd (db_query f j)))"
  by (simp add: db_query_def db_stmt_def own_jobs_def Let_def)

lemma own_Get:
  assumes "distinct (map r_delivery_id (t_jobs (my_tables j)))"
  shows "my_Get d (own_jobs p j) =
    ((case fst (my_Get d j) of Inl e \<Rightarrow> Inl e
      | Inr job \<Rightarrow> if o_TenantID (j_Options job) = pn_Tenant p \<and> o_ProjectID (j_Options job) = pn_Project p then Inr job else Inl ErrNotFound),
     own_jobs p (snd (my_Get d j)))"
proof -
  let ?f = "\<lambda>t. map_option (scan_job t) (find_delivery d t)"
  have eq: "?f (own p (my_tables j)) = (case ?f (my_tables j) of None \<Rightarrow> None
      | Some job \<Rightarrow> if o_TenantID (j_Options job) = pn_Tenant p \<and> o_ProjectID (j_Options job) = pn_Project p then Some job else None)"
    by (simp add: own_find [OF assms] belongs_def split: option.splits)
  show ?thesis
    by (cases rule: db_query_cases [where s = j and f = ?f])
      (simp_all add: my_Get_def my_get_def db_bind_def own_query eq db_raise_def db_return_def split: option.splits)
qed

lemma own_sd_query: "sd_query f (only_own p s) = (fst (sd_query f s), only_own p (snd (sd_query f s)))"
  by (simp add: sd_query_def sd_exec_def only_own_def Let_def)

lemma own_authorize:
  "api_authorize env sv mo r (only_own p s) = (fst (api_authorize env sv mo r s), only_own p (snd (api_authorize env sv mo r s)))"
  by (simp add: api_authorize_def Authenticate_def own_sd_query case_prod_beta split: option.splits sum.splits auth_error.splits)

lemma own_scopedJob:
  assumes "distinct (map r_delivery_id (t_jobs (job_tables s)))"
  shows "scopedJob env sv p d (only_own p s) = (fst (scopedJob env sv p d s), only_own p (snd (scopedJob env sv p d s)))"
proof -
  have "my_Get d (sd_jobs (only_own p s)) = my_Get d (own_jobs p (sd_jobs s))" by (simp add: only_own_def)
  then show ?thesis
    using own_Get [OF assms [unfolded job_tables_def], of d p]
    by (cases "fst (my_Get d (sd_jobs s))")
      (auto simp: scopedJob_def with_jobs_def only_own_def case_prod_beta)
qed

text \<open>What a found job is in the tables after the lookup.\<close>

lemma scopedJob_own_row:
  assumes "scopedJob env sv p d s = (Inr job, s1)"
  shows "job_tables s1 = job_tables s" "sd_tables s1 = sd_tables s"
    "\<exists>row. find_delivery d (job_tables s1) = Some row \<and> belongs p (job_tables s1) row \<and> job = scan_job (job_tables s1) row"
  by (cases rule: scopedJob_cases [of env sv p d s]; use assms in \<open>simp add: same_data_def belongs_def\<close>)+

lemma own_status:
  assumes "distinct (map r_delivery_id (t_jobs (job_tables s)))" "find_delivery d (job_tables s) = Some row" "belongs p (job_tables s) row"
    "TrimPrefix path ''/jobs/'' = d"
  shows "fst (with_jobs (StatusHandler (mysql_store H q E c) m path) (only_own p s)) = fst (with_jobs (StatusHandler (mysql_store H q E c) m path) s)"
proof -
  note dist = assms(1) [unfolded job_tables_def]
  have "fst (my_Get d (own_jobs p (sd_jobs s))) = fst (my_Get d (sd_jobs s))"
  proof (cases rule: my_Get_cases [of d "sd_jobs s"])
    case (fail e s1)
    then show ?thesis by (simp add: own_Get [OF dist])
  next
    case (ok row' s1)
    then show ?thesis using assms(2,3) by (simp add: own_Get [OF dist] belongs_def job_tables_def)
  qed
  then show ?thesis
    using assms(4) by (simp add: with_jobs_def only_own_def StatusHandler_def mysql_store_def Let_def case_prod_beta
        split: sum.splits workflow_error.splits)
qed

lemma own_select: "select_jobs p after st n (own p t) = select_jobs p after st n t"
proof -
  have eq: "in_project p (own p t) r = in_project p t r" "in_project p t r \<Longrightarrow> belongs p t r" for r
    by (auto simp: in_project_def belongs_def scan_job_def own_def split: option.splits)
  have "filter (\<lambda>r. in_project p (own p t) r \<and> r_delivery_id r > after \<and> (st = [] \<or> status_text (r_status r) = st)) (t_jobs (own p t)) =
      filter (\<lambda>r. in_project p t r \<and> r_delivery_id r > after \<and> (st = [] \<or> status_text (r_status r) = st)) (t_jobs t)"
    using eq by (auto simp: own_def intro!: filter_cong)
  then show ?thesis by (simp only: select_jobs_def)
qed

lemma own_listJobs: "fst (listJobs env sv p r (only_own p s)) = fst (listJobs env sv p r s)"
proof -
  have page: "list_page env sv p after st n (own p t) = list_page env sv p after st n t" for after st n t
    by (simp add: list_page_def own_select)
  have "fst (with_jobs (db_query (list_page env sv p after st n)) (only_own p s)) = fst (with_jobs (db_query (list_page env sv p after st n)) s)" for after st n
    by (cases rule: db_query_cases [where s = "sd_jobs s" and f = "list_page env sv p after st n"])
      (simp_all add: with_jobs_def only_own_def own_query page case_prod_beta)
  then show ?thesis by (simp add: listJobs_def case_prod_beta split: option.splits sum.splits)
qed

lemma own_extension:
  assumes "aq_Method r = ''GET''"
  shows "fst (extension env sv mo p r (only_own p s)) = fst (extension env sv mo p r s)"
  using assms by (simp add: extension_def listSessions_def own_sd_query Let_def case_prod_beta split: option.splits sum.splits)

lemma own_jobAction:
  assumes "distinct (map r_delivery_id (t_jobs (job_tables s)))" "aq_Method r = ''GET''"
  shows "fst (jobAction env sv mo p r (only_own p s)) = fst (jobAction env sv mo p r s)"
  using assms(2)
  by (simp add: jobAction_def own_scopedJob [OF assms(1)] own_sd_query Let_def case_prod_beta split: option.splits sum.splits)

lemma own_get_job:
  assumes "distinct (map r_delivery_id (t_jobs (job_tables s)))" "aq_Method r = ''GET''"
  shows "fst (get_job env sv mo p r (only_own p s)) = fst (get_job env sv mo p r s)"
proof (cases "HasSuffix (aq_Path r) ''/approval'' \<or> HasSuffix (aq_Path r) ''/benchmark''")
  case True
  then show ?thesis using own_jobAction [OF assms] by (auto simp: get_job_def)
next
  case False
  let ?path = "TrimPrefix (aq_Path r) ''/jobs/''"
  let ?i = "TrimSuffix_of ?path ''/report''"
  obtain x s1 where job: "scopedJob env sv p ?i s = (x, s1)" by fastforce
  note own = own_scopedJob [OF assms(1), of env sv p ?i, unfolded job fst_conv snd_conv]
  show ?thesis
  proof (cases x)
    case (Inl e)
    then show ?thesis using False assms(2) by (simp add: get_job_def Let_def job own)
  next
    case (Inr j)
    note row = scopedJob_own_row [OF job [unfolded Inr]]
    have dist: "distinct (map r_delivery_id (t_jobs (job_tables s1)))" using assms(1) row(1) by simp
    obtain rw where rw: "find_delivery ?i (job_tables s1) = Some rw" "belongs p (job_tables s1) rw" using row(3) by blast
    have report: "ended_report ?i (only_own p s1) = ended_report ?i s1"
      using own_find [OF dist [unfolded job_tables_def], of ?i p] rw
      by (simp add: fun_eq_iff ended_report_def only_own_def own_jobs_def job_tables_def)
    have status: "fst (with_jobs (StatusHandler S m path) (only_own p s1)) = fst (with_jobs (StatusHandler S m path) s1)"
      if "\<not> HasSuffix ?path ''/report''" "path = aq_Path r" "S = mysql_store H q E c" for S m path H q E c
      using own_status [OF dist rw(1,2)] that by (simp add: TrimSuffix_of_def)
    show ?thesis
    proof (cases "HasSuffix ?path ''/report''")
      case True
      then show ?thesis using False assms(2)
        by (simp add: get_job_def Let_def job own Inr report own_sd_query case_prod_beta split: option.splits)
    next
      case no: False
      then show ?thesis using False assms(2) status [OF no refl refl]
        by (simp add: get_job_def Let_def job own Inr case_prod_beta)
    qed
  qed
qed

text \<open>
  C15: the jobs of other projects cannot be observed by reading: in every reachable state the reply to an
  authenticated \<open>GET\<close> (job list, status, report, approval, sessions, connections) is the reply of a store that holds
  no job of another tenant or project at all, so a foreign job is indistinguishable from one that does not exist.
\<close>

theorem other_tenants_are_invisible:
  assumes "api_reach env s" "aq_Method r = ''GET''" "api_authorize env sv mo r s = (Inr p, s1)"
  shows "fst (api_Handler env sv mo free r (s\<lparr>sd_jobs := (sd_jobs s)\<lparr>my_tables :=
      (job_tables s)\<lparr>t_jobs := filter (belongs p (job_tables s)) (t_jobs (job_tables s))\<rparr>\<rparr>\<rparr>)) =
    fst (api_Handler env sv mo free r s)"
proof -
  have "same_data s s1" using api_authorize_same [of s env sv mo r] assms(3) by simp
  then have dist: "distinct (map r_delivery_id (t_jobs (job_tables s1)))"
    using api_reach_inv [OF assms(1)] by (simp add: api_inv_def rows_ok_def same_data_def)
  have auth: "api_authorize env sv mo r (only_own p s) = (Inr p, only_own p s1)"
    by (simp add: own_authorize assms(3))
  have "fst (api_Handler env sv mo free r (only_own p s)) = fst (api_Handler env sv mo free r s)"
    unfolding api_Handler_def auth assms(3) own_sd_query
    using own_get_job [OF dist assms(2)] own_listJobs [of env sv p r s1] own_extension [OF assms(2)] assms(2)
    by (simp add: api_receive_def case_prod_beta split: sum.splits option.splits)
  then show ?thesis by (simp add: only_own_def own_jobs_def own_def job_tables_def)
qed

definition t_foreign :: api_db where
  "t_foreign = t_state [] [] 0 (t_jobs1\<lparr>my_stmt := 0, my_tables := (my_tables t_jobs1)\<lparr>t_options := [(''j1'', t_options1\<lparr>o_TenantID := ''acme''\<rparr>)]\<rparr>\<rparr>)"

theorem other_tenants_are_invisible_witness:
  "t_row \<in> set (t_jobs (job_tables t_foreign)) \<and>
   fst (api_Handler t_env t_server t_moment True ((t_request ''/jobs/d1'')\<lparr>aq_Method := ''GET''\<rparr>) t_foreign) =
   fst (api_Handler t_env t_server t_moment True ((t_request ''/jobs/d1'')\<lparr>aq_Method := ''GET''\<rparr>)
     (t_foreign\<lparr>sd_jobs := (sd_jobs t_foreign)\<lparr>my_tables := (job_tables t_foreign)\<lparr>t_jobs := []\<rparr>\<rparr>\<rparr>))"
proof -
  let ?r = "(t_request ''/jobs/d1'')\<lparr>aq_Method := ''GET''\<rparr>"
  have reach: "api_reach t_env t_foreign"
    unfolding t_foreign_def by (rule t_reach_one) (simp add: t_options1_def zero_options_def)
  have auth: "api_authorize t_env t_server t_moment ?r t_foreign = (Inr operator, t_foreign)"
    unfolding t_foreign_def by (rule t_auth_any) (simp add: t_request_def)
  have jobs: "t_jobs (job_tables t_foreign) = [t_row]" "\<not> belongs operator (job_tables t_foreign) t_row"
    by (simp_all add: t_foreign_def job_tables_def t_state_def t_jobs1_def sample_mysql_def belongs_def scan_job_def
        operator_def t_row_def)
  show ?thesis using other_tenants_are_invisible [OF reach _ auth] jobs by simp
qed

section \<open>Following the pages\<close>

text \<open>A client that asks for the next page until there is none, while the table does not change.\<close>

function all_pages :: "ApiEnv \<Rightarrow> ApiServer \<Rightarrow> Principal \<Rightarrow> string \<Rightarrow> nat \<Rightarrow> Tables \<Rightarrow> string \<Rightarrow> JobLine list" where
  "all_pages env sv p st n t after =
     (case list_page env sv p after st n t of (lines, cursor) \<Rightarrow>
        lines @ (if cursor = [] then [] else all_pages env sv p st n t cursor))"
  by pat_completeness auto

lemma list_page_next:
  assumes "list_page env sv p after st n t = (lines, cursor)" "cursor \<noteq> []"
  obtains r where "r \<in> set (t_jobs t)" "r_delivery_id r = cursor" "after < cursor"
proof -
  let ?rows = "select_jobs p after st n t"
  have rows: "?rows \<noteq> []" "cursor = r_delivery_id (last ?rows)"
    using assms by (auto simp: list_page_def Let_def split: if_splits)
  then have "last ?rows \<in> set ?rows" by simp
  then have "last ?rows \<in> set (t_jobs t)" "after < r_delivery_id (last ?rows)"
    by (auto simp: select_jobs_def dest!: in_set_takeD)
  then show thesis using rows(2) by (intro that) auto
qed

termination all_pages
proof (relation "measure (\<lambda>(env, sv, p, st, n, t, after). length (filter (\<lambda>r. after < r_delivery_id r) (t_jobs t)))")
  fix env sv p st n t after lines cursor
  assume "(lines, cursor) = list_page env sv p after st n t" "cursor \<noteq> []"
  then obtain r where r: "r \<in> set (t_jobs t)" "r_delivery_id r = cursor" "after < cursor"
    using list_page_next by metis
  have "length (filter (\<lambda>r. cursor < r_delivery_id r) (t_jobs t)) = length (filter (\<lambda>r. cursor < r_delivery_id r) (filter (\<lambda>r. after < r_delivery_id r) (t_jobs t)))"
    using r(3) by (intro arg_cong [of _ _ length]) (auto intro!: filter_cong)
  also have "\<dots> < length (filter (\<lambda>r. after < r_delivery_id r) (t_jobs t))"
    by (rule length_filter_less [of r]) (use r in auto)
  finally show "((env, sv, p, st, n, t, cursor), (env, sv, p, st, n, t, after))
      \<in> measure (\<lambda>(env, sv, p, st, n, t, after). length (filter (\<lambda>r. after < r_delivery_id r) (t_jobs t)))" by simp
qed simp

declare all_pages.simps [simp del]

text \<open>In a list that ascends strictly, what is behind the last of the first \<open>n\<close> is what \<open>drop n\<close> leaves.\<close>

lemma behind_last:
  fixes g :: "'a \<Rightarrow> 'b :: linorder"
  assumes "sorted_wrt (<) (map g ys)" "0 < n" "n \<le> length ys"
  shows "filter (\<lambda>y. g (last (take n ys)) < g y) ys = drop n ys"
proof -
  have "take n ys \<noteq> []" using assms(2,3) by auto
  from last_conv_nth [OF this] have last: "last (take n ys) = ys ! (n - 1)" using assms(2,3) by simp
  have less: "g (ys ! i) < g (ys ! j)" if "i < j" "j < length ys" for i j
    using assms(1) that by (simp add: sorted_wrt_iff_nth_less)
  have "filter (\<lambda>y. g (last (take n ys)) < g y) (take n ys) = []"
    unfolding last filter_empty_conv
  proof
    fix y assume "y \<in> set (take n ys)"
    then obtain i where i: "i < n" "y = ys ! i" using assms(3) by (auto simp: in_set_conv_nth)
    show "\<not> g (ys ! (n - 1)) < g y"
    proof (cases "i = n - 1")
      case True
      then show ?thesis using i(2) by simp
    next
      case False
      then have "i < n - 1" "n - 1 < length ys" using i(1) assms(2,3) by auto
      from less [OF this] show ?thesis using i(2) by simp
    qed
  qed
  moreover have "filter (\<lambda>y. g (last (take n ys)) < g y) (drop n ys) = drop n ys"
    unfolding last filter_id_conv
  proof
    fix y assume "y \<in> set (drop n ys)"
    then obtain i where "i < length ys - n" "y = ys ! (n + i)" by (auto simp: in_set_conv_nth)
    then show "g (ys ! (n - 1)) < g y" using less [of "n - 1" "n + i"] assms(2) by simp
  qed
  ultimately show ?thesis by (metis append_take_drop_id filter_append append_Nil)
qed

definition candidates :: "Principal \<Rightarrow> string \<Rightarrow> Tables \<Rightarrow> JobRow list" where
  "candidates p st t =
     sort_key r_delivery_id (filter (\<lambda>r. in_project p t r \<and> (st = [] \<or> status_text (r_status r) = st)) (t_jobs t))"

lemma select_candidates: "select_jobs p after st n t = take n (filter (\<lambda>r. after < r_delivery_id r) (candidates p st t))"
  by (simp add: select_jobs_def candidates_def filter_sort conj_ac)

lemma candidates_ascend:
  assumes "distinct (map r_delivery_id (t_jobs t))"
  shows "sorted_wrt (<) (map r_delivery_id (candidates p st t))"
  unfolding strict_sorted_iff using assms by (simp add: candidates_def distinct_map_filter distinct_map inj_on_def)

lemma all_pages_behind:
  assumes "distinct (map r_delivery_id (t_jobs t))" "0 < n"
  shows "all_pages env sv p st n t after =
    map job_line (filter (\<lambda>r. tablesAllowed env sv p (r_sql_text r)) (filter (\<lambda>r. after < r_delivery_id r) (candidates p st t)))"
  using assms
proof (induction env sv p st n t after rule: all_pages.induct [case_names page])
  case (page env sv p st n t after)
  let ?ok = "\<lambda>r. tablesAllowed env sv p (r_sql_text r)" and ?ys = "filter (\<lambda>r. after < r_delivery_id r) (candidates p st t)"
  obtain lines cursor where lp: "list_page env sv p after st n t = (lines, cursor)" by fastforce
  have lines: "lines = map job_line (filter ?ok (take n ?ys))"
    and cursor: "cursor = (if length (take n ?ys) = n then r_delivery_id (last (take n ?ys)) else [])"
    using lp page.prems(2) by (auto simp: list_page_def select_candidates Let_def)
  show ?case
  proof (cases "n \<le> length ?ys")
    case True
    have asc: "sorted_wrt (<) (map r_delivery_id ?ys)"
      using candidates_ascend [OF page.prems(1), of p st] by (simp add: sorted_wrt_map sorted_wrt_filter)
    have "take n ?ys \<noteq> []" using True page.prems(2) by (cases ?ys) auto
    then have last: "last (take n ?ys) \<in> set ?ys" by (blast dest: last_in_set in_set_takeD)
    have c: "cursor = r_delivery_id (last (take n ?ys))" using cursor True by simp
    then have after: "after < cursor" using last by simp
    then have "filter (\<lambda>r. cursor < r_delivery_id r) (candidates p st t) = filter (\<lambda>r. cursor < r_delivery_id r) ?ys"
      by (auto intro!: filter_cong)
    also have "\<dots> = drop n ?ys" using behind_last [OF asc page.prems(2) True] c by simp
    finally have rest: "all_pages env sv p st n t cursor = map job_line (filter ?ok (drop n ?ys))"
      using page.IH [OF lp [symmetric] _ page.prems] after by (cases cursor) auto
    have "filter ?ok (take n ?ys) @ filter ?ok (drop n ?ys) = filter ?ok ?ys" by (metis append_take_drop_id filter_append)
    moreover have "cursor \<noteq> []" using after by auto
    ultimately show ?thesis unfolding all_pages.simps [of env sv p st n t after] lp lines
      by (simp add: rest flip: map_append)
  next
    case False
    then show ?thesis using cursor lines by (simp add: all_pages.simps [of env sv p st n t after] lp)
  qed
qed

text \<open>
  C38: a client that follows the cursors of the job list, whatever the page size, gets to an end and has then seen
  every job of its project with the wanted status whose tables it may read, each exactly once and in the order of
  the deliveries, although tables are checked after the page is cut.
\<close>

theorem pages_list_every_job:
  assumes "distinct (map r_delivery_id (t_jobs t))" "0 < n" "[] \<notin> r_delivery_id ` set (t_jobs t)"
  shows "all_pages env sv p st n t [] =
    map job_line (sort_key r_delivery_id
      (filter (\<lambda>r. in_project p t r \<and> (st = [] \<or> status_text (r_status r) = st) \<and> tablesAllowed env sv p (r_sql_text r)) (t_jobs t)))"
proof -
  have "[] < r_delivery_id r" if "r \<in> set (candidates p st t)" for r
    using that assms(3) by (cases "r_delivery_id r") (auto simp: candidates_def image_iff)
  then have "filter (\<lambda>r. [] < r_delivery_id r) (candidates p st t) = candidates p st t"
    by (simp add: filter_id_conv)
  then show ?thesis
    by (simp add: all_pages_behind [OF assms(1,2)] candidates_def filter_sort conj_ac)
qed

definition t_two :: Tables where
  "t_two = (my_tables t_jobs1)\<lparr>t_jobs := [t_row\<lparr>r_job_id := ''j2'', r_delivery_id := ''d2''\<rparr>, t_row],
     t_options := [(''j1'', t_options1), (''j2'', t_options1)]\<rparr>"

theorem pages_list_every_job_witness:
  "all_pages t_env t_server operator [] 1 t_two [] = [job_line t_row, job_line (t_row\<lparr>r_job_id := ''j2'', r_delivery_id := ''d2''\<rparr>)]"
proof -
  have ids: "r_delivery_id t_row = ''d1''" "r_job_id t_row = ''j1''" "r_sql_text t_row = plain_read" by (simp_all add: t_row_def)
  have rows: "t_jobs t_two = [t_row\<lparr>r_job_id := ''j2'', r_delivery_id := ''d2''\<rparr>, t_row]" by (simp add: t_two_def)
  have scope: "in_project operator t_two r" if "r_job_id r \<in> {''j1'', ''j2''}" for r
    using that by (auto simp: in_project_def t_two_def t_options1_def operator_def)
  have "(''d1'' :: string) \<le> ''d2''" "\<not> (''d2'' :: string) \<le> ''d1''" by code_simp+
  then have "sort_key r_delivery_id (t_jobs t_two) = [t_row, t_row\<lparr>r_job_id := ''j2'', r_delivery_id := ''d2''\<rparr>]"
    by (simp add: rows ids)
  moreover have "filter (\<lambda>r. in_project operator t_two r \<and> ([] = ([] :: string) \<or> status_text (r_status r) = []) \<and>
      tablesAllowed t_env t_server operator (r_sql_text r)) (t_jobs t_two) = t_jobs t_two"
    using t_grants by (simp add: rows scope ids)
  ultimately show ?thesis
    using pages_list_every_job [of t_two 1 t_env t_server operator "[]"] by (simp add: rows ids)
qed

end
