(* ===== verification/Statements.thy ===== *)
theory Statements
  imports Webhook
begin

text \<open>
  \<open>internal/service/statements.go\<close>: the statements of an SQL file with their lines, and the lines that a patch
  touches.  The loop over the bytes keeps the text since the last boundary instead of its index.
\<close>

record Statement =
  stm_SQL :: string
  stm_StartLine :: int
  stm_EndLine :: int

datatype lex_state = Plain | Quoted char | LineComment | BlockComment

definition blank :: "char \<Rightarrow> bool" where
  "blank c \<longleftrightarrow> c = CHR '' '' \<or> c = CHR 0x09 \<or> c = CHR 0x0D \<or> c = CHR 0x0A"

definition newlines :: "string \<Rightarrow> int" where
  "newlines s = int (length (filter (\<lambda>c. c = CHR 0x0A) s))"

text \<open>A piece of the file between two boundaries, with the line it begins on and the line it ends on.\<close>

type_synonym piece = "string \<times> int \<times> int"

definition opens_comment :: "char \<Rightarrow> string \<Rightarrow> bool" where
  "opens_comment c s \<longleftrightarrow>
     c = CHR ''#'' \<or> c = CHR ''-'' \<and> (case s of d # e # _ \<Rightarrow> d = CHR ''-'' \<and> blank e | _ \<Rightarrow> False)"

definition after_newline :: "char \<Rightarrow> int \<Rightarrow> int" where
  "after_newline c line = (if c = CHR 0x0A then line + 1 else line)"

text \<open>One byte: the state after it, and whether the next byte is taken with it.\<close>

definition lex_step :: "lex_state \<Rightarrow> char \<Rightarrow> string \<Rightarrow> lex_state \<times> bool" where
  "lex_step st c s =
     (case st of
        Quoted q \<Rightarrow>
          if c = CHR 0x5C \<and> q \<noteq> CHR 0x60 \<and> s \<noteq> [] then (Quoted q, True)
          else if c = q then (if HasPrefix s [q] then (Quoted q, True) else (Plain, False))
          else (Quoted q, False)
      | LineComment \<Rightarrow> (if c = CHR 0x0A then Plain else LineComment, False)
      | BlockComment \<Rightarrow> if c = CHR ''*'' \<and> HasPrefix s ''/'' then (Plain, True) else (BlockComment, False)
      | Plain \<Rightarrow>
          if c = CHR 0x27 \<or> c = CHR 0x22 \<or> c = CHR 0x60 then (Quoted c, False)
          else if opens_comment c s then (LineComment, False)
          else if c = CHR ''/'' \<and> HasPrefix s ''*'' then (BlockComment, True)
          else (Plain, False))"

definition ends_statement :: "lex_state \<Rightarrow> char \<Rightarrow> string \<Rightarrow> bool" where
  "ends_statement st c s \<longleftrightarrow> st = Plain \<and> c = CHR '';''"

function pieces :: "lex_state \<Rightarrow> string \<Rightarrow> int \<Rightarrow> int \<Rightarrow> string \<Rightarrow> piece list option" where
  "pieces st seg startLine line [] =
     (if st = Plain \<or> st = LineComment then Some [(seg, startLine, line)] else None)"
| "pieces st seg startLine line (c # s) =
     (let line1 = after_newline c line
      in if ends_statement st c s
         then map_option (\<lambda>ps. (seg @ [c], startLine, line1) # ps) (pieces Plain [] line1 line1 s)
         else case lex_step st c s of
           (st1, taken) \<Rightarrow>
             if taken \<and> s \<noteq> [] then pieces st1 (seg @ [c, hd s]) startLine (after_newline (hd s) line1) (tl s)
             else pieces st1 (seg @ [c]) startLine line1 s)"
  by pat_completeness auto
termination
  by (relation "measure (\<lambda>(st, seg, b, e, s). length s)") (auto simp: neq_Nil_conv)

declare pieces.simps [simp del]

definition statement_of :: "piece \<Rightarrow> Statement list" where
  "statement_of = (\<lambda>(seg, startLine, line).
     if TrimSpace seg = [] then []
     else [\<lparr>stm_SQL = TrimSpace seg, stm_StartLine = startLine + newlines (takeWhile blank seg), stm_EndLine = line\<rparr>])"

definition Statements :: "string \<Rightarrow> Statement list option" where
  "Statements raw = map_option (\<lambda>ps. concat (map statement_of ps)) (pieces Plain [] 1 1 raw)"

section \<open>Where the statements are\<close>

text \<open>The pieces are the file, and their lines count its newlines.\<close>

lemma newlines_append [simp]: "newlines (s @ t) = newlines s + newlines t"
  by (simp add: newlines_def)

lemma newlines_Nil [simp]: "newlines [] = 0"
  by (simp add: newlines_def)

lemma after_newline_eq: "after_newline c line = line + newlines [c]"
  by (simp add: after_newline_def newlines_def)

definition placed :: "string \<Rightarrow> piece list \<Rightarrow> bool" where
  "placed raw ps \<longleftrightarrow>
     concat (map fst ps) = raw
     \<and> (\<forall>i < length ps. fst (snd (ps ! i)) = 1 + newlines (concat (map fst (take i ps)))
          \<and> snd (snd (ps ! i)) = 1 + newlines (concat (map fst (take (Suc i) ps))))"

lemma pieces_place:
  assumes "pieces st seg startLine line s = Some ps" "line = startLine + newlines seg"
  shows "concat (map fst ps) = seg @ s \<and> ps \<noteq> []
    \<and> (\<forall>i < length ps. fst (snd (ps ! i)) = startLine + newlines (concat (map fst (take i ps)))
          \<and> snd (snd (ps ! i)) = startLine + newlines (concat (map fst (take (Suc i) ps))))"
  using assms
proof (induction st seg startLine line s arbitrary: ps rule: pieces.induct)
  case (1 st seg startLine line)
  then show ?case by (auto simp: pieces.simps split: if_splits)
next
  case (2 st seg startLine line c s)
  note lines = after_newline_eq
  show ?case
  proof (cases "ends_statement st c s")
    case True
    then obtain qs where qs: "pieces Plain [] (after_newline c line) (after_newline c line) s = Some qs"
      "ps = (seg @ [c], startLine, after_newline c line) # qs"
      using "2.prems"(1) by (auto simp: pieces.simps Let_def)
    note ih = "2.IH"(1) [OF refl True qs(1)]
    have rest: "concat (map fst qs) = s"
      "\<And>i. i < length qs \<Longrightarrow> fst (snd (qs ! i)) = after_newline c line + newlines (concat (map fst (take i qs)))
          \<and> snd (snd (qs ! i)) = after_newline c line + newlines (concat (map fst (take (Suc i) qs)))"
      using ih by auto
    have "fst (snd (ps ! i)) = startLine + newlines (concat (map fst (take i ps)))
        \<and> snd (snd (ps ! i)) = startLine + newlines (concat (map fst (take (Suc i) ps)))" if "i < length ps" for i
      using that rest(2) "2.prems"(2) by (cases i) (auto simp: qs(2) lines newlines_def)
    then show ?thesis using rest(1) by (simp add: qs(2))
  next
    case False
    obtain st1 taken where step: "lex_step st c s = (st1, taken)" by fastforce
    show ?thesis
    proof (cases "taken \<and> s \<noteq> []")
      case True
      then have run: "pieces st1 (seg @ [c, hd s]) startLine (after_newline (hd s) (after_newline c line)) (tl s) = Some ps"
        using "2.prems"(1) False step by (simp add: pieces.simps Let_def)
      have "seg @ [c, hd s] = (seg @ [c]) @ [hd s]" by simp
      then have "newlines (seg @ [c, hd s]) = newlines seg + newlines [c] + newlines [hd s]" by (metis newlines_append)
      then show ?thesis
        using "2.IH"(2) [OF refl False step [symmetric] _ run] True "2.prems"(2) by (simp add: lines)
    next
      case not_taken: False
      then have run: "pieces st1 (seg @ [c]) startLine (after_newline c line) s = Some ps"
        using "2.prems"(1) False step by (auto simp: pieces.simps Let_def split: if_splits)
      show ?thesis
        using "2.IH"(3) [OF refl False step [symmetric] not_taken run] "2.prems"(2) by (simp add: lines)
    qed
  qed
qed

text \<open>A piece that ends with its semicolon does not depend on what follows it.\<close>

lemma lex_step_cut: "lex_step st c (x @ CHR '';'' # y) = lex_step st c (x @ [CHR '';''])"
proof -
  have "HasPrefix (x @ CHR '';'' # y) [q] = HasPrefix (x @ [CHR '';'']) [q]" for q by (cases x) (simp_all add: HasPrefix_def)
  moreover have "opens_comment c (x @ CHR '';'' # y) = opens_comment c (x @ [CHR '';''])"
    by (cases x; cases "tl x"; cases y) (simp_all add: opens_comment_def blank_def)
  ultimately show ?thesis unfolding lex_step_def by (cases st) simp_all
qed

lemma pieces_cut:
  assumes "pieces st seg startLine line s = Some (q # qs)" "qs \<noteq> []"
  shows "\<exists>x y. s = x @ CHR '';'' # y \<and> fst q = seg @ x @ [CHR '';'']
    \<and> pieces st seg startLine line (x @ [CHR '';'']) = Some [q, ([], snd (snd q), snd (snd q))]
    \<and> pieces Plain [] (snd (snd q)) (snd (snd q)) y = Some qs"
  using assms
proof (induction st seg startLine line s rule: pieces.induct)
  case (1 st seg startLine line)
  then show ?case by (auto simp: pieces.simps split: if_splits)
next
  case (2 st seg startLine line c s)
  let ?line = "after_newline c line"
  show ?case
  proof (cases "ends_statement st c s")
    case True
    then have q: "q = (seg @ [c], startLine, ?line)" "pieces Plain [] ?line ?line s = Some qs" and c: "c = CHR '';''"
      using "2.prems"(1) by (auto simp: pieces.simps Let_def ends_statement_def)
    have "ends_statement st c t" for t using True by (simp add: ends_statement_def)
    then show ?thesis using q c
      by (intro exI [of _ "[]"] exI [of _ s]) (simp add: pieces.simps Let_def)
  next
    case False
    then have no: "\<not> ends_statement st c t" for t by (simp add: ends_statement_def)
    obtain st1 taken where step: "lex_step st c s = (st1, taken)" by fastforce
    show ?thesis
    proof (cases "taken \<and> s \<noteq> []")
      case True
      then have run: "pieces st1 (seg @ [c, hd s]) startLine (after_newline (hd s) ?line) (tl s) = Some (q # qs)"
        using "2.prems"(1) False step by (simp add: pieces.simps Let_def)
      obtain x y where xy: "tl s = x @ CHR '';'' # y" "fst q = (seg @ [c, hd s]) @ x @ [CHR '';'']"
        "pieces st1 (seg @ [c, hd s]) startLine (after_newline (hd s) ?line) (x @ [CHR '';'']) = Some [q, ([], snd (snd q), snd (snd q))]"
        "pieces Plain [] (snd (snd q)) (snd (snd q)) y = Some qs"
        using "2.IH"(2) [OF refl False step [symmetric] _ run "2.prems"(2)] True by blast
      have s: "s = (hd s # x) @ CHR '';'' # y" using xy(1) True by (metis append_Cons list.collapse)
      then have cut: "lex_step st c ((hd s # x) @ [CHR '';'']) = (st1, taken)" using step lex_step_cut by metis
      show ?thesis
        by (intro exI [of _ "c # hd s # x"] exI [of _ y])
          (use xy s cut no True in \<open>simp add: pieces.simps(2) [of st seg startLine line c "hd s # x @ [CHR '';'']"] Let_def\<close>)
    next
      case not_taken: False
      then have run: "pieces st1 (seg @ [c]) startLine ?line s = Some (q # qs)"
        using "2.prems"(1) False step by (auto simp: pieces.simps Let_def split: if_splits)
      obtain x y where xy: "s = x @ CHR '';'' # y" "fst q = (seg @ [c]) @ x @ [CHR '';'']"
        "pieces st1 (seg @ [c]) startLine ?line (x @ [CHR '';'']) = Some [q, ([], snd (snd q), snd (snd q))]"
        "pieces Plain [] (snd (snd q)) (snd (snd q)) y = Some qs"
        using "2.IH"(3) [OF refl False step [symmetric] not_taken run "2.prems"(2)] by blast
      then have cut: "lex_step st c (x @ [CHR '';'']) = (st1, taken)" using step lex_step_cut by metis
      have "\<not> taken" using not_taken xy(1) by auto
      then show ?thesis
        by (intro exI [of _ "c # x"] exI [of _ y])
          (use xy cut no in \<open>simp add: pieces.simps(2) [of st seg startLine line c "x @ [CHR '';'']"] Let_def\<close>)
    qed
  qed
qed

text \<open>The lines of a piece are those of its text, shifted.\<close>

lemma pieces_shift:
  "pieces st seg (startLine + k) (line + k) s = map_option (map (\<lambda>(x, b, e). (x, b + k, e + k))) (pieces st seg startLine line s)"
proof (induction st seg startLine line s rule: pieces.induct)
  case (1 st seg startLine line)
  then show ?case by (simp add: pieces.simps)
next
  case (2 st seg startLine line c s)
  have shift: "after_newline x (y + k) = after_newline x y + k" for x y by (simp add: after_newline_def)
  obtain st1 taken where step: "lex_step st c s = (st1, taken)" by fastforce
  show ?case
    using 2 step by (auto simp: pieces.simps(2) Let_def shift option.map_comp comp_def)
qed

text \<open>A piece and its rest.\<close>

lemma Statements_pieces:
  assumes "pieces Plain [] 1 1 raw = Some ps" "q \<in> set ps"
  shows "\<exists>pre post. raw = pre @ fst q @ post \<and> fst (snd q) = 1 + newlines pre \<and> snd (snd q) = 1 + newlines (pre @ fst q)
    \<and> (post = [] \<or> q \<in> set (butlast ps))"
proof -
  note place = pieces_place [OF assms(1), simplified]
  obtain i where i: "i < length ps" "q = ps ! i" using assms(2) by (auto simp: in_set_conv_nth)
  have "ps = take i ps @ q # drop (Suc i) ps" using i by (simp add: id_take_nth_drop)
  then have "raw = concat (map fst (take i ps)) @ fst q @ concat (map fst (drop (Suc i) ps))"
    using place by (metis concat.simps(2) concat_append list.simps(9) map_append)
  moreover have "concat (map fst (take (Suc i) ps)) = concat (map fst (take i ps)) @ fst q"
    using i by (simp add: take_Suc_conv_app_nth)
  moreover have "concat (map fst (drop (Suc i) ps)) = [] \<or> q \<in> set (butlast ps)"
  proof (cases "Suc i < length ps")
    case True
    then have "butlast ps ! i = q" "i < length (butlast ps)" using i(2) by (simp_all add: nth_butlast)
    then show ?thesis by (metis nth_mem)
  qed simp
  ultimately show ?thesis using place i by metis
qed

lemma resplit:
  assumes "pieces Plain [] b b raw = Some ps" "q \<in> set (butlast ps)"
  shows "\<exists>c d. pieces Plain [] c c (fst q) = Some [(fst q, c, d), ([], d, d)]"
  using assms
proof (induction ps arbitrary: b raw)
  case (Cons p ps)
  then have "ps \<noteq> []" by auto
  from pieces_cut [OF Cons.prems(1) this] obtain x y where xy: "fst p = x @ [CHR '';'']"
    "pieces Plain [] b b (x @ [CHR '';'']) = Some [p, ([], snd (snd p), snd (snd p))]"
    "pieces Plain [] (snd (snd p)) (snd (snd p)) y = Some ps" by auto
  show ?case
  proof (cases "q = p")
    case True
    have "fst (snd p) = b" using pieces_place [OF xy(2)] by force
    then have "p = (fst p, b, snd (snd p))" by (metis prod.collapse)
    then show ?thesis using xy(1,2) True by (intro exI [of _ b] exI [of _ "snd (snd p)"]) simp
  next
    case False
    then show ?thesis using Cons.IH [OF xy(3)] Cons.prems(2) \<open>ps \<noteq> []\<close> by simp
  qed
qed simp

lemma Statements_piece:
  assumes "pieces Plain [] c c seg = Some [(seg, c, d), ([], d, d)]"
  shows "Statements seg = Some (statement_of (seg, 1, 1 + newlines seg))"
proof -
  have d: "d = c + newlines seg" using pieces_place [OF assms] by force
  have "pieces Plain [] (c + (1 - c)) (c + (1 - c)) seg = Some [(seg, 1, 1 + newlines seg), ([], 1 + newlines seg, 1 + newlines seg)]"
    unfolding pieces_shift assms using d by simp
  then show ?thesis by (simp add: Statements_def statement_of_def TrimSpace_def trim_front_Nil)
qed


definition sample_file :: string where
  "sample_file = [CHR 0x27, CHR '';'', CHR 0x27, CHR '';'', CHR 0x0A, CHR ''b'']"

lemma sample_file_pieces:
  "pieces Plain [] 1 1 sample_file = Some [([CHR 0x27, CHR '';'', CHR 0x27, CHR '';''], 1, 1), ([CHR 0x0A, CHR ''b''], 1, 2)]"
  by (simp add: sample_file_def pieces.simps lex_step_def ends_statement_def opens_comment_def after_newline_def HasPrefix_def)

lemma sample_file_trims:
  "TrimSpace [CHR 0x27, CHR '';'', CHR 0x27, CHR '';''] = [CHR 0x27, CHR '';'', CHR 0x27, CHR '';'']"
  "TrimSpace [CHR 0x0A, CHR ''b''] = ''b''"
  by code_simp+

lemma sample_file_statements:
  "Statements sample_file = Some [\<lparr>stm_SQL = [CHR 0x27, CHR '';'', CHR 0x27, CHR '';''], stm_StartLine = 1, stm_EndLine = 1\<rparr>,
     \<lparr>stm_SQL = ''b'', stm_StartLine = 2, stm_EndLine = 2\<rparr>]"
  by (simp add: Statements_def sample_file_pieces statement_of_def sample_file_trims blank_def newlines_def)


section \<open>The lines of a patch\<close>

text \<open>\<open>^@@ -[0-9]+(?:,[0-9]+)? \+([0-9]+)(?:,[0-9]+)? @@\<close>: the digits of the group.\<close>

definition skip_count :: "string \<Rightarrow> string" where
  "skip_count s =
     (if HasPrefix s '','' \<and> fst (take_digits (drop 1 s)) \<noteq> [] then snd (take_digits (drop 1 s)) else s)"

definition hunk_match :: "string \<Rightarrow> string option" where
  "hunk_match t =
     (if \<not> HasPrefix t ''@@ -'' \<or> fst (take_digits (drop 4 t)) = [] then None
      else let s = skip_count (snd (take_digits (drop 4 t)))
        in if \<not> HasPrefix s '' +'' \<or> fst (take_digits (drop 2 s)) = [] then None
           else if HasPrefix (skip_count (snd (take_digits (drop 2 s)))) '' @@'' then Some (fst (take_digits (drop 2 s)))
           else None)"

text \<open>\<open>strconv.Atoi\<close> without its error: the largest integer when the digits are too many.\<close>

definition atoi_clamped :: "string \<Rightarrow> int" where
  "atoi_clamped ds = min (int (digits_val ds)) (2 ^ 63 - 1)"

fun changed_loop :: "int \<Rightarrow> int set \<Rightarrow> string list \<Rightarrow> int set" where
  "changed_loop line out [] = out"
| "changed_loop line out (t # ts) =
     (case hunk_match t of
        Some ds \<Rightarrow> changed_loop (atoi_clamped ds) out ts
      | None \<Rightarrow>
          if line = 0 \<or> t = [] \<or> HasPrefix t [CHR 0x5C] then changed_loop line out ts
          else if hd t = CHR ''+'' then changed_loop (i64 (line + 1)) (insert line out) ts
          else if hd t = CHR ''-'' then changed_loop line (if line > 1 then insert (line - 1) (insert line out) else insert line out) ts
          else if hd t = CHR '' '' then changed_loop (i64 (line + 1)) out ts
          else changed_loop line out ts)"

definition ChangedLines :: "string \<Rightarrow> int set" where
  "ChangedLines patch = changed_loop 0 {} (Split1 (CHR 0x0A) patch)"

section \<open>What a patch touches\<close>

text \<open>A patch as its hunks, and its text.\<close>

datatype diff_line = Kept string | Added string | Removed string | NoNewline

record diff_hunk =
  dh_old :: nat
  dh_old_count :: nat
  dh_new :: nat
  dh_new_count :: nat
  dh_section :: string
  dh_lines :: "diff_line list"

fun line_text :: "diff_line \<Rightarrow> string" where
  "line_text (Kept s) = CHR '' '' # s"
| "line_text (Added s) = CHR ''+'' # s"
| "line_text (Removed s) = CHR ''-'' # s"
| "line_text NoNewline = CHR 0x5C # '' No newline at end of file''"

definition hunk_header :: "diff_hunk \<Rightarrow> string" where
  "hunk_header h = ''@@ -'' @ nat_dec (dh_old h) @ '','' @ nat_dec (dh_old_count h) @ '' +'' @ nat_dec (dh_new h) @ '','' @
     nat_dec (dh_new_count h) @ '' @@'' @ dh_section h"

definition hunk_text :: "diff_hunk \<Rightarrow> string list" where
  "hunk_text h = hunk_header h # map line_text (dh_lines h)"

definition patch_text :: "diff_hunk list \<Rightarrow> string" where
  "patch_text hs = Join (concat (map hunk_text hs)) [CHR 0x0A]"

text \<open>The line of the new file at which a line of the hunk stands.\<close>

fun in_new :: "diff_line \<Rightarrow> bool" where
  "in_new (Kept s) = True"
| "in_new (Added s) = True"
| "in_new _ = False"

definition new_line :: "nat \<Rightarrow> diff_line list \<Rightarrow> int" where
  "new_line n before = int (n + length (filter in_new before))"

text \<open>A line is touched when it was added, or when lines were removed at it or right before it.\<close>

definition touch_at :: "nat \<Rightarrow> diff_line list \<Rightarrow> diff_line \<Rightarrow> int \<Rightarrow> bool" where
  "touch_at n before l x \<longleftrightarrow>
     (case l of
        Added s \<Rightarrow> x = new_line n before
      | Removed s \<Rightarrow> x = new_line n before \<or> x = new_line n before - 1 \<and> x \<ge> 1
      | _ \<Rightarrow> False)"

definition touches :: "nat \<Rightarrow> diff_line list \<Rightarrow> int \<Rightarrow> bool" where
  "touches n ls x \<longleftrightarrow> (\<exists>before l after. ls = before @ l # after \<and> touch_at n before l x)"

definition proper_hunk :: "diff_hunk \<Rightarrow> bool" where
  "proper_hunk h \<longleftrightarrow>
     CHR 0x0A \<notin> set (dh_section h) \<and> list_all (\<lambda>l. CHR 0x0A \<notin> set (line_text l)) (dh_lines h)
     \<and> 1 \<le> dh_new h \<and> int (dh_new h + length (dh_lines h)) < 2 ^ 63"

lemma new_line_Nil [simp]: "new_line n [] = int n"
  by (simp add: new_line_def)

lemma new_line_Cons: "new_line n (l # ls) = new_line (if in_new l then Suc n else n) ls"
  by (simp add: new_line_def)

lemma touches_Nil [simp]: "touches n [] = (\<lambda>x. False)"
  by (simp add: touches_def fun_eq_iff)

lemma touches_Cons:
  "touches n (l # ls) x \<longleftrightarrow> touch_at n [] l x \<or> touches (if in_new l then Suc n else n) ls x"
proof -
  have "touch_at n (l # before) m x = touch_at (if in_new l then Suc n else n) before m x" for before m
    by (simp add: touch_at_def new_line_Cons split: diff_line.splits)
  then show ?thesis unfolding touches_def Cons_eq_append_conv by blast
qed

lemma hunk_match_line: "hunk_match (line_text l) = None"
  by (cases l) (simp_all add: hunk_match_def HasPrefix_def)

lemma take_digits_number:
  assumes "\<not> is_digit_byte c"
  shows "take_digits (nat_dec n @ c # t) = (nat_dec n, c # t)"
  by (rule takeWhile_digits) (use assms nat_dec_all_digits in auto)

lemma skip_count_number:
  assumes "\<not> is_digit_byte c"
  shows "skip_count (CHR '','' # nat_dec n @ c # t) = c # t"
  using take_digits_number [OF assms, of n t] by (simp add: skip_count_def HasPrefix_def nat_dec_nonempty)

lemma separators: "\<not> is_digit_byte (CHR '','')" "\<not> is_digit_byte (CHR '' '')" "\<not> is_digit_byte (CHR 0x0A)"
  by code_simp+

lemmas take_number = take_digits_number [OF separators(1)] take_digits_number [OF separators(2)]
  skip_count_number [OF separators(2)]

lemma hunk_match_header: "hunk_match (hunk_header h) = Some (nat_dec (dh_new h))"
  by (simp add: hunk_match_def hunk_header_def HasPrefix_def Let_def nat_dec_nonempty take_number)

lemma changed_step:
  assumes "1 \<le> n" "int (Suc n) < 2 ^ 63"
  shows "changed_loop (int n) out (line_text l # ts)
    = changed_loop (int (if in_new l then Suc n else n)) (out \<union> {x. touch_at n [] l x}) ts"
proof -
  have next_line: "i64 (int n + 1) = int (Suc n)" using assms by (simp add: i64_id in_i64_def)
  have removed: "{x. x = int n \<or> x = int n - 1 \<and> 1 \<le> x} = (if int n > 1 then {int n - 1, int n} else {int n})" by auto
  note run = changed_loop.simps(2) [of "int n" out "line_text l" ts, unfolded hunk_match_line option.case]
  show ?thesis unfolding run
    using assms by (cases l) (simp_all add: HasPrefix_def touch_at_def next_line removed)
qed

lemma changed_lines:
  assumes "1 \<le> n" "int (n + length ls) < 2 ^ 63"
  shows "\<exists>line. changed_loop (int n) out (map line_text ls @ ts) = changed_loop line (out \<union> {x. touches n ls x}) ts"
  using assms
proof (induction ls arbitrary: n out)
  case (Cons l ls)
  let ?n = "if in_new l then Suc n else n"
  have "1 \<le> ?n" "int (?n + length ls) < 2 ^ 63" using Cons.prems by auto
  from Cons.IH [OF this, of "out \<union> {x. touch_at n [] l x}"]
  obtain line where "changed_loop (int ?n) (out \<union> {x. touch_at n [] l x}) (map line_text ls @ ts)
      = changed_loop line (out \<union> {x. touch_at n [] l x} \<union> {x. touches ?n ls x}) ts" ..
  moreover have "changed_loop (int n) out (map line_text (l # ls) @ ts)
      = changed_loop (int ?n) (out \<union> {x. touch_at n [] l x}) (map line_text ls @ ts)"
    using changed_step [of n out l] Cons.prems by simp
  moreover have "{x. touches n (l # ls) x} = {x. touch_at n [] l x} \<union> {x. touches ?n ls x}" by (auto simp: touches_Cons)
  ultimately show ?case by (auto simp: Un_assoc)
qed auto

lemma hunk_text_lines:
  assumes "proper_hunk h" "w \<in> set (hunk_text h)"
  shows "CHR 0x0A \<notin> set w"
proof -
  have "CHR 0x0A \<notin> set (nat_dec n)" for n
    using nat_dec_digits [of "CHR 0x0A" n] separators(3) by blast
  then show ?thesis
    using assms by (auto simp: hunk_text_def hunk_header_def proper_hunk_def list_all_iff)
qed

text \<open>
  The lines that a patch marks as changed are the lines of the new file that it adds, and the lines at which
  and right before which it removes some, whatever the text of its lines and the order of its hunks.
\<close>

theorem changed_lines_are_touched:
  assumes "list_all proper_hunk hs"
  shows "ChangedLines (patch_text hs) = {x. \<exists>h \<in> set hs. touches (dh_new h) (dh_lines h) x}"
proof (cases hs)
  case Nil
  then show ?thesis by (simp add: ChangedLines_def patch_text_def hunk_match_def HasPrefix_def)
next
  case (Cons h0 hs0)
  have "changed_loop line out (concat (map hunk_text hs)) = out \<union> {x. \<exists>h \<in> set hs. touches (dh_new h) (dh_lines h) x}" for line out
    using assms
  proof (induction hs arbitrary: line out)
    case (Cons h hs)
    have h: "1 \<le> dh_new h" "int (dh_new h + length (dh_lines h)) < 2 ^ 63" using Cons.prems by (simp_all add: proper_hunk_def)
    have "changed_loop line out (concat (map hunk_text (h # hs)))
        = changed_loop (int (dh_new h)) out (map line_text (dh_lines h) @ concat (map hunk_text hs))"
      using h by (simp add: hunk_text_def hunk_match_header atoi_clamped_def digits_val_nat_dec)
    with changed_lines [OF h, of out "concat (map hunk_text hs)"] Cons show ?case by auto
  qed simp
  moreover have "Split1 (CHR 0x0A) (patch_text hs) = concat (map hunk_text hs)"
    unfolding patch_text_def
    by (rule Split1_Join) (use assms hunk_text_lines Cons in \<open>auto simp: list_all_iff hunk_text_def\<close>)
  ultimately show ?thesis by (simp add: ChangedLines_def)
qed

definition sample_hunk :: diff_hunk where
  "sample_hunk = \<lparr>dh_old = 7, dh_old_count = 2, dh_new = 7, dh_new_count = 2, dh_section = [],
     dh_lines = [Kept ''a'', Removed ''b'', Added ''c'']\<rparr>"

theorem changed_lines_are_touched_witness:
  "ChangedLines (patch_text [sample_hunk]) = {7, 8}"
proof -
  have "list_all proper_hunk [sample_hunk]" by (simp add: sample_hunk_def proper_hunk_def)
  moreover have "touches 7 (dh_lines sample_hunk) x \<longleftrightarrow> x = 8 \<or> x = 7" for x
    by (auto simp: sample_hunk_def touches_Cons touch_at_def)
  ultimately show ?thesis using changed_lines_are_touched [of "[sample_hunk]"] by (auto simp: sample_hunk_def)
qed

end
