(* ===== verification/GitHub_Hook.thy ===== *)
theory GitHub_Hook
  imports Statements Job_Api Kafka_System
begin

text \<open>
  \<open>internal/service/github.go\<close>: a signed event of a pull request becomes jobs for the admitted statements that its
  current head adds or touches.  The GitHub API is a client with a state of its own, which answers a URL with a
  status and a body or not at all; the store is an arbitrary \<open>Receive\<close> with its state.
\<close>

section \<open>Calling the API\<close>

text \<open>The client is given the token and the URL.  It answers \<open>None\<close> when no response came, and no body when the body
  could not be read.\<close>

type_synonym 'w http_client = "string \<Rightarrow> string \<Rightarrow> 'w \<Rightarrow> (int \<times> string option) option \<times> 'w"
type_synonym 's receiver = "time \<Rightarrow> ReceiveInput \<Rightarrow> 's \<Rightarrow> (workflow_error + ReceiveResult) \<times> 's"

record GitHub =
  gh_Secret :: string
  gh_Token :: string
  gh_BaseURL :: string
  gh_Repositories :: "string \<Rightarrow> bool"

definition github_base :: "GitHub \<Rightarrow> string" where
  "github_base g =
     (let base = (if gh_BaseURL g = [] then ''https://api.github.com'' else gh_BaseURL g)
      in rev (dropWhile (\<lambda>c. c = CHR ''/'') (rev base)))"

definition github_call :: "GitHub \<Rightarrow> 'w http_client \<Rightarrow> string \<Rightarrow> 'w \<Rightarrow> string option \<times> 'w" where
  "github_call g client path w =
     (case client (gh_Token g) (github_base g @ path) w of
        (Some (status, Some raw), w1) \<Rightarrow>
          (if length raw > 1048576 \<or> status < 200 \<or> status \<ge> 300 then None else Some raw, w1)
      | (_, w1) \<Rightarrow> (None, w1))"

definition fetch :: "'r field_setter \<Rightarrow> 'r \<Rightarrow> GitHub \<Rightarrow> 'w http_client \<Rightarrow> string \<Rightarrow> 'w \<Rightarrow> 'r option \<times> 'w" where
  "fetch setter zero g client path w =
     (case github_call g client path w of
        (None, w1) \<Rightarrow> (None, w1)
      | (Some raw, w1) \<Rightarrow> (unmarshal (\<lambda>v. setter v zero) raw, w1))"

section \<open>What is decoded\<close>

record Pull =
  pl_Number :: int
  pl_SHA :: string
  pl_FullName :: string

definition zero_pull :: Pull where
  "zero_pull = \<lparr>pl_Number = 0, pl_SHA = [], pl_FullName = []\<rparr>"

definition pull_fields :: "(string \<times> Pull field_setter) list" where
  "pull_fields =
     [(''number'', set_int (\<lambda>x p. p\<lparr>pl_Number := x\<rparr>)),
      (''head'', decode_struct_lax
         [(''sha'', set_string (\<lambda>x p. p\<lparr>pl_SHA := x\<rparr>)),
          (''repo'', decode_struct_lax [(''full_name'', set_string (\<lambda>x p. p\<lparr>pl_FullName := x\<rparr>))])])]"

record HookEvent =
  he_Action :: string
  he_Number :: int
  he_Repository :: string
  he_PullRequest :: Pull

definition hook_event_fields :: "(string \<times> HookEvent field_setter) list" where
  "hook_event_fields =
     [(''action'', set_string (\<lambda>x e. e\<lparr>he_Action := x\<rparr>)), (''number'', set_int (\<lambda>x e. e\<lparr>he_Number := x\<rparr>)),
      (''repository'', decode_struct_lax [(''full_name'', set_string (\<lambda>x e. e\<lparr>he_Repository := x\<rparr>))]),
      (''pull_request'', set_nested (decode_struct_lax pull_fields) he_PullRequest (\<lambda>x e. e\<lparr>he_PullRequest := x\<rparr>))]"

definition hook_event :: "string \<Rightarrow> HookEvent option" where
  "hook_event body =
     unmarshal (\<lambda>v. decode_struct_lax hook_event_fields v
       \<lparr>he_Action = [], he_Number = 0, he_Repository = [], he_PullRequest = zero_pull\<rparr>) body"

record PatchFile =
  pf_Filename :: string
  pf_Status :: string
  pf_Patch :: string

definition patch_file_fields :: "(string \<times> PatchFile field_setter) list" where
  "patch_file_fields =
     [(''filename'', set_string (\<lambda>x f. f\<lparr>pf_Filename := x\<rparr>)), (''status'', set_string (\<lambda>x f. f\<lparr>pf_Status := x\<rparr>)),
      (''patch'', set_string (\<lambda>x f. f\<lparr>pf_Patch := x\<rparr>))]"

definition patch_files :: "PatchFile list field_setter" where
  "patch_files =
     set_slice (decode_struct_lax patch_file_fields) \<lparr>pf_Filename = [], pf_Status = [], pf_Patch = []\<rparr> (\<lambda>fs. fs) (\<lambda>fs _. fs)"

text \<open>\<open>struct{ Encoding, Content string }\<close>, as a pair.\<close>

definition content_fields :: "(string \<times> (string \<times> string) field_setter) list" where
  "content_fields =
     [(''Encoding'', set_string (\<lambda>x c. (x, snd c))), (''Content'', set_string (\<lambda>x c. (fst c, x)))]"

text \<open>\<open>base64.StdEncoding\<close>: carriage returns and newlines are skipped, the last quantum is padded, the bits it does
  not use are not checked.\<close>

definition base64_value :: "char \<Rightarrow> nat option" where
  "base64_value c =
     (let n = ord c
      in if 65 \<le> n \<and> n \<le> 90 then Some (n - 65)
         else if 97 \<le> n \<and> n \<le> 122 then Some (n - 71)
         else if 48 \<le> n \<and> n \<le> 57 then Some (n + 4)
         else if c = CHR ''+'' then Some 62
         else if c = CHR ''/'' then Some 63
         else None)"

definition base64_quantum :: "nat \<Rightarrow> nat \<Rightarrow> nat \<Rightarrow> nat \<Rightarrow> string" where
  "base64_quantum a b c d =
     (let n = a * 262144 + b * 4096 + c * 64 + d in [chr (n div 65536), chr (n div 256 mod 256), chr (n mod 256)])"

fun base64_loop :: "string \<Rightarrow> string option" where
  "base64_loop [] = Some []"
| "base64_loop (a # b # c # d # s) =
     (case (base64_value a, base64_value b) of
        (Some x, Some y) \<Rightarrow>
          if c = CHR ''='' then (if d = CHR ''='' \<and> s = [] then Some (take 1 (base64_quantum x y 0 0)) else None)
          else (case base64_value c of
             None \<Rightarrow> None
           | Some z \<Rightarrow>
               if d = CHR ''='' then (if s = [] then Some (take 2 (base64_quantum x y z 0)) else None)
               else (case base64_value d of
                  None \<Rightarrow> None
                | Some u \<Rightarrow> map_option (\<lambda>t. base64_quantum x y z u @ t) (base64_loop s)))
      | _ \<Rightarrow> None)"
| "base64_loop s = None"

definition base64_decode :: "string \<Rightarrow> string option" where
  "base64_decode s = base64_loop (filter (\<lambda>c. c \<noteq> CHR 0x0A \<and> c \<noteq> CHR 0x0D) s)"

text \<open>\<open>url.PathEscape\<close>.\<close>

definition upper_hex :: "nat \<Rightarrow> char" where
  "upper_hex n = (if n < 10 then chr (48 + n) else chr (55 + n))"

definition path_byte :: "char \<Rightarrow> string" where
  "path_byte c = (if is_alnum c \<or> c \<in> set ''-_.~$&+=:@'' then [c] else [CHR ''%'', upper_hex (ord c div 16), upper_hex (ord c mod 16)])"

definition PathEscape :: "string \<Rightarrow> string" where
  "PathEscape s = concat (map path_byte s)"

text \<open>\<open>^[A-Za-z0-9_.-]+/[A-Za-z0-9_.-]+$\<close> and \<open>^[a-fA-F0-9]{40}$\<close>\<close>

definition repo_byte :: "char \<Rightarrow> bool" where
  "repo_byte c \<longleftrightarrow> is_alnum c \<or> c = CHR ''_'' \<or> c = CHR ''.'' \<or> c = CHR ''-''"

definition is_repository :: "string \<Rightarrow> bool" where
  "is_repository s \<longleftrightarrow> (case Split1 (CHR ''/'') s of [a, b] \<Rightarrow> a \<noteq> [] \<and> b \<noteq> [] \<and> list_all repo_byte (a @ b) | _ \<Rightarrow> False)"

definition is_sha :: "string \<Rightarrow> bool" where
  "is_sha s \<longleftrightarrow> length s = 40 \<and> list_all (\<lambda>c. hex_val c \<noteq> None) s"

section \<open>The paths of the API\<close>

definition pull_path :: "string \<Rightarrow> int \<Rightarrow> string" where
  "pull_path repo number = ''/repos/'' @ repo @ ''/pulls/'' @ int_dec number"

definition files_path :: "string \<Rightarrow> int \<Rightarrow> nat \<Rightarrow> string" where
  "files_path repo number page = pull_path repo number @ ''/files?per_page=100&page='' @ nat_dec page"

definition content_path :: "Pull \<Rightarrow> string \<Rightarrow> string" where
  "content_path actual file =
     ''/repos/'' @ pl_FullName actual @ ''/contents/'' @ Join (map PathEscape (Split1 (CHR ''/'') file)) ''/'' @
     ''?ref='' @ pl_SHA actual"

definition currentPull :: "GitHub \<Rightarrow> 'w http_client \<Rightarrow> string \<Rightarrow> int \<Rightarrow> 'w \<Rightarrow> Pull option \<times> 'w" where
  "currentPull g client repo number = fetch (decode_struct_lax pull_fields) zero_pull g client (pull_path repo number)"

section \<open>Receiving an event\<close>

record HookRequest =
  hq_Signature :: string
  hq_Event :: string
  hq_Delivery :: string
  hq_Body :: "string option"

text \<open>The jobs of a reply; the four shapes of a reply.\<close>

record HookJob =
  hj_DeliveryID :: string
  hj_JobID :: string
  hj_File :: string
  hj_StartLine :: int
  hj_EndLine :: int
  hj_Duplicate :: bool

datatype hook_reply =
    HookCode int string
  | HookStatus string
  | HookPartial string "HookJob list"
  | HookQueued "HookJob list" nat

text \<open>What a request needs of its surroundings; the time of the \<open>n\<close>-th receive is \<open>hk_times n\<close>.\<close>

record ('w, 's) HookEnv =
  hk_U :: unicode_tables
  hk_P :: sql_parser
  hk_H :: hash
  hk_hmac :: "string \<Rightarrow> string \<Rightarrow> string"
  hk_client :: "'w http_client"
  hk_recv :: "'s receiver"
  hk_times :: "nat \<Rightarrow> time"

text \<open>The pull request at hand: the delivery, the event, and the head that the API answers.\<close>

record HookPull =
  hp_Delivery :: string
  hp_Event :: HookEvent
  hp_Actual :: Pull

definition source_json :: "HookPull \<Rightarrow> string \<Rightarrow> Statement \<Rightarrow> string" where
  "source_json pr file st =
     enc_object (f_str ''repository'' (he_Repository (hp_Event pr)) @ f_str ''head_sha'' (pl_SHA (hp_Actual pr)) @
       f_str ''file'' file @ [(''start_line'', int_dec (stm_StartLine st)), (''end_line'', int_dec (stm_EndLine st))])"

definition hook_delivery :: "hash \<Rightarrow> HookPull \<Rightarrow> string \<Rightarrow> Statement \<Rightarrow> string" where
  "hook_delivery H pr file st = H (hp_Delivery pr @ [CHR 0x00] @ file @ [CHR 0x00] @ int_dec (stm_StartLine st))"

definition hook_input :: "hash \<Rightarrow> HookPull \<Rightarrow> string \<Rightarrow> Statement \<Rightarrow> ReceiveInput" where
  "hook_input H pr file st =
     \<lparr>in_Options = zero_options, in_DeliveryID = hook_delivery H pr file st, in_PRNumber = he_Number (hp_Event pr),
      in_SQL = stm_SQL st, in_CandidateSpec = ''{}'', in_SourceJSON = source_json pr file st\<rparr>"

definition hook_job :: "hash \<Rightarrow> HookPull \<Rightarrow> string \<Rightarrow> Statement \<Rightarrow> ReceiveResult \<Rightarrow> HookJob" where
  "hook_job H pr file st v =
     \<lparr>hj_DeliveryID = hook_delivery H pr file st, hj_JobID = j_ID (res_Job v), hj_File = file,
      hj_StartLine = stm_StartLine st, hj_EndLine = stm_EndLine st, hj_Duplicate = res_Duplicate v\<rparr>"

definition relevant :: "PatchFile \<Rightarrow> Statement \<Rightarrow> bool" where
  "relevant file st \<longleftrightarrow>
     pf_Status file = ''added'' \<or> list_ex (\<lambda>line. line \<in> ChangedLines (pf_Patch file)) [stm_StartLine st..stm_EndLine st]"

definition admitted :: "('w, 's) HookEnv \<Rightarrow> string \<Rightarrow> bool" where
  "admitted env sql \<longleftrightarrow> ad_Accepted (Sql_Admit.Admit (hk_U env) (hk_P env) sql)"

text \<open>A reply ends the request; otherwise the jobs so far and the number of ignored statements go on.\<close>

type_synonym hook_progress = "hook_reply + HookJob list \<times> nat"

fun hook_statements ::
  "('w, 's) HookEnv \<Rightarrow> HookPull \<Rightarrow> PatchFile \<Rightarrow> Statement list \<Rightarrow> HookJob list \<Rightarrow> nat \<Rightarrow> 's \<Rightarrow> hook_progress \<times> 's" where
  "hook_statements env pr file [] jobs ignored s = (Inr (jobs, ignored), s)"
| "hook_statements env pr file (st # sts) jobs ignored s =
     (if \<not> admitted env (stm_SQL st) then hook_statements env pr file sts jobs (ignored + 1) s
      else if \<not> relevant file st then hook_statements env pr file sts jobs ignored s
      else if length (stm_SQL st) > 65536 \<or> length jobs \<ge> 20 then (Inl (HookPartial ''sql_limit_exceeded'' jobs), s)
      else case hk_recv env (hk_times env (length jobs)) (hook_input (hk_H env) pr (pf_Filename file) st) s of
          (Inl e, s1) \<Rightarrow>
            (Inl (if e = ErrBacklogFull then HookCode 429 ''job_backlog_full'' else HookCode 503 ''store_unavailable''), s1)
        | (Inr v, s1) \<Rightarrow> hook_statements env pr file sts (jobs @ [hook_job (hk_H env) pr (pf_Filename file) st v]) ignored s1)"

definition is_sql_file :: "('w, 's) HookEnv \<Rightarrow> GitHub \<Rightarrow> PatchFile \<Rightarrow> bool" where
  "is_sql_file env g file \<longleftrightarrow>
     pf_Status file \<noteq> ''removed'' \<and> HasSuffix (ToLower (hk_U env) (pf_Filename file)) ''.sql''"

text \<open>The text of a file at the head.\<close>

definition file_text :: "('w, 's) HookEnv \<Rightarrow> GitHub \<Rightarrow> HookPull \<Rightarrow> PatchFile \<Rightarrow> 'w \<Rightarrow> (hook_reply + string) \<times> 'w" where
  "file_text env g pr file w =
     (case fetch (decode_struct_lax content_fields) ([], []) g (hk_client env) (content_path (hp_Actual pr) (pf_Filename file)) w of
        (None, w1) \<Rightarrow> (Inl (HookCode 503 ''head_file_unavailable''), w1)
      | (Some (encoding, content), w1) \<Rightarrow>
          (if encoding \<noteq> ''base64'' then Inl (HookCode 503 ''head_file_unavailable'')
           else case base64_decode (filter (\<lambda>c. c \<noteq> CHR 0x0A) content) of
               None \<Rightarrow> Inl (HookCode 422 ''sql_file_too_large'')
             | Some raw \<Rightarrow> if length raw > 262144 then Inl (HookCode 422 ''sql_file_too_large'') else Inr raw, w1))"

definition hook_file ::
  "('w, 's) HookEnv \<Rightarrow> GitHub \<Rightarrow> HookPull \<Rightarrow> PatchFile \<Rightarrow> HookJob list \<Rightarrow> nat \<Rightarrow> 'w \<times> 's \<Rightarrow> hook_progress \<times> 'w \<times> 's" where
  "hook_file env g pr file jobs ignored ws =
     (if \<not> is_sql_file env g file then (Inr (jobs, ignored), ws)
      else if length jobs \<ge> 20 then (Inl (HookPartial ''too_many_sql_statements'' jobs), ws)
      else case file_text env g pr file (fst ws) of
          (Inl e, w1) \<Rightarrow> (Inl e, w1, snd ws)
        | (Inr raw, w1) \<Rightarrow>
            (case Statements raw of
               None \<Rightarrow> (Inr (jobs, ignored + 1), w1, snd ws)
             | Some sts \<Rightarrow>
                 if pf_Status file \<noteq> ''added'' \<and> pf_Patch file = []
                 then (Inl (HookCode 422 ''missing_patch_requires_manual_review''), w1, snd ws)
                 else (case hook_statements env pr file sts jobs ignored (snd ws) of (r, s1) \<Rightarrow> (r, w1, s1))))"

fun hook_files ::
  "('w, 's) HookEnv \<Rightarrow> GitHub \<Rightarrow> HookPull \<Rightarrow> PatchFile list \<Rightarrow> HookJob list \<Rightarrow> nat \<Rightarrow> 'w \<times> 's \<Rightarrow> hook_progress \<times> 'w \<times> 's" where
  "hook_files env g pr [] jobs ignored ws = (Inr (jobs, ignored), ws)"
| "hook_files env g pr (file # files) jobs ignored ws =
     (case hook_file env g pr file jobs ignored ws of
        (Inl e, ws1) \<Rightarrow> (Inl e, ws1)
      | (Inr (jobs1, ignored1), ws1) \<Rightarrow> hook_files env g pr files jobs1 ignored1 ws1)"

text \<open>The pages that are left, at most ten.\<close>

fun hook_pages ::
  "('w, 's) HookEnv \<Rightarrow> GitHub \<Rightarrow> HookPull \<Rightarrow> nat \<Rightarrow> HookJob list \<Rightarrow> nat \<Rightarrow> 'w \<times> 's \<Rightarrow> hook_reply \<times> 'w \<times> 's" where
  "hook_pages env g pr 0 jobs ignored ws = (HookPartial ''too_many_changed_files'' jobs, ws)"
| "hook_pages env g pr (Suc n) jobs ignored ws =
     (case fetch patch_files [] g (hk_client env)
         (files_path (he_Repository (hp_Event pr)) (he_Number (hp_Event pr)) (10 - n)) (fst ws) of
        (None, w1) \<Rightarrow> (HookCode 503 ''github_unavailable'', w1, snd ws)
      | (Some files, w1) \<Rightarrow>
          (case hook_files env g pr files jobs ignored (w1, snd ws) of
             (Inl e, ws2) \<Rightarrow> (e, ws2)
           | (Inr (jobs1, ignored1), ws2) \<Rightarrow>
               if length files < 100 then (HookQueued jobs1 ignored1, ws2)
               else hook_pages env g pr n jobs1 ignored1 ws2))"

definition hook_signed :: "('w, 's) HookEnv \<Rightarrow> GitHub \<Rightarrow> HookRequest \<Rightarrow> string \<Rightarrow> bool" where
  "hook_signed env g r body \<longleftrightarrow>
     gh_Secret g \<noteq> [] \<and> HasPrefix (hq_Signature r) ''sha256=''
     \<and> hex_decode (TrimPrefix (hq_Signature r) ''sha256='') = Some (hk_hmac env (gh_Secret g) body)"

definition hook_actions :: "string list" where
  "hook_actions = [''opened'', ''synchronize'', ''reopened'', ''ready_for_review'']"

text \<open>The event that a signed body must hold.\<close>

definition hook_admits :: "GitHub \<Rightarrow> HookRequest \<Rightarrow> HookEvent \<Rightarrow> bool" where
  "hook_admits g r e \<longleftrightarrow>
     is_delivery (hq_Delivery r) \<and> he_Number e \<ge> 1 \<and> is_repository (he_Repository e) \<and> gh_Repositories g (he_Repository e)"

definition github_Receive :: "('w, 's) HookEnv \<Rightarrow> GitHub \<Rightarrow> HookRequest \<Rightarrow> 'w \<times> 's \<Rightarrow> hook_reply \<times> 'w \<times> 's" where
  "github_Receive env g r ws =
     (case hq_Body r of None \<Rightarrow> (HookCode 413 ''body_too_large'', ws) | Some body \<Rightarrow>
        if length body > 1048576 then (HookCode 413 ''body_too_large'', ws)
        else if \<not> hook_signed env g r body then (HookCode 401 ''invalid_signature'', ws)
        else if hq_Event r = ''ping'' then (HookStatus ''pong'', ws)
        else if hq_Event r \<noteq> ''pull_request'' then (HookStatus ''ignored_event'', ws)
        else case hook_event body of None \<Rightarrow> (HookCode 400 ''event_rejected'', ws) | Some e \<Rightarrow>
          if \<not> hook_admits g r e then (HookCode 400 ''event_rejected'', ws)
          else if he_Action e \<notin> set hook_actions then (HookStatus ''ignored_action'', ws)
          else case currentPull g (hk_client env) (he_Repository e) (he_Number e) (fst ws) of
              (None, w1) \<Rightarrow> (HookCode 503 ''github_unavailable'', w1, snd ws)
            | (Some actual, w1) \<Rightarrow>
                if pl_SHA actual \<noteq> pl_SHA (he_PullRequest e) then (HookStatus ''superseded'', w1, snd ws)
                else if \<not> is_sha (pl_SHA actual) \<or> \<not> is_repository (pl_FullName actual) then (HookCode 400 ''head_rejected'', w1, snd ws)
                else hook_pages env g \<lparr>hp_Delivery = hq_Delivery r, hp_Event = e, hp_Actual = actual\<rparr> 10 [] 0 (w1, snd ws))"

section \<open>What is queued\<close>

text \<open>The inputs that a request may queue.\<close>

definition at_head :: "('w, 's) HookEnv \<Rightarrow> GitHub \<Rightarrow> HookRequest \<Rightarrow> HookPull \<Rightarrow> bool" where
  "at_head env g r pr \<longleftrightarrow>
     (\<exists>body w. hq_Body r = Some body \<and> hook_signed env g r body \<and> hook_event body = Some (hp_Event pr)
        \<and> hook_admits g r (hp_Event pr) \<and> he_Action (hp_Event pr) \<in> set hook_actions \<and> hp_Delivery pr = hq_Delivery r
        \<and> fst (currentPull g (hk_client env) (he_Repository (hp_Event pr)) (he_Number (hp_Event pr)) w) = Some (hp_Actual pr)
        \<and> pl_SHA (hp_Actual pr) = pl_SHA (he_PullRequest (hp_Event pr)) \<and> is_sha (pl_SHA (hp_Actual pr)))"

definition listed :: "('w, 's) HookEnv \<Rightarrow> GitHub \<Rightarrow> HookPull \<Rightarrow> PatchFile \<Rightarrow> bool" where
  "listed env g pr file \<longleftrightarrow>
     (\<exists>page w files. fst (fetch patch_files [] g (hk_client env)
          (files_path (he_Repository (hp_Event pr)) (he_Number (hp_Event pr)) page) w) = Some files
        \<and> file \<in> set files)"

definition fit_statement :: "('w, 's) HookEnv \<Rightarrow> GitHub \<Rightarrow> HookPull \<Rightarrow> PatchFile \<Rightarrow> Statement \<Rightarrow> bool" where
  "fit_statement env g pr file st \<longleftrightarrow>
     is_sql_file env g file \<and> admitted env (stm_SQL st) \<and> relevant file st \<and> length (stm_SQL st) \<le> 65536
     \<and> (\<exists>w raw sts. fst (file_text env g pr file w) = Inr raw \<and> Statements raw = Some sts \<and> st \<in> set sts)"

definition genuine :: "('w, 's) HookEnv \<Rightarrow> GitHub \<Rightarrow> HookRequest \<Rightarrow> ReceiveInput \<Rightarrow> bool" where
  "genuine env g r inp \<longleftrightarrow>
     (\<exists>pr file st. at_head env g r pr \<and> listed env g pr file \<and> fit_statement env g pr file st
        \<and> inp = hook_input (hk_H env) pr (pf_Filename file) st)"

text \<open>\<open>n\<close> receives of inputs that satisfy \<open>ok\<close>.\<close>

inductive receives :: "'s receiver \<Rightarrow> (ReceiveInput \<Rightarrow> bool) \<Rightarrow> nat \<Rightarrow> 's \<Rightarrow> 's \<Rightarrow> bool" for recv ok where
  none_received: "receives recv ok 0 s s"
| one_more: "receives recv ok n s s1 \<Longrightarrow> ok inp \<Longrightarrow> receives recv ok (Suc n) s (snd (recv t inp s1))"

inductive_simps receives_0 [simp]: "receives recv ok 0 s s'"

lemma receives_one: "ok inp \<Longrightarrow> receives recv ok 1 s (snd (recv t inp s))"
  using one_more [OF none_received] by simp

lemma receives_add: "receives recv ok m s1 s2 \<Longrightarrow> receives recv ok n s s1 \<Longrightarrow> receives recv ok (n + m) s s2"
  by (induction rule: receives.induct) (auto intro: one_more)

text \<open>The jobs of a reply are counted, and never more than twenty.\<close>

definition counted :: "HookJob list \<Rightarrow> nat \<Rightarrow> hook_progress \<Rightarrow> bool" where
  "counted jobs n r \<longleftrightarrow>
     (case r of Inl _ \<Rightarrow> length jobs + n \<le> 20 | Inr (jobs1, _) \<Rightarrow> length jobs1 = length jobs + n \<and> length jobs1 \<le> 20)"

lemma counted_simps [simp]:
  "counted jobs n (Inl e) \<longleftrightarrow> length jobs + n \<le> 20"
  "counted jobs n (Inr (jobs1, k)) \<longleftrightarrow> length jobs1 = length jobs + n \<and> length jobs1 \<le> 20"
  by (simp_all add: counted_def)

lemma hook_statements_receives:
  assumes "hook_statements env pr file sts jobs ignored s = (r, s1)" "length jobs \<le> 20"
    and "\<And>st. st \<in> set sts \<Longrightarrow> admitted env (stm_SQL st) \<Longrightarrow> relevant file st \<Longrightarrow> length (stm_SQL st) \<le> 65536
      \<Longrightarrow> ok (hook_input (hk_H env) pr (pf_Filename file) st)"
  shows "\<exists>n. receives (hk_recv env) ok n s s1 \<and> counted jobs n r"
  using assms
proof (induction sts arbitrary: jobs ignored s)
  case Nil
  then show ?case by auto
next
  case (Cons st sts)
  let ?inp = "hook_input (hk_H env) pr (pf_Filename file) st"
  note run = Cons.prems(1) [unfolded hook_statements.simps(2)]
  consider (skip) "\<exists>k. hook_statements env pr file sts jobs k s = (r, s1)"
    | (full) "s1 = s" "r = Inl (HookPartial ''sql_limit_exceeded'' jobs)"
    | (recv) "admitted env (stm_SQL st)" "relevant file st" "\<not> (length (stm_SQL st) > 65536 \<or> length jobs \<ge> 20)"
  proof (cases "admitted env (stm_SQL st) \<and> relevant file st")
    case True
    then show ?thesis using run that(2,3) by (cases "length (stm_SQL st) > 65536 \<or> length jobs \<ge> 20") simp_all
  next
    case False
    then show ?thesis using run that(1) by (cases "admitted env (stm_SQL st)") auto
  qed
  then show ?case
  proof cases
    case skip
    then show ?thesis using Cons.IH Cons.prems(2,3) by (metis list.set_intros(2))
  next
    case full
    then show ?thesis using Cons.prems(2) by (intro exI [of _ 0]) auto
  next
    case recv
    then have "ok ?inp" "length jobs < 20" using Cons.prems(3) by simp_all
    note room = this(2)
    note one = receives_one [of ok, OF \<open>ok ?inp\<close>, of "hk_recv env" s "hk_times env (length jobs)"]
    show ?thesis
    proof (cases "hk_recv env (hk_times env (length jobs)) ?inp s")
      case (Pair v s2)
      then have one: "receives (hk_recv env) ok 1 s s2" using one by simp
      show ?thesis
      proof (cases v)
        case (Inl e)
        then have "s1 = s2" "\<exists>c. r = Inl c" using run recv Pair by auto
        then show ?thesis using one room by (intro exI [of _ 1]) auto
      next
        case (Inr x)
        let ?jobs = "jobs @ [hook_job (hk_H env) pr (pf_Filename file) st x]"
        have "hook_statements env pr file sts ?jobs ignored s2 = (r, s1)" using run recv Pair Inr by simp
        moreover have "length ?jobs \<le> 20" using room by simp
        ultimately obtain n where n: "receives (hk_recv env) ok n s2 s1" "counted ?jobs n r"
          using Cons.IH Cons.prems(3) by (metis list.set_intros(2))
        then show ?thesis using receives_add [OF n(1) one] by (intro exI [of _ "1 + n"]) (auto simp: counted_def split: sum.splits)
      qed
    qed
  qed
qed

lemma hook_file_receives:
  assumes "hook_file env g pr file jobs ignored (w, s) = (r, w1, s1)" "length jobs \<le> 20"
    and "\<And>st. fit_statement env g pr file st \<Longrightarrow> ok (hook_input (hk_H env) pr (pf_Filename file) st)"
  shows "\<exists>n. receives (hk_recv env) ok n s s1 \<and> counted jobs n r"
proof -
  consider (stay) "s1 = s" "(\<exists>e. r = Inl e) \<or> (\<exists>k. r = Inr (jobs, k))"
    | (run) w2 raw sts where "is_sql_file env g file" "file_text env g pr file w = (Inr raw, w2)" "Statements raw = Some sts"
        "hook_statements env pr file sts jobs ignored s = (r, s1)"
    using assms(1) by (auto simp: hook_file_def split: if_splits prod.splits sum.splits option.splits)
  then show ?thesis
  proof cases
    case stay
    then show ?thesis using assms(2) by (intro exI [of _ 0]) auto
  next
    case run
    have "fst (file_text env g pr file w) = Inr raw" using run(2) by simp
    then have "ok (hook_input (hk_H env) pr (pf_Filename file) st)"
      if "st \<in> set sts" "admitted env (stm_SQL st)" "relevant file st" "length (stm_SQL st) \<le> 65536" for st
      using that run(1,3) by (intro assms(3)) (auto simp: fit_statement_def)
    then show ?thesis by (rule hook_statements_receives [OF run(4) assms(2)])
  qed
qed

lemma hook_files_receives:
  assumes "hook_files env g pr files jobs ignored (w, s) = (r, w1, s1)" "length jobs \<le> 20"
    and "\<And>file st. file \<in> set files \<Longrightarrow> fit_statement env g pr file st \<Longrightarrow> ok (hook_input (hk_H env) pr (pf_Filename file) st)"
  shows "\<exists>n. receives (hk_recv env) ok n s s1 \<and> counted jobs n r"
  using assms
proof (induction files arbitrary: jobs ignored w s)
  case Nil
  then show ?case by auto
next
  case (Cons f fs)
  obtain r2 w2 s2 where run: "hook_file env g pr f jobs ignored (w, s) = (r2, w2, s2)" by (metis surj_pair)
  then obtain n where n: "receives (hk_recv env) ok n s s2" "counted jobs n r2"
    using hook_file_receives [OF run] Cons.prems(2,3) by (metis list.set_intros(1))
  show ?case
  proof (cases r2)
    case (Inl e)
    then show ?thesis using n run Cons.prems(1) by auto
  next
    case (Inr x)
    obtain jobs1 k where x: "x = (jobs1, k)" by fastforce
    have jobs1: "length jobs1 = length jobs + n" "length jobs1 \<le> 20" using n(2) by (simp_all add: Inr x)
    have "hook_files env g pr fs jobs1 k (w2, s2) = (r, w1, s1)" using Cons.prems(1) run Inr x by simp
    then obtain m where m: "receives (hk_recv env) ok m s2 s1" "counted jobs1 m r"
      using Cons.IH jobs1(2) Cons.prems(3) by (metis list.set_intros(2))
    then show ?thesis using receives_add [OF m(1) n(1)] jobs1(1)
      by (intro exI [of _ "n + m"]) (auto simp: counted_def split: sum.splits)
  qed
qed

lemma hook_pages_receives:
  assumes "hook_pages env g pr k jobs ignored (w, s) = (r, w1, s1)" "length jobs \<le> 20"
    and "\<And>file st. listed env g pr file \<Longrightarrow> fit_statement env g pr file st \<Longrightarrow> ok (hook_input (hk_H env) pr (pf_Filename file) st)"
  shows "\<exists>n. receives (hk_recv env) ok n s s1 \<and> length jobs + n \<le> 20"
  using assms
proof (induction k arbitrary: jobs ignored w s)
  case 0
  then show ?case by (intro exI [of _ 0]) auto
next
  case (Suc k)
  let ?path = "files_path (he_Repository (hp_Event pr)) (he_Number (hp_Event pr)) (10 - k)"
  obtain a w2 where fetch: "fetch patch_files [] g (hk_client env) ?path w = (a, w2)" by fastforce
  show ?case
  proof (cases a)
    case None
    then show ?thesis using Suc.prems fetch by (intro exI [of _ 0]) auto
  next
    case (Some files)
    have "listed env g pr f" if "f \<in> set files" for f
      unfolding listed_def using fetch Some that by (metis fst_conv)
    then have ok: "ok (hook_input (hk_H env) pr (pf_Filename f) st)"
      if "f \<in> set files" "fit_statement env g pr f st" for f st using that Suc.prems(3) by blast
    obtain r2 w3 s3 where run: "hook_files env g pr files jobs ignored (w2, s) = (r2, w3, s3)" by (metis surj_pair)
    obtain n where n: "receives (hk_recv env) ok n s s3" "counted jobs n r2"
      using hook_files_receives [where ok = ok, OF run Suc.prems(2)] ok by blast
    show ?thesis
    proof (cases r2)
      case (Inl e)
      then show ?thesis using Suc.prems(1) fetch Some run n by auto
    next
      case (Inr x)
      obtain jobs1 i where x: "x = (jobs1, i)" by fastforce
      show ?thesis
      proof (cases "length files < 100")
        case True
        then show ?thesis using Suc.prems(1) fetch Some run n Inr x by auto
      next
        case False
        then have "hook_pages env g pr k jobs1 i (w3, s3) = (r, w1, s1)" using Suc.prems(1) fetch Some run Inr x by simp
        then obtain m where "receives (hk_recv env) ok m s3 s1" "length jobs1 + m \<le> 20"
          using Suc.IH Suc.prems(3) n(2) Inr x by (metis counted_simps(2))
        then show ?thesis using receives_add n Inr x by (intro exI [of _ "n + m"]) auto
      qed
    qed
  qed
qed

text \<open>
  C18: a webhook request reaches the store only through at most twenty receives, each of a statement that is genuine:
  the body is signed and names an allowed repository, the statement stands in an SQL file of the pull request as
  the API gives it at its current head, the event names that head, the statement is admitted, at most 64 KiB long and
  touched by the patch, and the input carries its place.
\<close>

theorem only_touched_head_statements_are_queued:
  "\<exists>n. n \<le> 20 \<and> receives (hk_recv env) (genuine env g r) n s (snd (snd (github_Receive env g r (w, s))))"
proof -
  obtain reply w1 s1 where run: "github_Receive env g r (w, s) = (reply, w1, s1)" by (metis surj_pair)
  consider (stay) "s1 = s"
    | (go) body e actual w2 pr where "hq_Body r = Some body" "hook_signed env g r body" "hook_event body = Some e" "hook_admits g r e"
        "he_Action e \<in> set hook_actions" "currentPull g (hk_client env) (he_Repository e) (he_Number e) w = (Some actual, w2)"
        "pl_SHA actual = pl_SHA (he_PullRequest e)" "is_sha (pl_SHA actual)"
        "pr = \<lparr>hp_Delivery = hq_Delivery r, hp_Event = e, hp_Actual = actual\<rparr>" "hook_pages env g pr 10 [] 0 (w2, s) = (reply, w1, s1)"
    using run by (auto simp: github_Receive_def split: option.splits if_splits prod.splits)
  then show ?thesis
  proof cases
    case stay
    then show ?thesis using run by (intro exI [of _ 0]) simp
  next
    case go
    have "at_head env g r pr"
      unfolding at_head_def using go by (intro exI [of _ body] exI [of _ w]) simp
    then have "genuine env g r (hook_input (hk_H env) pr (pf_Filename f) st)"
      if "listed env g pr f" "fit_statement env g pr f st" for f st
      using that by (auto simp: genuine_def)
    then show ?thesis using hook_pages_receives [OF go(10), of "genuine env g r"] run by auto
  qed
qed

section \<open>Redelivery\<close>

text \<open>The deliveries of the durable store.  A receive keeps them, adds its own when it succeeds, and leaves the tables
  alone when its delivery is known.\<close>

definition deliveries :: "MySQL \<Rightarrow> string set" where
  "deliveries s = r_delivery_id ` set (t_jobs (my_tables s))"

lemma my_Receive_deliveries:
  assumes "my_Receive H q carrier now inp s = (r, s1)"
  shows "deliveries s \<subseteq> deliveries s1"
    and "\<And>v. r = Inr v \<Longrightarrow> in_DeliveryID inp \<in> deliveries s1"
    and "in_DeliveryID inp \<in> deliveries s \<Longrightarrow> my_tables s1 = my_tables s"
proof -
  note post = my_Receive_post [OF assms, unfolded my_receive_post_def]
  have ins: "deliveries s1 = insert (in_DeliveryID inp) (deliveries s)" "in_DeliveryID inp \<notin> deliveries s"
    if "inserted_post H q now (traced carrier inp) jobID (my_tables s) (my_tables s1)" for jobID
    using that by (simp_all add: inserted_post_def deliveries_def queued_row_def new_row_def traced_def)
  consider (same) "my_tables s1 = my_tables s" "\<And>v. r = Inr v \<Longrightarrow> in_DeliveryID inp \<in> deliveries s1"
    | (ins) jobID where "inserted_post H q now (traced carrier inp) jobID (my_tables s) (my_tables s1)"
  proof (cases "\<exists>jobID. inserted_post H q now (traced carrier inp) jobID (my_tables s) (my_tables s1)")
    case False
    then have "my_tables s1 = my_tables s" using post by (cases r) auto
    moreover have "in_DeliveryID inp \<in> deliveries s1" if r: "r = Inr v" for v
    proof -
      obtain row where "find_delivery (in_DeliveryID (traced carrier inp)) (my_tables s) = Some row" using post [unfolded r sum.case] False by blast
      then have "row \<in> set (t_jobs (my_tables s))" "r_delivery_id row = in_DeliveryID inp"
        using find_deliveryD by (auto simp: traced_def)
      then show ?thesis using calculation by (force simp: deliveries_def)
    qed
    ultimately show ?thesis by (rule that(1))
  qed (use that(2) in blast)
  note cases = this
  show "deliveries s \<subseteq> deliveries s1"
    using cases by cases (auto simp: deliveries_def dest: ins(1))
  show "in_DeliveryID inp \<in> deliveries s1" if "r = Inr v" for v
    using cases that by cases (auto dest: ins(1))
  show "my_tables s1 = my_tables s" if "in_DeliveryID inp \<in> deliveries s"
    using cases that by cases (auto dest: ins(2))
qed

text \<open>The answers of a client that depend on the request only.\<close>

definition steady :: "('w, 's) HookEnv \<Rightarrow> bool" where
  "steady env \<longleftrightarrow> (\<forall>token url w w'. fst (hk_client env token url w) = fst (hk_client env token url w'))"

lemma steady_fetch:
  assumes "steady env"
  shows "fst (fetch setter zero g (hk_client env) path w) = fst (fetch setter zero g (hk_client env) path w')"
proof -
  have "fst (hk_client env (gh_Token g) (github_base g @ path) w) = fst (hk_client env (gh_Token g) (github_base g @ path) w')"
    using assms unfolding steady_def by blast
  then show ?thesis
    by (auto simp: fetch_def github_call_def split: prod.splits option.splits)
qed

lemma steady_file_text:
  assumes "steady env"
  shows "fst (file_text env g pr f w) = fst (file_text env g pr f w')"
  using steady_fetch [OF assms, of "decode_struct_lax content_fields" "([], [])" g "content_path (hp_Actual pr) (pf_Filename f)" w w']
  by (auto simp: file_text_def split: prod.splits option.splits)

text \<open>A store that is asked again by the same request, at other times and with another trace.\<close>

definition again :: "('w, MySQL) HookEnv \<Rightarrow> hash \<Rightarrow> Database \<Rightarrow> string \<times> string \<Rightarrow> (nat \<Rightarrow> time) \<Rightarrow> ('w, MySQL) HookEnv" where
  "again env H q carrier clock = env\<lparr>hk_recv := my_Receive H q carrier, hk_times := clock\<rparr>"

lemma again_simps [simp]:
  "hk_U (again env H q c t) = hk_U env" "hk_P (again env H q c t) = hk_P env" "hk_H (again env H q c t) = hk_H env"
  "hk_hmac (again env H q c t) = hk_hmac env" "hk_client (again env H q c t) = hk_client env"
  "hk_recv (again env H q c t) = my_Receive H q c" "hk_times (again env H q c t) = t"
  "admitted (again env H q c t) = admitted env" "is_sql_file (again env H q c t) = is_sql_file env"
  "file_text (again env H q c t) = file_text env" "hook_signed (again env H q c t) = hook_signed env"
  "steady (again env H q c t) = steady env"
  by (simp_all add: again_def admitted_def is_sql_file_def file_text_def hook_signed_def steady_def fun_eq_iff)

lemma hook_statements_again:
  assumes "hook_statements env pr f sts jobs ignored s = (Inr x, s1)" "hk_recv env = my_Receive H q carrier"
  shows "deliveries s \<subseteq> deliveries s1 \<and> (\<forall>jobs2 ignored2 s2. deliveries s1 \<subseteq> deliveries s2 \<longrightarrow>
      my_tables (snd (hook_statements (again env H' q' c' t') pr f sts jobs2 ignored2 s2)) = my_tables s2)"
  using assms(1)
proof (induction sts arbitrary: jobs ignored s)
  case (Cons st sts)
  let ?inp = "hook_input (hk_H env) pr (pf_Filename f) st"
  let ?env = "again env H' q' c' t'"
  note run = Cons.prems [unfolded hook_statements.simps(2)]
  show ?case
  proof (cases "admitted env (stm_SQL st) \<and> relevant f st")
    case False
    then obtain k where k: "hook_statements env pr f sts jobs k s = (Inr x, s1)"
      using run by (cases "admitted env (stm_SQL st)") auto
    show ?thesis using Cons.IH [OF k] False by (auto simp: hook_statements.simps(2))
  next
    case True
    obtain r3 s3 where r3: "my_Receive H q carrier (hk_times env (length jobs)) ?inp s = (r3, s3)" by fastforce
    then obtain v where v: "r3 = Inr v"
      using run True assms(2) by (cases r3) (simp_all split: if_splits)
    have rest: "hook_statements env pr f sts (jobs @ [hook_job (hk_H env) pr (pf_Filename f) st v]) ignored s3 = (Inr x, s1)"
      using run True assms(2) r3 v by (simp split: if_splits)
    note ih = Cons.IH [OF rest]
    have known: "in_DeliveryID ?inp \<in> deliveries s1" using my_Receive_deliveries(2) [OF r3 v] ih by blast
    have "my_tables (snd (hook_statements ?env pr f (st # sts) jobs2 ignored2 s2)) = my_tables s2"
      if sub: "deliveries s1 \<subseteq> deliveries s2" for jobs2 ignored2 s2
    proof -
      obtain r4 s4 where r4: "my_Receive H' q' c' (t' (length jobs2)) ?inp s2 = (r4, s4)" by fastforce
      have s4: "my_tables s4 = my_tables s2" by (rule my_Receive_deliveries(3) [OF r4]) (use known sub in blast)
      then have "deliveries s1 \<subseteq> deliveries s4" using sub by (simp add: deliveries_def)
      then have "my_tables (snd (hook_statements ?env pr f sts jobs3 i s4)) = my_tables s2" for jobs3 i using ih s4 by metis
      then show ?thesis using True r4 s4 by (cases r4) (simp_all add: hook_statements.simps(2))
    qed
    then show ?thesis using my_Receive_deliveries(1) [OF r3] ih by blast
  qed
qed simp

lemma hook_file_again:
  assumes "hook_file env g pr f jobs ignored (w, s) = (Inr x, w1, s1)" "hk_recv env = my_Receive H q carrier" "steady env"
  shows "deliveries s \<subseteq> deliveries s1 \<and> (\<forall>jobs2 ignored2 w2 s2. deliveries s1 \<subseteq> deliveries s2 \<longrightarrow>
      my_tables (snd (snd (hook_file (again env H' q' c' t') g pr f jobs2 ignored2 (w2, s2)))) = my_tables s2)"
proof (cases "is_sql_file env g f")
  case False
  then show ?thesis using assms(1) by (simp add: hook_file_def)
next
  case True
  let ?env = "again env H' q' c' t'"
  obtain a w3 where a: "file_text env g pr f w = (a, w3)" by fastforce
  have room: "\<not> length jobs \<ge> 20" using assms(1) True by (auto simp: hook_file_def)
  note run = assms(1) [unfolded hook_file_def, simplified True room a fst_conv snd_conv not_True_eq_False if_False prod.case]
  obtain raw where raw: "a = Inr raw" using run by (cases a) simp_all
  have same: "\<exists>w4. file_text env g pr f w2 = (Inr raw, w4)" for w2
    using steady_file_text [OF assms(3), of g pr f w w2] a raw by (metis fst_conv surj_pair)
  show ?thesis
  proof (cases "Statements raw")
    case None
    have "my_tables (snd (snd (hook_file ?env g pr f jobs2 ignored2 (w2, s2)))) = my_tables s2" for jobs2 ignored2 w2 s2
      using same [of w2] None by (auto simp: hook_file_def)
    then show ?thesis using run raw None by (auto split: if_splits)
  next
    case (Some sts)
    then have sts: "hook_statements env pr f sts jobs ignored s = (Inr x, s1)"
      using run raw by (auto split: if_splits prod.splits)
    note ih = hook_statements_again [OF sts assms(2), of H' q' c' t']
    have "my_tables (snd (snd (hook_file ?env g pr f jobs2 ignored2 (w2, s2)))) = my_tables s2"
      if "deliveries s1 \<subseteq> deliveries s2" for jobs2 ignored2 w2 s2
    proof -
      have "my_tables (snd (hook_statements ?env pr f sts jobs2 ignored2 s2)) = my_tables s2" using ih that by blast
      then show ?thesis using same [of w2] Some by (auto simp: hook_file_def split: prod.split)
    qed
    then show ?thesis using ih by blast
  qed
qed

lemma hook_files_again:
  assumes "hook_files env g pr fs jobs ignored (w, s) = (Inr x, w1, s1)" "hk_recv env = my_Receive H q carrier" "steady env"
  shows "deliveries s \<subseteq> deliveries s1 \<and> (\<forall>jobs2 ignored2 w2 s2. deliveries s1 \<subseteq> deliveries s2 \<longrightarrow>
      my_tables (snd (snd (hook_files (again env H' q' c' t') g pr fs jobs2 ignored2 (w2, s2)))) = my_tables s2)"
  using assms(1)
proof (induction fs arbitrary: jobs ignored w s)
  case (Cons f fs)
  let ?env = "again env H' q' c' t'"
  obtain r3 w3 s3 where r3: "hook_file env g pr f jobs ignored (w, s) = (r3, w3, s3)" by (metis surj_pair)
  obtain y where y: "r3 = Inr y" using Cons.prems r3 by (cases r3) simp_all
  obtain jobs1 k where yy: "y = (jobs1, k)" by fastforce
  have rest: "hook_files env g pr fs jobs1 k (w3, s3) = (Inr x, w1, s1)" using Cons.prems r3 y yy by simp
  note ih = Cons.IH [OF rest]
  note first = hook_file_again [OF r3 [unfolded y] assms(2,3), of H' q' c' t']
  have "my_tables (snd (snd (hook_files ?env g pr (f # fs) jobs2 ignored2 (w2, s2)))) = my_tables s2"
    if sub: "deliveries s1 \<subseteq> deliveries s2" for jobs2 ignored2 w2 s2
  proof -
    obtain r4 w4 s4 where r4: "hook_file ?env g pr f jobs2 ignored2 (w2, s2) = (r4, w4, s4)" by (metis surj_pair)
    have "deliveries s3 \<subseteq> deliveries s2" using ih sub by blast
    then have s4: "my_tables s4 = my_tables s2" using first r4 by (metis snd_conv)
    then have "deliveries s1 \<subseteq> deliveries s4" using sub by (simp add: deliveries_def)
    then have "my_tables (snd (snd (hook_files ?env g pr fs jobs3 i (w4, s4)))) = my_tables s2" for jobs3 i using ih s4 by metis
    then show ?thesis using r4 s4 by (auto split: sum.split)
  qed
  then show ?case using first ih by blast
qed simp

text \<open>Success is answered at the end only.\<close>

lemma hook_statements_no_success: "fst (hook_statements env pr f sts jobs ignored s) \<noteq> Inl (HookQueued js k)"
proof (induction sts arbitrary: jobs ignored s)
  case (Cons st sts)
  then show ?case by (auto simp: hook_statements.simps(2) split: prod.split sum.split)
qed simp

lemma hook_file_no_success: "fst (hook_file env g pr f jobs ignored ws) \<noteq> Inl (HookQueued js k)"
proof -
  have "fst (file_text env g pr f w) \<noteq> Inl (HookQueued js k)" for w
    by (auto simp: file_text_def split: prod.split option.split)
  then have "file_text env g pr f w \<noteq> (Inl (HookQueued js k), w1)" for w w1 by (metis fst_conv)
  moreover have "hook_statements env pr f sts jobs ignored s \<noteq> (Inl (HookQueued js k), s1)" for sts s s1
    using hook_statements_no_success by (metis fst_conv)
  ultimately show ?thesis
    by (auto simp: hook_file_def split: prod.split sum.split option.split)
qed

lemma hook_files_no_success: "fst (hook_files env g pr fs jobs ignored ws) \<noteq> Inl (HookQueued js k)"
proof (induction fs arbitrary: jobs ignored ws)
  case (Cons f fs)
  have "hook_file env g pr f jobs ignored ws \<noteq> (Inl (HookQueued js k), ws1)" for ws1
    using hook_file_no_success by (metis fst_conv)
  then show ?case using Cons.IH by (auto split: prod.split sum.split)
qed simp

lemma hook_pages_again:
  assumes "hook_pages env g pr n jobs ignored (w, s) = (HookQueued js k, w1, s1)" "hk_recv env = my_Receive H q carrier" "steady env"
  shows "deliveries s \<subseteq> deliveries s1 \<and> (\<forall>jobs2 ignored2 w2 s2. deliveries s1 \<subseteq> deliveries s2 \<longrightarrow>
    my_tables (snd (snd (hook_pages (again env H' q' c' t') g pr n jobs2 ignored2 (w2, s2)))) = my_tables s2)"
  using assms(1)
proof (induction n arbitrary: jobs ignored w s)
  case (Suc n)
  let ?env = "again env H' q' c' t'"
  let ?path = "files_path (he_Repository (hp_Event pr)) (he_Number (hp_Event pr)) (10 - n)"
  obtain a w3 where a: "fetch patch_files [] g (hk_client env) ?path w = (a, w3)" by fastforce
  obtain fs where fs: "a = Some fs" using Suc.prems a by (cases a) simp_all
  have page: "\<exists>w4. fetch patch_files [] g (hk_client env) ?path w2 = (Some fs, w4)" for w2
    using steady_fetch [OF assms(3), of patch_files "[]" g ?path w w2] a fs by (metis fst_conv surj_pair)
  obtain r5 w5 s5 where r5: "hook_files env g pr fs jobs ignored (w3, s) = (r5, w5, s5)" by (metis surj_pair)
  have "r5 \<noteq> Inl (HookQueued js k)" using hook_files_no_success r5 by (metis fst_conv)
  then have "\<exists>y. r5 = Inr y" using Suc.prems a fs r5 by (cases r5) simp_all
  then obtain jobs5 k5 where y: "r5 = Inr (jobs5, k5)" by (metis surj_pair)
  note first = hook_files_again [OF r5 [unfolded y] assms(2,3), of H' q' c' t']
  have later: "length fs < 100 \<and> s5 = s1 \<or> \<not> length fs < 100 \<and> hook_pages env g pr n jobs5 k5 (w5, s5) = (HookQueued js k, w1, s1)"
    using Suc.prems a fs r5 y by (auto split: if_splits)
  then have sub5: "deliveries s5 \<subseteq> deliveries s1" using Suc.IH by blast
  have "my_tables (snd (snd (hook_pages ?env g pr (Suc n) jobs2 ignored2 (w2, s2)))) = my_tables s2"
    if sub: "deliveries s1 \<subseteq> deliveries s2" for jobs2 ignored2 w2 s2
  proof -
    obtain w4 where w4: "fetch patch_files [] g (hk_client env) ?path w2 = (Some fs, w4)" using page by blast
    obtain r6 w6 s6 where r6: "hook_files ?env g pr fs jobs2 ignored2 (w4, s2) = (r6, w6, s6)" by (metis surj_pair)
    have "deliveries s5 \<subseteq> deliveries s2" using sub sub5 by blast
    then have s6: "my_tables s6 = my_tables s2" using first r6 by (metis snd_conv)
    then have "deliveries s1 \<subseteq> deliveries s6" using sub by (simp add: deliveries_def)
    then have "my_tables (snd (snd (hook_pages ?env g pr n jobs3 i (w6, s6)))) = my_tables s2" if "\<not> length fs < 100" for jobs3 i
      using Suc.IH later that s6 by metis
    then show ?thesis using w4 r6 s6 by (auto split: sum.split)
  qed
  then show ?case using first sub5 by blast
qed simp

text \<open>
  Redelivery is harmless: once a request was answered with all its jobs queued, sending it again at any later
  time changes no table, whatever happened to the store in between as long as the deliveries are still there, and
  whether or not the database fails; the API must give the same answers.
\<close>

theorem redelivery_queues_nothing:
  assumes "github_Receive env g r (w, s) = (HookQueued jobs ignored, w1, s1)" "hk_recv env = my_Receive H q carrier" "steady env"
    and "deliveries s1 \<subseteq> deliveries s2"
  shows "my_tables (snd (snd (github_Receive (again env H' q' carrier' clock') g r (w2, s2)))) = my_tables s2"
proof -
  let ?env = "again env H' q' carrier' clock'"
  obtain body e actual w3 where body: "hq_Body r = Some body" "\<not> length body > 1048576" "hook_signed env g r body"
      "hq_Event r = ''pull_request''" "hook_event body = Some e" "hook_admits g r e" "he_Action e \<in> set hook_actions"
      "currentPull g (hk_client env) (he_Repository e) (he_Number e) w = (Some actual, w3)"
      "hook_pages env g \<lparr>hp_Delivery = hq_Delivery r, hp_Event = e, hp_Actual = actual\<rparr> 10 [] 0 (w3, s) = (HookQueued jobs ignored, w1, s1)"
      "\<not> pl_SHA actual \<noteq> pl_SHA (he_PullRequest e)" "\<not> (\<not> is_sha (pl_SHA actual) \<or> \<not> is_repository (pl_FullName actual))"
    using assms(1) by (auto simp: github_Receive_def split: option.splits if_splits prod.splits)
  obtain w4 where "currentPull g (hk_client env) (he_Repository e) (he_Number e) w2 = (Some actual, w4)"
    using steady_fetch [OF assms(3)] body(8) unfolding currentPull_def by (metis fst_conv surj_pair)
  then have "github_Receive ?env g r (w2, s2) =
      hook_pages ?env g \<lparr>hp_Delivery = hq_Delivery r, hp_Event = e, hp_Actual = actual\<rparr> 10 [] 0 (w4, s2)"
    using body by (simp add: github_Receive_def)
  then show ?thesis using hook_pages_again [OF body(9) assms(2,3)] assms(4) by simp
qed

section \<open>A concrete request\<close>

text \<open>A pull request that adds one file with one statement.\<close>

definition hook_sql :: string where
  "hook_sql = ''SELECT a''"

definition hook_tree :: node where
  "hook_tree = Node (SelectStmt False False False False 0) [Node (TableName [] ''t'') []]"

definition hook_body :: string where
  "hook_body = ''{\"action\":\"opened\",\"number\":1,\"repository\":{\"full_name\":\"a/b\"},\"pull_request\":{\"head\":{\"sha\":\"''
     @ replicate 40 CHR ''a'' @ ''\"}}}''"

definition hook_event1 :: HookEvent where
  "hook_event1 = \<lparr>he_Action = ''opened'', he_Number = 1, he_Repository = ''a/b'',
     he_PullRequest = \<lparr>pl_Number = 0, pl_SHA = replicate 40 CHR ''a'', pl_FullName = []\<rparr>\<rparr>"

definition hook_pull_body :: string where
  "hook_pull_body = ''{\"head\":{\"sha\":\"'' @ replicate 40 CHR ''a'' @ ''\",\"repo\":{\"full_name\":\"a/b\"}}}''"

definition hook_pull1 :: Pull where
  "hook_pull1 = \<lparr>pl_Number = 0, pl_SHA = replicate 40 CHR ''a'', pl_FullName = ''a/b''\<rparr>"

definition hook_file1 :: PatchFile where
  "hook_file1 = \<lparr>pf_Filename = ''q.sql'', pf_Status = ''added'', pf_Patch = []\<rparr>"

definition hook_files_body :: string where
  "hook_files_body = ''[{\"filename\":\"q.sql\",\"status\":\"added\"}]''"

definition hook_content_body :: string where
  "hook_content_body = ''{\"encoding\":\"base64\",\"content\":\"U0VMRUNUIGE=\"}''"

definition hook_client :: "unit http_client" where
  "hook_client token url w =
     (Some (200, Some (if HasSuffix url ''/pulls/1'' then hook_pull_body
                       else if HasSuffix url ''page=1'' then hook_files_body else hook_content_body)), w)"

definition hook_env :: "(unit, MySQL) HookEnv" where
  "hook_env = \<lparr>hk_U = ascii_tables, hk_P = (\<lambda>_. Some [hook_tree]), hk_H = sample_hash, hk_hmac = sample_mac,
     hk_client = hook_client, hk_recv = my_Receive sample_hash sample_db ([], []), hk_times = (\<lambda>n. 5)\<rparr>"

definition hook_github :: GitHub where
  "hook_github = \<lparr>gh_Secret = ''k'', gh_Token = [], gh_BaseURL = ''h'', gh_Repositories = (\<lambda>r. r = ''a/b'')\<rparr>"

definition hook_request :: HookRequest where
  "hook_request = \<lparr>hq_Signature = ''sha256='' @ replicate 64 CHR ''a'', hq_Event = ''pull_request'', hq_Delivery = ''d1'',
     hq_Body = Some hook_body\<rparr>"

definition hook_statement1 :: Statement where
  "hook_statement1 = \<lparr>stm_SQL = hook_sql, stm_StartLine = 1, stm_EndLine = 1\<rparr>"

lemma hook_bodies:
  "hook_event hook_body = Some hook_event1"
  "unmarshal (\<lambda>v. decode_struct_lax pull_fields v zero_pull) hook_pull_body = Some hook_pull1"
  "unmarshal (\<lambda>v. patch_files v []) hook_files_body = Some [hook_file1]"
  "unmarshal (\<lambda>v. decode_struct_lax content_fields v ([], [])) hook_content_body = Some (''base64'', ''U0VMRUNUIGE='')"
  by code_simp+

lemma hook_bodies_short: "length hook_body \<le> 200" "length hook_pull_body \<le> 200" "length hook_files_body \<le> 200" "length hook_content_body \<le> 200"
  by (simp_all add: hook_body_def hook_pull_body_def hook_files_body_def hook_content_body_def)

lemma hook_urls:
  "HasSuffix (github_base hook_github @ pull_path ''a/b'' 1) ''/pulls/1''"
  "\<not> HasSuffix (github_base hook_github @ files_path ''a/b'' 1 1) ''/pulls/1''"
  "HasSuffix (github_base hook_github @ files_path ''a/b'' 1 1) ''page=1''"
  "\<not> HasSuffix (github_base hook_github @ content_path hook_pull1 ''q.sql'') ''/pulls/1''"
  "\<not> HasSuffix (github_base hook_github @ content_path hook_pull1 ''q.sql'') ''page=1''"
  by code_simp+

lemma hook_fetches:
  "currentPull hook_github hook_client ''a/b'' 1 w = (Some hook_pull1, w)"
  "fetch patch_files [] hook_github hook_client (files_path ''a/b'' 1 1) w = (Some [hook_file1], w)"
  "fetch (decode_struct_lax content_fields) ([], []) hook_github hook_client (content_path hook_pull1 ''q.sql'') w =
     (Some (''base64'', ''U0VMRUNUIGE=''), w)"
  using hook_bodies_short
  by (simp_all add: currentPull_def fetch_def github_call_def hook_client_def hook_urls hook_bodies del: One_nat_def)

lemma hook_content: "base64_decode ''U0VMRUNUIGE='' = Some hook_sql"
  by (simp add: base64_decode_def base64_value_def base64_quantum_def hook_sql_def ord_def) code_simp

lemma hook_trim: "TrimSpace hook_sql = hook_sql"
  by code_simp

lemma hook_sql_statements: "Statements hook_sql = Some [hook_statement1]"
proof -
  have "pieces Plain [] 1 1 hook_sql = Some [(hook_sql, 1, 1)]"
    by (simp add: hook_sql_def pieces.simps lex_step_def ends_statement_def opens_comment_def after_newline_def HasPrefix_def)
  moreover have "hook_sql \<noteq> []" "takeWhile blank hook_sql = []" by (simp_all add: hook_sql_def blank_def)
  ultimately show ?thesis by (simp add: Statements_def statement_of_def hook_trim hook_statement1_def)
qed

lemma hook_words: "ToUpper ascii_tables ''SELECT'' = ''SELECT''" "ToUpper ascii_tables ''a'' = ''A''" "ToLower ascii_tables ''t'' = ''t''"
  by code_simp+

lemma hook_sql_admitted: "admitted hook_env hook_sql"
proof -
  have "scan ascii_tables hook_sql = Inr ([''SELECT'', ''A''], 0, False)"
    by (simp add: scan_def hook_sql_def scan_init_def bom_def TrimPrefix_def HasPrefix_def scan_step_def peek_def
        quote_chars byte_class Let_def flush_def appendToken_def hook_words)
  moreover have "Analyze ascii_tables (\<lambda>_. Some [hook_tree]) hook_sql =
      Inr \<lparr>an_Tables = [''t''], an_Ordered = False, an_UnorderedLimit = False\<rparr>"
    by (simp add: Analyze_def hook_sql_def hook_tree_def Enter_def Leave_def new_visitor_def push_def fail_def
        add_table_def visible_def Let_def hook_words)
  ultimately show ?thesis
    by (simp add: admitted_def hook_env_def Sql_Admit.Admit_def Inspect_def code_tokens_def spaced_def HasPrefix_def
        quote_char_def forbidden_def)
qed

lemma hook_receive1:
  "\<exists>v s1. my_Receive sample_hash sample_db ([], []) 5
      (hook_input sample_hash \<lparr>hp_Delivery = ''d1'', hp_Event = hook_event1, hp_Actual = hook_pull1\<rparr> ''q.sql'' hook_statement1)
      (sample_mysql []) = (Inr v, s1)
     \<and> map r_sql_text (t_jobs (my_tables s1)) = [hook_sql]"
proof -
  have "hook_sql \<noteq> []" "replicate 32 CHR ''a'' \<noteq> []" "he_Number hook_event1 = 1" by (simp_all add: hook_sql_def hook_event1_def)
  moreover have "enc_object (a @ b) \<noteq> []" for a b by (simp add: enc_object_def)
  ultimately show ?thesis
    by (simp add: my_Receive_def receive_body_def receive_inserts_def db_eval sample_mysql_def hook_input_def hook_delivery_def
      hook_statement1_def source_json_def invalid_input_def find_delivery_def pending_count_def ins_job_def new_row_def ins_history_def ins_keyed_def
      ins_outbox_def MarshalSafe_def Validate_def job_event_def newID_def sample_hash_def upd_job_def my_Get_def
      my_get_def scan_job_def)
qed

lemma hook_answers:
  "\<exists>j s1. github_Receive hook_env hook_github hook_request ((), sample_mysql []) = (HookQueued [j] 0, (), s1)
     \<and> map r_sql_text (t_jobs (my_tables s1)) = [hook_sql]"
proof -
  let ?pr = "\<lparr>hp_Delivery = ''d1'', hp_Event = hook_event1, hp_Actual = hook_pull1\<rparr>"
  obtain v s1 where recv: "my_Receive sample_hash sample_db ([], []) 5 (hook_input sample_hash ?pr ''q.sql'' hook_statement1) (sample_mysql []) = (Inr v, s1)"
    "map r_sql_text (t_jobs (my_tables s1)) = [hook_sql]" using hook_receive1 by (elim exE conjE)
  have env: "hk_client hook_env = hook_client" "hk_recv hook_env = my_Receive sample_hash sample_db ([], [])" "hk_times hook_env = (\<lambda>n. 5)"
    "hk_H hook_env = sample_hash" "hk_U hook_env = ascii_tables" by (simp_all add: hook_env_def)
  have one_file: "pf_Filename hook_file1 = ''q.sql''" "pf_Status hook_file1 = ''added''" "is_sql_file hook_env hook_github hook_file1"
    by (simp_all add: hook_file1_def is_sql_file_def env) code_simp
  have st: "stm_SQL hook_statement1 = hook_sql" "length hook_sql \<le> 65536" "length hook_sql \<le> 262144"
    by (simp_all add: hook_statement1_def hook_sql_def)
  have rel: "relevant hook_file1 hook_statement1" by (simp add: relevant_def one_file)
  have "file_text hook_env hook_github ?pr hook_file1 () = (Inr hook_sql, ())"
    using st by (simp add: file_text_def env one_file hook_fetches hook_content)
  then have "hook_file hook_env hook_github ?pr hook_file1 [] 0 ((), sample_mysql [])
      = (Inr ([hook_job sample_hash ?pr ''q.sql'' hook_statement1 v], 0), (), s1)"
    using st by (simp add: hook_file_def one_file hook_sql_statements hook_sql_admitted rel env recv)
  moreover have "he_Repository hook_event1 = ''a/b''" "he_Number hook_event1 = 1" by (simp_all add: hook_event1_def)
  moreover have "hook_pages hook_env hook_github ?pr 10 [] 0 ((), s) =
      (case fetch patch_files [] hook_github (hk_client hook_env) (files_path (he_Repository hook_event1) (he_Number hook_event1) 1) () of
        (None, w1) \<Rightarrow> (HookCode 503 ''github_unavailable'', w1, s)
      | (Some files, w1) \<Rightarrow>
          (case hook_files hook_env hook_github ?pr files [] 0 (w1, s) of
             (Inl e, ws2) \<Rightarrow> (e, ws2)
           | (Inr (jobs1, ignored1), ws2) \<Rightarrow>
               if length files < 100 then (HookQueued jobs1 ignored1, ws2)
               else hook_pages hook_env hook_github ?pr 9 jobs1 ignored1 ws2))" for s
    using hook_pages.simps(2) [of hook_env hook_github ?pr 9 "[]" 0 "((), s)", unfolded fst_conv snd_conv] by simp
  ultimately have pages: "hook_pages hook_env hook_github ?pr 10 [] 0 ((), sample_mysql [])
      = (HookQueued [hook_job sample_hash ?pr ''q.sql'' hook_statement1 v] 0, (), s1)"
    by (simp add: env hook_fetches del: One_nat_def)
  have "hook_signed hook_env hook_github hook_request hook_body"
  proof -
    have "HasPrefix (hq_Signature hook_request) ''sha256=''"
      "hex_decode (TrimPrefix (hq_Signature hook_request) ''sha256='') = Some (sample_mac ''k'' [])" by code_simp+
    then show ?thesis by (simp add: hook_signed_def hook_github_def hook_env_def sample_mac_def)
  qed
  moreover have "hook_admits hook_github hook_request hook_event1" "is_sha (pl_SHA hook_pull1)" "is_repository (pl_FullName hook_pull1)"
    "he_Action hook_event1 \<in> set hook_actions" "pl_SHA hook_pull1 = pl_SHA (he_PullRequest hook_event1)" by code_simp+
  moreover have "hq_Body hook_request = Some hook_body" "hq_Event hook_request = ''pull_request''" "hq_Delivery hook_request = ''d1''"
    by (simp_all add: hook_request_def)
  moreover have "currentPull hook_github (hk_client hook_env) (he_Repository hook_event1) (he_Number hook_event1) () = (Some hook_pull1, ())"
    by (simp add: env hook_event1_def hook_fetches)
  ultimately have "github_Receive hook_env hook_github hook_request ((), sample_mysql [])
      = (HookQueued [hook_job sample_hash ?pr ''q.sql'' hook_statement1 v] 0, (), s1)"
    using hook_bodies_short(1) pages by (simp add: github_Receive_def hook_bodies(1))
  then show ?thesis using recv(2) by (intro exI conjI)
qed

theorem redelivery_queues_nothing_witness:
  "\<exists>s1. map r_sql_text (t_jobs (my_tables s1)) = [hook_sql]
     \<and> my_tables (snd (snd (github_Receive (again hook_env sample_hash sample_db ([], []) (\<lambda>n. 9)) hook_github hook_request ((), s1)))) = my_tables s1"
proof -
  obtain j s1 where run: "github_Receive hook_env hook_github hook_request ((), sample_mysql []) = (HookQueued [j] 0, (), s1)"
    "map r_sql_text (t_jobs (my_tables s1)) = [hook_sql]" using hook_answers by (elim exE conjE)
  have "hk_recv hook_env = my_Receive sample_hash sample_db ([], [])" "steady hook_env"
    by (simp_all add: hook_env_def steady_def)
  from redelivery_queues_nothing [OF run(1) this order_refl] show ?thesis using run(2) by (intro exI conjI)
qed

end
