(* ===== verification/Result_Set.thy ===== *)
theory Result_Set
  imports Shadow_Data Go_Encode "HOL-Library.Multiset" "HOL-Library.Char_ord" "HOL-Library.List_Lexorder"
begin

text \<open>
  \<open>internal/resultset/read.go\<close>: the fingerprint of the result of a query.  An answer is what the driver returns:
  the columns, their types, and the rows as they come.  Of the standard library, the reading of decimals with a
  fraction bar, exponent or base prefix, and of times and dates, are parameters.
\<close>

section \<open>Canonical values\<close>

text \<open>\<open>cn_ratio\<close> is \<open>Rat.SetString\<close> on the texts that are not plain decimals, as numerator and denominator;
  \<open>cn_time\<close> is \<open>time.Parse\<close> (layout, text); \<open>cn_date\<close> and \<open>cn_nano\<close> format a time.\<close>

record 't Canon =
  cn_U :: unicode_tables
  cn_ratio :: "string \<Rightarrow> (int \<times> nat) option"
  cn_time :: "string \<Rightarrow> string \<Rightarrow> 't option"
  cn_date :: "'t \<Rightarrow> string"
  cn_nano :: "'t \<Rightarrow> string"

text \<open>A plain decimal: a sign, digits, and digits behind a point; at least one digit.\<close>

definition unsigned_part :: "string \<Rightarrow> string" where
  "unsigned_part s = (if HasPrefix s ''-'' \<or> HasPrefix s ''+'' then tl s else s)"

definition plain_decimal :: "string \<Rightarrow> (int \<times> nat) option" where
  "plain_decimal s =
     (let u = unsigned_part s;
          whole = takeWhile is_digit_byte u;
          rest = dropWhile is_digit_byte u;
          frac = (if HasPrefix rest ''.'' then tl rest else []);
          n = int (digits_val (whole @ frac))
      in if (rest = [] \<or> HasPrefix rest ''.'' \<and> list_all is_digit_byte frac) \<and> whole @ frac \<noteq> []
         then Some (if HasPrefix s ''-'' then - n else n, 10 ^ length frac) else None)"

definition rat_of :: "'t Canon \<Rightarrow> string \<Rightarrow> (int \<times> nat) option" where
  "rat_of e s = (case plain_decimal s of Some q \<Rightarrow> Some q | None \<Rightarrow> cn_ratio e s)"

text \<open>\<open>RatString\<close>: lowest terms, without a denominator of one.\<close>

definition rat_string :: "int \<times> nat \<Rightarrow> string" where
  "rat_string q =
     (case q of (n, d) \<Rightarrow>
        let g = gcd n (int d); m = n div g; k = int d div g
        in if k = 1 then int_dec m else int_dec m @ ''/'' @ int_dec k)"

text \<open>\<open>json.Marshal\<close> of a decoded value: members in the order of their keys, the last one of a repeated key.\<close>

definition put_member :: "string \<times> string \<Rightarrow> (string \<times> string) list \<Rightarrow> (string \<times> string) list" where
  "put_member kv m = insort_key fst kv (filter (\<lambda>x. fst x \<noteq> fst kv) m)"

primrec enc_any :: "json \<Rightarrow> string" where
  "enc_any JNull = ''null''"
| "enc_any (JBool b) = enc_bool b"
| "enc_any (JNum n) = n"
| "enc_any (JStr s) = enc_string s"
| "enc_any (JArr vs) = enc_list (map enc_any vs)"
| "enc_any (JObj m) = enc_object (fold put_member (map (map_prod (\<lambda>k. k) enc_any) m) [])"

definition time_layouts :: "string list" where
  "time_layouts = [''2006-01-02T15:04:05.999999999Z07:00'', ''2006-01-02 15:04:05.999999999'', ''2006-01-02 15:04:05'', ''2006-01-02'']"

fun first_time :: "'t Canon \<Rightarrow> string \<Rightarrow> string list \<Rightarrow> 't option" where
  "first_time e s [] = None"
| "first_time e s (l # ls) = (case cn_time e l s of Some t \<Rightarrow> Some t | None \<Rightarrow> first_time e s ls)"

datatype canonical_error = InvalidDecimal | InvalidJSON | InvalidTemporal

definition Canonical :: "'t Canon \<Rightarrow> string \<Rightarrow> string \<Rightarrow> canonical_error + string" where
  "Canonical e raw type_name =
     (let kind = ToUpper (cn_U e) type_name
      in if kind \<in> {''DECIMAL'', ''NEWDECIMAL'', ''NUMERIC''} then
           (if length raw > 128 then Inl InvalidDecimal
            else case rat_of e raw of None \<Rightarrow> Inl InvalidDecimal | Some q \<Rightarrow> Inr (rat_string q))
         else if kind \<in> {''JSON'', ''JSONB''} then
           (case json_decode raw of
              Some (v, rest) \<Rightarrow> if json_at_eof rest then Inr (enc_any v) else Inl InvalidJSON
            | None \<Rightarrow> Inl InvalidJSON)
         else if Contains kind ''TIMESTAMP'' \<or> Contains kind ''DATETIME'' \<or> kind = ''DATE'' \<or> kind = ''TIMESTAMPTZ'' then
           (case first_time e raw time_layouts of
              None \<Rightarrow> Inl InvalidTemporal
            | Some t \<Rightarrow> Inr (if kind = ''DATE'' then cn_date e t else cn_nano e t))
         else Inr raw)"

section \<open>Reading a result\<close>

record ResultAnswer =
  ra_Columns :: "string list option"
  ra_Types :: "string list option"
  ra_Rows :: "nullable_row row_set"

datatype result_error =
    QueryFailed | ColumnLimit | ColumnTypesFailed | ScanFailed | BadValue canonical_error | ResultLimit | RowsFailed

fun canonical_row :: "'t Canon \<Rightarrow> (string \<times> string option) list \<Rightarrow> result_error + nullable_row" where
  "canonical_row e [] = Inr []"
| "canonical_row e ((ty, None) # vs) =
     (case canonical_row e vs of Inl err \<Rightarrow> Inl err | Inr r \<Rightarrow> Inr (None # r))"
| "canonical_row e ((ty, Some raw) # vs) =
     (case Canonical e raw ty of
        Inl err \<Rightarrow> Inl (BadValue err)
      | Inr v \<Rightarrow> (case canonical_row e vs of Inl err \<Rightarrow> Inl err | Inr r \<Rightarrow> Inr (Some v # r)))"

definition row_bytes :: "nullable_row \<Rightarrow> nat" where
  "row_bytes r = sum_list (map (\<lambda>v. case v of None \<Rightarrow> 0 | Some raw \<Rightarrow> length raw) r)"

fun read_rows ::
  "'t Canon \<Rightarrow> (string \<Rightarrow> string) \<Rightarrow> string list \<Rightarrow> nullable_row list \<Rightarrow> rows_end \<Rightarrow> string list \<Rightarrow> nat \<Rightarrow> result_error + string list" where
  "read_rows e H types [] fin hashes seen =
     (case fin of RowsDone \<Rightarrow> Inr hashes | ScanError \<Rightarrow> Inl ScanFailed | RowsError \<Rightarrow> Inl RowsFailed)"
| "read_rows e H types (r # rs) fin hashes seen =
     (case canonical_row e (zip types r) of
        Inl err \<Rightarrow> Inl err
      | Inr vs \<Rightarrow>
          let hashes1 = hashes @ [H (frames vs)]; seen1 = seen + row_bytes r
          in if length hashes1 > 10000 \<or> seen1 > 8388608 then Inl ResultLimit
             else read_rows e H types rs fin hashes1 seen1)"

definition result_text :: "string list \<Rightarrow> string list \<Rightarrow> string" where
  "result_text columns hashes = Join columns [CHR 0x00] @ CHR 0x0A # Join hashes [CHR 0x0A]"

definition Read :: "'t Canon \<Rightarrow> (string \<Rightarrow> string) \<Rightarrow> bool \<Rightarrow> ResultAnswer option \<Rightarrow> result_error + string" where
  "Read e H ordered answer =
     (case answer of None \<Rightarrow> Inl QueryFailed | Some a \<Rightarrow>
        (case ra_Columns a of None \<Rightarrow> Inl ColumnLimit | Some columns \<Rightarrow>
           if length columns > 128 then Inl ColumnLimit
           else case ra_Types a of None \<Rightarrow> Inl ColumnTypesFailed | Some types \<Rightarrow>
             (case read_rows e H types (rs_rows (ra_Rows a)) (rs_end (ra_Rows a)) [] 0 of
                Inl err \<Rightarrow> Inl err
              | Inr hashes \<Rightarrow> Inr (H (result_text columns (if ordered then hashes else sort hashes))))))"

section \<open>What a fingerprint stands for\<close>

text \<open>The canonical rows of an answer.\<close>

definition canonical_rows :: "'t Canon \<Rightarrow> string list \<Rightarrow> nullable_row list \<Rightarrow> nullable_row list option" where
  "canonical_rows e types rows =
     those (map (\<lambda>r. case canonical_row e (zip types r) of Inl _ \<Rightarrow> None | Inr vs \<Rightarrow> Some vs) rows)"

lemma canonical_rows_Nil [simp]: "canonical_rows e types [] = Some []"
  by (simp add: canonical_rows_def)

lemma canonical_rows_Cons:
  "canonical_row e (zip types r) = Inr vs \<Longrightarrow>
    canonical_rows e types (r # rs) = map_option (\<lambda>vss. vs # vss) (canonical_rows e types rs)"
  by (simp add: canonical_rows_def)

lemma canonical_row_length: "canonical_row e vs = Inr r \<Longrightarrow> length r = length vs"
  by (induction e vs arbitrary: r rule: canonical_row.induct) (auto split: sum.splits)

lemma read_rows_hashes:
  "read_rows e H types rs fin hashes seen = Inr out \<Longrightarrow>
    \<exists>vss. canonical_rows e types rs = Some vss \<and> out = hashes @ map (\<lambda>vs. H (frames vs)) vss"
proof (induction rs arbitrary: hashes seen)
  case Nil
  then show ?case by (auto split: rows_end.splits)
next
  case (Cons r rs)
  obtain vs where vs: "canonical_row e (zip types r) = Inr vs"
    using Cons.prems by (auto split: sum.splits)
  have "\<exists>n. read_rows e H types rs fin (hashes @ [H (frames vs)]) n = Inr out"
    using Cons.prems vs by (auto simp: Let_def split: if_splits)
  then obtain vss where "canonical_rows e types rs = Some vss" "out = (hashes @ [H (frames vs)]) @ map (\<lambda>vs. H (frames vs)) vss"
    using Cons.IH by blast
  then show ?case by (simp add: canonical_rows_Cons [OF vs])
qed

lemma canonical_rows_length:
  assumes "canonical_rows e types rs = Some vss" "vs \<in> set vss" "\<forall>r \<in> set rs. length r = length types"
  shows "length vs = length types"
  using assms
proof (induction rs arbitrary: vss)
  case (Cons r rs)
  obtain us where us: "canonical_row e (zip types r) = Inr us"
    using Cons.prems(1) by (cases "canonical_row e (zip types r)") (auto simp: canonical_rows_def)
  obtain uss where "canonical_rows e types rs = Some uss" "vss = us # uss"
    using Cons.prems(1) by (auto simp: canonical_rows_Cons [OF us])
  then show ?case using Cons canonical_row_length [OF us] by auto
qed simp

text \<open>A hash in hexadecimal.\<close>

definition hex_digest :: "(string \<Rightarrow> string) \<Rightarrow> bool" where
  "hex_digest H \<longleftrightarrow> (\<forall>x. H x \<noteq> [] \<and> CHR 0x0A \<notin> set (H x))"

lemma cut_at:
  assumes "x @ c # u = y @ c # v" "c \<notin> set x" "c \<notin> set y"
  shows "x = y \<and> u = v"
  using assms by (induction x arbitrary: y) (auto simp: Cons_eq_append_conv append_eq_Cons_conv)

lemma Join_inject:
  assumes "\<forall>x \<in> set xs. c \<notin> set x" "\<forall>y \<in> set ys. c \<notin> set y" "xs \<noteq> []" "ys \<noteq> []" "Join xs [c] = Join ys [c]"
  shows "xs = ys"
  using Split1_Join [of xs c] Split1_Join [of ys c] assms by metis

lemma hash_lines_inject:
  assumes "hex_digest H" "Join (map H xs) [CHR 0x0A] = Join (map H ys) [CHR 0x0A]"
  shows "map H xs = map H ys"
proof (cases "xs = [] \<or> ys = []")
  case True
  have "Join (map H zs) [CHR 0x0A] = [] \<longleftrightarrow> zs = []" for zs
    using assms(1) by (cases "(zs, CHR 0x0A)"; cases zs; cases "tl zs") (auto simp: hex_digest_def)
  then show ?thesis using True assms(2) by metis
next
  case False
  then show ?thesis using assms by (intro Join_inject [where c = "CHR 0x0A"]) (auto simp: hex_digest_def)
qed

text \<open>The column names that a fingerprint can tell apart.\<close>

definition plain_columns :: "string list \<Rightarrow> bool" where
  "plain_columns cs \<longleftrightarrow> cs \<noteq> [] \<and> list_all (\<lambda>c. CHR 0x00 \<notin> set c \<and> CHR 0x0A \<notin> set c) cs"

lemma result_text_inject:
  assumes "hex_digest H" "plain_columns cs" "plain_columns ds" "result_text cs (map H xs) = result_text ds (map H ys)"
  shows "cs = ds \<and> map H xs = map H ys"
proof -
  have "CHR 0x0A \<notin> set (Join zs [CHR 0x00])" if "plain_columns zs" for zs
  proof -
    have "CHR 0x0A \<notin> set (Join zs [CHR 0x00])" if "list_all (\<lambda>c. CHR 0x0A \<notin> set c) zs"
      using that by (induction zs "[CHR 0x00]" rule: Join.induct) auto
    then show ?thesis using that by (simp add: plain_columns_def list_all_iff)
  qed
  then have "Join cs [CHR 0x00] = Join ds [CHR 0x00] \<and> Join (map H xs) [CHR 0x0A] = Join (map H ys) [CHR 0x0A]"
    using assms(2-4) unfolding result_text_def by (intro cut_at) auto
  moreover have "cs = ds" if "Join cs [CHR 0x00] = Join ds [CHR 0x00]"
    using assms(2,3) that by (intro Join_inject [where c = "CHR 0x00"]) (auto simp: plain_columns_def list_all_iff)
  ultimately show ?thesis using hash_lines_inject [OF assms(1)] by blast
qed

text \<open>Rows of one width whose values have a length that fits are framed without ambiguity.\<close>

definition fitting :: "nat \<Rightarrow> nullable_row list \<Rightarrow> bool" where
  "fitting n vss \<longleftrightarrow> list_all (\<lambda>vs. length vs = n \<and> list_all fits vs) vss"

lemma frames_inject:
  assumes "length vs = n" "list_all fits vs" "length us = n" "list_all fits us" "frames vs = frames us"
  shows "vs = us"
  using delimitedD [OF delimited_fixed [OF frame_delimited, of n], of vs us "[]" "[]"] assms
  by (auto simp: frames_def list_all_iff)

lemma map_hash_inject:
  assumes "fitting n vss" "fitting n uss" "inj_on H (frames ` (set vss \<union> set uss))"
    and "mset (map (\<lambda>vs. H (frames vs)) vss) = mset (map (\<lambda>vs. H (frames vs)) uss)"
  shows "mset vss = mset uss"
proof -
  let ?h = "\<lambda>vs. H (frames vs)"
  let ?g = "the_inv_into (set vss \<union> set uss) ?h"
  have inj: "inj_on ?h (set vss \<union> set uss)"
  proof (rule inj_onI)
    fix vs us assume in_both: "vs \<in> set vss \<union> set uss" "us \<in> set vss \<union> set uss" and "H (frames vs) = H (frames us)"
    then have "frames vs = frames us" using assms(3) by (auto dest: inj_onD)
    then show "vs = us" using frames_inject [of vs n us] in_both assms(1,2) by (auto simp: fitting_def list_all_iff)
  qed
  have "image_mset ?g (mset (map ?h zss)) = mset zss" if "set zss \<subseteq> set vss \<union> set uss" for zss
  proof -
    have "image_mset (\<lambda>vs. ?g (?h vs)) (mset zss) = image_mset (\<lambda>vs. vs) (mset zss)"
      using the_inv_into_f_f [OF inj] that by (intro image_mset_cong) auto
    then show ?thesis by (simp add: multiset.map_comp comp_def)
  qed
  then show ?thesis using assms(4) by (metis Un_upper1 Un_upper2)
qed

lemma map_hash_inject_list:
  assumes "fitting n vss" "fitting n uss" "inj_on H (frames ` (set vss \<union> set uss))"
    and "map (\<lambda>vs. H (frames vs)) vss = map (\<lambda>vs. H (frames vs)) uss"
  shows "vss = uss"
  using assms
proof (induction vss arbitrary: uss)
  case (Cons vs vss)
  obtain us uss' where uss: "uss = us # uss'" using Cons.prems(4) by (cases uss) auto
  have "frames vs = frames us" by (rule inj_onD [OF Cons.prems(3)]) (use Cons.prems(4) uss in auto)
  then have "vs = us" using frames_inject [of vs n us] Cons.prems(1,2) uss by (auto simp: fitting_def)
  moreover have "inj_on H (frames ` (set vss \<union> set uss'))" by (rule inj_on_subset [OF Cons.prems(3)]) (auto simp: uss)
  then have "vss = uss'" using Cons.IH [of uss'] Cons.prems uss by (auto simp: fitting_def)
  ultimately show ?case using uss by simp
qed simp

text \<open>What a fingerprint stands for: the columns, and the canonical rows in their order or as a multiset.\<close>

definition answer_result :: "'t Canon \<Rightarrow> ResultAnswer \<Rightarrow> (string list \<times> nullable_row list) option" where
  "answer_result e a =
     (case (ra_Columns a, ra_Types a) of
        (Some columns, Some types) \<Rightarrow> map_option (\<lambda>vss. (columns, vss)) (canonical_rows e types (rs_rows (ra_Rows a)))
      | _ \<Rightarrow> None)"

definition same_result :: "bool \<Rightarrow> string list \<times> nullable_row list \<Rightarrow> string list \<times> nullable_row list \<Rightarrow> bool" where
  "same_result ordered x y \<longleftrightarrow> fst x = fst y \<and> (if ordered then snd x = snd y else mset (snd x) = mset (snd y))"

lemma Read_result:
  assumes "Read e H ordered (Some a) = Inr d"
  obtains columns vss where "answer_result e a = Some (columns, vss)"
    "d = H (result_text columns (if ordered then map (\<lambda>vs. H (frames vs)) vss else sort (map (\<lambda>vs. H (frames vs)) vss)))"
proof -
  obtain columns types hashes where "ra_Columns a = Some columns" "ra_Types a = Some types"
    "read_rows e H types (rs_rows (ra_Rows a)) (rs_end (ra_Rows a)) [] 0 = Inr hashes"
    "d = H (result_text columns (if ordered then hashes else sort hashes))"
    using assms by (auto simp: Read_def split: option.splits sum.splits if_splits)
  then show ?thesis using read_rows_hashes that by (fastforce simp: answer_result_def)
qed

definition telling :: "'t Canon \<Rightarrow> ResultAnswer \<Rightarrow> bool" where
  "telling e a \<longleftrightarrow>
     (case answer_result e a of None \<Rightarrow> True
      | Some (columns, vss) \<Rightarrow> plain_columns columns \<and> fitting (length columns) vss)"

text \<open>The texts that are hashed for a fingerprint.\<close>

definition final_text :: "(string \<Rightarrow> string) \<Rightarrow> bool \<Rightarrow> string list \<times> nullable_row list \<Rightarrow> string" where
  "final_text H ordered x =
     (let hashes = map (\<lambda>vs. H (frames vs)) (snd x) in result_text (fst x) (if ordered then hashes else sort hashes))"

definition hashed_texts :: "(string \<Rightarrow> string) \<Rightarrow> bool \<Rightarrow> string list \<times> nullable_row list \<Rightarrow> string set" where
  "hashed_texts H ordered x = insert (final_text H ordered x) (frames ` set (snd x))"

lemma Read_final:
  assumes "Read e H ordered (Some a) = Inr d" "answer_result e a = Some x"
  shows "d = H (final_text H ordered x)"
proof -
  obtain columns vss where "answer_result e a = Some (columns, vss)"
    "d = H (result_text columns (if ordered then map (\<lambda>vs. H (frames vs)) vss else sort (map (\<lambda>vs. H (frames vs)) vss)))"
    using Read_result [OF assms(1)] .
  then show ?thesis using assms(2) by (auto simp: final_text_def Let_def)
qed


definition sample_canon :: "unit Canon" where
  "sample_canon = \<lparr>cn_U = ascii_tables, cn_ratio = (\<lambda>_. None), cn_time = (\<lambda>_ _. None), cn_date = (\<lambda>_. []), cn_nano = (\<lambda>_. [])\<rparr>"

text \<open>A digest without newlines that tells all texts apart: it escapes them.\<close>

primrec escape_lines :: "string \<Rightarrow> string" where
  "escape_lines [] = []"
| "escape_lines (c # cs) =
     (if c = CHR 0x0A then [CHR 0x0B, CHR 0x0C] else if c = CHR 0x0B then [CHR 0x0B, CHR 0x0B] else [c]) @ escape_lines cs"

definition sample_digest :: "string \<Rightarrow> string" where
  "sample_digest x = CHR ''h'' # escape_lines x"

lemma escape_lines_plain: "CHR 0x0A \<notin> set (escape_lines x)"
  by (induction x) auto

lemma escape_lines_inject: "escape_lines x = escape_lines y \<Longrightarrow> x = y"
proof (induction x arbitrary: y)
  case Nil
  then show ?case by (cases y) (auto split: if_splits)
next
  case (Cons c cs)
  then obtain b bs where y: "y = b # bs" by (cases y) (auto split: if_splits)
  then have "c = b" "escape_lines cs = escape_lines bs" using Cons.prems by (auto split: if_splits)
  then show ?case using Cons.IH y by blast
qed

lemma sample_digest_facts: "hex_digest sample_digest" "inj_on sample_digest A"
  by (auto simp: hex_digest_def sample_digest_def escape_lines_plain inj_on_def dest: escape_lines_inject)

definition sample_answer :: "nullable_row list \<Rightarrow> ResultAnswer" where
  "sample_answer rows = \<lparr>ra_Columns = Some [''n''], ra_Types = Some [''DECIMAL''], ra_Rows = \<lparr>rs_rows = rows, rs_end = RowsDone\<rparr>\<rparr>"

lemma sample_results:
  "answer_result sample_canon (sample_answer [[Some ''0.50''], [None]]) = Some ([''n''], [[Some ''1/2''], [None]])"
  "answer_result sample_canon (sample_answer [[None], [Some ''+.5'']]) = Some ([''n''], [[None], [Some ''1/2'']])"
  by code_simp+

lemma sample_values:
  "Canonical sample_canon ''0.50'' ''DECIMAL'' = Inr ''1/2''" "Canonical sample_canon ''+.5'' ''DECIMAL'' = Inr ''1/2''"
  by code_simp+

lemma sort_pair: "sort [x, y] = sort [y, x :: string]"
  by (rule properties_for_sort) (simp_all add: add_mset_commute del: sort_key_simps)

lemma sample_reads:
  "Read sample_canon sample_digest False (Some (sample_answer [[Some ''0.50''], [None]])) =
     Inr (sample_digest (result_text [''n''] (sort [sample_digest (frames [Some ''1/2'']), sample_digest (frames [None])])))"
  "Read sample_canon sample_digest False (Some (sample_answer [[None], [Some ''+.5'']])) =
     Inr (sample_digest (result_text [''n''] (sort [sample_digest (frames [None]), sample_digest (frames [Some ''1/2''])])))"
  by (simp_all add: Read_def sample_answer_def sample_values row_bytes_def Let_def del: sort_key_simps)


end
