(* ===== verification/Bench_Run.thy ===== *)
theory Bench_Run
  imports Measure Result_Set Sql_Admit Shadow_Gate
begin

text \<open>
  \<open>internal/benchmark/benchmark.go\<close>: a bounded comparison of two read statements on the two shadow databases.  A
  database answers a statement in a state of its own, with the time that the statement took; a failed benchmark
  also gives the report as far as it got.
\<close>

section \<open>Steps that may fail\<close>

definition st_return :: "'a \<Rightarrow> 's \<Rightarrow> ('e + 'a) \<times> 's" where
  "st_return v s = (Inr v, s)"

definition st_bind :: "('s \<Rightarrow> ('e + 'a) \<times> 's) \<Rightarrow> ('a \<Rightarrow> 's \<Rightarrow> ('e + 'b) \<times> 's) \<Rightarrow> 's \<Rightarrow> ('e + 'b) \<times> 's" where
  "st_bind m f s = (case m s of (Inl e, s1) \<Rightarrow> (Inl e, s1) | (Inr v, s1) \<Rightarrow> f v s1)"

lemma st_bind_Inr:
  "st_bind m f s = (Inr w, s2) \<longleftrightarrow> (\<exists>v s1. m s = (Inr v, s1) \<and> f v s1 = (Inr w, s2))"
  by (auto simp: st_bind_def split: prod.splits sum.splits)

lemma st_return_Inr [simp]: "st_return v s = (Inr w, s2) \<longleftrightarrow> w = v \<and> s2 = s"
  by (auto simp: st_return_def)

text \<open>Whatever comes of a computation, it leads from a state to one that is related to it.\<close>

definition keeps_to :: "('s \<Rightarrow> 's \<Rightarrow> bool) \<Rightarrow> ('s \<Rightarrow> ('e + 'a) \<times> 's) \<Rightarrow> bool" where
  "keeps_to R m \<longleftrightarrow> (\<forall>s. R s (snd (m s)))"

named_theorems keeps

lemma keeps_to_return [keeps]: "reflp R \<Longrightarrow> keeps_to R (st_return v)"
  by (simp add: keeps_to_def st_return_def reflp_def)

lemma keeps_to_bind [keeps]:
  assumes "transp R" "keeps_to R m" "\<And>v. keeps_to R (f v)"
  shows "keeps_to R (st_bind m f)"
proof -
  have "R s (snd (st_bind m f s))" for s
  proof (cases "m s")
    case (Pair r s1)
    have m: "R s s1" using assms(2) Pair unfolding keeps_to_def by (metis snd_conv)
    show ?thesis
    proof (cases r)
      case (Inr v)
      have "R s1 (snd (f v s1))" using assms(3) by (simp add: keeps_to_def)
      then show ?thesis using Inr Pair transpD [OF assms(1) m] by (simp add: st_bind_def)
    qed (use Pair m in \<open>simp add: st_bind_def\<close>)
  qed
  then show ?thesis by (simp add: keeps_to_def)
qed

section \<open>Databases, statistics\<close>

record 's BenchDB =
  bd_shadow :: "'s ShadowDB"
  bd_query :: "string \<Rightarrow> 's \<Rightarrow> (ResultAnswer option \<times> duration) \<times> 's"
  bd_analyze :: "string \<Rightarrow> 's \<Rightarrow> string answer \<times> 's"

record 't BenchEnv =
  be_U :: unicode_tables
  be_P :: sql_parser
  be_H :: "string \<Rightarrow> string"
  be_canon :: "'t Canon"
  be_now :: time

datatype bench_error =
    BenchQueryRejected | BenchRead result_error | BenchSnapshot shadow_error | AnalyzeLimit | AnalyzeFailed

record BenchSide =
  bs_RawMS :: "float64 list"
  bs_MedianMS :: float64
  bs_P95MS :: float64
  bs_NoiseRatio :: float64

definition empty_side :: BenchSide where
  "empty_side = \<lparr>bs_RawMS = [], bs_MedianMS = 0, bs_P95MS = 0, bs_NoiseRatio = 0\<rparr>"

text \<open>\<open>float64(d)/float64(time.Millisecond)\<close>\<close>

definition milliseconds :: "duration \<Rightarrow> float64" where
  "milliseconds d = fl (f64_of_int d / 1000000)"

text \<open>\<open>int(math.Ceil(.95*float64(n))) - 1\<close>\<close>

definition p95_index :: "nat \<Rightarrow> nat" where
  "p95_index n = nat \<lceil>fl (fl (95 / 100) * f64_of_int (int n))\<rceil> - 1"

definition summarize :: "duration list \<Rightarrow> BenchSide" where
  "summarize samples =
     (let raw = map milliseconds samples
      in \<lparr>bs_RawMS = raw, bs_MedianMS = milliseconds (Median samples), bs_P95MS = sort raw ! p95_index (length raw),
          bs_NoiseRatio = NoiseRatio samples\<rparr>)"

record Representative =
  rv_DatasetID :: string
  rv_SnapshotSHA256 :: string
  rv_WorkloadSHA256 :: string
  rv_ApprovedBy :: string
  rv_Redacted :: bool
  rv_ExpiresAt :: time

text \<open>The write cost is left out: the caller of the benchmark adds it.\<close>

record BenchReport =
  bn_Protocol :: string
  bn_EvidenceLevel :: string
  bn_Eligible :: bool
  bn_ResultEquivalent :: bool
  bn_RejectionReasons :: "string list"
  bn_BaselineCalibration :: BenchSide
  bn_CandidateCalibration :: BenchSide
  bn_BaselineMeasurement :: BenchSide
  bn_CandidateMeasurement :: BenchSide
  bn_Delta :: float64
  bn_Threshold :: float64
  bn_BaselineAnalyze :: string
  bn_CandidateAnalyze :: string
  bn_WorkloadSHA256 :: string
  bn_SnapshotSHA256 :: string
  bn_RepresentativeDataset :: string
  bn_Recommendation :: string

definition empty_bench :: BenchReport where
  "empty_bench = \<lparr>bn_Protocol = [], bn_EvidenceLevel = [], bn_Eligible = False, bn_ResultEquivalent = False, bn_RejectionReasons = [],
     bn_BaselineCalibration = empty_side, bn_CandidateCalibration = empty_side, bn_BaselineMeasurement = empty_side,
     bn_CandidateMeasurement = empty_side, bn_Delta = 0, bn_Threshold = 0, bn_BaselineAnalyze = [], bn_CandidateAnalyze = [],
     bn_WorkloadSHA256 = [], bn_SnapshotSHA256 = [], bn_RepresentativeDataset = [], bn_Recommendation = []\<rparr>"

section \<open>Statements on one of the two databases\<close>

definition on_side :: "side \<Rightarrow> ('b \<Rightarrow> 'r \<times> 'b) \<Rightarrow> ('c \<Rightarrow> 'r \<times> 'c) \<Rightarrow> 'b \<times> 'c \<Rightarrow> 'r \<times> 'b \<times> 'c" where
  "on_side d f g s =
     (case d of BaselineSide \<Rightarrow> (case f (fst s) of (r, b) \<Rightarrow> (r, b, snd s))
      | CandidateSide \<Rightarrow> (case g (snd s) of (r, c) \<Rightarrow> (r, fst s, c)))"

definition execute :: "'t BenchEnv \<Rightarrow> 's BenchDB \<Rightarrow> string \<Rightarrow> 's \<Rightarrow> (bench_error + string \<times> duration) \<times> 's" where
  "execute env D query s =
     (case bd_query D query s of ((answer, elapsed), s1) \<Rightarrow>
        (case Read (be_canon env) (be_H env) (OrderSensitive (be_U env) (be_P env) query) answer of
           Inl e \<Rightarrow> (Inl (BenchRead e), s1)
         | Inr digest \<Rightarrow> (Inr (digest, elapsed), s1)))"

fun analyze_rows :: "string list \<Rightarrow> rows_end \<Rightarrow> string \<Rightarrow> string \<times> bench_error option" where
  "analyze_rows [] fin out =
     (case fin of RowsDone \<Rightarrow> (out, None) | ScanError \<Rightarrow> ([], Some AnalyzeFailed) | RowsError \<Rightarrow> (out, Some AnalyzeFailed))"
| "analyze_rows (l # ls) fin out =
     (if length (out @ l @ [CHR 0x0A]) > 131072 then ([], Some AnalyzeLimit) else analyze_rows ls fin (out @ l @ [CHR 0x0A]))"

definition analyze_text :: "string \<Rightarrow> string" where
  "analyze_text query = ''EXPLAIN ANALYZE '' @ query"

definition bench_analyze :: "'s BenchDB \<Rightarrow> string \<Rightarrow> 's \<Rightarrow> (string \<times> bench_error option) \<times> 's" where
  "bench_analyze D query s =
     (case bd_analyze D (analyze_text query) s of
        (None, s1) \<Rightarrow> (([], Some AnalyzeFailed), s1)
      | (Some rows, s1) \<Rightarrow> (analyze_rows (rs_rows rows) (rs_end rows) [], s1))"

section \<open>Rounds\<close>

text \<open>The sum of \<open>n\<close> durations.\<close>

primrec sum_of :: "nat \<Rightarrow> ('s \<Rightarrow> ('e + duration) \<times> 's) \<Rightarrow> duration \<Rightarrow> 's \<Rightarrow> ('e + duration) \<times> 's" where
  "sum_of 0 m acc = st_return acc"
| "sum_of (Suc n) m acc = st_bind m (\<lambda>elapsed. sum_of n m (i64 (acc + elapsed)))"

text \<open>In even rounds the baseline goes first.\<close>

definition pair_round ::
  "('s \<Rightarrow> ('e + duration) \<times> 's) \<Rightarrow> ('s \<Rightarrow> ('e + duration) \<times> 's) \<Rightarrow> nat \<Rightarrow> 's \<Rightarrow> ('e + duration \<times> duration) \<times> 's" where
  "pair_round baseline candidate i =
     (if i mod 2 = 0 then st_bind baseline (\<lambda>b. st_bind candidate (\<lambda>c. st_return (b, c)))
      else st_bind candidate (\<lambda>c. st_bind baseline (\<lambda>b. st_return (b, c))))"

primrec rounds :: "nat \<Rightarrow> nat \<Rightarrow> (nat \<Rightarrow> 's \<Rightarrow> ('e + 'a) \<times> 's) \<Rightarrow> 's \<Rightarrow> ('e + 'a list) \<times> 's" where
  "rounds 0 i m = st_return []"
| "rounds (Suc n) i m = st_bind (m i) (\<lambda>x. st_bind (rounds n (i + 1) m) (\<lambda>xs. st_return (x # xs)))"

lemma keeps_to_pair_round [keeps]:
  "reflp R \<Longrightarrow> transp R \<Longrightarrow> keeps_to R m \<Longrightarrow> keeps_to R k \<Longrightarrow> keeps_to R (pair_round m k i)"
  by (simp add: pair_round_def keeps)

lemma keeps_to_rounds [keeps]:
  "reflp R \<Longrightarrow> transp R \<Longrightarrow> (\<And>i. keeps_to R (m i)) \<Longrightarrow> keeps_to R (rounds n i m)"
  by (induction n arbitrary: i) (simp_all add: keeps)

definition pairwise :: "('b \<Rightarrow> 'b \<Rightarrow> bool) \<Rightarrow> ('c \<Rightarrow> 'c \<Rightarrow> bool) \<Rightarrow> 'b \<times> 'c \<Rightarrow> 'b \<times> 'c \<Rightarrow> bool" where
  "pairwise R S x y \<longleftrightarrow> R (fst x) (fst y) \<and> S (snd x) (snd y)"

lemma pairwise_order [keeps]:
  "reflp R \<Longrightarrow> reflp S \<Longrightarrow> reflp (pairwise R S)" "transp R \<Longrightarrow> transp S \<Longrightarrow> transp (pairwise R S)"
  unfolding reflp_def transp_def pairwise_def by blast+

lemma keeps_to_on_side [keeps]:
  "reflp R \<Longrightarrow> reflp S \<Longrightarrow> keeps_to R f \<Longrightarrow> keeps_to S g \<Longrightarrow> keeps_to (pairwise R S) (on_side d f g)"
  by (cases d) (auto simp: keeps_to_def on_side_def pairwise_def reflp_def case_prod_beta)

section \<open>The benchmark\<close>

record ('b, 'c, 't) BenchRun =
  bw_env :: "'t BenchEnv"
  bw_B :: "'b BenchDB"
  bw_C :: "'c BenchDB"
  bw_query :: string
  bw_candidateQuery :: string
  bw_tables :: "string list"
  bw_snapshot :: string
  bw_representative :: "Representative option"

definition bench_exec :: "('b, 'c, 't) BenchRun \<Rightarrow> side \<Rightarrow> 'b \<times> 'c \<Rightarrow> (bench_error + string \<times> duration) \<times> 'b \<times> 'c" where
  "bench_exec w d = on_side d (execute (bw_env w) (bw_B w) (bw_query w)) (execute (bw_env w) (bw_C w) (bw_candidateQuery w))"

definition bench_digest :: "('b, 'c, 't) BenchRun \<Rightarrow> side \<Rightarrow> 'b \<times> 'c \<Rightarrow> (bench_error + string) \<times> 'b \<times> 'c" where
  "bench_digest w d = st_bind (bench_exec w d) (\<lambda>r. st_return (fst r))"

definition bench_one :: "('b, 'c, 't) BenchRun \<Rightarrow> side \<Rightarrow> 'b \<times> 'c \<Rightarrow> (bench_error + duration) \<times> 'b \<times> 'c" where
  "bench_one w d = st_bind (sum_of 5 (st_bind (bench_exec w d) (\<lambda>r. st_return (snd r))) 0) (\<lambda>t. st_return (t sdiv 5))"

text \<open>Two warm-up rounds, then twenty calibration rounds and five measured ones.\<close>

definition bench_rounds :: "('b, 'c, 't) BenchRun \<Rightarrow> 'b \<times> 'c \<Rightarrow> (bench_error + (duration \<times> duration) list) \<times> 'b \<times> 'c" where
  "bench_rounds w =
     st_bind (rounds 2 0 (\<lambda>i. st_bind (bench_digest w BaselineSide) (\<lambda>_. bench_digest w CandidateSide)))
       (\<lambda>_. rounds 25 0 (pair_round (bench_one w BaselineSide) (bench_one w CandidateSide)))"

definition reason_name :: "RejectionReason \<Rightarrow> string" where
  "reason_name r =
     (case r of
        ReasonBaselineNoiseExceedsLimit \<Rightarrow> ''baseline_noise_ratio_exceeds_limit''
      | ReasonCandidateNoiseExceedsLimit \<Rightarrow> ''candidate_noise_ratio_exceeds_limit''
      | ReasonDirectionNotSignificant \<Rightarrow> ''direction_verdict_not_significant''
      | ReasonDirectionWorse \<Rightarrow> ''direction_verdict_worse''
      | ReasonNoMeasurement \<Rightarrow> ''no_measurement_rounds'')"

definition level_name :: "EvidenceLevel \<Rightarrow> string" where
  "level_name l = (case l of EvidenceL1 \<Rightarrow> ''L1'' | EvidenceL2 \<Rightarrow> ''L2'')"

definition bench_decision :: "(duration \<times> duration) list \<Rightarrow> Decision" where
  "bench_decision ps =
     Decide ((Summarize ''baseline'' (map fst (drop 20 ps)))\<lparr>ss_NoiseRatio := NoiseRatio (map fst (take 20 ps))\<rparr>)
       ((Summarize ''candidate'' (map snd (drop 20 ps)))\<lparr>ss_NoiseRatio := NoiseRatio (map snd (take 20 ps))\<rparr>)"

definition bench_admission :: "(duration \<times> duration) list \<Rightarrow> Admission" where
  "bench_admission ps =
     Measure.Admit (Summarize ''baseline'' (map fst (take 20 ps))) (Summarize ''candidate'' (map snd (take 20 ps)))
       (Some (bench_decision ps))"

definition measured :: "(duration \<times> duration) list \<Rightarrow> BenchReport \<Rightarrow> BenchReport" where
  "measured ps r =
     r\<lparr>bn_BaselineCalibration := summarize (map fst (take 20 ps)), bn_CandidateCalibration := summarize (map snd (take 20 ps)),
       bn_BaselineMeasurement := summarize (map fst (drop 20 ps)), bn_CandidateMeasurement := summarize (map snd (drop 20 ps)),
       bn_Delta := d_RelativeDelta (bench_decision ps), bn_Threshold := d_ThresholdRatio (bench_decision ps),
       bn_Eligible := a_EligibleForPerformanceClaim (bench_admission ps),
       bn_EvidenceLevel := level_name (a_EvidenceLevel (bench_admission ps)),
       bn_RejectionReasons := bn_RejectionReasons r @ map reason_name (a_RejectionReasons (bench_admission ps))\<rparr>"

definition Qualify :: "Representative option \<Rightarrow> time \<Rightarrow> BenchReport \<Rightarrow> BenchReport" where
  "Qualify rep now r =
     (case rep of None \<Rightarrow> r | Some p \<Rightarrow>
        if rv_DatasetID p = [] \<or> rv_ApprovedBy p = [] \<or> \<not> rv_Redacted p \<or> \<not> rv_ExpiresAt p > now
           \<or> rv_SnapshotSHA256 p \<noteq> bn_SnapshotSHA256 r \<or> rv_WorkloadSHA256 p \<noteq> bn_WorkloadSHA256 r
        then r\<lparr>bn_RejectionReasons := bn_RejectionReasons r @ [''representative_manifest_not_bound'']\<rparr>
        else if bn_Eligible r \<and> bn_ResultEquivalent r
        then r\<lparr>bn_EvidenceLevel := ''L3'', bn_RepresentativeDataset := rv_DatasetID p\<rparr> else r)"

text \<open>The check after the rounds: both results and both snapshots again.\<close>

definition recheck :: "('b, 'c, 't) BenchRun \<Rightarrow> 'b \<times> 'c \<Rightarrow> (bench_error + bool) \<times> 'b \<times> 'c" where
  "recheck w =
     st_bind (bench_digest w BaselineSide) (\<lambda>bResult. st_bind (bench_digest w CandidateSide) (\<lambda>cResult s.
       (case (Compute (be_H (bw_env w)) (bd_shadow (bw_B w)) (fst s) (bw_tables w),
              Compute (be_H (bw_env w)) (bd_shadow (bw_C w)) (snd s) (bw_tables w)) of
          (Inl e, _) \<Rightarrow> (Inl (BenchSnapshot e), s)
        | (_, Inl e) \<Rightarrow> (Inl (BenchSnapshot e), s)
        | (Inr x, Inr y) \<Rightarrow>
            (Inr (bResult = cResult \<and> Snapshot.sn_Digest x = bw_snapshot w \<and> Snapshot.sn_Digest y = bw_snapshot w), s))))"

definition demoted :: "BenchReport \<Rightarrow> BenchReport" where
  "demoted r = r\<lparr>bn_Eligible := False, bn_EvidenceLevel := ''L1'', bn_ResultEquivalent := False,
     bn_RejectionReasons := bn_RejectionReasons r @ [''snapshot_or_result_changed'']\<rparr>"

definition bench_finish :: "('b, 'c, 't) BenchRun \<Rightarrow> BenchReport \<Rightarrow> 'b \<times> 'c \<Rightarrow> (BenchReport \<times> bench_error option) \<times> 'b \<times> 'c" where
  "bench_finish w r s =
     (case recheck w s of
        (Inl e, s1) \<Rightarrow> ((r, Some e), s1)
      | (Inr same, s1) \<Rightarrow>
          let r1 = (if same then r else demoted r)
          in case on_side BaselineSide (bench_analyze (bw_B w) (bw_query w)) (bench_analyze (bw_C w) (bw_candidateQuery w)) s1 of
               ((out, Some e), s2) \<Rightarrow> ((r1\<lparr>bn_BaselineAnalyze := out\<rparr>, Some e), s2)
             | ((out, None), s2) \<Rightarrow>
                 (case on_side CandidateSide (bench_analyze (bw_B w) (bw_query w)) (bench_analyze (bw_C w) (bw_candidateQuery w)) s2 of
                    ((out2, Some e), s3) \<Rightarrow> ((r1\<lparr>bn_BaselineAnalyze := out, bn_CandidateAnalyze := out2\<rparr>, Some e), s3)
                  | ((out2, None), s3) \<Rightarrow>
                      ((Qualify (bw_representative w) (be_now (bw_env w))
                          (r1\<lparr>bn_BaselineAnalyze := out, bn_CandidateAnalyze := out2\<rparr>), None), s3)))"

definition bench_admits :: "('b, 'c, 't) BenchRun \<Rightarrow> bool" where
  "bench_admits w \<longleftrightarrow>
     (let U = be_U (bw_env w); P = be_P (bw_env w)
      in ad_Accepted (Sql_Admit.Admit U P (bw_query w)) \<and> ad_Accepted (Sql_Admit.Admit U P (bw_candidateQuery w))
         \<and> OrderSensitive U P (bw_query w) = OrderSensitive U P (bw_candidateQuery w))"

definition bench_start :: "('b, 'c, 't) BenchRun \<Rightarrow> BenchReport" where
  "bench_start w =
     (let H = be_H (bw_env w)
      in empty_bench\<lparr>bn_Protocol := ''bounded-ab.v1'', bn_EvidenceLevel := ''L1'', bn_SnapshotSHA256 := bw_snapshot w,
           bn_WorkloadSHA256 := (if bw_candidateQuery w \<noteq> bw_query w then H (bw_query w @ [CHR 0x00] @ bw_candidateQuery w)
                                 else H (bw_query w)),
           bn_Recommendation := (if bw_candidateQuery w \<noteq> bw_query w then ''snapshot_rewrite_evidence_requires_human_review''
                                 else ''requires_write_cost_validation_and_human_approval'')\<rparr>)"

definition RunQueries :: "('b, 'c, 't) BenchRun \<Rightarrow> 'b \<times> 'c \<Rightarrow> (BenchReport \<times> bench_error option) \<times> 'b \<times> 'c" where
  "RunQueries w s =
     (if \<not> bench_admits w then ((empty_bench, Some BenchQueryRejected), s)
      else case bench_digest w BaselineSide s of
          (Inl e, s1) \<Rightarrow> ((bench_start w, Some e), s1)
        | (Inr bResult, s1) \<Rightarrow>
            (case bench_digest w CandidateSide s1 of
               (Inl e, s2) \<Rightarrow> ((bench_start w, Some e), s2)
             | (Inr cResult, s2) \<Rightarrow>
                 if bResult \<noteq> cResult
                 then (((bench_start w)\<lparr>bn_RejectionReasons := [''result_set_not_equivalent'']\<rparr>, None), s2)
                 else let r = (bench_start w)\<lparr>bn_ResultEquivalent := True\<rparr>
                   in case bench_rounds w s2 of
                        (Inl e, s3) \<Rightarrow> ((r, Some e), s3)
                      | (Inr ps, s3) \<Rightarrow> bench_finish w (measured ps r) s3))"

text \<open>\<open>Run\<close> compares a statement with itself.\<close>

definition bench_Run :: "('b, 'c, 't) BenchRun \<Rightarrow> 'b \<times> 'c \<Rightarrow> (BenchReport \<times> bench_error option) \<times> 'b \<times> 'c" where
  "bench_Run w = RunQueries (w\<lparr>bw_candidateQuery := bw_query w\<rparr>)"

section \<open>What a claim of a benchmark rests on\<close>

lemma rounds_length: "rounds n i m s = (Inr xs, s') \<Longrightarrow> length xs = n"
  by (induction n arbitrary: i s xs s') (auto simp: st_bind_Inr)

lemma bench_rounds_length: "bench_rounds w s = (Inr ps, s') \<Longrightarrow> length ps = 25"
  by (auto simp: bench_rounds_def st_bind_Inr dest: rounds_length)

lemma bench_admission_eligible:
  assumes "a_EligibleForPerformanceClaim (bench_admission ps)"
  shows "NoiseRatio (map fst (take 20 ps)) \<le> NoiseRatioLimit" "NoiseRatio (map snd (take 20 ps)) \<le> NoiseRatioLimit"
    "d_Verdict (bench_decision ps) = Better" "level_name (a_EvidenceLevel (bench_admission ps)) = ''L2''"
proof -
  have reasons: "a_RejectionReasons (bench_admission ps) = []"
    using assms by (simp add: bench_admission_def Admit_reasons(2))
  then have quiet: "NoiseRatio (map fst (take 20 ps)) \<le> NoiseRatioLimit" "NoiseRatio (map snd (take 20 ps)) \<le> NoiseRatioLimit"
    "d_Verdict (bench_decision ps) \<noteq> NotSignificant" "d_Verdict (bench_decision ps) \<noteq> Worse"
    by (simp_all add: bench_admission_def Admit_reasons_empty Summarize_def)
  show "NoiseRatio (map fst (take 20 ps)) \<le> NoiseRatioLimit" "NoiseRatio (map snd (take 20 ps)) \<le> NoiseRatioLimit"
    by (rule quiet)+
  show "d_Verdict (bench_decision ps) = Better"
    using quiet(3,4) unfolding bench_decision_def Decide_verdict by (auto split: if_splits)
  have "a_EvidenceLevel (bench_admission ps) = EvidenceL2"
    using reasons by (simp add: bench_admission_def Admit_reasons(3))
  then show "level_name (a_EvidenceLevel (bench_admission ps)) = ''L2''" by (simp add: level_name_def)
qed

text \<open>Both results are the same and both databases hold the snapshot of the benchmark.\<close>

definition agrees :: "('b, 'c, 't) BenchRun \<Rightarrow> 'b \<times> 'c \<Rightarrow> bool" where
  "agrees w s \<longleftrightarrow>
     (\<exists>d s1 s2 x y. bench_digest w BaselineSide s = (Inr d, s1) \<and> bench_digest w CandidateSide s1 = (Inr d, s2)
        \<and> Compute (be_H (bw_env w)) (bd_shadow (bw_B w)) (fst s2) (bw_tables w) = Inr x
        \<and> Compute (be_H (bw_env w)) (bd_shadow (bw_C w)) (snd s2) (bw_tables w) = Inr y
        \<and> Snapshot.sn_Digest x = bw_snapshot w \<and> Snapshot.sn_Digest y = bw_snapshot w)"

lemma recheck_True: "recheck w s = (Inr True, s') \<Longrightarrow> agrees w s"
proof -
  assume "recheck w s = (Inr True, s')"
  then obtain d s1 d2 s2 where run: "bench_digest w BaselineSide s = (Inr d, s1)" "bench_digest w CandidateSide s1 = (Inr d2, s2)"
    and snaps: "(case (Compute (be_H (bw_env w)) (bd_shadow (bw_B w)) (fst s2) (bw_tables w),
              Compute (be_H (bw_env w)) (bd_shadow (bw_C w)) (snd s2) (bw_tables w)) of
          (Inl e, _) \<Rightarrow> (Inl (BenchSnapshot e), s2)
        | (_, Inl e) \<Rightarrow> (Inl (BenchSnapshot e), s2)
        | (Inr x, Inr y) \<Rightarrow>
            (Inr (d = d2 \<and> Snapshot.sn_Digest x = bw_snapshot w \<and> Snapshot.sn_Digest y = bw_snapshot w), s2)) = (Inr True, s')"
    unfolding recheck_def st_bind_Inr by (elim exE conjE)
  obtain x where x: "Compute (be_H (bw_env w)) (bd_shadow (bw_B w)) (fst s2) (bw_tables w) = Inr x"
    using snaps by (cases "Compute (be_H (bw_env w)) (bd_shadow (bw_B w)) (fst s2) (bw_tables w)") auto
  obtain y where y: "Compute (be_H (bw_env w)) (bd_shadow (bw_C w)) (snd s2) (bw_tables w) = Inr y"
    using snaps x by (cases "Compute (be_H (bw_env w)) (bd_shadow (bw_C w)) (snd s2) (bw_tables w)") auto
  have "d2 = d" "Snapshot.sn_Digest x = bw_snapshot w" "Snapshot.sn_Digest y = bw_snapshot w" using snaps x y by auto
  then show ?thesis unfolding agrees_def
    by (intro exI [of _ d] exI [of _ s1] exI [of _ s2] exI [of _ x] exI [of _ y]) (use run x y in simp)
qed

text \<open>A representative data set that is bound to the run.\<close>

definition bound_dataset :: "('b, 'c, 't) BenchRun \<Rightarrow> Representative \<Rightarrow> bool" where
  "bound_dataset w p \<longleftrightarrow>
     rv_DatasetID p \<noteq> [] \<and> rv_ApprovedBy p \<noteq> [] \<and> rv_Redacted p \<and> be_now (bw_env w) < rv_ExpiresAt p
     \<and> rv_SnapshotSHA256 p = bw_snapshot w \<and> rv_WorkloadSHA256 p = bn_WorkloadSHA256 (bench_start w)"

lemma Qualify_simps [simp]:
  "bn_Eligible (Qualify rep now r) = bn_Eligible r" "bn_ResultEquivalent (Qualify rep now r) = bn_ResultEquivalent r"
  by (auto simp: Qualify_def split: option.splits)

lemma Qualify_level:
  "bn_EvidenceLevel (Qualify rep now r) = bn_EvidenceLevel r
    \<or> bn_EvidenceLevel (Qualify rep now r) = ''L3'' \<and> bn_Eligible r \<and> bn_ResultEquivalent r
      \<and> (\<exists>p. rep = Some p \<and> rv_DatasetID p \<noteq> [] \<and> rv_ApprovedBy p \<noteq> [] \<and> rv_Redacted p \<and> now < rv_ExpiresAt p
           \<and> rv_SnapshotSHA256 p = bn_SnapshotSHA256 r \<and> rv_WorkloadSHA256 p = bn_WorkloadSHA256 r)"
  by (auto simp: Qualify_def split: option.splits)

lemma bench_finish_None:
  assumes "bench_finish w r s = ((r', None), s')" "bn_Eligible r'"
  obtains out out2 s1 where "recheck w s = (Inr True, s1)"
    "r' = Qualify (bw_representative w) (be_now (bw_env w)) (r\<lparr>bn_BaselineAnalyze := out, bn_CandidateAnalyze := out2\<rparr>)"
proof -
  obtain same s1 r1 out out2 where run: "recheck w s = (Inr same, s1)" "r1 = (if same then r else demoted r)"
    "r' = Qualify (bw_representative w) (be_now (bw_env w)) (r1\<lparr>bn_BaselineAnalyze := out, bn_CandidateAnalyze := out2\<rparr>)"
    using assms(1) by (auto simp: bench_finish_def Let_def split: prod.splits sum.splits option.splits)
  have same by (rule ccontr) (use run assms(2) in \<open>simp add: demoted_def\<close>)
  then show ?thesis using run that by simp
qed


section \<open>A concrete benchmark\<close>

lemma rounds_const: "(\<And>i. m i s = (Inr x, s)) \<Longrightarrow> rounds n i m s = (Inr (replicate n x), s)"
  by (induction n arbitrary: i) (simp_all add: st_bind_def st_return_def)

text \<open>Both databases answer one row; the candidate takes half of the time.\<close>

definition quick_answer :: ResultAnswer where
  "quick_answer = sample_answer [[Some ''7'']]"

definition quick_db :: "unit ShadowDB \<Rightarrow> duration \<Rightarrow> unit BenchDB" where
  "quick_db S d = \<lparr>bd_shadow = S, bd_query = (\<lambda>_ s. ((Some quick_answer, d), s)),
     bd_analyze = (\<lambda>_ s. (Some \<lparr>rs_rows = [''rows''], rs_end = RowsDone\<rparr>, s))\<rparr>"

definition quick_env :: "unit BenchEnv" where
  "quick_env = \<lparr>be_U = ascii_tables, be_P = (\<lambda>_. Some [plain_tree]), be_H = sample_digest, be_canon = sample_canon, be_now = 5\<rparr>"

definition sample_snapshot_digest :: string where
  "sample_snapshot_digest = (case Compute sample_digest sample_shadow () [''t''] of Inl _ \<Rightarrow> [] | Inr x \<Rightarrow> Snapshot.sn_Digest x)"

definition quick_dataset :: Representative where
  "quick_dataset = \<lparr>rv_DatasetID = ''d'', rv_SnapshotSHA256 = sample_snapshot_digest, rv_WorkloadSHA256 = sample_digest plain_read,
     rv_ApprovedBy = ''a'', rv_Redacted = True, rv_ExpiresAt = 6\<rparr>"

definition quick_bench :: "unit ShadowDB \<Rightarrow> (unit, unit, unit) BenchRun" where
  "quick_bench S = \<lparr>bw_env = quick_env, bw_B = quick_db S 200, bw_C = quick_db S 100, bw_query = plain_read,
     bw_candidateQuery = plain_read, bw_tables = [''t''], bw_snapshot = sample_snapshot_digest,
     bw_representative = Some quick_dataset\<rparr>"

lemma quick_admits: "bench_admits (quick_bench S)"
  by (simp add: bench_admits_def quick_bench_def quick_env_def plain_read_admitted)

lemma quick_value: "Canonical sample_canon ''7'' ''DECIMAL'' = Inr ''7''"
  by code_simp

definition quick_digest :: string where
  "quick_digest = sample_digest (result_text [''n''] [sample_digest (frames [Some ''7''])])"

lemma quick_execute: "execute quick_env (quick_db S d) plain_read s = (Inr (quick_digest, d), s)"
  by (simp add: execute_def quick_env_def quick_db_def quick_answer_def Read_def sample_answer_def quick_value row_bytes_def
      Let_def quick_digest_def)

lemma quick_exec:
  "bench_exec (quick_bench S) BaselineSide s = (Inr (quick_digest, 200), s)"
  "bench_exec (quick_bench S) CandidateSide s = (Inr (quick_digest, 100), s)"
  by (cases s; simp add: bench_exec_def on_side_def quick_bench_def quick_execute)+

lemma quick_results [simp]:
  "bench_digest (quick_bench S) d s = (Inr quick_digest, s)"
  by (cases d) (simp_all add: bench_digest_def st_bind_def st_return_def quick_exec)

lemma quick_ones:
  "bench_one (quick_bench S) BaselineSide s = (Inr 200, s)" "bench_one (quick_bench S) CandidateSide s = (Inr 100, s)"
  by (simp_all add: bench_one_def st_bind_def st_return_def quick_exec eval_nat_numeral i64_def signed_divide_int_def)

lemma quick_rounds: "bench_rounds (quick_bench S) s = (Inr (replicate 25 (200, 100)), s)"
proof -
  have "pair_round (bench_one (quick_bench S) BaselineSide) (bench_one (quick_bench S) CandidateSide) i s = (Inr (200, 100), s)" for i
    by (simp add: pair_round_def st_bind_def st_return_def quick_ones)
  then show ?thesis
    by (simp add: bench_rounds_def st_bind_def rounds_const [where x = quick_digest] rounds_const [where x = "(200, 100)"])
qed

lemma Median_replicate: "0 < n \<Longrightarrow> 0 \<le> d \<Longrightarrow> in_i64 (d + d) \<Longrightarrow> Median (replicate n d) = d"
  by (auto simp: Median_def Let_def i64_id signed_divide_int_def sgn_if sorted_sort_id)

lemma NoiseRatio_replicate:
  assumes "0 < n" "0 \<le> d" "in_i64 (d + d)" shows "NoiseRatio (replicate n d) = 0"
proof -
  have "map (abs_dev d) (replicate n d) = replicate n 0" by (simp add: abs_dev_def i64_def)
  then have "MAD (replicate n d) = 0"
    using assms Median_replicate [OF assms] Median_replicate [of n 0] by (simp add: MAD_def Let_def in_i64_def)
  then have "ScaledMAD (replicate n d) = 0" by (simp add: ScaledMAD_def f64_to_i64_def f64_of_int_def in_i64_def)
  then show ?thesis by (simp add: NoiseRatio_def Let_def f64_of_int_def)
qed

lemma quick_medians:
  "Median (replicate 5 200) = 200" "Median (replicate 5 100) = 100"
  "NoiseRatio (replicate 20 200) = 0" "NoiseRatio (replicate 20 100) = 0"
  by (simp_all add: Median_replicate NoiseRatio_replicate in_i64_def)

lemma quick_eligible: "a_EligibleForPerformanceClaim (bench_admission (replicate 25 (200, 100)))"
proof -
  let ?b = "(Summarize ''baseline'' (replicate 5 200))\<lparr>ss_NoiseRatio := 0\<rparr>"
  let ?c = "(Summarize ''candidate'' (replicate 5 100))\<lparr>ss_NoiseRatio := 0\<rparr>"
  have med: "ss_Median ?b = 200" "ss_Median ?c = 100" by (simp_all add: Summarize_def quick_medians)
  have "delta_of ?b ?c < 0" by (subst delta_sign) (simp_all add: med in_i64_def)
  then have "d_Verdict (Decide ?b ?c) = Better"
    by (simp add: Decide_verdict med not_le)
  then show ?thesis
    by (simp add: bench_admission_def bench_decision_def Admit_reasons(2) Admit_reasons_empty Summarize_def quick_medians
        NoiseRatioLimit_def take_replicate drop_replicate map_replicate)
qed

definition quick_report :: "unit ShadowDB \<Rightarrow> BenchReport" where
  "quick_report S = measured (replicate 25 (200, 100)) ((bench_start (quick_bench S))\<lparr>bn_ResultEquivalent := True\<rparr>)"

lemma quick_report_facts:
  "bn_Eligible (quick_report S)" "bn_ResultEquivalent (quick_report S)" "bn_EvidenceLevel (quick_report S) = ''L2''"
  "bn_SnapshotSHA256 (quick_report S) = sample_snapshot_digest" "bn_WorkloadSHA256 (quick_report S) = sample_digest plain_read"
  using quick_eligible bench_admission_eligible(4) [OF quick_eligible]
  by (simp_all add: quick_report_def measured_def bench_start_def quick_bench_def quick_env_def Let_def)

lemma quick_run: "RunQueries (quick_bench S) s = bench_finish (quick_bench S) (quick_report S) s"
  by (simp add: RunQueries_def quick_admits quick_rounds quick_report_def Let_def)


text \<open>
  When the check after the rounds cannot be made, the report that is handed back with the error still claims an
  improvement at level L2, although neither the results nor the snapshots were looked at again.
\<close>

definition mute_shadow :: "unit ShadowDB" where
  "mute_shadow = sample_shadow\<lparr>db_select := (\<lambda>_ _. None)\<rparr>"

theorem failed_recheck_keeps_the_claim:
  "\<exists>r. RunQueries (quick_bench mute_shadow) ((), ()) = ((r, Some (BenchSnapshot DriverError)), ((), ()))
    \<and> bn_Eligible r \<and> bn_ResultEquivalent r \<and> bn_EvidenceLevel r = ''L2''"
proof -
  have "Compute sample_digest mute_shadow () [''t''] = Inl DriverError"
    by (simp add: Compute_def snap_table_def mute_shadow_def sample_shadow_def Quote_def query_rows_def column_row_def
        key_row_def index_row_def hash_write_def sample_identifiers)
  then have "recheck (quick_bench mute_shadow) s = (Inl (BenchSnapshot DriverError), s)" for s
    by (simp add: recheck_def st_bind_def) (simp add: quick_bench_def quick_env_def quick_db_def)
  then show ?thesis by (simp add: quick_run bench_finish_def quick_report_facts)
qed

end
