(* ===== verification/Write_Probe.thy ===== *)
theory Write_Probe
  imports Bench_Run
begin

text \<open>
  \<open>internal/benchmark/write.go\<close>: the cost of inserts, on a temporary copy of the table in either shadow.
\<close>

section \<open>Databases and reports\<close>

text \<open>An insert answers whether it ran, the number of rows if the driver knows it, and the time it took.\<close>

record 's ProbeDB =
  pd_exec :: "string \<Rightarrow> 's \<Rightarrow> bool \<times> 's"
  pd_insert :: "string \<Rightarrow> 's \<Rightarrow> (int option option \<times> duration) \<times> 's"
  pd_keys :: "'s \<Rightarrow> string \<Rightarrow> string answer"
  pd_columns :: "'s \<Rightarrow> string \<Rightarrow> string answer"

datatype probe_error =
    ProbeIdentifier shadow_error | ProbeExec | ProbeCleanup | ProbeQuery shadow_error | ProbePrimaryKey | ProbeNoColumns
  | ProbeInsert | ProbeRowsChanged | ProbeInvalidTime

record WriteCost =
  wc_Protocol :: string
  wc_Table :: string
  wc_Rows :: int
  wc_BaselineCalibration :: BenchSide
  wc_CandidateCalibration :: BenchSide
  wc_BaselineMeasurement :: BenchSide
  wc_CandidateMeasurement :: BenchSide
  wc_RelativeOverhead :: float64
  wc_MaxOverhead :: float64
  wc_Eligible :: bool
  wc_Reasons :: "string list"

definition new_cost :: "string \<Rightarrow> WriteCost" where
  "new_cost table = \<lparr>wc_Protocol = ''temporary-insert-256.v1'', wc_Table = table, wc_Rows = 0,
     wc_BaselineCalibration = empty_side, wc_CandidateCalibration = empty_side, wc_BaselineMeasurement = empty_side,
     wc_CandidateMeasurement = empty_side, wc_RelativeOverhead = 0, wc_MaxOverhead = fl (20 / 100), wc_Eligible = False,
     wc_Reasons = []\<rparr>"

section \<open>Statements\<close>

definition probe_name :: string where
  "probe_name = quoteIdentifier ''sentinel_write_probe''"

definition probe_drop :: string where
  "probe_drop = ''DROP TEMPORARY TABLE IF EXISTS '' @ probe_name"

definition probe_create :: "string \<Rightarrow> string" where
  "probe_create q = ''CREATE TEMPORARY TABLE '' @ probe_name @ '' LIKE '' @ q"

definition probe_delete :: string where
  "probe_delete = ''DELETE FROM '' @ probe_name"

definition probe_insert :: "string \<Rightarrow> string \<Rightarrow> string \<Rightarrow> string" where
  "probe_insert q columns order =
     ''INSERT INTO '' @ probe_name @ '' ('' @ columns @ '') SELECT '' @ columns @ '' FROM '' @ q @ '' ORDER BY '' @ order
     @ '' LIMIT 256''"

section \<open>One insert\<close>

text \<open>The state of a probe: the number of rows of the report, and the two databases.\<close>

type_synonym ('b, 'c) probing = "int \<times> 'b \<times> 'c"

definition probe_exec :: "'s ProbeDB \<Rightarrow> string \<Rightarrow> 's \<Rightarrow> (probe_error + unit) \<times> 's" where
  "probe_exec D stmt s = (case pd_exec D stmt s of (ok, s1) \<Rightarrow> (if ok then Inr () else Inl ProbeExec, s1))"

definition insert_rows :: "'s ProbeDB \<Rightarrow> string \<Rightarrow> 's \<Rightarrow> (probe_error + int \<times> duration) \<times> 's" where
  "insert_rows D stmt s =
     (case pd_insert D stmt s of ((answer, elapsed), s1) \<Rightarrow>
        (case answer of Some (Some n) \<Rightarrow> Inr (n, elapsed) | _ \<Rightarrow> Inl ProbeInsert, s1))"

text \<open>The rows of a round are the rows of every round.\<close>

definition same_rows :: "int \<times> duration \<Rightarrow> ('b, 'c) probing \<Rightarrow> (probe_error + duration) \<times> ('b, 'c) probing" where
  "same_rows r s =
     (if fst s \<noteq> 0 \<and> fst s \<noteq> fst r then (Inl ProbeRowsChanged, s) else (Inr (snd r), (fst r, snd s)))"

definition on_dbs :: "('b \<times> 'c \<Rightarrow> 'r \<times> 'b \<times> 'c) \<Rightarrow> ('b, 'c) probing \<Rightarrow> 'r \<times> ('b, 'c) probing" where
  "on_dbs m s = (case m (snd s) of (r, bc) \<Rightarrow> (r, fst s, bc))"

definition probe_one :: "'b ProbeDB \<Rightarrow> 'c ProbeDB \<Rightarrow> string \<Rightarrow> side \<Rightarrow> ('b, 'c) probing \<Rightarrow> (probe_error + duration) \<times> ('b, 'c) probing" where
  "probe_one B C stmt d =
     st_bind (on_dbs (on_side d (probe_exec B probe_delete) (probe_exec C probe_delete))) (\<lambda>_.
     st_bind (on_dbs (on_side d (insert_rows B stmt) (insert_rows C stmt))) same_rows)"

section \<open>The probe\<close>

text \<open>\<open>CREATE\<close> after \<open>DROP\<close>, first on the baseline, then on the candidate.\<close>

definition probe_setup :: "'b ProbeDB \<Rightarrow> 'c ProbeDB \<Rightarrow> string \<Rightarrow> 'b \<times> 'c \<Rightarrow> (probe_error + unit) \<times> 'b \<times> 'c" where
  "probe_setup B C q =
     st_bind (on_side BaselineSide (probe_exec B probe_drop) (probe_exec C probe_drop)) (\<lambda>_.
     st_bind (on_side BaselineSide (probe_exec B (probe_create q)) (probe_exec C (probe_create q))) (\<lambda>_.
     st_bind (on_side CandidateSide (probe_exec B probe_drop) (probe_exec C probe_drop)) (\<lambda>_.
     on_side CandidateSide (probe_exec B (probe_create q)) (probe_exec C (probe_create q)))))"

text \<open>The quoted names, one after the other.\<close>

definition name_list :: "string answer \<Rightarrow> probe_error + string" where
  "name_list answer =
     (case query_rows key_row answer [] of Inl e \<Rightarrow> Inl (ProbeQuery e) | Inr names \<Rightarrow> Inr (Join names '',''))"

definition probe_text :: "'b ProbeDB \<Rightarrow> 'b \<Rightarrow> string \<Rightarrow> string \<Rightarrow> probe_error + string" where
  "probe_text B b table q =
     result_bind (name_list (pd_keys B b table)) (\<lambda>order.
       if order = [] then Inl ProbePrimaryKey
       else result_bind (name_list (pd_columns B b table)) (\<lambda>columns.
         if columns = [] then Inl ProbeNoColumns else Inr (probe_insert q columns order)))"

definition overhead :: "(duration \<times> duration) list \<Rightarrow> float64" where
  "overhead ps =
     fl (fl (milliseconds (Median (map snd (drop 22 ps))) / milliseconds (Median (map fst (drop 22 ps)))) - 1)"

definition cost_reasons :: "int \<Rightarrow> (duration \<times> duration) list \<Rightarrow> string list" where
  "cost_reasons n ps =
     (if n < 32 then [''write_probe_insufficient_rows''] else [])
     @ (if NoiseRatio (map fst (take 20 (drop 2 ps))) > NoiseRatioLimit \<or> NoiseRatio (map snd (take 20 (drop 2 ps))) > NoiseRatioLimit
        then [''write_probe_noise_exceeds_limit''] else [])
     @ (if overhead ps > fl (20 / 100) then [''write_probe_overhead_exceeds_limit''] else [])"

definition cost_sides :: "(duration \<times> duration) list \<Rightarrow> WriteCost \<Rightarrow> WriteCost" where
  "cost_sides ps r =
     r\<lparr>wc_BaselineCalibration := summarize (map fst (take 20 (drop 2 ps))),
       wc_CandidateCalibration := summarize (map snd (take 20 (drop 2 ps))),
       wc_BaselineMeasurement := summarize (map fst (drop 22 ps)), wc_CandidateMeasurement := summarize (map snd (drop 22 ps))\<rparr>"

definition cost_report :: "(duration \<times> duration) list \<Rightarrow> WriteCost \<Rightarrow> WriteCost \<times> probe_error option" where
  "cost_report ps r0 =
     (let r = cost_sides ps r0; reasons = cost_reasons (wc_Rows r) ps
      in if bs_MedianMS (wc_BaselineMeasurement r) \<le> 0 then (r, Some ProbeInvalidTime)
         else (r\<lparr>wc_RelativeOverhead := overhead ps, wc_Reasons := reasons, wc_Eligible := (reasons = [])\<rparr>, None))"

text \<open>Twenty-seven rounds: two to warm up, twenty to calibrate, five measured.\<close>

definition probe_measure ::
  "'b ProbeDB \<Rightarrow> 'c ProbeDB \<Rightarrow> string \<Rightarrow> string \<Rightarrow> 'b \<times> 'c \<Rightarrow> (WriteCost \<times> probe_error option) \<times> 'b \<times> 'c" where
  "probe_measure B C table q s =
     (case probe_text B (fst s) table q of
        Inl e \<Rightarrow> ((new_cost table, Some e), s)
      | Inr stmt \<Rightarrow>
          (case rounds 27 0 (pair_round (probe_one B C stmt BaselineSide) (probe_one B C stmt CandidateSide)) (0, s) of
             (Inl e, (n, s1)) \<Rightarrow> (((new_cost table)\<lparr>wc_Rows := n\<rparr>, Some e), s1)
           | (Inr ps, (n, s1)) \<Rightarrow> (cost_report ps ((new_cost table)\<lparr>wc_Rows := n\<rparr>), s1)))"

text \<open>The deferred clean-up: both tables are dropped, whatever happened.\<close>

definition probe_cleanup :: "'b ProbeDB \<Rightarrow> 'c ProbeDB \<Rightarrow> 'b \<times> 'c \<Rightarrow> bool \<times> 'b \<times> 'c" where
  "probe_cleanup B C s =
     (case pd_exec B probe_drop (fst s) of (ok1, b) \<Rightarrow>
        (case pd_exec C probe_drop (snd s) of (ok2, c) \<Rightarrow> (ok1 \<and> ok2, b, c)))"

definition ProbeWrites ::
  "'b ProbeDB \<Rightarrow> 'c ProbeDB \<Rightarrow> string \<Rightarrow> 'b \<times> 'c \<Rightarrow> (WriteCost \<times> probe_error option) \<times> 'b \<times> 'c" where
  "ProbeWrites B C table s =
     (case Quote table of
        Inl e \<Rightarrow> ((new_cost table, Some (ProbeIdentifier e)), s)
      | Inr q \<Rightarrow>
          (case probe_setup B C q s of
             (Inl e, s1) \<Rightarrow> ((new_cost table, Some e), s1)
           | (Inr _, s1) \<Rightarrow>
               (case probe_measure B C table q s1 of ((r, e), s2) \<Rightarrow>
                  (case probe_cleanup B C s2 of (clean, s3) \<Rightarrow> ((r, if clean then e else Some ProbeCleanup), s3)))))"

section \<open>What a probe does to a database\<close>

definition identifier_list :: "string \<Rightarrow> bool" where
  "identifier_list text \<longleftrightarrow> (\<exists>names. names \<noteq> [] \<and> list_all is_identifier names \<and> text = Join (map quoteIdentifier names) '','')"

inductive sent :: "'s ProbeDB \<Rightarrow> string \<Rightarrow> 's \<Rightarrow> 's \<Rightarrow> bool" for D table where
  sent_none: "sent D table s s"
| sent_drop: "sent D table s s1 \<Longrightarrow> sent D table s (snd (pd_exec D probe_drop s1))"
| sent_create: "sent D table s s1 \<Longrightarrow> is_identifier table \<Longrightarrow> sent D table s (snd (pd_exec D (probe_create (quoteIdentifier table)) s1))"
| sent_delete: "sent D table s s1 \<Longrightarrow> sent D table s (snd (pd_exec D probe_delete s1))"
| sent_insert: "sent D table s s1 \<Longrightarrow> is_identifier table \<Longrightarrow> identifier_list columns \<Longrightarrow> identifier_list order
    \<Longrightarrow> sent D table s (snd (pd_insert D (probe_insert (quoteIdentifier table) columns order) s1))"

lemma sent_trans: "sent D table s1 s2 \<Longrightarrow> sent D table s s1 \<Longrightarrow> sent D table s s2"
  by (induction rule: sent.induct) (auto intro: sent.intros)

lemma sent_order [keeps]: "reflp (sent D table)" "transp (sent D table)"
  by (auto simp: reflp_def transp_def intro: sent_none sent_trans)

lemma probe_exec_sent [keeps]:
  "keeps_to (sent D table) (probe_exec D probe_drop)" "keeps_to (sent D table) (probe_exec D probe_delete)"
  "is_identifier table \<Longrightarrow> keeps_to (sent D table) (probe_exec D (probe_create (quoteIdentifier table)))"
  by (simp_all add: keeps_to_def probe_exec_def case_prod_beta sent_drop [OF sent_none] sent_delete [OF sent_none]
      sent_create [OF sent_none])

lemma insert_rows_sent [keeps]:
  "is_identifier table \<Longrightarrow> identifier_list columns \<Longrightarrow> identifier_list order
    \<Longrightarrow> keeps_to (sent D table) (insert_rows D (probe_insert (quoteIdentifier table) columns order))"
  by (simp add: keeps_to_def insert_rows_def case_prod_beta sent_insert [OF sent_none])

definition probing_to :: "('b \<times> 'c \<Rightarrow> 'b \<times> 'c \<Rightarrow> bool) \<Rightarrow> ('b, 'c) probing \<Rightarrow> ('b, 'c) probing \<Rightarrow> bool" where
  "probing_to R x y \<longleftrightarrow> R (snd x) (snd y)"

lemma probing_to_keeps [keeps]:
  "reflp R \<Longrightarrow> reflp (probing_to R)" "transp R \<Longrightarrow> transp (probing_to R)"
  "keeps_to R m \<Longrightarrow> keeps_to (probing_to R) (on_dbs m)" "reflp R \<Longrightarrow> keeps_to (probing_to R) (same_rows r)"
proof -
  show "reflp R \<Longrightarrow> reflp (probing_to R)" "transp R \<Longrightarrow> transp (probing_to R)"
    unfolding reflp_def transp_def probing_to_def by blast+
qed (simp_all add: keeps_to_def probing_to_def on_dbs_def same_rows_def case_prod_beta reflp_def)

lemma name_list_identifiers:
  assumes "name_list answer = Inr text" "text \<noteq> []" shows "identifier_list text"
proof -
  obtain order where o: "query_rows key_row answer [] = Inr order" "text = Join order '',''"
    using assms(1) by (auto simp: name_list_def split: sum.splits)
  obtain rs where "answer = Some rs" and rows: "each_row key_row (rs_rows rs) (rs_end rs) [] = Inr order"
    using o(1) by (auto simp: query_rows_def split: option.splits)
  from each_row_keys [OF rows] o(2) assms(2) show ?thesis
    by (auto simp: identifier_list_def intro!: exI [of _ "rs_rows rs"])
qed

lemma probe_text_insert:
  assumes "probe_text B b table q = Inr stmt"
  obtains columns order where "stmt = probe_insert q columns order" "identifier_list columns" "identifier_list order"
  using assms name_list_identifiers by (fastforce simp: probe_text_def result_bind_Inr_iff split: if_splits)

abbreviation "both_sent B C table \<equiv> pairwise (sent B table) (sent C table)"

lemma probe_one_sent:
  "is_identifier table \<Longrightarrow> identifier_list columns \<Longrightarrow> identifier_list order
    \<Longrightarrow> keeps_to (probing_to (both_sent B C table)) (probe_one B C (probe_insert (quoteIdentifier table) columns order) d)"
  unfolding probe_one_def by (intro keeps)

lemma probe_setup_sent:
  "is_identifier table \<Longrightarrow> keeps_to (both_sent B C table) (probe_setup B C (quoteIdentifier table))"
  unfolding probe_setup_def by (intro keeps)

lemma probe_measure_sent:
  assumes "is_identifier table"
  shows "both_sent B C table s (snd (probe_measure B C table (quoteIdentifier table) s))"
proof (cases "probe_text B (fst s) table (quoteIdentifier table)")
  case (Inl e)
  then show ?thesis by (simp add: probe_measure_def pairwise_def sent_none)
next
  case (Inr stmt)
  then obtain columns order where stmt: "stmt = probe_insert (quoteIdentifier table) columns order"
    "identifier_list columns" "identifier_list order" by (rule probe_text_insert)
  let ?m = "rounds 27 0 (pair_round (probe_one B C stmt BaselineSide) (probe_one B C stmt CandidateSide))"
  have "keeps_to (probing_to (both_sent B C table)) ?m"
    unfolding stmt(1) using stmt(2,3) assms by (intro keeps probe_one_sent)
  then have "both_sent B C table s (snd (snd (?m (0, s))))" unfolding keeps_to_def probing_to_def by (metis snd_conv)
  then show ?thesis using Inr by (cases "?m (0, s)") (auto simp: probe_measure_def split: sum.splits)
qed

lemma new_cost_eligible [simp]: "\<not> wc_Eligible (new_cost table)" "\<not> wc_Eligible ((new_cost table)\<lparr>wc_Rows := n\<rparr>)"
  by (simp_all add: new_cost_def)

lemma probe_measure_eligible:
  assumes "probe_measure B C table q s = ((r, e), s')" "wc_Eligible r"
  obtains ps n where "length ps = 27" "r = fst (cost_report ps ((new_cost table)\<lparr>wc_Rows := n\<rparr>))"
proof -
  obtain stmt ps n where "rounds 27 0 (pair_round (probe_one B C stmt BaselineSide) (probe_one B C stmt CandidateSide)) (0, s) = (Inr ps, (n, s'))"
    "(r, e) = cost_report ps ((new_cost table)\<lparr>wc_Rows := n\<rparr>)"
    using assms by (auto simp: probe_measure_def split: sum.splits prod.splits)
  then show thesis using that rounds_length by (metis fst_conv)
qed

lemma cost_report_eligible:
  assumes "wc_Eligible (fst (cost_report ps ((new_cost table)\<lparr>wc_Rows := n\<rparr>)))" "length ps = 27"
  defines "r \<equiv> fst (cost_report ps ((new_cost table)\<lparr>wc_Rows := n\<rparr>))"
  shows "32 \<le> wc_Rows r \<and> bs_NoiseRatio (wc_BaselineCalibration r) \<le> NoiseRatioLimit \<and> bs_NoiseRatio (wc_CandidateCalibration r) \<le> NoiseRatioLimit
    \<and> length (bs_RawMS (wc_BaselineCalibration r)) = 20 \<and> length (bs_RawMS (wc_BaselineMeasurement r)) = 5
    \<and> 0 < bs_MedianMS (wc_BaselineMeasurement r) \<and> wc_RelativeOverhead r \<le> wc_MaxOverhead r"
  using assms(1,2) unfolding r_def
  by (auto simp: cost_report_def cost_sides_def cost_reasons_def new_cost_def summarize_def Let_def not_less split: if_splits)

lemma ProbeWrites_sent: "both_sent B C table s (snd (ProbeWrites B C table s))"
proof (cases "is_identifier table")
  case False
  then show ?thesis by (simp add: ProbeWrites_def Quote_def pairwise_def sent_none)
next
  case id: True
  let ?q = "quoteIdentifier table"
  obtain r0 s1 where su: "probe_setup B C ?q s = (r0, s1)" by (metis surj_pair)
  have s1: "both_sent B C table s s1" using probe_setup_sent [OF id] su unfolding keeps_to_def by (metis snd_conv)
  obtain r e s2 where m: "probe_measure B C table ?q s1 = ((r, e), s2)" by (metis surj_pair)
  have s2: "both_sent B C table s s2"
    using transpD [OF pairwise_order(2) [OF sent_order(2) sent_order(2)] s1] probe_measure_sent [OF id, of B C s1] m by (metis snd_conv)
  have "both_sent B C table s (snd (probe_cleanup B C s2))"
    using s2 by (auto simp: pairwise_def probe_cleanup_def case_prod_beta intro: sent_drop)
  then show ?thesis using id su m s1 by (cases r0) (auto simp: ProbeWrites_def Quote_def case_prod_beta)
qed


section \<open>A concrete probe\<close>

definition quick_probe :: "duration \<Rightarrow> unit ProbeDB" where
  "quick_probe d = \<lparr>pd_exec = (\<lambda>_ s. (True, s)), pd_insert = (\<lambda>_ s. ((Some (Some 64), d), s)),
     pd_keys = (\<lambda>_ _. Some \<lparr>rs_rows = [''id''], rs_end = RowsDone\<rparr>), pd_columns = (\<lambda>_ _. Some \<lparr>rs_rows = [''id''], rs_end = RowsDone\<rparr>)\<rparr>"

lemma quick_probe_text: "\<exists>stmt. probe_text (quick_probe d) b table q = Inr stmt"
  by (simp add: probe_text_def name_list_def quick_probe_def query_rows_def key_row_def Quote_def sample_identifiers
      quoteIdentifier_def result_bind_def)

lemma quick_probe_round:
  assumes "n = 0 \<or> n = 64"
  shows "pair_round (probe_one (quick_probe 200) (quick_probe 200) stmt BaselineSide) (probe_one (quick_probe 200) (quick_probe 200) stmt CandidateSide)
    i (n, s) = (Inr (200, 200), (64, s))"
  using assms by (cases s) (auto simp: pair_round_def probe_one_def st_bind_def st_return_def on_dbs_def on_side_def probe_exec_def
      insert_rows_def same_rows_def quick_probe_def)

lemma quick_probe_rounds:
  "rounds 27 0 (pair_round (probe_one (quick_probe 200) (quick_probe 200) stmt BaselineSide) (probe_one (quick_probe 200) (quick_probe 200) stmt CandidateSide))
    (0, s) = (Inr (replicate 27 (200, 200)), (64, s))"
  (is "rounds 27 0 ?m (0, s) = _")
proof -
  have "rounds (Suc 26) 0 ?m (0, s) = (Inr ((200, 200) # replicate 26 (200, 200)), (64, s))"
    unfolding rounds.simps(2) by (simp add: quick_probe_round rounds_const [where x = "(200, 200)"] st_bind_def st_return_def)
  then show ?thesis by (simp only: replicate_Suc [symmetric] Suc_numeral add_num_simps)
qed

lemma summarize_replicate:
  "0 < n \<Longrightarrow> bs_MedianMS (summarize (replicate n 200)) = milliseconds 200" "0 < n \<Longrightarrow> bs_NoiseRatio (summarize (replicate n 200)) = 0"
  by (simp_all add: summarize_def Let_def Median_replicate NoiseRatio_replicate in_i64_def)

lemma quick_cost_eligible:
  "\<exists>r. cost_report (replicate 27 (200, 200)) ((new_cost table)\<lparr>wc_Rows := 64\<rparr>) = (r, None) \<and> wc_Eligible r \<and> wc_Rows r = 64"
proof -
  have "0 < milliseconds 200" by (simp add: milliseconds_def)
  moreover have "fl 1 = 1" by code_simp
  ultimately have "0 < milliseconds 200" "overhead (replicate 27 (200, 200)) = 0"
    by (simp_all add: overhead_def Median_replicate in_i64_def)
  then show ?thesis
    by (simp add: cost_report_def cost_sides_def cost_reasons_def Let_def take_replicate drop_replicate map_replicate
        summarize_replicate NoiseRatio_replicate NoiseRatioLimit_def in_i64_def)
qed


end
