(* ===== verification/Historical_Prior.thy ===== *)
theory Historical_Prior
  imports Kafka_MySQL Go_Encode
begin

text \<open>
  \<open>internal/historicalprior\<close> (\<open>client.go\<close>, \<open>relay.go\<close>): hints from earlier jobs, found by a search service and handed to
  it by way of an outbox.  The service is a parameter: what it answers to a request, and whether it takes a document.
\<close>

section \<open>Documents\<close>

record Document =
  hd_ID :: string
  hd_Tenant :: string
  hd_Project :: string
  hd_Table :: string
  hd_Tables :: "string list"
  hd_Columns :: "string list"
  hd_SQLSHA :: string
  hd_SnapshotSHA :: string
  hd_Text :: string
  hd_Level :: string
  hd_Measured :: bool
  hd_BaselineMedian :: float64
  hd_CandidateMedian :: float64
  hd_Noise :: float64
  hd_Expires :: time

definition DocumentID :: "hash \<Rightarrow> string \<Rightarrow> string" where
  "DocumentID H jobID = H jobID"

text \<open>The regular expressions \<open>name\<close> and \<open>sha\<close>.\<close>

definition prior_byte :: "char \<Rightarrow> bool" where
  "prior_byte c \<longleftrightarrow> (let n = ord c in 65 \<le> n \<and> n \<le> 90 \<or> 97 \<le> n \<and> n \<le> 122 \<or> 48 \<le> n \<and> n \<le> 57 \<or> n = 95 \<or> n = 45)"

definition prior_name :: "string \<Rightarrow> bool" where
  "prior_name s \<longleftrightarrow> 1 \<le> length s \<and> length s \<le> 64 \<and> list_all prior_byte s"

definition prior_sha :: "string \<Rightarrow> bool" where
  "prior_sha s \<longleftrightarrow> length s = 64 \<and> list_all (\<lambda>c. 97 \<le> ord c \<and> ord c \<le> 102 \<or> 48 \<le> ord c \<and> ord c \<le> 57) s"

definition day :: duration where
  "day = 24 * 60 * minute"

text \<open>A number that was decoded or measured is finite.\<close>

definition Valid :: "time \<Rightarrow> Document \<Rightarrow> bool" where
  "Valid now d \<longleftrightarrow>
     \<not> ((hd_SnapshotSHA d \<noteq> [] \<and> \<not> prior_sha (hd_SnapshotSHA d)) \<or> hd_Expires d > now + 31 * day)
     \<and> \<not> (\<not> prior_sha (hd_ID d) \<or> \<not> prior_name (hd_Tenant d) \<or> \<not> prior_name (hd_Project d) \<or> \<not> prior_name (hd_Table d)
          \<or> length (hd_Tables d) = 0 \<or> length (hd_Tables d) > 16 \<or> length (hd_Columns d) = 0 \<or> length (hd_Columns d) > 4
          \<or> \<not> prior_sha (hd_SQLSHA d) \<or> length (hd_Text d) > 1024 \<or> \<not> hd_Expires d > now
          \<or> hd_Level d \<noteq> ''L1'' \<and> hd_Level d \<noteq> ''L2'' \<and> hd_Level d \<noteq> ''L3'')
     \<and> list_all prior_name (hd_Tables d @ hd_Columns d)
     \<and> list_all (\<lambda>v. 0 \<le> v) [hd_BaselineMedian d, hd_CandidateMedian d, hd_Noise d]"

section \<open>Search\<close>

record SearchPage =
  hp_TimedOut :: bool
  hp_Failed :: int
  hp_Hits :: "Document list"

record SearchResult =
  hs_HistoricalOnly :: bool
  hs_Documents :: "Document list"
  hs_Count :: int
  hs_MeasuredCount :: int
  hs_MaxReportedNoise :: float64
  hs_MinReportedCandidateMS :: "float64 option"

definition one_member :: "string \<Rightarrow> string \<Rightarrow> string" where
  "one_member k v = enc_object [(k, v)]"

definition term_filter :: "string \<Rightarrow> string \<Rightarrow> string" where
  "term_filter k v = one_member ''term'' (one_member k (enc_string v))"

text \<open>The request: maps are encoded in the order of their keys.\<close>

definition search_payload :: "string \<Rightarrow> string \<Rightarrow> string \<Rightarrow> string \<Rightarrow> string" where
  "search_payload tenant project table txt =
     enc_object
       [(''query'', one_member ''bool'' (enc_object
          [(''filter'', enc_list
              [term_filter ''tenant_id'' tenant, term_filter ''project_id'' project, term_filter ''table'' table,
               one_member ''range'' (one_member ''expires_at'' (one_member ''gt'' (enc_string ''now'')))]),
           (''must'', enc_list
              [if TrimSpace txt = [] then one_member ''match_all'' (enc_object [])
               else one_member ''match'' (one_member ''text'' (enc_string txt))])])),
        (''size'', ''20''), (''sort'', enc_list [one_member ''expires_at'' (enc_string ''desc'')]),
        (''timeout'', enc_string ''1s''), (''track_total_hits'', ''true'')]"

definition empty_search :: SearchResult where
  "empty_search = \<lparr>hs_HistoricalOnly = True, hs_Documents = [], hs_Count = 0, hs_MeasuredCount = 0, hs_MaxReportedNoise = 0,
     hs_MinReportedCandidateMS = None\<rparr>"

definition table_allowed :: "(string \<Rightarrow> bool) \<Rightarrow> string \<Rightarrow> bool" where
  "table_allowed allowed t \<longleftrightarrow> allowed t \<or> allowed ''*''"

definition take_hit ::
  "time \<Rightarrow> string \<Rightarrow> string \<Rightarrow> string \<Rightarrow> (string \<Rightarrow> bool) \<Rightarrow> Document \<Rightarrow> SearchResult \<Rightarrow> SearchResult" where
  "take_hit now tenant project table allowed d r =
     (if \<not> Valid now d \<or> hd_Tenant d \<noteq> tenant \<or> hd_Project d \<noteq> project \<or> hd_Table d \<noteq> table then r
      else if \<not> list_all (table_allowed allowed) (hd_Tables d) then r
      else
        let r1 = r\<lparr>hs_Documents := hs_Documents r @ [d], hs_Count := hs_Count r + 1\<rparr>
        in if \<not> hd_Measured d then r1
           else r1\<lparr>hs_MeasuredCount := hs_MeasuredCount r + 1,
                   hs_MaxReportedNoise := (if hd_Noise d > hs_MaxReportedNoise r then hd_Noise d else hs_MaxReportedNoise r),
                   hs_MinReportedCandidateMS :=
                     (case hs_MinReportedCandidateMS r of
                        None \<Rightarrow> Some (hd_CandidateMedian d)
                      | Some v \<Rightarrow> if hd_CandidateMedian d < v then Some (hd_CandidateMedian d) else Some v)\<rparr>)"

text \<open>\<open>None\<close> is \<open>ErrUnavailable\<close>; \<open>ask\<close> is the request and the decoding of its answer.\<close>

definition Search ::
  "(string \<Rightarrow> SearchPage option) \<Rightarrow> time \<Rightarrow> string \<Rightarrow> string \<Rightarrow> string \<Rightarrow> string \<Rightarrow> (string \<Rightarrow> bool) \<Rightarrow> SearchResult option" where
  "Search ask now tenant project table txt allowed =
     (if \<not> prior_name tenant \<or> \<not> prior_name project \<or> \<not> prior_name table \<or> length txt > 512 \<or> \<not> table_allowed allowed table then None
      else case ask (search_payload tenant project table txt) of
          None \<Rightarrow> None
        | Some page \<Rightarrow>
            if hp_TimedOut page \<or> hp_Failed page \<noteq> 0 \<or> length (hp_Hits page) > 20 then None
            else Some (fold (take_hit now tenant project table allowed) (hp_Hits page) empty_search))"

definition Put :: "(Document \<Rightarrow> 'e \<Rightarrow> bool \<times> 'e) \<Rightarrow> time \<Rightarrow> Document \<Rightarrow> 'e \<Rightarrow> bool \<times> 'e" where
  "Put send now d s = (if Valid now d then send d s else (False, s))"

section \<open>The relay\<close>

text \<open>\<open>None\<close>: a text that does not decode as a document.\<close>

record PriorRow =
  hr_job_id :: string
  hr_document :: "Document option"
  hr_attempts :: int
  hr_available_at :: time
  hr_published_at :: "time option"
  hr_expires_at :: time

record 'e PriorState =
  hq_rows :: "PriorRow list"
  hq_jobs :: "JobRow list"
  hq_search :: 'e
  hq_fail :: "nat \<Rightarrow> bool"
  hq_stmt :: nat

definition prior_stmt :: "(PriorRow list \<Rightarrow> PriorRow list) \<Rightarrow> 'e PriorState \<Rightarrow> bool \<times> 'e PriorState" where
  "prior_stmt f s =
     (let s1 = s\<lparr>hq_stmt := hq_stmt s + 1\<rparr>
      in if hq_fail s (hq_stmt s) then (False, s1) else (True, s1\<lparr>hq_rows := f (hq_rows s)\<rparr>))"

definition due :: "JobRow list \<Rightarrow> time \<Rightarrow> PriorRow \<Rightarrow> bool" where
  "due jobs now p \<longleftrightarrow>
     hr_published_at p = None \<and> hr_available_at p \<le> now \<and> hr_attempts p < 20
     \<and> (\<exists>j \<in> set jobs. r_job_id j = hr_job_id p \<and> r_status j = Completed)"

definition relay_items :: "time \<Rightarrow> 'e PriorState \<Rightarrow> (string \<times> Document option) list" where
  "relay_items now s =
     map (\<lambda>p. (hr_job_id p, hr_document p)) (take 20 (sort_key hr_available_at (filter (due (hq_jobs s) now) (hq_rows s))))"

definition mark_published :: "time \<Rightarrow> string \<Rightarrow> PriorRow list \<Rightarrow> PriorRow list" where
  "mark_published now i =
     map (\<lambda>p. if hr_job_id p = i \<and> hr_published_at p = None then p\<lparr>hr_published_at := Some now\<rparr> else p)"

definition mark_failed :: "time \<Rightarrow> string \<Rightarrow> PriorRow list \<Rightarrow> PriorRow list" where
  "mark_failed now i =
     map (\<lambda>p. if hr_job_id p = i \<and> hr_published_at p = None
              then p\<lparr>hr_attempts := hr_attempts p + 1, hr_available_at := now + minute\<rparr> else p)"

text \<open>\<open>DELETE ... LIMIT 1000\<close>: the first thousand expired rows.\<close>

fun delete_expired :: "time \<Rightarrow> nat \<Rightarrow> PriorRow list \<Rightarrow> PriorRow list" where
  "delete_expired now n [] = []"
| "delete_expired now 0 (p # ps) = p # ps"
| "delete_expired now (Suc n) (p # ps) =
     (if hr_expires_at p \<le> now then delete_expired now n ps else p # delete_expired now (Suc n) ps)"

fun relay_each ::
  "(Document \<Rightarrow> 'e \<Rightarrow> bool \<times> 'e) \<Rightarrow> time \<Rightarrow> (string \<times> Document option) list \<Rightarrow> 'e PriorState \<Rightarrow> bool \<times> 'e PriorState" where
  "relay_each send now [] s = (True, s)"
| "relay_each send now ((i, doc) # rest) s =
     (case (case doc of None \<Rightarrow> (False, hq_search s) | Some d \<Rightarrow> Put send now d (hq_search s)) of (ok, e1) \<Rightarrow>
        (case prior_stmt (if ok then mark_published now i else mark_failed now i) (s\<lparr>hq_search := e1\<rparr>) of
           (False, s1) \<Rightarrow> (False, s1)
         | (True, s1) \<Rightarrow> relay_each send now rest s1))"

text \<open>\<open>locked\<close>: \<open>None\<close> when there is no connection, \<open>Some False\<close> when another relay holds the lock or the request fails.
  The answer says whether there was no error.\<close>

definition prior_Relay ::
  "(Document \<Rightarrow> 'e \<Rightarrow> bool \<times> 'e) \<Rightarrow> ('e \<Rightarrow> 'e) \<Rightarrow> time \<Rightarrow> bool option \<Rightarrow> 'e PriorState \<Rightarrow> bool \<times> 'e PriorState" where
  "prior_Relay send purge now locked s =
     (case locked of
        None \<Rightarrow> (False, s)
      | Some False \<Rightarrow> (True, s)
      | Some True \<Rightarrow>
          (case prior_stmt (\<lambda>rows. rows) s of
             (False, s1) \<Rightarrow> (False, s1)
           | (True, s1) \<Rightarrow>
               (case relay_each send now (relay_items now s1) s1 of
                  (False, s2) \<Rightarrow> (False, s2)
                | (True, s2) \<Rightarrow>
                    (case prior_stmt (delete_expired now 1000) s2 of
                       (False, s3) \<Rightarrow> (False, s3)
                     | (True, s3) \<Rightarrow> (True, s3\<lparr>hq_search := purge (hq_search s3)\<rparr>)))))"

section \<open>What a search hands on\<close>

definition acceptable_hit :: "time \<Rightarrow> string \<Rightarrow> string \<Rightarrow> string \<Rightarrow> (string \<Rightarrow> bool) \<Rightarrow> Document \<Rightarrow> bool" where
  "acceptable_hit now tenant project table allowed d \<longleftrightarrow>
     Valid now d \<and> hd_Tenant d = tenant \<and> hd_Project d = project \<and> hd_Table d = table
     \<and> list_all (table_allowed allowed) (hd_Tables d)"

definition hits_summary :: "Document list \<Rightarrow> SearchResult \<Rightarrow> bool" where
  "hits_summary ds r \<longleftrightarrow>
     (let ms = filter hd_Measured ds
      in hs_HistoricalOnly r \<and> hs_Documents r = ds \<and> hs_Count r = int (length ds) \<and> hs_MeasuredCount r = int (length ms)
         \<and> hs_MaxReportedNoise r = Max (insert 0 (hd_Noise ` set ms))
         \<and> hs_MinReportedCandidateMS r = (if ms = [] then None else Some (Min (hd_CandidateMedian ` set ms))))"

lemma take_hit_summary:
  assumes "hits_summary ds r"
  shows "hits_summary (ds @ filter (acceptable_hit now tenant project table allowed) [d]) (take_hit now tenant project table allowed d r)"
proof (cases "acceptable_hit now tenant project table allowed d")
  case False
  then have "take_hit now tenant project table allowed d r = r" by (auto simp: take_hit_def acceptable_hit_def)
  then show ?thesis using assms False by simp
next
  case True
  let ?ms = "filter hd_Measured ds"
  have old: "hs_HistoricalOnly r" "hs_Documents r = ds" "hs_Count r = int (length ds)" "hs_MeasuredCount r = int (length ?ms)"
    "hs_MaxReportedNoise r = Max (insert 0 (hd_Noise ` set ?ms))"
    "hs_MinReportedCandidateMS r = (if ?ms = [] then None else Some (Min (hd_CandidateMedian ` set ?ms)))"
    using assms by (simp_all add: hits_summary_def Let_def)
  show ?thesis
  proof (cases "hd_Measured d")
    case False
    then show ?thesis using True old by (simp add: take_hit_def acceptable_hit_def hits_summary_def)
  next
    case measured: True
    have noise: "Max (insert 0 (hd_Noise ` set (?ms @ [d]))) = max (hd_Noise d) (Max (insert 0 (hd_Noise ` set ?ms)))"
      by (subst Max_insert [symmetric]) (auto simp: insert_commute)
    have least: "Min (hd_CandidateMedian ` set (?ms @ [d])) = min (hd_CandidateMedian d) (Min (hd_CandidateMedian ` set ?ms))" if "?ms \<noteq> []"
      using that by (subst Min_insert [symmetric]) (auto simp: filter_empty_conv)
    let ?r = "take_hit now tenant project table allowed d r"
    have ms: "filter hd_Measured (ds @ [d]) = ?ms @ [d]" using measured by simp
    have fields: "hs_HistoricalOnly ?r = hs_HistoricalOnly r" "hs_Documents ?r = hs_Documents r @ [d]" "hs_Count ?r = hs_Count r + 1"
      "hs_MeasuredCount ?r = hs_MeasuredCount r + 1" "hs_MaxReportedNoise ?r = max (hd_Noise d) (hs_MaxReportedNoise r)"
      "hs_MinReportedCandidateMS ?r =
         Some (case hs_MinReportedCandidateMS r of None \<Rightarrow> hd_CandidateMedian d | Some v \<Rightarrow> min (hd_CandidateMedian d) v)"
      using True measured by (auto simp: take_hit_def acceptable_hit_def Let_def max_def min_def split: option.splits)
    have "hs_MinReportedCandidateMS ?r = Some (Min (hd_CandidateMedian ` set (?ms @ [d])))"
    proof (cases "?ms = []")
      case empty: True
      then show ?thesis using old(6) fields(6) by (simp only: if_True option.case) simp
    next
      case False
      then show ?thesis using old(6) fields(6) least [OF False] by (simp only: False if_False option.case)
    qed
    moreover have "hs_MaxReportedNoise ?r = Max (insert 0 (hd_Noise ` set (?ms @ [d])))"
      by (simp only: fields(5) old(5) noise)
    ultimately have "hits_summary (ds @ [d]) ?r"
      unfolding hits_summary_def Let_def ms using old(1-4) fields(1-4) by (intro conjI) simp_all
    then show ?thesis using True by simp
  qed
qed

lemma fold_take_hit:
  "hits_summary ds r \<Longrightarrow> hits_summary (ds @ filter (acceptable_hit now tenant project table allowed) hits)
     (fold (take_hit now tenant project table allowed) hits r)"
proof (induction hits arbitrary: ds r)
  case (Cons d hits)
  from Cons.IH [OF take_hit_summary [OF Cons.prems, of now tenant project table allowed d]] show ?case
    by (simp split: if_splits)
qed simp

text \<open>
  C28: whatever the search service answers, a search hands on exactly those hits of its page, in their order, that
  are valid and unexpired, belong to the tenant, project and table asked for, and mention allowed tables only; counts
  and extremes are computed from these alone, at most twenty documents are handed on, and nothing is asked for a table
  that is not allowed or for a scope that is not a plain name.
\<close>

theorem search_revalidates_every_hit:
  "case Search ask now tenant project table txt allowed of
     None \<Rightarrow> True
   | Some r \<Rightarrow>
       \<exists>page. ask (search_payload tenant project table txt) = Some page \<and> prior_name tenant \<and> prior_name project \<and> prior_name table
         \<and> table_allowed allowed table \<and> length (hs_Documents r) \<le> 20
         \<and> hits_summary (filter (acceptable_hit now tenant project table allowed) (hp_Hits page)) r"
proof (cases "Search ask now tenant project table txt allowed")
  case (Some r)
  then obtain page where page: "ask (search_payload tenant project table txt) = Some page" "prior_name tenant" "prior_name project"
    "prior_name table" "table_allowed allowed table" "length (hp_Hits page) \<le> 20"
    "r = fold (take_hit now tenant project table allowed) (hp_Hits page) empty_search"
    by (auto simp: Search_def split: if_splits option.splits)
  have "hits_summary [] empty_search" by (simp add: hits_summary_def empty_search_def)
  from fold_take_hit [OF this, of now tenant project table allowed "hp_Hits page"] page(7)
  have "hits_summary (filter (acceptable_hit now tenant project table allowed) (hp_Hits page)) r" by simp
  moreover from this have "length (hs_Documents r) = length (filter (acceptable_hit now tenant project table allowed) (hp_Hits page))"
    by (simp add: hits_summary_def Let_def)
  then have "length (hs_Documents r) \<le> 20"
    using page(6) length_filter_le [of "acceptable_hit now tenant project table allowed" "hp_Hits page"] by linarith
  ultimately show ?thesis using Some page(1-5) by auto
qed simp

end
