(* ===== verification/Shadow_Runner.thy ===== *)
theory Shadow_Runner
  imports Write_Probe Pipeline Job_Api Historical_Prior Kafka_System
begin

text \<open>
  \<open>internal/service/runner.go\<close> (\<open>explain\<close>, \<open>cleanIndexes\<close>) and \<open>internal/service/rewrite.go\<close>: the work of a job on the two
  shadow databases, between taking and releasing the lock that the workers share, and the storing of its report.
\<close>

section \<open>Shadows, runners, control database\<close>

text \<open>A shadow answers as far as the source asks it; \<open>GET_LOCK\<close> and \<open>RELEASE_LOCK\<close> answer a nullable number.\<close>

record 's Shadow =
  sh_bench :: "'s BenchDB"
  sh_probe :: "'s ProbeDB"
  sh_open :: "'s \<Rightarrow> bool"
  sh_lock :: "'s \<Rightarrow> int option option \<times> 's"
  sh_unlock :: "'s \<Rightarrow> int option option \<times> 's"
  sh_indexes :: "'s \<Rightarrow> (string \<times> string) answer"

abbreviation sh_data :: "'s Shadow \<Rightarrow> 's ShadowDB" where
  "sh_data D \<equiv> bd_shadow (sh_bench D)"

text \<open>\<open>rn_perf_json\<close> is \<open>json.Marshal\<close> of a benchmark report, \<open>rn_saved\<close> the time of the control database.\<close>

record ('b, 'c, 't) Runner =
  rn_B :: "'b Shadow"
  rn_C :: "'c Shadow"
  rn_AllowedTables :: "(string \<Rightarrow> bool) option"
  rn_Representative :: "Representative option"
  rn_ModelVersion :: string
  rn_env :: "'t BenchEnv"
  rn_pipe :: PipeEnv
  rn_perf_json :: "BenchReport \<Rightarrow> WriteCost option \<Rightarrow> string"
  rn_db :: Database
  rn_saved :: time

abbreviation rn_U :: "('b, 'c, 't, 'z) Runner_scheme \<Rightarrow> unicode_tables" where "rn_U rn \<equiv> be_U (rn_env rn)"
abbreviation rn_P :: "('b, 'c, 't, 'z) Runner_scheme \<Rightarrow> sql_parser" where "rn_P rn \<equiv> be_P (rn_env rn)"
abbreviation rn_H :: "('b, 'c, 't, 'z) Runner_scheme \<Rightarrow> string \<Rightarrow> string" where "rn_H rn \<equiv> be_H (rn_env rn)"

record Control =
  ct_api :: api_db
  ct_priors :: "PriorRow list"

datatype job_error =
    JobRejected | JobLeaseLost | JobFailed string | JobData shadow_error | JobResult result_error | JobBench bench_error | JobDriver

section \<open>Candidate indexes\<close>

definition session_limit :: string where
  "session_limit = ''SET SESSION max_execution_time=2000''"

definition drop_index :: "string \<Rightarrow> string \<Rightarrow> string" where
  "drop_index name quoted = ''DROP INDEX '' @ [CHR 0x60] @ name @ [CHR 0x60] @ '' ON '' @ quoted"

definition safe_index :: "string \<Rightarrow> bool" where
  "safe_index name \<longleftrightarrow> list_all (\<lambda>c. c \<noteq> CHR 0x60 \<and> c \<noteq> CHR 0x0D \<and> c \<noteq> CHR 0x0A) name \<and> HasPrefix name ''idx_cand_''"

fun drop_indexes :: "'s Shadow \<Rightarrow> (string \<times> string) list \<Rightarrow> 's \<Rightarrow> bool \<times> 's" where
  "drop_indexes D [] s = (True, s)"
| "drop_indexes D ((table, name) # rest) s =
     (case Quote table of
        Inl e \<Rightarrow> (False, s)
      | Inr quoted \<Rightarrow>
          if \<not> safe_index name then (False, s)
          else (case db_exec (sh_data D) (drop_index name quoted) s of
                  (False, s1) \<Rightarrow> (False, s1)
                | (True, s1) \<Rightarrow> drop_indexes D rest s1))"

definition cleanIndexes :: "'s Shadow \<Rightarrow> 's \<Rightarrow> bool \<times> 's" where
  "cleanIndexes D s =
     (case query_rows (\<lambda>v acc. Inr (acc @ [v])) (sh_indexes D s) [] of
        Inl e \<Rightarrow> (False, s)
      | Inr names \<Rightarrow> drop_indexes D names s)"

definition take_lock :: "'s Shadow \<Rightarrow> 's \<Rightarrow> bool \<times> 's" where
  "take_lock D s = (case sh_lock D s of (answer, s1) \<Rightarrow> (answer = Some (Some 1), s1))"

definition release_lock :: "'s Shadow \<Rightarrow> 's \<Rightarrow> bool \<times> 's" where
  "release_lock D s = (case sh_unlock D s of (answer, s1) \<Rightarrow> (answer = Some (Some 1), s1))"

section \<open>The EXPLAIN runner of a job\<close>

type_synonym performance = "BenchReport \<times> WriteCost option"

definition bench_of :: "('b, 'c, 't) Runner \<Rightarrow> string \<Rightarrow> string \<Rightarrow> string list \<Rightarrow> string \<Rightarrow> ('b, 'c, 't) BenchRun" where
  "bench_of rn query candidateQuery tables snapshot =
     \<lparr>bw_env = rn_env rn, bw_B = sh_bench (rn_B rn), bw_C = sh_bench (rn_C rn), bw_query = query,
      bw_candidateQuery = candidateQuery, bw_tables = tables, bw_snapshot = snapshot, bw_representative = rn_Representative rn\<rparr>"

text \<open>The benchmark of an approved index: the report is kept even when the benchmark or the write probe fails.\<close>

definition measure_index ::
  "('b, 'c, 't) Runner \<Rightarrow> string \<Rightarrow> string \<Rightarrow> string \<Rightarrow> 'b \<times> 'c \<Rightarrow> (bool \<times> performance option) \<times> 'b \<times> 'c" where
  "measure_index rn query table snapshot s =
     (case Inspect (rn_U rn) (rn_P rn) query of
        Inl e \<Rightarrow> ((False, None), s)
      | Inr tables \<Rightarrow>
          (case bench_Run (bench_of rn query query tables snapshot) s of
             ((p, Some e), s1) \<Rightarrow> ((False, Some (p, None)), s1)
           | ((p, None), s1) \<Rightarrow>
               (case ProbeWrites (sh_probe (rn_B rn)) (sh_probe (rn_C rn)) table s1 of
                  ((w, Some e), s2) \<Rightarrow> ((False, Some (p, None)), s2)
                | ((w, None), s2) \<Rightarrow>
                    ((True, Some (if bn_Eligible p \<and> wc_Eligible w
                                  then p\<lparr>bn_Recommendation := ''shadow_read_and_insert_verified_requires_production_workload_review''\<rparr>
                                  else p, Some w)), s2))))"

text \<open>Under the lock: clean up, gate, baseline plan, measurement.\<close>

definition explain_locked ::
  "('b, 'c, 't) Runner \<Rightarrow> string \<Rightarrow> Prepared \<Rightarrow> bool \<Rightarrow> 'b \<times> 'c \<Rightarrow> ((Report \<times> string) option \<times> performance option) \<times> 'b \<times> 'c" where
  "explain_locked rn query p measuring s =
     (case cleanIndexes (rn_C rn) (snd s) of
        (False, c1) \<Rightarrow> ((None, None), (fst s, c1))
      | (True, c1) \<Rightarrow>
          (case GateRun (rn_U rn) (rn_P rn) (rn_H rn) (env_now (rn_pipe rn))
                  \<lparr>g_Baseline = Some (sh_data (rn_B rn)), g_Candidate = Some (sh_data (rn_C rn)), g_AllowedTables = rn_AllowedTables rn\<rparr>
                  p (fst s) c1 of
             (Inl e, c2) \<Rightarrow> ((None, None), (fst s, c2))
           | (Inr report, c2) \<Rightarrow>
               (case db_explain (sh_data (rn_B rn)) (fst s) (explain_statement (pr_SQL p)) of
                  None \<Rightarrow> ((None, None), (fst s, c2))
                | Some plan \<Rightarrow>
                    if \<not> measuring then ((Some (report, plan), None), (fst s, c2))
                    else (case measure_index rn query (sp_Table (pr_Spec p)) (Snapshot.sn_Digest (rp_Snapshot report)) (fst s, c2) of
                            ((ok, perf), s1) \<Rightarrow> ((if ok then Some (report, plan) else None, perf), s1)))))"

text \<open>\<open>SET SESSION\<close> on one side.\<close>

definition limit_session :: "('b, 'c, 't) Runner \<Rightarrow> side \<Rightarrow> 'b \<times> 'c \<Rightarrow> bool \<times> 'b \<times> 'c" where
  "limit_session rn d = on_side d (db_exec (sh_data (rn_B rn)) session_limit) (db_exec (sh_data (rn_C rn)) session_limit)"

text \<open>The deferred steps: indexes dropped, lock released, whatever came before.  A lock that is not released only drops the
  connection.\<close>

definition explain_shadows ::
  "('b, 'c, 't) Runner \<Rightarrow> string \<Rightarrow> Prepared \<Rightarrow> bool \<Rightarrow> 'b \<times> 'c \<Rightarrow> ((Report \<times> string) option \<times> performance option) \<times> 'b \<times> 'c" where
  "explain_shadows rn query p measuring s =
     (if \<not> sh_open (rn_C rn) (snd s) \<or> \<not> sh_open (rn_B rn) (fst s) then ((None, None), s)
      else case limit_session rn CandidateSide s of
        (False, s1) \<Rightarrow> ((None, None), s1)
      | (True, s1) \<Rightarrow>
          (case limit_session rn BaselineSide s1 of
             (False, s2) \<Rightarrow> ((None, None), s2)
           | (True, s2) \<Rightarrow>
               (case take_lock (rn_C rn) (snd s2) of
                  (False, c3) \<Rightarrow> ((None, None), (fst s2, c3))
                | (True, c3) \<Rightarrow>
                    (case explain_locked rn query p measuring (fst s2, c3) of
                       ((out, perf), (b4, c4)) \<Rightarrow>
                         (case cleanIndexes (rn_C rn) c4 of
                            (clean, c5) \<Rightarrow> ((if clean then out else None, perf), (b4, snd (release_lock (rn_C rn) c5))))))))"

definition runner_explain ::
  "('b, 'c, 't) Runner \<Rightarrow> bool \<Rightarrow> (('b \<times> 'c) \<times> performance option) explain_runner" where
  "runner_explain rn measuring query raw s =
     (case DecodeStrict raw of
        Inl e \<Rightarrow> (None, s)
      | Inr spec \<Rightarrow>
          (case Prepare (rn_U rn) (rn_P rn) query spec of
             Inl e \<Rightarrow> (None, s)
           | Inr p \<Rightarrow>
               (case explain_shadows rn query p measuring (fst s) of
                  ((out, perf), s1) \<Rightarrow> (out, (s1, case perf of None \<Rightarrow> snd s | Some x \<Rightarrow> Some x)))))"

section \<open>Storing a report\<close>

text \<open>\<open>INSERT ... SELECT job_id,? ... ON DUPLICATE KEY UPDATE\<close>, with the number of rows that the driver reports.\<close>

definition lease_live :: "time \<Rightarrow> Job \<Rightarrow> MySQL \<Rightarrow> bool" where
  "lease_live now job m \<longleftrightarrow> (\<exists>r \<in> set (t_jobs (my_tables m)). r_job_id r = j_ID job \<and> row_held (j_LeaseOwner job) now r)"

definition store_report :: "bool \<Rightarrow> string \<Rightarrow> bytes \<Rightarrow> ServiceTables \<Rightarrow> nat \<times> ServiceTables" where
  "store_report live jid raw t =
     (if \<not> live then (0, t)
      else if jid \<in> fst ` set (tb_reports t)
      then (2, t\<lparr>tb_reports := map (\<lambda>kv. if fst kv = jid then (jid, raw) else kv) (tb_reports t)\<rparr>)
      else (1, t\<lparr>tb_reports := tb_reports t @ [(jid, raw)]\<rparr>))"

definition save_report :: "('b, 'c, 't) Runner \<Rightarrow> Job \<Rightarrow> bytes \<Rightarrow> api_db \<Rightarrow> nat option \<times> api_db" where
  "save_report rn job raw a =
     sd_exec (\<lambda>t. Some (store_report (lease_live (rn_saved rn) job (sd_jobs a)) (j_ID job) (db_json (rn_db rn) raw) t)) a"

section \<open>Rewrites\<close>

record rewriteReport =
  re_Protocol :: string
  re_Equivalent :: bool
  re_Snapshot :: string
  re_OriginalSHA :: string
  re_CandidateSHA :: string
  re_Ordered :: bool
  re_BaselinePlan :: string
  re_CandidatePlan :: string
  re_Limitations :: "string list"

definition rewrite_limits :: "string list" where
  "rewrite_limits =
     [''Equivalence is checked on both current shadow snapshots; it is not a universal proof.'',
      ''No production SQL, DML or DDL is executed. Ordered results retain order; unordered duplicates and NULLs retain multiplicity.'']"

definition read_query :: "'t BenchEnv \<Rightarrow> 's BenchDB \<Rightarrow> bool \<Rightarrow> string \<Rightarrow> 's \<Rightarrow> (job_error + string) \<times> 's" where
  "read_query env D ordered q s =
     (case bd_query D q s of ((answer, elapsed), s1) \<Rightarrow>
        (case Read (be_canon env) (be_H env) ordered answer of Inl e \<Rightarrow> Inl (JobResult e) | Inr d \<Rightarrow> Inr d, s1))"

text \<open>The first digest is the reference; the state is the reference and whether all were equal.\<close>

definition compare_digest :: "string \<Rightarrow> string \<times> bool \<Rightarrow> string \<times> bool" where
  "compare_digest d r = (if fst r = [] then (d, snd r) else if d \<noteq> fst r then (fst r, False) else r)"

definition read_on ::
  "('b, 'c, 't) Runner \<Rightarrow> bool \<Rightarrow> side \<Rightarrow> string \<Rightarrow> 'b \<times> 'c \<Rightarrow> (job_error + string) \<times> 'b \<times> 'c" where
  "read_on rn ordered d q =
     on_side d (read_query (rn_env rn) (sh_bench (rn_B rn)) ordered q) (read_query (rn_env rn) (sh_bench (rn_C rn)) ordered q)"

fun compare_reads ::
  "('b, 'c, 't) Runner \<Rightarrow> bool \<Rightarrow> (side \<times> string) list \<Rightarrow> string \<times> bool \<Rightarrow> 'b \<times> 'c \<Rightarrow> (job_error + bool) \<times> 'b \<times> 'c" where
  "compare_reads rn ordered [] r = st_return (snd r)"
| "compare_reads rn ordered ((d, q) # rest) r =
     st_bind (read_on rn ordered d q) (\<lambda>digest. compare_reads rn ordered rest (compare_digest digest r))"

definition four_reads :: "string \<Rightarrow> string \<Rightarrow> (side \<times> string) list" where
  "four_reads sql other = [(BaselineSide, sql), (BaselineSide, other), (CandidateSide, sql), (CandidateSide, other)]"

definition snapshot_of :: "'s Shadow \<Rightarrow> (string \<Rightarrow> string) \<Rightarrow> string list \<Rightarrow> 's \<Rightarrow> job_error + string" where
  "snapshot_of D H tables s =
     (case Compute H (sh_data D) s tables of Inl e \<Rightarrow> Inl (JobData e) | Inr x \<Rightarrow> Inr (Snapshot.sn_Digest x))"

definition rewrite_evidence :: "('b, 'c, 't) Runner \<Rightarrow> Job \<Rightarrow> Rewrite \<Rightarrow> string \<Rightarrow> bool \<Rightarrow> string \<Rightarrow> string \<Rightarrow> rewriteReport" where
  "rewrite_evidence rn job spec before same bp cp =
     \<lparr>re_Protocol = ''snapshot-rewrite.v1'', re_Equivalent = same, re_Snapshot = before, re_OriginalSHA = j_SQLSHA256 job,
      re_CandidateSHA = rn_H rn (rw_SQL spec), re_Ordered = OrderSensitive (rn_U rn) (rn_P rn) (j_SQL job),
      re_BaselinePlan = bp, re_CandidatePlan = cp, re_Limitations = rewrite_limits\<rparr>"

text \<open>\<open>json.Marshal\<close> of the bundle: \<open>None\<close> when a plan is no JSON text.\<close>

definition evidence_json :: "rewriteReport \<Rightarrow> string option" where
  "evidence_json r =
     (case (enc_raw (re_BaselinePlan r), enc_raw (re_CandidatePlan r)) of
        (Some bp, Some cp) \<Rightarrow>
          Some (enc_object (f_str ''protocol'' (re_Protocol r) @ [(''result_equivalent'', enc_bool (re_Equivalent r))] @
            f_str ''snapshot_sha256'' (re_Snapshot r) @ f_str ''original_sql_sha256'' (re_OriginalSHA r) @
            f_str ''candidate_sql_sha256'' (re_CandidateSHA r) @
            [(''ordered_result'', enc_bool (re_Ordered r)), (''baseline_plan'', bp), (''candidate_plan'', cp),
             (''limitations'', enc_strings (re_Limitations r))]))
      | _ \<Rightarrow> None)"

definition rewrite_bundle ::
  "('b, 'c, 't) Runner \<Rightarrow> Job \<Rightarrow> Rewrite \<Rightarrow> rewriteReport \<Rightarrow> BenchReport option \<Rightarrow> string option" where
  "rewrite_bundle rn job spec evidence perf =
     map_option (\<lambda>ev. enc_object ([(''candidate_spec'', rewrite_json spec)] @ f_str ''job_id'' (j_ID job) @
         (case perf of None \<Rightarrow> [] | Some p \<Rightarrow> [(''performance'', rn_perf_json rn p None)]) @ [(''rewrite'', ev)] @
         f_str ''sql_sha256'' (j_SQLSHA256 job) @
         [(''versions'', enc_object (f_str ''benchmark'' ''bounded-ab.v1'' @ f_str ''rewrite'' ''snapshot-rewrite.v1'' @
             f_str ''rules'' ''mysql-ast.v2'' @ f_str ''schema'' ''backend.v3''))]))
       (evidence_json evidence)"

definition report_limit :: nat where
  "report_limit = 2097152"

text \<open>The steps between the clean-up and the storing: versions, snapshots, four reads, two plans, a benchmark, snapshots.\<close>

definition rewrite_check ::
  "('b, 'c, 't) Runner \<Rightarrow> string list \<Rightarrow> 'b \<times> 'c \<Rightarrow> job_error + string" where
  "rewrite_check rn tables s =
     (case (db_version (sh_data (rn_B rn)) (fst s), db_version (sh_data (rn_C rn)) (snd s)) of
        (Some bv, Some cv) \<Rightarrow>
          if bv \<noteq> cv then Inl (JobFailed ''shadow_versions_differ'')
          else result_bind (snapshot_of (rn_B rn) (rn_H rn) tables (fst s)) (\<lambda>before.
            if snapshot_of (rn_C rn) (rn_H rn) tables (snd s) \<noteq> Inr before then Inl (JobFailed ''shadow_snapshots_differ'')
            else Inr before)
      | _ \<Rightarrow> Inl (JobFailed ''shadow_versions_differ''))"

definition rewrite_plans :: "('b, 'c, 't) Runner \<Rightarrow> string \<Rightarrow> string \<Rightarrow> 'b \<times> 'c \<Rightarrow> job_error + string \<times> string" where
  "rewrite_plans rn sql other s =
     (case (db_explain (sh_data (rn_B rn)) (fst s) (explain_statement sql), db_explain (sh_data (rn_C rn)) (snd s) (explain_statement other)) of
        (Some bp, Some cp) \<Rightarrow> if \<not> json_valid bp \<or> \<not> json_valid cp then Inl JobRejected else Inr (bp, cp)
      | _ \<Rightarrow> Inl (JobFailed ''rewrite_explain_failed''))"

definition rewrite_benchmark ::
  "('b, 'c, 't) Runner \<Rightarrow> Job \<Rightarrow> Rewrite \<Rightarrow> string list \<Rightarrow> string \<Rightarrow> bool \<Rightarrow> 'b \<times> 'c \<Rightarrow> (job_error + BenchReport option) \<times> 'b \<times> 'c" where
  "rewrite_benchmark rn job spec tables before same s =
     (if same \<and> o_Benchmark (j_Options job)
      then (case RunQueries (bench_of rn (j_SQL job) (rw_SQL spec) tables before) s of
              ((p, Some e), s1) \<Rightarrow> (Inl (JobBench e), s1)
            | ((p, None), s1) \<Rightarrow> (Inr (Some p), s1))
      else (Inr None, s))"

definition rewrite_after :: "('b, 'c, 't) Runner \<Rightarrow> string list \<Rightarrow> string \<Rightarrow> 'b \<times> 'c \<Rightarrow> job_error + unit" where
  "rewrite_after rn tables before s =
     result_bind (snapshot_of (rn_B rn) (rn_H rn) tables (fst s)) (\<lambda>x.
     result_bind (snapshot_of (rn_C rn) (rn_H rn) tables (snd s)) (\<lambda>y.
       if before \<noteq> x \<or> before \<noteq> y then Inl (JobFailed ''rewrite_snapshot_changed'') else Inr ()))"

definition pure_step :: "('s \<Rightarrow> 'e + 'a) \<Rightarrow> 's \<Rightarrow> ('e + 'a) \<times> 's" where
  "pure_step f s = (f s, s)"

text \<open>The text of the report, and whether the results were equal.\<close>

definition rewrite_steps ::
  "('b, 'c, 't) Runner \<Rightarrow> Job \<Rightarrow> Rewrite \<Rightarrow> string list \<Rightarrow> 'b \<times> 'c \<Rightarrow> (job_error + string \<times> bool) \<times> 'b \<times> 'c" where
  "rewrite_steps rn job spec tables =
     st_bind (pure_step (rewrite_check rn tables)) (\<lambda>before.
     st_bind (compare_reads rn (OrderSensitive (rn_U rn) (rn_P rn) (j_SQL job)) (four_reads (j_SQL job) (rw_SQL spec)) ([], True)) (\<lambda>same.
     st_bind (pure_step (rewrite_plans rn (j_SQL job) (rw_SQL spec))) (\<lambda>plans.
     st_bind (rewrite_benchmark rn job spec tables before same) (\<lambda>perf.
     st_bind (pure_step (rewrite_after rn tables before)) (\<lambda>_.
     (case rewrite_bundle rn job spec (rewrite_evidence rn job spec before same (fst plans) (snd plans)) perf of
        None \<Rightarrow> pure_step (\<lambda>_. Inl (JobFailed ''rewrite_report_limit''))
      | Some raw \<Rightarrow>
          if length raw > report_limit then pure_step (\<lambda>_. Inl (JobFailed ''rewrite_report_limit''))
          else st_return (raw, same)))))))"

text \<open>What is stored, and the outcome: a counterexample is stored and the job rejected.\<close>

definition rewrite_store ::
  "('b, 'c, 't) Runner \<Rightarrow> Job \<Rightarrow> job_error + string \<times> bool \<Rightarrow> Control \<Rightarrow> job_error option \<times> Control" where
  "rewrite_store rn job out k =
     (case out of
        Inl e \<Rightarrow> (Some e, k)
      | Inr (raw, same) \<Rightarrow>
          (case save_report rn job raw (ct_api k) of
             (None, a) \<Rightarrow> (Some JobDriver, k\<lparr>ct_api := a\<rparr>)
           | (Some n, a) \<Rightarrow>
               (if n = 0 then Some JobLeaseLost else if \<not> same then Some JobRejected else None, k\<lparr>ct_api := a\<rparr>)))"

definition rewrite_locked ::
  "('b, 'c, 't) Runner \<Rightarrow> Job \<Rightarrow> Rewrite \<Rightarrow> string list \<Rightarrow> ('b \<times> 'c) \<times> Control \<Rightarrow> job_error option \<times> ('b \<times> 'c) \<times> Control" where
  "rewrite_locked rn job spec tables sk =
     (case cleanIndexes (rn_C rn) (snd (fst sk)) of
        (False, c1) \<Rightarrow> (Some JobDriver, (fst (fst sk), c1), snd sk)
      | (True, c1) \<Rightarrow>
          (case rewrite_steps rn job spec tables (fst (fst sk), c1) of
             (out, s2) \<Rightarrow> (case rewrite_store rn job out (snd sk) of (e, k) \<Rightarrow> (e, s2, k))))"

definition runRewrite ::
  "('b, 'c, 't) Runner \<Rightarrow> Job \<Rightarrow> string list \<Rightarrow> ('b \<times> 'c) \<times> Control \<Rightarrow> job_error option \<times> ('b \<times> 'c) \<times> Control" where
  "runRewrite rn job tables sk =
     (case Decode (rn_U rn) (rn_P rn) (j_CandidateSpec job) (j_SQL job) of
        None \<Rightarrow> (Some JobRejected, sk)
      | Some spec \<Rightarrow>
          if \<not> sh_open (rn_B rn) (fst (fst sk)) \<or> \<not> sh_open (rn_C rn) (snd (fst sk)) then (Some JobDriver, sk)
          else (case limit_session rn BaselineSide (fst sk) of
            (False, s1) \<Rightarrow> (Some JobDriver, s1, snd sk)
          | (True, s1) \<Rightarrow>
              (case limit_session rn CandidateSide s1 of
                 (False, s2) \<Rightarrow> (Some JobDriver, s2, snd sk)
               | (True, s2) \<Rightarrow>
                   (case take_lock (rn_C rn) (snd s2) of
                      (False, c3) \<Rightarrow> (Some (JobFailed ''shadow_busy''), (fst s2, c3), snd sk)
                    | (True, c3) \<Rightarrow>
                        (case rewrite_locked rn job spec tables ((fst s2, c3), snd sk) of
                           (e, (b4, c4), k) \<Rightarrow>
                             (case cleanIndexes (rn_C rn) c4 of
                                (clean, c5) \<Rightarrow>
                                  (case release_lock (rn_C rn) c5 of
                                     (unlocked, c6) \<Rightarrow>
                                       (if \<not> unlocked then Some (JobFailed ''shadow_unlock_failed'')
                                        else if \<not> clean then Some (JobFailed ''shadow_cleanup_failed'') else e,
                                        (b4, c6), k))))))))"

section \<open>What a completed rewrite rests on\<close>

lemma read_on_digest:
  assumes "hex_digest (rn_H rn)" "read_on rn ordered d q s = (Inr x, s')" shows "x \<noteq> []"
  using assms
  by (auto simp: read_on_def on_side_def read_query_def Read_def hex_digest_def split: side.splits prod.splits sum.splits option.splits if_splits)

lemma compare_digest_snd: "snd (compare_digest d r) \<Longrightarrow> snd r"
  by (auto simp: compare_digest_def split: if_splits)

lemma four_reads_equal:
  assumes "hex_digest (rn_H rn)" "compare_reads rn ordered (four_reads sql other) ([], True) s = (Inr True, s')"
  obtains d s1 s2 s3 where "read_on rn ordered BaselineSide sql s = (Inr d, s1)" "read_on rn ordered BaselineSide other s1 = (Inr d, s2)"
    "read_on rn ordered CandidateSide sql s2 = (Inr d, s3)" "read_on rn ordered CandidateSide other s3 = (Inr d, s')"
proof -
  obtain d1 s1 d2 s2 d3 s3 d4 where r: "read_on rn ordered BaselineSide sql s = (Inr d1, s1)" "read_on rn ordered BaselineSide other s1 = (Inr d2, s2)"
    "read_on rn ordered CandidateSide sql s2 = (Inr d3, s3)" "read_on rn ordered CandidateSide other s3 = (Inr d4, s')"
    "snd (compare_digest d4 (compare_digest d3 (compare_digest d2 (compare_digest d1 ([], True)))))"
    using assms(2) unfolding four_reads_def compare_reads.simps st_bind_Inr st_return_Inr by blast
  have "d1 \<noteq> []" using read_on_digest [OF assms(1) r(1)] .
  then have "d2 = d1 \<and> d3 = d1 \<and> d4 = d1" using r(5) by (auto simp: compare_digest_def split: if_splits)
  then show thesis using r(1-4) that by blast
qed

lemma rewrite_check_Inr:
  assumes "rewrite_check rn tables s = Inr before"
  shows "snapshot_of (rn_B rn) (rn_H rn) tables (fst s) = Inr before \<and> snapshot_of (rn_C rn) (rn_H rn) tables (snd s) = Inr before
    \<and> db_version (sh_data (rn_B rn)) (fst s) = db_version (sh_data (rn_C rn)) (snd s)"
  using assms by (auto simp: rewrite_check_def result_bind_Inr_iff split: option.splits if_splits)

lemma rewrite_after_Inr:
  "rewrite_after rn tables before s = Inr u \<longleftrightarrow>
     snapshot_of (rn_B rn) (rn_H rn) tables (fst s) = Inr before \<and> snapshot_of (rn_C rn) (rn_H rn) tables (snd s) = Inr before"
  by (auto simp: rewrite_after_def result_bind_Inr_iff)

text \<open>Both statements on both shadows give one result, between two looks at the same snapshot.\<close>

definition rewrite_proved :: "('b, 'c, 't) Runner \<Rightarrow> Job \<Rightarrow> Rewrite \<Rightarrow> string list \<Rightarrow> string \<Rightarrow> bool" where
  "rewrite_proved rn job spec tables before \<longleftrightarrow>
     (let ordered = OrderSensitive (rn_U rn) (rn_P rn) (j_SQL job)
      in \<exists>d s s1 s2 s3 s4 s5.
           snapshot_of (rn_B rn) (rn_H rn) tables (fst s) = Inr before \<and> snapshot_of (rn_C rn) (rn_H rn) tables (snd s) = Inr before
           \<and> read_on rn ordered BaselineSide (j_SQL job) s = (Inr d, s1) \<and> read_on rn ordered BaselineSide (rw_SQL spec) s1 = (Inr d, s2)
           \<and> read_on rn ordered CandidateSide (j_SQL job) s2 = (Inr d, s3) \<and> read_on rn ordered CandidateSide (rw_SQL spec) s3 = (Inr d, s4)
           \<and> s5 = snd (rewrite_benchmark rn job spec tables before True s4)
           \<and> snapshot_of (rn_B rn) (rn_H rn) tables (fst s5) = Inr before \<and> snapshot_of (rn_C rn) (rn_H rn) tables (snd s5) = Inr before)"

lemma rewrite_steps_proved:
  assumes "rewrite_steps rn job spec tables s = (Inr (raw, True), s')" "hex_digest (rn_H rn)"
  obtains before where "rewrite_proved rn job spec tables before"
proof -
  let ?ordered = "OrderSensitive (rn_U rn) (rn_P rn) (j_SQL job)"
  obtain before same s4 plans perf s5 where run: "rewrite_check rn tables s = Inr before"
    "compare_reads rn ?ordered (four_reads (j_SQL job) (rw_SQL spec)) ([], True) s = (Inr same, s4)"
    "rewrite_benchmark rn job spec tables before same s4 = (Inr perf, s5)" "rewrite_after rn tables before s5 = Inr ()" "same"
    using assms(1) by (auto simp: rewrite_steps_def st_bind_Inr pure_step_def split: option.splits if_splits)
  have reads: "compare_reads rn ?ordered (four_reads (j_SQL job) (rw_SQL spec)) ([], True) s = (Inr True, s4)" using run(2,5) by simp
  obtain d s1 s2 s3 where r: "read_on rn ?ordered BaselineSide (j_SQL job) s = (Inr d, s1)" "read_on rn ?ordered BaselineSide (rw_SQL spec) s1 = (Inr d, s2)"
    "read_on rn ?ordered CandidateSide (j_SQL job) s2 = (Inr d, s3)" "read_on rn ?ordered CandidateSide (rw_SQL spec) s3 = (Inr d, s4)"
    using four_reads_equal [OF assms(2) reads] .
  have "s5 = snd (rewrite_benchmark rn job spec tables before True s4)" using run(3,5) by simp
  then have "rewrite_proved rn job spec tables before"
    using rewrite_check_Inr [OF run(1)] r run(4) unfolding rewrite_proved_def rewrite_after_Inr Let_def by blast
  then show thesis by (rule that)
qed

lemma rewrite_locked_None:
  assumes "rewrite_locked rn job spec tables (s, k) = (None, s', k')"
  obtains c1 raw s2 where "rewrite_steps rn job spec tables (fst s, c1) = (Inr (raw, True), s2)"
    "rewrite_store rn job (Inr (raw, True)) k = (None, k')"
proof -
  obtain clean c1 where clean: "cleanIndexes (rn_C rn) (snd s) = (clean, c1)" by (metis surj_pair)
  obtain out s2 where steps: "rewrite_steps rn job spec tables (fst s, c1) = (out, s2)" by (metis surj_pair)
  have store: "rewrite_store rn job out k = (None, k')"
    using assms clean steps by (cases clean) (auto simp: rewrite_locked_def split: prod.splits)
  then obtain raw where "out = Inr (raw, True)" by (cases out) (auto simp: rewrite_store_def split: prod.splits option.splits if_splits)
  then show thesis using that steps store by blast
qed

text \<open>A rewrite either ends before the lock is held, or is what happens under the lock and a clean-up that may fail.\<close>

lemma runRewrite_cases:
  assumes "runRewrite rn job tables (s, k) = (e, s', k')"
  obtains (early) s2 where "e \<noteq> None" "k' = k"
      "s2 = snd (limit_session rn CandidateSide (snd (limit_session rn BaselineSide s)))"
      "s' \<in> {s, snd (limit_session rn BaselineSide s), s2, (fst s2, snd (take_lock (rn_C rn) (snd s2)))}"
  | (locked) spec s1 s2 c3 e1 s4 where "Decode (rn_U rn) (rn_P rn) (j_CandidateSpec job) (j_SQL job) = Some spec"
      "limit_session rn BaselineSide s = (True, s1)" "limit_session rn CandidateSide s1 = (True, s2)"
      "take_lock (rn_C rn) (snd s2) = (True, c3)"
      "rewrite_locked rn job spec tables ((fst s2, c3), k) = (e1, s4, k')" "e = e1 \<or> e \<noteq> None"
      "s' = (fst s4, snd (release_lock (rn_C rn) (snd (cleanIndexes (rn_C rn) (snd s4)))))"
proof (cases "Decode (rn_U rn) (rn_P rn) (j_CandidateSpec job) (j_SQL job)")
  case None
  then show ?thesis using assms early [OF _ _ refl] by (auto simp: runRewrite_def)
next
  case (Some spec)
  show ?thesis
  proof (cases "sh_open (rn_B rn) (fst s) \<and> sh_open (rn_C rn) (snd s)")
    case False
    then show ?thesis using assms Some early [OF _ _ refl] by (auto simp: runRewrite_def)
  next
    case opened: True
    obtain ok1 s1 where l1: "limit_session rn BaselineSide s = (ok1, s1)" by (metis surj_pair)
    obtain ok2 s2 where l2: "limit_session rn CandidateSide s1 = (ok2, s2)" by (metis surj_pair)
    obtain got c3 where lock: "take_lock (rn_C rn) (snd s2) = (got, c3)" by (metis surj_pair)
    obtain e1 b4 c4 k4 where run: "rewrite_locked rn job spec tables ((fst s2, c3), k) = (e1, (b4, c4), k4)" by (metis surj_pair)
    obtain clean c5 where clean: "cleanIndexes (rn_C rn) c4 = (clean, c5)" by (metis surj_pair)
    obtain unlocked c6 where unlock: "release_lock (rn_C rn) c5 = (unlocked, c6)" by (metis surj_pair)
    show ?thesis
    proof (cases "ok1 \<and> ok2 \<and> got")
      case False
      then show ?thesis using assms Some opened l1 l2 lock early [OF _ _ refl]
        by (cases ok1; cases ok2) (auto simp: runRewrite_def split: prod.splits)
    next
      case True
      then have "e = (if \<not> unlocked then Some (JobFailed ''shadow_unlock_failed'')
          else if \<not> clean then Some (JobFailed ''shadow_cleanup_failed'') else e1)" "s' = (b4, c6)" "k' = k4"
        using assms Some opened l1 l2 lock run clean unlock by (simp_all add: runRewrite_def)
      then show ?thesis
        using True Some l1 l2 lock run clean unlock by (intro locked [of spec s1 s2 c3 e1 "(b4, c4)"]) (auto split: if_splits)
    qed
  qed
qed

lemma save_report_cases:
  obtains (fail) a1 where "save_report rn job raw a = (None, a1)" "sd_tables a1 = sd_tables a" "sd_jobs a1 = sd_jobs a"
  | (lost) a1 where "save_report rn job raw a = (Some 0, a1)" "sd_tables a1 = sd_tables a" "sd_jobs a1 = sd_jobs a"
  | (stored) n a1 where "save_report rn job raw a = (Some n, a1)" "0 < n" "sd_jobs a1 = sd_jobs a" "lease_live (rn_saved rn) job (sd_jobs a)"
      "sd_tables a1 = snd (store_report True (j_ID job) (db_json (rn_db rn) raw) (sd_tables a))"
proof (cases "sd_fail a (sd_stmt a)")
  case True
  then show ?thesis using fail by (simp add: save_report_def sd_exec_def Let_def)
next
  case False
  then show ?thesis using lost stored
    by (cases "lease_live (rn_saved rn) job (sd_jobs a)"; cases "j_ID job \<in> fst ` set (tb_reports (sd_tables a))")
       (simp_all add: save_report_def sd_exec_def store_report_def Let_def)
qed

lemma store_report_stored [simp]: "map_of (tb_reports (snd (store_report True jid raw t))) jid = Some raw"
proof -
  have "map_of (map (\<lambda>kv. if fst kv = jid then (jid, raw) else kv) xs) jid = Some raw" if "jid \<in> fst ` set xs" for xs :: "(string \<times> bytes) list"
    using that by (induction xs) auto
  moreover have "map_of xs jid = None" if "jid \<notin> fst ` set xs" for xs :: "(string \<times> bytes) list"
    using that by (simp add: map_of_eq_None_iff)
  ultimately show ?thesis by (simp add: store_report_def map_add_def)
qed

text \<open>
  C9: a rewrite job completes only when, on each of the two shadows, both statements were read and all four results
  have one fingerprint, while both shadows had the same snapshot before these reads and the same again after
  everything else; and its report is then stored, under a live lease.
\<close>

theorem rewrite_completes_only_on_equal_results:
  assumes "runRewrite rn job tables (s, k) = (None, s', k')" "hex_digest (rn_H rn)"
  shows "\<exists>spec before raw. Decode (rn_U rn) (rn_P rn) (j_CandidateSpec job) (j_SQL job) = Some spec
    \<and> rewrite_proved rn job spec tables before \<and> lease_live (rn_saved rn) job (sd_jobs (ct_api k))
    \<and> map_of (tb_reports (sd_tables (ct_api k'))) (j_ID job) = Some (db_json (rn_db rn) raw)"
  using assms(1)
proof (cases rule: runRewrite_cases)
  case early
  then show ?thesis by simp
next
  case (locked spec s1 s2 c3 e1 s4)
  then have "rewrite_locked rn job spec tables ((fst s2, c3), k) = (None, s4, k')" by auto
  then obtain c1 raw s5 where steps: "rewrite_steps rn job spec tables (fst (fst s2, c3), c1) = (Inr (raw, True), s5)"
    and store: "rewrite_store rn job (Inr (raw, True)) k = (None, k')" by (rule rewrite_locked_None)
  obtain before where proved: "rewrite_proved rn job spec tables before" using rewrite_steps_proved [OF steps assms(2)] .
  show ?thesis
    by (cases rule: save_report_cases [where rn = rn and job = job and raw = raw and a = "ct_api k"])
       (use store locked(1) proved in \<open>auto simp: rewrite_store_def\<close>)
qed

section \<open>A concrete rewrite\<close>

definition calm_shadow :: "duration \<Rightarrow> unit Shadow" where
  "calm_shadow d = \<lparr>sh_bench = quick_db sample_shadow d, sh_probe = quick_probe d, sh_open = (\<lambda>_. True),
     sh_lock = (\<lambda>s. (Some (Some 1), s)), sh_unlock = (\<lambda>s. (Some (Some 1), s)), sh_indexes = (\<lambda>_. Some \<lparr>rs_rows = [], rs_end = RowsDone\<rparr>)\<rparr>"

definition calm_pipe :: PipeEnv where
  "calm_pipe = \<lparr>env_sha = sample_digest, env_wr = \<lambda>_. True, env_dir = DirEntries 0, env_since = \<lambda>_. 0, env_now = ''now'', env_order = \<lambda>j. j\<rparr>"

definition calm_runner :: "(unit, unit, unit) Runner" where
  "calm_runner = \<lparr>rn_B = calm_shadow 200, rn_C = calm_shadow 100, rn_AllowedTables = None, rn_Representative = None, rn_ModelVersion = [],
     rn_env = quick_env\<lparr>be_H := \<lambda>_. ''h''\<rparr>, rn_pipe = calm_pipe, rn_perf_json = (\<lambda>_ _. ''{}''), rn_db = \<lparr>db_time = \<lambda>t. t, db_json = \<lambda>x. x\<rparr>, rn_saved = 5\<rparr>"

definition calm_options :: JobOptions where
  "calm_options = \<lparr>o_TraceParent = [], o_TraceState = [], o_TenantID = ''t'', o_ProjectID = ''p'', o_Actor = ''a'', o_Benchmark = False,
     o_ApprovedJobID = [], o_ApprovalReportSHA = []\<rparr>"

definition calm_row :: JobRow where
  "calm_row = \<lparr>r_job_id = replicate 24 CHR ''a'', r_delivery_id = ''d'', r_pr_number = 1, r_sql_text = plain_read, r_candidate_spec = rewrite_doc,
     r_sql_sha256 = ''s'', r_candidate_spec_sha256 = ''c'', r_status = Running, r_attempts = 1, r_next_attempt_at = 0, r_lease_owner = ''w'',
     r_lease_until = Some 9, r_last_error = [], r_created_at = 0, r_updated_at = 0, r_completed_at = None\<rparr>"

definition calm_job :: Job where
  "calm_job = \<lparr>j_Options = calm_options, j_ID = replicate 24 CHR ''a'', j_DeliveryID = ''d'', j_PRNumber = 1, j_SQL = plain_read,
     j_CandidateSpec = rewrite_doc, j_SQLSHA256 = ''s'', j_CandidateSpecSHA256 = ''c'', j_Status = Running, j_Attempts = 1, j_NextAttemptAt = 0,
     j_LeaseOwner = ''w'', j_LeaseUntil = 9, j_LastError = [], j_CreatedAt = 0, j_UpdatedAt = 0, j_CompletedAt = None\<rparr>"

definition calm_control :: Control where
  "calm_control = \<lparr>ct_api = \<lparr>sd_tables = \<lparr>tb_sessions = [], tb_approvals = [], tb_reports = [], tb_audit = []\<rparr>,
     sd_jobs = sample_mysql [calm_row], sd_fail = (\<lambda>_. False), sd_stmt = 0\<rparr>, ct_priors = []\<rparr>"

lemma calm_decode: "Decode ascii_tables (\<lambda>_. Some [plain_tree]) rewrite_doc plain_read = Some \<lparr>rw_Kind = ''rewrite'', rw_SQL = plain_read\<rparr>"
proof -
  have "length plain_read \<le> 65536" "plain_read \<noteq> []" by (simp_all add: plain_read_def)
  then show ?thesis
    by (simp add: Decode_def rewrite_doc_decoded plain_read_analysis not_less [THEN iffD2, OF rewrite_doc_length])
qed

lemma length_esc_string: "length (esc_string s) \<le> 6 * length s"
proof (induction s rule: esc_string.induct)
  case (2 c s)
  obtain r n where rn: "decode_rune (c # s) = (r, n)" by (metis surj_pair)
  have n: "1 \<le> n" "n \<le> length (c # s)" using decode_rune_width [of c s] rn by simp_all
  have IH: "length (esc_string (drop n (c # s))) \<le> 6 * (length (c # s) - n)" if "\<not> ord c < 128"
    using "2.IH"(2) [OF that] rn that by simp
  show ?case
  proof (cases "ord c < 128")
    case True
    then show ?thesis using "2.IH"(1) length_esc_byte [of c] by simp
  next
    case False
    have "length (if r = rune_error \<and> n = 1 then backslash # ''ufffd'' else if r = 0x2028 then backslash # ''u2028''
        else if r = 0x2029 then backslash # ''u2029'' else take n (c # s)) \<le> 6 * n" using n by auto
    then have "length (esc_string (c # s)) \<le> 6 * n + 6 * (length (c # s) - n)"
      using False rn IH by (simp add: Let_def)
    then show ?thesis using n by simp
  qed
qed simp

lemma length_enc_string_any: "length (enc_string s) \<le> 6 * length s + 2"
  using length_esc_string [of s] by (simp add: enc_string_def)

lemma length_Join: "\<forall>w \<in> set ws. length w \<le> n \<Longrightarrow> length (Join ws [c]) \<le> length ws * (n + 1)"
  by (induction ws "[c]" rule: Join.induct) auto

lemma length_enc_object:
  assumes "\<forall>kv \<in> set kvs. 6 * length (fst kv) + length (snd kv) \<le> n" shows "length (enc_object kvs) \<le> 2 + length kvs * (n + 4)"
proof -
  have "\<forall>w \<in> set (map enc_member kvs). length w \<le> n + 3"
    using assms length_enc_string_any by (fastforce simp: enc_member_def intro: order_trans [OF add_mono])
  from length_Join [OF this, of "CHR '',''"] show ?thesis by (simp add: enc_object_def algebra_simps)
qed

definition calm_spec :: Rewrite where
  "calm_spec = \<lparr>rw_Kind = ''rewrite'', rw_SQL = plain_read\<rparr>"

definition calm_evidence :: rewriteReport where
  "calm_evidence = rewrite_evidence calm_runner calm_job calm_spec ''h'' True ''{}'' ''{}''"

lemma calm_bundle: "\<exists>raw. rewrite_bundle calm_runner calm_job calm_spec calm_evidence None = Some raw \<and> length raw \<le> report_limit"
proof -
  have raw: "enc_raw ''{}'' = Some ''{}''" by code_simp
  have sql: "length plain_read = 46" by (simp add: plain_read_def)
  note bound = length_enc_string_any [THEN order_trans]
  obtain ev where ev: "evidence_json calm_evidence = Some ev" "length ev \<le> 2 + 9 * (5000 + 4)"
  proof -
    let ?ev = "the (evidence_json calm_evidence)"
    have limits: "length (enc_strings rewrite_limits) \<le> 4000"
      using length_enc_string_any [of "rewrite_limits ! 0"] length_enc_string_any [of "rewrite_limits ! 1"]
      by (simp add: enc_strings_def enc_list_def rewrite_limits_def)
    have "length ?ev \<le> 2 + 9 * (5000 + 4)"
      unfolding calm_evidence_def rewrite_evidence_def evidence_json_def
      by (simp add: raw f_str_def) (rule order_trans [OF length_enc_object [where n = 5000]];
        use limits in \<open>auto simp: calm_job_def calm_runner_def enc_bool_def intro!: bound\<close>)
    moreover have "evidence_json calm_evidence = Some ?ev" by (simp add: calm_evidence_def rewrite_evidence_def evidence_json_def raw)
    ultimately show thesis using that by blast
  qed
  have spec: "length (rewrite_json calm_spec) \<le> 1000"
    unfolding rewrite_json_def calm_spec_def f_str_def
    by (rule order_trans [OF length_enc_object [where n = 400]]) (auto simp: sql intro!: bound)
  have versions: "length (enc_object [(''benchmark'', enc_string ''bounded-ab.v1''), (''rewrite'', enc_string ''snapshot-rewrite.v1''),
      (''rules'', enc_string ''mysql-ast.v2''), (''schema'', enc_string ''backend.v3'')]) \<le> 2000"
    by (rule order_trans [OF length_enc_object [where n = 400]]) (auto intro!: bound)
  have "length (enc_object [(''candidate_spec'', rewrite_json calm_spec), (''job_id'', enc_string (replicate 24 CHR ''a'')), (''rewrite'', ev),
      (''sql_sha256'', enc_string ''s''), (''versions'', enc_object [(''benchmark'', enc_string ''bounded-ab.v1''),
        (''rewrite'', enc_string ''snapshot-rewrite.v1''), (''rules'', enc_string ''mysql-ast.v2''), (''schema'', enc_string ''backend.v3'')])]) \<le> report_limit"
    unfolding report_limit_def
    by (rule order_trans [OF length_enc_object [where n = 60000]]) (use ev(2) spec versions in \<open>auto intro!: bound\<close>)
  then show ?thesis by (simp add: rewrite_bundle_def ev(1) f_str_def calm_job_def)
qed

lemma calm_digest: "read_on calm_runner ordered d q s = (Inr ''h'', s)"
  by (cases d; cases s) (auto simp: read_on_def on_side_def read_query_def calm_runner_def calm_shadow_def quick_env_def quick_db_def
      quick_answer_def Read_def sample_answer_def quick_value row_bytes_def Let_def)

lemma calm_snapshot: "snapshot_of (calm_shadow d) (\<lambda>_. ''h'') [''t''] s = Inr ''h''"
proof -
  obtain x where "Compute (\<lambda>_. ''h'') sample_shadow () [''t''] = Inr x" "Snapshot.sn_Digest x = ''h''"
    by (simp add: Compute_def snap_table_def sample_shadow_def Quote_def query_rows_def column_row_def key_row_def
      index_row_def data_row_def value_bytes_def hash_write_def sample_identifiers)
  then show ?thesis by (simp add: snapshot_of_def calm_shadow_def quick_db_def)
qed

lemma calm_fields [simp]:
  "rn_B calm_runner = calm_shadow 200" "rn_C calm_runner = calm_shadow 100" "rn_H calm_runner = (\<lambda>_. ''h'')"
  "rn_U calm_runner = ascii_tables" "rn_P calm_runner = (\<lambda>_. Some [plain_tree])" "rn_AllowedTables calm_runner = None"
  "sh_data (calm_shadow d) = sample_shadow" "sh_open (calm_shadow d) u" "j_SQL calm_job = plain_read"
  "j_CandidateSpec calm_job = rewrite_doc" "o_Benchmark (j_Options calm_job) = False"
  by (simp_all add: calm_runner_def calm_shadow_def quick_env_def quick_db_def calm_job_def calm_options_def)

lemma calm_steps: "\<exists>raw. rewrite_steps calm_runner calm_job calm_spec [''t''] s = (Inr (raw, True), s)"
proof -
  obtain raw where raw: "rewrite_bundle calm_runner calm_job calm_spec calm_evidence None = Some raw" "length raw \<le> report_limit"
    using calm_bundle by blast
  have "db_version sample_shadow u = Some ''8.0.36''" for u by (simp add: sample_shadow_def)
  then have "rewrite_check calm_runner [''t''] s = Inr ''h''"
    by (simp add: rewrite_check_def calm_snapshot)
  moreover have "compare_reads calm_runner ordered (four_reads a b) ([], True) s = (Inr True, s)" for ordered a b
    by (simp add: four_reads_def st_bind_def st_return_def calm_digest compare_digest_def)
  moreover have "json_valid ''{}''" by code_simp
  then have "rewrite_plans calm_runner a b s = Inr (''{}'', ''{}'')" for a b
    by (simp add: rewrite_plans_def) (simp add: sample_shadow_def)
  moreover have "rewrite_after calm_runner [''t''] ''h'' s = Inr ()"
    by (simp add: rewrite_after_def calm_snapshot)
  ultimately show ?thesis
    using raw by (simp add: rewrite_steps_def st_bind_def st_return_def pure_step_def rewrite_benchmark_def calm_evidence_def)
qed

lemma calm_statements:
  "limit_session calm_runner d s = (True, s)" "take_lock (calm_shadow n) u = (True, u)" "release_lock (calm_shadow n) u = (True, u)"
  "cleanIndexes (calm_shadow n) u = (True, u)"
proof -
  show "limit_session calm_runner d s = (True, s)"
    by (cases d; cases s) (simp_all add: limit_session_def on_side_def, simp_all add: sample_shadow_def)
qed (simp_all add: take_lock_def release_lock_def cleanIndexes_def calm_shadow_def query_rows_def)

lemma calm_lease: "lease_live 5 calm_job (sample_mysql [calm_row])"
  by (simp add: lease_live_def sample_mysql_def calm_row_def calm_job_def row_held_def until_gt_def)

lemma calm_run: "\<exists>k'. runRewrite calm_runner calm_job [''t''] (((), ()), calm_control) = (None, ((), ()), k')"
proof -
  obtain raw where steps: "rewrite_steps calm_runner calm_job calm_spec [''t''] ((), ()) = (Inr (raw, True), ((), ()))"
    using calm_steps [of "((), ())"] by blast
  have "\<exists>k'. rewrite_store calm_runner calm_job (Inr (raw, True)) calm_control = (None, k')"
    using calm_lease
    by (simp add: rewrite_store_def save_report_def sd_exec_def store_report_def calm_control_def calm_runner_def Let_def)
  then show ?thesis
    using steps by (auto simp: runRewrite_def calm_decode calm_spec_def [symmetric] calm_statements rewrite_locked_def)
qed

theorem rewrite_completes_only_on_equal_results_witness:
  "\<exists>k' before raw. runRewrite calm_runner calm_job [''t''] (((), ()), calm_control) = (None, ((), ()), k')
    \<and> rewrite_proved calm_runner calm_job calm_spec [''t''] before \<and> map_of (tb_reports (sd_tables (ct_api k'))) (j_ID calm_job) = Some raw"
proof -
  obtain k' where run: "runRewrite calm_runner calm_job [''t''] (((), ()), calm_control) = (None, ((), ()), k')" using calm_run by blast
  have hex: "hex_digest (rn_H calm_runner)" by (simp add: hex_digest_def)
  from rewrite_completes_only_on_equal_results [OF run hex] run show ?thesis by (auto simp: calm_decode calm_spec_def)
qed

end
