(* ===== verification/Runner_Safety.thy ===== *)
theory Runner_Safety
  imports Job_Runner
begin

text \<open>
  What a job does to the two shadows: every state of a shadow during and after a run is reached by statements of a
  fixed form, from \<open>internal/service/runner.go\<close> down to the benchmark and the write probe.
\<close>

section \<open>Statements\<close>

text \<open>\<open>X\<close>: statements that are executed, \<open>Q\<close>: queries whose rows are read, \<open>W\<close>: whether inserts are measured.\<close>

inductive reached :: "'s Shadow \<Rightarrow> (string \<Rightarrow> bool) \<Rightarrow> (string \<Rightarrow> bool) \<Rightarrow> bool \<Rightarrow> 's \<Rightarrow> 's \<Rightarrow> bool" for D X Q W where
  reached_none: "reached D X Q W s s"
| reached_exec: "reached D X Q W s s1 \<Longrightarrow> X stmt \<Longrightarrow> reached D X Q W s (snd (db_exec (sh_data D) stmt s1))"
| reached_query: "reached D X Q W s s1 \<Longrightarrow> Q query \<Longrightarrow> reached D X Q W s (snd (bd_query (sh_bench D) query s1))"
| reached_analyze: "reached D X Q W s s1 \<Longrightarrow> Q query \<Longrightarrow> reached D X Q W s (snd (bd_analyze (sh_bench D) (analyze_text query) s1))"
| reached_probe: "reached D X Q W s s1 \<Longrightarrow> W \<Longrightarrow> sent (sh_probe D) table s1 s2 \<Longrightarrow> reached D X Q W s s2"
| reached_lock: "reached D X Q W s s1 \<Longrightarrow> reached D X Q W s (snd (sh_lock D s1))"
| reached_unlock: "reached D X Q W s s1 \<Longrightarrow> reached D X Q W s (snd (sh_unlock D s1))"

lemma reached_trans: "reached D X Q W s1 s2 \<Longrightarrow> reached D X Q W s s1 \<Longrightarrow> reached D X Q W s s2"
  by (induction rule: reached.induct) (blast intro: reached.intros)+

lemma reached_order [keeps]: "reflp (reached D X Q W)" "transp (reached D X Q W)"
  by (auto simp: reflp_def transp_def intro: reached_none reached_trans)

abbreviation "both_reached rn XB XC Q W \<equiv> pairwise (reached (rn_B rn) XB Q W) (reached (rn_C rn) XC Q W)"

lemma both_none [simp]: "both_reached rn XB XC Q W s s"
  by (simp add: pairwise_def reached_none)

lemma both_trans: "both_reached rn XB XC Q W s s1 \<Longrightarrow> both_reached rn XB XC Q W s1 s2 \<Longrightarrow> both_reached rn XB XC Q W s s2"
  by (auto simp: pairwise_def intro: reached_trans)

section \<open>Benchmarks\<close>

lemma execute_reached [keeps]: "Q query \<Longrightarrow> keeps_to (reached D X Q W) (execute env (sh_bench D) query)"
  by (auto simp: keeps_to_def execute_def case_prod_beta split: sum.splits intro: reached_query [OF reached_none])

lemma bench_analyze_reached: "Q query \<Longrightarrow> reached D X Q W s (snd (bench_analyze (sh_bench D) query s))"
  by (auto simp: bench_analyze_def case_prod_beta split: option.splits intro: reached_analyze [OF reached_none])

lemma sum_of_keeps [keeps]: "reflp R \<Longrightarrow> transp R \<Longrightarrow> keeps_to R m \<Longrightarrow> keeps_to R (sum_of n m acc)"
  by (induction n arbitrary: acc) (simp_all add: keeps)

lemma bench_exec_reached [keeps]:
  "Q q1 \<Longrightarrow> Q q2 \<Longrightarrow> keeps_to (both_reached rn XB XC Q W) (bench_exec (bench_of rn q1 q2 tables snapshot) d)"
  unfolding bench_exec_def by (simp add: bench_of_def) (intro keeps)

lemma bench_digest_reached [keeps]:
  "Q q1 \<Longrightarrow> Q q2 \<Longrightarrow> keeps_to (both_reached rn XB XC Q W) (bench_digest (bench_of rn q1 q2 tables snapshot) d)"
  unfolding bench_digest_def by (intro keeps)

lemma bench_rounds_reached [keeps]:
  "Q q1 \<Longrightarrow> Q q2 \<Longrightarrow> keeps_to (both_reached rn XB XC Q W) (bench_rounds (bench_of rn q1 q2 tables snapshot))"
  unfolding bench_rounds_def bench_one_def by (intro keeps)

lemma keeps_toD: "keeps_to R m \<Longrightarrow> m s = (r, s') \<Longrightarrow> R s s'"
  unfolding keeps_to_def by (metis snd_conv)

lemma recheck_reached [keeps]:
  assumes "Q q1" "Q q2" shows "keeps_to (both_reached rn XB XC Q W) (recheck (bench_of rn q1 q2 tables snapshot))"
  unfolding recheck_def
  by (intro keeps assms) (auto simp: keeps_to_def split: sum.splits)

lemma analyze_side_reached:
  "Q q1 \<Longrightarrow> Q q2 \<Longrightarrow> both_reached rn XB XC Q W s
     (snd (on_side d (bench_analyze (sh_bench (rn_B rn)) q1) (bench_analyze (sh_bench (rn_C rn)) q2) s))"
  by (cases d) (auto simp: on_side_def case_prod_beta pairwise_def reached_none intro: bench_analyze_reached)

lemma bench_finish_reached:
  assumes "Q q1" "Q q2" shows "both_reached rn XB XC Q W s (snd (bench_finish (bench_of rn q1 q2 tables snapshot) r s))"
proof -
  let ?w = "bench_of rn q1 q2 tables snapshot"
  let ?A = "\<lambda>d. on_side d (bench_analyze (sh_bench (rn_B rn)) q1) (bench_analyze (sh_bench (rn_C rn)) q2)"
  obtain r1 s1 where r1: "recheck ?w s = (r1, s1)" by (metis surj_pair)
  obtain o2 e2 s2 where r2: "?A BaselineSide s1 = ((o2, e2), s2)" by (metis surj_pair)
  obtain o3 e3 s3 where r3: "?A CandidateSide s2 = ((o3, e3), s3)" by (metis surj_pair)
  have steps: "both_reached rn XB XC Q W s s1" by (rule keeps_toD [OF recheck_reached [OF assms] r1])
  have steps2: "both_reached rn XB XC Q W s1 s2" "both_reached rn XB XC Q W s2 s3"
    using analyze_side_reached [OF assms, where s = s1 and d = BaselineSide and rn = rn and XB = XB and XC = XC and W = W]
      analyze_side_reached [OF assms, where s = s2 and d = CandidateSide and rn = rn and XB = XB and XC = XC and W = W] r2 r3 by simp_all
  have "both_reached rn XB XC Q W s s2" using both_trans [OF steps steps2(1)] .
  moreover from this have "both_reached rn XB XC Q W s s3" using steps2(2) by (rule both_trans)
  ultimately show ?thesis using r1 r2 r3 steps
    by (cases r1; cases e2; cases e3) (auto simp: bench_finish_def bench_of_def Let_def)
qed

lemma RunQueries_reached:
  assumes "Q q1" "Q q2" shows "both_reached rn XB XC Q W s (snd (RunQueries (bench_of rn q1 q2 tables snapshot) s))"
proof -
  let ?w = "bench_of rn q1 q2 tables snapshot"
  obtain r1 s1 where r1: "bench_digest ?w BaselineSide s = (r1, s1)" by (metis surj_pair)
  obtain r2 s2 where r2: "bench_digest ?w CandidateSide s1 = (r2, s2)" by (metis surj_pair)
  obtain r3 s3 where r3: "bench_rounds ?w s2 = (r3, s3)" by (metis surj_pair)
  have steps: "both_reached rn XB XC Q W s s1" "both_reached rn XB XC Q W s1 s2" "both_reached rn XB XC Q W s2 s3"
    using keeps_toD [OF bench_digest_reached [OF assms] r1] keeps_toD [OF bench_digest_reached [OF assms] r2]
      keeps_toD [OF bench_rounds_reached [OF assms] r3] by simp_all
  then have far: "both_reached rn XB XC Q W s s2" "both_reached rn XB XC Q W s s3" using both_trans by blast+
  then have "both_reached rn XB XC Q W s (snd (bench_finish ?w r s3))" for r
    using both_trans bench_finish_reached [OF assms] by blast
  then show ?thesis using r1 r2 r3 steps far
    by (cases r1; cases r2; cases r3) (auto simp: RunQueries_def Let_def)
qed

lemma bench_Run_reached:
  "Q q1 \<Longrightarrow> both_reached rn XB XC Q W s (snd (bench_Run (bench_of rn q1 q1 tables snapshot) s))"
  using RunQueries_reached [of Q q1 q1] by (simp add: bench_Run_def bench_of_def)

section \<open>The runner\<close>

text \<open>What may be executed on either shadow, and on the candidate besides.\<close>

definition candidate_statement :: "unicode_tables \<Rightarrow> string \<Rightarrow> bool" where
  "candidate_statement U stmt \<longleftrightarrow>
     stmt = session_limit
     \<or> (\<exists>name table. safe_index name \<and> is_identifier table \<and> stmt = drop_index name (quoteIdentifier table))
     \<or> (\<exists>spec. ValidateSpec U spec = None \<and> (CompileCreateIndex U spec = Inr stmt \<or> stmt = analyze_statement spec))"

definition baseline_statement :: "string \<Rightarrow> bool" where
  "baseline_statement stmt \<longleftrightarrow> stmt = session_limit"

abbreviation "run_reached rn Q W \<equiv> both_reached rn baseline_statement (candidate_statement (rn_U rn)) Q W"

lemma limit_session_reached: "run_reached rn Q W s (snd (limit_session rn d s))"
  by (cases d) (auto simp: limit_session_def on_side_def case_prod_beta pairwise_def reached_none baseline_statement_def
      candidate_statement_def intro: reached_exec [OF reached_none])

lemma take_lock_reached: "reached D X Q W c (snd (take_lock D c))" "reached D X Q W c (snd (release_lock D c))"
  by (auto simp: take_lock_def release_lock_def case_prod_beta intro: reached_lock [OF reached_none] reached_unlock [OF reached_none])

lemma drop_indexes_reached:
  "reached D (candidate_statement U) Q W c c1 \<Longrightarrow> reached D (candidate_statement U) Q W c (snd (drop_indexes D names c1))"
proof (induction names arbitrary: c1)
  case (Cons x names)
  obtain table name where x: "x = (table, name)" by (cases x)
  show ?case
  proof (cases "is_identifier table \<and> safe_index name")
    case False
    then show ?thesis using Cons.prems x by (auto simp: Quote_def)
  next
    case True
    obtain ok c2 where exec: "db_exec (sh_data D) (drop_index name (quoteIdentifier table)) c1 = (ok, c2)" by (metis surj_pair)
    have "candidate_statement U (drop_index name (quoteIdentifier table))" using True by (auto simp: candidate_statement_def)
    then have "reached D (candidate_statement U) Q W c c2" using reached_exec [OF Cons.prems] exec by (metis snd_conv)
    then show ?thesis using True x exec Cons.IH by (cases ok) (simp_all add: Quote_def)
  qed
qed simp

lemma cleanIndexes_reached: "reached D (candidate_statement U) Q W c (snd (cleanIndexes D c))"
  by (auto simp: cleanIndexes_def reached_none split: sum.splits intro: drop_indexes_reached)

lemma Prepare_statements:
  assumes "Prepare U P sql spec = Inr p"
  shows "candidate_statement U (pr_DDL p)" "candidate_statement U (analyze_statement (pr_Spec p))" "pr_SQL p = sql"
proof -
  have p: "CompileCreateIndex U spec = Inr (pr_DDL p)" "pr_Spec p = spec" "pr_SQL p = sql"
    using assms by (auto simp: Prepare_def Let_def split: if_splits sum.splits)
  show "pr_SQL p = sql" by (rule p(3))
  have "ValidateSpec U spec = None" using CompileCreateIndex_pieces(2) [OF p(1)] .
  then show "candidate_statement U (pr_DDL p)" "candidate_statement U (analyze_statement (pr_Spec p))"
    using p(1,2) unfolding candidate_statement_def by blast+
qed

lemma GateRun_reached:
  assumes "GateRun U P H gen \<lparr>g_Baseline = Some B, g_Candidate = Some (sh_data D), g_AllowedTables = allowed\<rparr> p b c = (r, c')"
    and "candidate_statement U (pr_DDL p)" "candidate_statement U (analyze_statement (pr_Spec p))"
  shows "reached D (candidate_statement U) Q W c c'"
  using assms(1)
proof (cases rule: GateRun_cases)
  case (checks e)
  then show ?thesis by (simp add: reached_none)
next
  case (index version snap e)
  then show ?thesis using ensureCandidateIndex_cases [OF index(2)] assms(2) reached_exec [OF reached_none] by (auto simp: reached_none)
next
  case (refresh version snap created c1)
  have "c1 = c \<or> c1 = snd (db_exec (sh_data D) (pr_DDL p) c)"
    using ensureCandidateIndex_cases [OF refresh(2)] by (cases created) auto
  then have "reached D (candidate_statement U) Q W c c1"
    using reached_exec [OF reached_none, where X = "candidate_statement U"] assms(2) reached_none by metis
  from reached_exec [OF this, where stmt = "analyze_statement (pr_Spec p)"] assms(3) show ?thesis
    using refresh_cases [OF refresh(3)] by simp
qed

lemma sent_reached: "sent (sh_probe D) table s s' \<Longrightarrow> W \<Longrightarrow> reached D X Q W s s'"
  using reached_probe [OF reached_none] .

lemma ProbeWrites_reached:
  "W \<Longrightarrow> both_reached rn XB XC Q W s (snd (ProbeWrites (sh_probe (rn_B rn)) (sh_probe (rn_C rn)) table s))"
  using ProbeWrites_sent [where B = "sh_probe (rn_B rn)" and C = "sh_probe (rn_C rn)" and table = table and s = s] by (auto simp: pairwise_def intro: sent_reached)

lemma measure_index_reached:
  assumes "Q query" W shows "both_reached rn XB XC Q W s (snd (measure_index rn query table snapshot s))"
proof (cases "Inspect (rn_U rn) (rn_P rn) query")
  case (Inl e)
  then show ?thesis by (simp add: measure_index_def)
next
  case (Inr tables)
  obtain p e s1 where run: "bench_Run (bench_of rn query query tables snapshot) s = ((p, e), s1)" by (metis surj_pair)
  obtain w e2 s2 where probe: "ProbeWrites (sh_probe (rn_B rn)) (sh_probe (rn_C rn)) table s1 = ((w, e2), s2)" by (metis surj_pair)
  have s1: "both_reached rn XB XC Q W s s1"
    using assms(1) bench_Run_reached [where Q = Q and ?q1.0 = query and rn = rn and XB = XB and XC = XC and W = W and s = s and tables = tables and snapshot = snapshot] run by simp
  have "both_reached rn XB XC Q W s1 s2"
    using assms(2) ProbeWrites_reached [where W = W and rn = rn and XB = XB and XC = XC and Q = Q and s = s1 and table = table] probe by simp
  with s1 have "both_reached rn XB XC Q W s s2" by (rule both_trans)
  then show ?thesis using Inr run probe s1 by (cases e; cases e2) (simp_all add: measure_index_def)
qed

lemma candidate_side: "reached (rn_C rn) (candidate_statement (rn_U rn)) Q W c c' \<Longrightarrow> run_reached rn Q W (b, c) (b, c')"
  by (simp add: pairwise_def reached_none)

lemma explain_locked_reached:
  assumes "Prepare (rn_U rn) (rn_P rn) query spec = Inr p" "Q query" "measuring \<Longrightarrow> W"
  shows "run_reached rn Q W s (snd (explain_locked rn query p measuring s))"
proof -
  obtain b c where s: "s = (b, c)" by (cases s)
  obtain clean c1 where clean: "cleanIndexes (rn_C rn) c = (clean, c1)" by (metis surj_pair)
  have c1: "run_reached rn Q W s (b, c1)"
    using cleanIndexes_reached [where D = "rn_C rn" and c = c and U = "rn_U rn" and Q = Q and W = W] clean s
    by (auto intro: candidate_side)
  obtain r c2 where gate: "GateRun (rn_U rn) (rn_P rn) (rn_H rn) (env_now (rn_pipe rn))
      \<lparr>g_Baseline = Some (sh_data (rn_B rn)), g_Candidate = Some (sh_data (rn_C rn)), g_AllowedTables = rn_AllowedTables rn\<rparr> p b c1 = (r, c2)"
    by (metis surj_pair)
  have "run_reached rn Q W (b, c1) (b, c2)" using GateRun_reached [OF gate Prepare_statements(1,2) [OF assms(1)]] by (rule candidate_side)
  then have c2: "run_reached rn Q W s (b, c2)" using c1 both_trans by blast
  show ?thesis
  proof (cases "clean \<and> measuring \<and> (\<exists>report plan. r = Inr report \<and> db_explain (sh_data (rn_B rn)) b (explain_statement (pr_SQL p)) = Some plan)")
    case False
    then show ?thesis using s clean gate c1 c2
      by (cases clean; cases r; cases "db_explain (sh_data (rn_B rn)) b (explain_statement (pr_SQL p))") (auto simp: explain_locked_def)
  next
    case True
    then obtain report plan where r: "r = Inr report" "db_explain (sh_data (rn_B rn)) b (explain_statement (pr_SQL p)) = Some plan" by blast
    have "run_reached rn Q W (b, c2) (snd (measure_index rn query (sp_Table (pr_Spec p)) (Snapshot.sn_Digest (rp_Snapshot report)) (b, c2)))"
      using True assms(2,3) by (intro measure_index_reached) auto
    with c2 have "run_reached rn Q W s (snd (measure_index rn query (sp_Table (pr_Spec p)) (Snapshot.sn_Digest (rp_Snapshot report)) (b, c2)))"
      by (rule both_trans)
    then show ?thesis using True s clean gate r by (auto simp: explain_locked_def case_prod_beta)
  qed
qed

lemma explain_shadows_reached:
  assumes "Prepare (rn_U rn) (rn_P rn) query spec = Inr p" "Q query" "measuring \<Longrightarrow> W"
  shows "run_reached rn Q W s (snd (explain_shadows rn query p measuring s))"
proof -
  obtain ok1 s1 where l1: "limit_session rn CandidateSide s = (ok1, s1)" by (metis surj_pair)
  obtain ok2 b2 c2 where l2: "limit_session rn BaselineSide s1 = (ok2, (b2, c2))" by (metis surj_pair)
  obtain got c3 where lock: "take_lock (rn_C rn) c2 = (got, c3)" by (metis surj_pair)
  obtain out perf b4 c4 where run: "explain_locked rn query p measuring (b2, c3) = ((out, perf), (b4, c4))" by (metis surj_pair)
  obtain clean c5 where clean: "cleanIndexes (rn_C rn) c4 = (clean, c5)" by (metis surj_pair)
  obtain un c6 where unlock: "release_lock (rn_C rn) c5 = (un, c6)" by (metis surj_pair)
  have 1: "run_reached rn Q W s s1" using limit_session_reached [of rn Q W s CandidateSide] l1 by simp
  have 2: "run_reached rn Q W s (b2, c2)"
    using both_trans [OF 1] limit_session_reached [of rn Q W s1 BaselineSide] l2 by simp
  have "run_reached rn Q W (b2, c2) (b2, c3)"
    using take_lock_reached(1) [of "rn_C rn" "candidate_statement (rn_U rn)" Q W c2] lock by (auto intro: candidate_side)
  with 2 have 3: "run_reached rn Q W s (b2, c3)" by (rule both_trans)
  have "run_reached rn Q W (b2, c3) (b4, c4)"
    using explain_locked_reached [where Q = Q and W = W and query = query and measuring = measuring and s = "(b2, c3)", OF assms] run by simp
  with 3 have 4: "run_reached rn Q W s (b4, c4)" by (rule both_trans)
  have "run_reached rn Q W (b4, c4) (b4, c5)"
    using cleanIndexes_reached [where D = "rn_C rn" and c = c4 and U = "rn_U rn" and Q = Q and W = W] clean by (auto intro: candidate_side)
  with 4 have 5: "run_reached rn Q W s (b4, c5)" by (rule both_trans)
  have "run_reached rn Q W (b4, c5) (b4, c6)"
    using take_lock_reached(2) [of "rn_C rn" "candidate_statement (rn_U rn)" Q W c5] unlock by (auto intro: candidate_side)
  with 5 have 6: "run_reached rn Q W s (b4, c6)" by (rule both_trans)
  show ?thesis
  proof (cases "sh_open (rn_C rn) (snd s) \<and> sh_open (rn_B rn) (fst s)")
    case False
    then show ?thesis by (auto simp: explain_shadows_def)
  next
    case True
    then show ?thesis using l1 l2 lock run clean unlock 1 2 3 6
      by (cases ok1; cases ok2; cases got) (simp_all add: explain_shadows_def)
  qed
qed

lemma runner_explain_reached:
  assumes "Q query" "measuring \<Longrightarrow> W"
  shows "run_reached rn Q W (fst s) (fst (snd (runner_explain rn measuring query raw s)))"
proof (cases "DecodeStrict raw")
  case (Inr spec)
  show ?thesis
  proof (cases "Prepare (rn_U rn) (rn_P rn) query spec")
    case prepared: (Inr p)
    from explain_shadows_reached [where Q = Q and W = W and query = query and measuring = measuring and s = "fst s", OF prepared assms] show ?thesis
      using Inr prepared by (simp add: runner_explain_def case_prod_beta)
  qed (use Inr in \<open>simp add: runner_explain_def\<close>)
qed (simp add: runner_explain_def)

lemma pipe_Run_effect:
  "pi_RunExplain input = Some f \<Longrightarrow>
     snd (pipe_Run U P env input s) = s \<or> snd (pipe_Run U P env input s) = snd (f (pi_SQL input) (pi_CandidateSpec input) s)"
  by (auto simp: pipe_Run_def explain_stage_def Let_def split: prod.splits option.splits)

lemma run_pipeline_reached:
  assumes "Q (j_SQL job)" "o_Benchmark (j_Options job) \<Longrightarrow> W"
  shows "run_reached rn Q W (st_shadows s) (st_shadows (snd (run_pipeline rn rc job tables spec s)))"
proof -
  let ?in = "\<lparr>pi_SQL = j_SQL job, pi_CandidateSpec = spec_json spec, pi_OutputDir = ''sentinel-evidence'',
      pi_RunExplain = Some (runner_explain rn (o_Benchmark (j_Options job)))\<rparr>"
  obtain report runErr files shadows perf where run: "pipe_Run (rn_U rn) (rn_P rn) (rn_pipe rn) ?in (st_shadows s, None) = (((report, runErr), files), (shadows, perf))"
    by (metis surj_pair)
  have "snd (pipe_Run (rn_U rn) (rn_P rn) (rn_pipe rn) ?in (st_shadows s, None)) = (st_shadows s, None)
      \<or> snd (pipe_Run (rn_U rn) (rn_P rn) (rn_pipe rn) ?in (st_shadows s, None))
        = snd (runner_explain rn (o_Benchmark (j_Options job)) (j_SQL job) (spec_json spec) (st_shadows s, None))"
    using pipe_Run_effect [where input = ?in and f = "runner_explain rn (o_Benchmark (j_Options job))"] by simp
  moreover have "run_reached rn Q W (st_shadows s) (fst (snd (runner_explain rn (o_Benchmark (j_Options job)) (j_SQL job) (spec_json spec) (st_shadows s, None))))"
    using runner_explain_reached [where Q = Q and W = W and query = "j_SQL job" and measuring = "o_Benchmark (j_Options job)"
        and s = "(st_shadows s, None)", OF assms] by simp
  ultimately have "run_reached rn Q W (st_shadows s) shadows" using run both_none by (metis fst_conv snd_conv)
  then show ?thesis using run
    by (auto simp: run_pipeline_def Let_def split: option.splits prod.splits)
qed

section \<open>Rewrites\<close>

lemma read_query_reached [keeps]: "Q query \<Longrightarrow> keeps_to (reached D X Q W) (read_query env (sh_bench D) ordered query)"
  by (auto simp: keeps_to_def read_query_def case_prod_beta split: sum.splits intro: reached_query [OF reached_none])

lemma compare_reads_reached [keeps]:
  "\<forall>dq \<in> set qs. Q (snd dq) \<Longrightarrow> keeps_to (both_reached rn XB XC Q W) (compare_reads rn ordered qs r)"
proof (induction qs arbitrary: r)
  case (Cons x qs)
  obtain d q where x: "x = (d, q)" by (cases x)
  have "Q q" using Cons.prems x by simp
  then have "keeps_to (both_reached rn XB XC Q W) (read_on rn ordered d q)" unfolding read_on_def by (intro keeps)
  then show ?case unfolding x compare_reads.simps by (intro keeps Cons.IH) (use Cons.prems in simp_all)
qed (simp add: keeps)

lemma pure_step_reached [keeps]: "reflp R \<Longrightarrow> keeps_to R (pure_step f)"
  by (simp add: keeps_to_def pure_step_def reflp_def)

lemma rewrite_benchmark_reached [keeps]:
  assumes "Q (j_SQL job)" "Q (rw_SQL spec)"
  shows "keeps_to (both_reached rn XB XC Q W) (rewrite_benchmark rn job spec tables before same)"
proof -
  have "both_reached rn XB XC Q W s (snd (rewrite_benchmark rn job spec tables before same s))" for s
  proof -
    obtain p e s1 where run: "RunQueries (bench_of rn (j_SQL job) (rw_SQL spec) tables before) s = ((p, e), s1)" by (metis surj_pair)
    then have "both_reached rn XB XC Q W s s1"
      using RunQueries_reached [where Q = Q and ?q1.0 = "j_SQL job" and ?q2.0 = "rw_SQL spec" and rn = rn and XB = XB and XC = XC and W = W
          and s = s and tables = tables and snapshot = before, OF assms] by simp
    then show ?thesis using run by (cases e) (auto simp: rewrite_benchmark_def)
  qed
  then show ?thesis by (simp add: keeps_to_def)
qed

lemma rewrite_steps_reached:
  assumes "Q (j_SQL job)" "Q (rw_SQL spec)"
  shows "keeps_to (both_reached rn XB XC Q W) (rewrite_steps rn job spec tables)"
  unfolding rewrite_steps_def
  by (intro keeps assms) (auto simp: four_reads_def assms split: option.splits intro!: keeps)

lemma rewrite_locked_reached:
  assumes "Q (j_SQL job)" "Q (rw_SQL spec)" "rewrite_locked rn job spec tables (s, k) = (e, s', k')"
  shows "run_reached rn Q W s s'"
proof -
  obtain b c where s: "s = (b, c)" by (cases s)
  obtain clean c1 where clean: "cleanIndexes (rn_C rn) c = (clean, c1)" by (metis surj_pair)
  obtain out s2 where steps: "rewrite_steps rn job spec tables (b, c1) = (out, s2)" by (metis surj_pair)
  have 1: "run_reached rn Q W s (b, c1)"
    using cleanIndexes_reached [where D = "rn_C rn" and c = c and U = "rn_U rn" and Q = Q and W = W] clean s by (auto intro: candidate_side)
  have "run_reached rn Q W (b, c1) s2" by (rule keeps_toD [OF rewrite_steps_reached steps]) (use assms(1,2) in auto)
  with 1 have "run_reached rn Q W s s2" by (rule both_trans)
  then show ?thesis using assms(3) s clean steps 1 by (cases clean) (auto simp: rewrite_locked_def case_prod_beta)
qed

text \<open>The statements that a job may have read: its own, and the one it proposes.\<close>

definition job_query :: "('b, 'c, 't) Runner \<Rightarrow> Job \<Rightarrow> string \<Rightarrow> bool" where
  "job_query rn job q \<longleftrightarrow>
     q = j_SQL job \<or> (\<exists>spec. Decode (rn_U rn) (rn_P rn) (j_CandidateSpec job) (j_SQL job) = Some spec \<and> q = rw_SQL spec)"

lemma runRewrite_reached:
  assumes "runRewrite rn job tables (s, k) = (e, s', k')"
  shows "run_reached rn (job_query rn job) W s s'"
proof -
  let ?R = "run_reached rn (job_query rn job) W"
  let ?s1 = "snd (limit_session rn BaselineSide s)"
  let ?s2 = "snd (limit_session rn CandidateSide ?s1)"
  have s2: "?R s ?s1" "?R s ?s2" using limit_session_reached both_trans by blast+
  have "?R ?s2 (fst ?s2, snd (take_lock (rn_C rn) (snd ?s2)))"
    using take_lock_reached(1) by (simp add: pairwise_def reached_none)
  with s2(2) have s3: "?R s (fst ?s2, snd (take_lock (rn_C rn) (snd ?s2)))" by (rule both_trans)
  show ?thesis
    using assms
  proof (cases rule: runRewrite_cases)
    case (early s2')
    then show ?thesis using s2 s3 by auto
  next
    case (locked spec s1 sb c3 e1 s4)
    have q: "job_query rn job (j_SQL job)" "job_query rn job (rw_SQL spec)" using locked(1) by (auto simp: job_query_def)
    have "?R s (fst sb, c3)" using s3 locked(2-4) by simp
    moreover have "?R (fst sb, c3) s4" using q locked(5) by (rule rewrite_locked_reached)
    ultimately have 4: "?R s s4" by (rule both_trans)
    let ?c5 = "snd (cleanIndexes (rn_C rn) (snd s4))"
    have "?R s4 (fst s4, ?c5)" using cleanIndexes_reached by (simp add: pairwise_def reached_none)
    with 4 have 5: "?R s (fst s4, ?c5)" by (rule both_trans)
    have "?R (fst s4, ?c5) (fst s4, snd (release_lock (rn_C rn) ?c5))" using take_lock_reached(2) by (simp add: pairwise_def reached_none)
    with 5 show ?thesis unfolding locked(7) by (rule both_trans)
  qed
qed

lemma run_index_reached:
  assumes "Q (j_SQL job)" "o_Benchmark (j_Options job) \<Longrightarrow> W"
  shows "run_reached rn Q W (st_shadows s) (st_shadows (snd (run_index rn rc job tables raw s)))"
proof -
  have "run_reached rn Q W (st_shadows s) (st_shadows (snd (run_pipeline rn rc job tables spec s)))" for spec
    using assms by (rule run_pipeline_reached)
  then show ?thesis by (auto simp: run_index_def split: sum.splits)
qed

lemma run_admitted_reached:
  assumes "o_Benchmark (j_Options job) \<Longrightarrow> W"
  shows "run_reached rn (job_query rn job) W (st_shadows s) (st_shadows (snd (run_admitted rn rc job tables s)))"
proof (cases "Is (j_CandidateSpec job)")
  case True
  obtain e s' k where run: "runRewrite rn job tables (st_shadows s, st_control s) = (e, s', k)" by (metis surj_pair)
  from runRewrite_reached [OF this] show ?thesis using True run by (simp add: run_admitted_def)
next
  case False
  have "job_query rn job (j_SQL job)" by (simp add: job_query_def)
  note index = run_index_reached [where Q = "job_query rn job" and W = W and job = job, OF this assms]
  show ?thesis
  proof (cases "j_CandidateSpec job = ''{}''")
    case True
    obtain r m where "draft_spec rn rc job tables (fst (st_shadows s)) (st_model s) = (r, m)" by (metis surj_pair)
    then show ?thesis using False True index [where s = "s\<lparr>st_model := m\<rparr>"] by (cases r) (auto simp: run_admitted_def)
  next
    case other: False
    then show ?thesis using False index by (simp add: run_admitted_def)
  qed
qed


end
