(* ===== verification/Spec2Isabelle.thy ===== *)
theory Spec2Isabelle
  imports Kafka_System Measure Sql_Admit Shadow_Gate Evidence_Bind Table_Snapshot Evaluation Webhook Api_Scope Agent_Graph GitHub_Hook Runner_Safety
begin

text \<open>
  A verification development for SQL Sentinel (\<open>cmd/\<close>, \<open>internal/\<close>): a service that reviews read-only SQL
  statements, proposes candidate indexes or rewrites, tries them on isolated shadow databases and reports what it
  found together with a grade of evidence (L1: plans only, L2: measured).

  \<^bold>\<open>How the parts work together.\<close>  A statement arrives by the HTTP API (\<open>internal/service\<close>) or a webhook
  (\<open>internal/webhook\<close>), passes the read-only admission (\<open>internal/sqladmit\<close>) and becomes a job of the durable store
  (\<open>internal/kafka\<close>): the job, its options and its first event are inserted in one transaction, a relay publishes the
  events, and workers claim jobs under leases and run them.  A run prepares a candidate (\<open>internal/candidate\<close>,
  \<open>internal/rewrite\<close>), checks that both shadows hold the same data (\<open>internal/shadowdata\<close>, \<open>internal/snapshot\<close>), creates
  the index on the candidate only and reads plans (\<open>internal/shadowgate\<close>), compares and diagnoses them
  (\<open>internal/plancompare\<close>, \<open>internal/diagnosis\<close>), benchmarks an approved one (\<open>internal/benchmark\<close>,
  \<open>internal/resultset\<close>) and stores a report under its lease (\<open>internal/service/runner.go\<close>).  Measurements (\<open>internal/measure\<close>, \<open>internal/report\<close>) are admitted as a
  series (\<open>internal/series\<close>) and bound to the plan evidence (\<open>internal/evidencebind\<close>); only then may a report claim
  performance.  \<open>internal/pipeline\<close> and \<open>internal/evaluation\<close> run these steps from the command line.

  \<^bold>\<open>Theories and what they model.\<close>
  \<^item> \<open>Prelude\<close>, \<open>GoStrings\<close>, \<open>GoFloat\<close>, \<open>GoJson\<close>, \<open>GoDecode\<close>, \<open>Go_Encode\<close>, \<open>Framing\<close>: the part of Go's standard library
    that the source calls (64-bit arithmetic with wrap-around, byte strings, \<open>float64\<close> with its rounding,
    \<open>encoding/json\<close> in both directions, length-prefixed framing).
  \<^item> \<open>Kafka_Model\<close> (\<open>model.go\<close>), \<open>Kafka_Store\<close> (the \<open>Store\<close> interface as a record of operations; the locales
    \<open>lease_store\<close> and \<open>intake_store\<close> are its contracts), \<open>Kafka_Memory\<close> (\<open>memory.go\<close>) and \<open>Kafka_MySQL\<close> (\<open>mysql.go\<close>,
    \<open>recovery.go\<close>), which interpret the locales, \<open>Kafka_Worker\<close> (\<open>runtime.go\<close>, \<open>poller.go\<close>), \<open>Kafka_System\<close> (the
    composition as a transition system, and the properties).
  \<^item> \<open>Sql_Scan\<close>, \<open>Sql_Analyze\<close>, \<open>Sql_Admit\<close>: \<open>sqladmit/admit.go\<close>, \<open>sqladmit/ast.go\<close> and \<open>rewrite/rewrite.go\<close>.  The
    TiDB parser is a parameter: a function from texts to trees.
  \<^item> \<open>Candidate_Spec\<close>, \<open>Shadow_Data\<close>, \<open>Shadow_Gate\<close>: \<open>candidate/spec.go\<close>, \<open>shadowdata\<close>, \<open>shadowgate/gate.go\<close>.  A shadow
    database is a record of answers that a server gives in a state of its own.
  \<^item> \<open>Table_Snapshot\<close>: \<open>snapshot/digest.go\<close>, \<open>snapshot/compare.go\<close>.
  \<^item> \<open>Plan_Compare\<close>, \<open>Diagnosis\<close>, \<open>Measure\<close>, \<open>Report_Series\<close>, \<open>Evidence_Bind\<close>: the packages of these names.
  \<^item> \<open>Agent_Graph\<close>: \<open>agentgraph/proposal.go\<close> and \<open>bounded.go\<close>, a language model as an arbitrary function with a
    state of its own.  \<open>Statements\<close> (\<open>service/statements.go\<close>) and \<open>GitHub_Hook\<close>
    (\<open>service/github.go\<close>), the GitHub API as an arbitrary client.
  \<^item> \<open>Result_Set\<close> (\<open>resultset/read.go\<close>), \<open>Bench_Run\<close>, \<open>Write_Probe\<close> (\<open>benchmark/benchmark.go\<close>, \<open>write.go\<close>),
    \<open>Historical_Prior\<close> (\<open>historicalprior/client.go\<close>, \<open>relay.go\<close>), \<open>Shadow_Runner\<close> (\<open>service/runner.go\<close> without
    \<open>Run\<close>, and \<open>service/rewrite.go\<close>), \<open>Job_Runner\<close> (\<open>Run\<close>), \<open>Runner_Safety\<close> (what a run sends to the shadows).
  \<^item> \<open>Pipeline\<close>, \<open>Evaluation\<close>, \<open>Webhook\<close>: \<open>pipeline.go\<close>, \<open>evaluation.go\<close>, \<open>webhook.go\<close>, over file systems whose
    operations succeed or fail by a parameter.
  \<^item> \<open>Identity\<close> (\<open>identity.go\<close>), \<open>Job_Api\<close> (\<open>server.go\<close>, \<open>extension.go\<close>, \<open>lists.go\<close>, \<open>proposal.go\<close>), \<open>Api_Safety\<close> (the
    effect of every route), \<open>Api_Sample\<close> (a concrete run), \<open>Api_Reach\<close> and \<open>Api_Scope\<close> (reachable states, and the
    properties).

  \<^bold>\<open>Correspondence.\<close>  A struct is a record with the source's fields behind a prefix, an enumeration a datatype, a
  function or method a definition of the same name (with a prefix where two packages use one name: \<open>mem_\<close>, \<open>my_\<close>,
  \<open>snap_\<close>, \<open>pipe_\<close>, \<open>web_\<close>, \<open>api_\<close>).  An error is a value: \<open>Inl e\<close> or \<open>None\<close>, every early return a branch.  State is passed
  explicitly.  Strings are byte strings.  What the machine decides is a parameter over which every theorem
  quantifies: which statement of a database or which write of a file fails (an oracle), the time, random
  bytes, what other processes do while a worker runs (a list of steps), the order in which Go visits a map.
  SHA-256 is a function parameter; where injectivity matters, the theorem assumes it on the texts that are hashed.
  A database compares strings byte by byte, as under a binary collation: two deliveries that differ only in
  case are two deliveries here, and one under MySQL's default collation.

  \<^bold>\<open>What the lemmas show.\<close>  The contracts of the stores are proved once inside the locales and hold for both stores
  by interpretation; invariants (\<open>tables_sound\<close>, \<open>mem_sound\<close>, \<open>pipeline_inv\<close>, \<open>api_inv\<close>) are preserved by every
  operation, also when a statement fails in the middle, and give the properties of the reachable states.
  Optimised routines are proved equal to plain specifications (chunked reading, paging, plan walks), encoders to
  be injective or inverted by their decoders, admission to be exact on the trees it accepts, and the chain of
  evidence to be complete whenever a report claims performance (\<open>bound_claim_is_measured\<close> below).

  \<^bold>\<open>Termination and bounds.\<close>  Loops over data are structural or have a measure.  Chunked reading may not end on a
  table that grows: it is a \<open>partial_function (option)\<close> and \<open>matching_snapshots_mean_equal_tables\<close> shows that it
  ends on a table that is left alone.  The parsers of \<open>GoJson\<close> take fuel, the length of the input (twice that
  plus one for a value, which needs at most two steps per byte), and the depth limit 10000 of \<open>encoding/json\<close>.
  Limits of the source (backlog 1000, body 128 KiB, 16 tables, page sizes) are numbers of the definitions.

  \<^bold>\<open>Not modelled.\<close>
  \<^item> Commands (\<open>cmd/\<close>): flags, environment and wiring of the parts above; of them only the plan runner of
    \<open>cmd/sentinel/pipeline.go\<close> has logic of its own.
  \<^item> Drivers and transports: the Kafka client, gRPC (\<open>securegrpc\<close>, the generated \<open>verifierrpc\<close> code), telemetry,
    configuration, test certificates, the advisory lock of \<open>experimentlock\<close>.
  \<^item> Retrieval and model access (\<open>rag\<close>, \<open>agentmeshbridge\<close>) and the routes of the API on them: their answers come
    from embedding services and language models.  Of \<open>historicalprior\<close> the HTTP requests are parameters and the
    creation of the index is left out.
  \<^item> Experiments on live databases (\<open>writebench\<close>, \<open>crossengine\<close>, \<open>dataset\<close>): mostly statements on connections and
    clocks.
  \<^item> Of \<open>internal/service\<close>: the comments on pull requests, telemetry, and the JSON text of a benchmark report, which is
    the parameter \<open>rn_perf_json\<close>.
\<close>

section \<open>Properties that span components\<close>

text \<open>
  C21: Where a bound report claims performance, for a series evaluated from the calibrations and a
  measurement report whose admission block was filled from the measurement, the whole chain of
  evidence is there: the diagnosis digest is that of the comparison, every bound hypothesis is backed
  by the comparison report that was diagnosed, at least two calibrations from distinct files, all
  quiet and all of the same data, server, case, index and protocol as the measurement, precede it,
  and the measurement compared two sides, with quiet calibration, whose verdict is Better.
\<close>

theorem bound_claim_is_measured:
  assumes "diagnose sha256_hex now_text0 craw0 = Inr d"
    and "Evaluate cs mi = Inr s"
    and "br_Admission (in_Report mi) = NewAdmission (Measure.Admit bcal ccal (map_option (\<lambda>(b, c). Decide b c) sides))"
    and "Bind sha256_hex now_text d draw c craw (in_Report mi) s path = Inr r" and "bd_Eligible r"
  shows "sha256_hex craw0 = sha256_hex craw
    \<and> (\<exists>input. decodeComparison craw0 = Some input \<and>
         map hb_Code (bd_Hypotheses r) =
           filter (backed input) [CodeFilesortRemoved, CodeAccessPathChanged, CodeEstimatedScanReduced])
    \<and> 2 \<le> length cs \<and> distinct (map in_Source cs) \<and> (\<forall>i \<in> set cs. quiet_calibration i)
    \<and> (\<forall>i \<in> set cs. fingerprintOf (in_Report i) = fingerprintOf (in_Report mi))
    \<and> (\<forall>i \<in> set (cs @ [mi]). si_Match (br_Snapshot (in_Report i)))
    \<and> si_Digest (br_Snapshot (in_Report mi)) = ps_Digest (pc_Snapshot c) \<and> ca_SQL (br_Case (in_Report mi)) = pq_SQL (pc_SQL c)
    \<and> br_CandidateIndex (in_Report mi) = px_Name (pc_CandidateIndex c)
    \<and> ss_NoiseRatio bcal \<le> NoiseRatioLimit \<and> ss_NoiseRatio ccal \<le> NoiseRatioLimit
    \<and> (\<exists>b c. sides = Some (b, c) \<and> d_Verdict (Decide b c) = Better)"
proof -
  have bind: "matching_evidence d (sha256_hex craw) c (in_Report mi) s path" "sa_Eligible s"
    "map hb_Code (bd_Hypotheses r) = map hy_Code (dg_Hypotheses d)"
    using assms(4,5) by (auto simp: Bind_Inr Let_def)
  have series: "comparable_series cs mi" "series_reasons cs mi = []"
    using assms(2) bind(2) by (auto simp: Evaluate_Inr)
  obtain input where input: "decodeComparison craw0 = Some input" "ds_SHA256 (dg_Source d) = sha256_hex craw0"
    "map hy_Code (dg_Hypotheses d) = map hy_Code (derive input)"
    using assms(1) by (auto simp: diagnose_def split: option.splits if_splits)
  let ?a = "Measure.Admit bcal ccal (map_option (\<lambda>(b, c). Decide b c) sides)"
  have claim: "a_EligibleForPerformanceClaim ?a"
    using series(2) assms(3) by (simp add: series_reasons_Nil NewAdmission_def)
  then have quiet: "ss_NoiseRatio bcal \<le> NoiseRatioLimit" "ss_NoiseRatio ccal \<le> NoiseRatioLimit"
    and "case map_option (\<lambda>(b, c). Decide b c) sides of None \<Rightarrow> False
        | Some x \<Rightarrow> d_Verdict x \<noteq> NotSignificant \<and> d_Verdict x \<noteq> Worse"
    unfolding Admit_reasons(2) Admit_reasons_empty by simp_all
  then obtain b c where "sides = Some (b, c)" "d_Verdict (Decide b c) \<noteq> NotSignificant" "d_Verdict (Decide b c) \<noteq> Worse"
    by (cases sides) auto
  then have "sides = Some (b, c) \<and> d_Verdict (Decide b c) = Better"
    by (simp add: Decide_verdict split: if_splits)
  then have "\<exists>b c. sides = Some (b, c) \<and> d_Verdict (Decide b c) = Better" by blast
  then show ?thesis
    using bind series input quiet unfolding series_reasons_Nil comparable_series_def matching_evidence_def
    by (auto simp: derive_codes)
qed

definition halved :: "SideStats \<times> SideStats" where
  "halved = (\<lparr>ss_Name = ''baseline'', ss_Samples = 3, ss_Median = 100, ss_ScaledMAD = 0, ss_NoiseRatio = 0\<rparr>,
     \<lparr>ss_Name = ''candidate'', ss_Samples = 3, ss_Median = 50, ss_ScaledMAD = 0, ss_NoiseRatio = 0\<rparr>)"

definition halved_admission :: Admission where
  "halved_admission = Measure.Admit (fst halved) (snd halved) (map_option (\<lambda>(b, c). Decide b c) (Some halved))"

lemma halved_admission_claims:
  "a_EligibleForPerformanceClaim halved_admission" "a_DirectionVerdict halved_admission = Some Better"
proof -
  have better: "d_Verdict (Decide (fst halved) (snd halved)) = Better"
    by (simp add: Decide_verdict halved_def delta_of_def f64_of_int_def i64_def divide_less_0_iff not_le)
  then show "a_DirectionVerdict halved_admission = Some Better"
    by (simp add: halved_admission_def Measure.Admit_def Let_def case_prod_beta split: prod.splits)
  show "a_EligibleForPerformanceClaim halved_admission"
    using better unfolding halved_admission_def Admit_reasons(2) Admit_reasons_empty
    by (simp add: halved_def NoiseRatioLimit_def)
qed

definition measured_sample :: SeriesInput where
  "measured_sample = sample_measurement\<lparr>in_Report := in_Report sample_measurement\<lparr>br_Admission := NewAdmission halved_admission\<rparr>\<rparr>"

definition bound_comparison :: PlanReport where
  "bound_comparison = zero_report\<lparr>pc_EvidenceLevel := ''L1'', pc_MySQLVersion := ''8'', pc_Snapshot := \<lparr>ps_Digest = ''d'', ps_Rows = 1\<rparr>,
     pc_SQL := \<lparr>pq_SQL = ''q'', pq_Signals = []\<rparr>,
     pc_CandidateIndex := \<lparr>px_Table = ''t'', px_Name = ''i'', px_DDL = [], px_Created = True\<rparr>\<rparr>"

theorem bound_claim_is_measured_witness:
  "\<exists>d s r. diagnose (\<lambda>x. ''h'') ''now'' sample_comparison = Inr d \<and> Evaluate sample_calibrations measured_sample = Inr s
     \<and> Bind (\<lambda>x. ''h'') ''now'' d [] bound_comparison sample_comparison (in_Report measured_sample) s ''/x/m.json'' = Inr r
     \<and> bd_Eligible r \<and> d_Verdict (Decide (fst halved) (snd halved)) = Better"
proof -
  obtain d where d: "diagnose (\<lambda>x. ''h'') ''now'' sample_comparison = Inr d"
    and dd: "map hy_Code (dg_Hypotheses d) = [CodeFilesortRemoved]" "dg_EvidenceLevel d = ''L1''" "\<not> dg_Eligible d"
      "ds_SHA256 (dg_Source d) = ''h''" "ds_MySQLVersion (dg_Source d) = ''8''" "ds_Snapshot (dg_Source d) = ''d''"
    using sample_comparison_diagnosed by (auto split: sum.splits)
  have comparable: "comparable_series sample_calibrations measured_sample"
    by (simp add: comparable_series_def series_samples measured_sample_def pure_calibration_def fingerprintOf_def)
  have reasons: "series_reasons sample_calibrations measured_sample = []"
    unfolding series_reasons_Nil
    by (simp add: series_samples measured_sample_def quiet_calibration_def NoiseRatioLimit_def direction_better_def
        NewAdmission_def halved_admission_claims)
  obtain s where s: "Evaluate sample_calibrations measured_sample = Inr s"
    "sa_Eligible s" "sa_EvidenceLevel s = ''L2''" "sa_MeasurementFile s = ''m.json''"
    using comparable reasons by (simp add: Evaluate_Inr measured_sample_def sample_measurement_def)
  have "path_base ''/x/m.json'' = path_base ''m.json''" by code_simp
  then have "matching_evidence d ''h'' bound_comparison (in_Report measured_sample) s ''/x/m.json''"
    using dd s by (simp add: matching_evidence_def bound_comparison_def zero_report_def measured_sample_def series_samples)
  then obtain r where r: "Bind (\<lambda>x. ''h'') ''now'' d [] bound_comparison sample_comparison (in_Report measured_sample) s ''/x/m.json'' = Inr r"
    "bd_Eligible r"
    using dd s by (auto simp: Bind_Inr Let_def bound_comparison_def zero_report_def)
  have adm: "br_Admission (in_Report measured_sample) =
      NewAdmission (Measure.Admit (fst halved) (snd halved) (map_option (\<lambda>(b, c). Decide b c) (Some halved)))"
    by (simp add: measured_sample_def halved_admission_def)
  have "\<exists>b c. Some halved = Some (b, c) \<and> d_Verdict (Decide b c) = Better"
    using bound_claim_is_measured [OF d s(1) adm r] by blast
  then have "d_Verdict (Decide (fst halved) (snd halved)) = Better" by (metis fst_conv option.inject snd_conv)
  then show ?thesis using d s(1) r by blast
qed

end
